(* ===== verification/Js_Prelude.thy ===== *)
theory Js_Prelude
  imports Main "HOL-Library.AList"
begin

text \<open>
  Shared vocabulary of the development.

  \<^item> JavaScript strings: \<open>string\<close>, a list of code units. A HOL \<open>char\<close> has 8 bits, so
    the strings of the model are those whose UTF-16 code units are all below 256; the
    library functions (\<open>trim\<close>, \<open>toLowerCase\<close>, the \<open>\s\<close> class) are given exactly on that
    range, the non-ASCII part of it included.
  \<^item> \<open>undefined\<close> as \<open>None\<close>, a thrown error as \<open>Inl\<close>.
  \<^item> A JavaScript \<open>Map\<close> as an association list in insertion order: \<open>map_of\<close> is \<open>get\<close>,
    \<open>AList.update\<close> is \<open>set\<close> (in place for a present key, at the end otherwise) and
    \<open>AList.delete\<close> is \<open>delete\<close>.
  \<^item> A plain object used as a dictionary, whose prototype's members are found too:
    \<open>js_record_get\<close>.

  The generic lemmas on these, and the locale \<open>keyed_store\<close> for the get/set/delete
  interface that several components implement, are here as well.
\<close>

named_theorems js_string_defs \<open>definitions of the string library\<close>
named_theorems js_evals \<open>facts that evaluate the model on closed inputs\<close>


section \<open>Strings\<close>

text \<open>Code units of the JavaScript white space and line terminators below 256.\<close>

definition js_ws :: "char \<Rightarrow> bool" where
  "js_ws c \<longleftrightarrow> (let n = (of_char c :: nat) in (9 \<le> n \<and> n \<le> 13) \<or> n = 32 \<or> n = 160)"

definition js_trim :: "string \<Rightarrow> string" where
  "js_trim s = rev (dropWhile js_ws (rev (dropWhile js_ws s)))"

text \<open>
  \<open>toLowerCase\<close> on one code unit: \<open>A\<close>..\<open>Z\<close>, and the Latin-1 capitals 192..222 without the
  multiplication sign 215. Every other code unit below 256 is its own lower case.
\<close>

definition js_lower_char :: "char \<Rightarrow> char" where
  "js_lower_char c =
     (let n = (of_char c :: nat)
      in if (65 \<le> n \<and> n \<le> 90) \<or> (192 \<le> n \<and> n \<le> 222 \<and> n \<noteq> 215) then char_of (n + 32) else c)"

definition js_toLowerCase :: "string \<Rightarrow> string" where
  "js_toLowerCase s = map js_lower_char s"

definition js_startsWith :: "string \<Rightarrow> string \<Rightarrow> bool" where
  "js_startsWith s p \<longleftrightarrow> take (length p) s = p"

text \<open>\<open>indexOf\<close> of one character, \<open>None\<close> for \<open>-1\<close>.\<close>

fun js_indexOf :: "string \<Rightarrow> char \<Rightarrow> nat option" where
  "js_indexOf [] c = None"
| "js_indexOf (x # xs) c = (if x = c then Some 0 else map_option Suc (js_indexOf xs c))"

text \<open>\<open>split\<close> at a one-character separator; it never returns an empty array.\<close>

fun js_split :: "char \<Rightarrow> string \<Rightarrow> string list" where
  "js_split c [] = [[]]"
| "js_split c (x # xs) =
     (if x = c then [] # js_split c xs
      else (case js_split c xs of [] \<Rightarrow> [[x]] | w # ws \<Rightarrow> (x # w) # ws))"

fun js_join :: "string \<Rightarrow> string list \<Rightarrow> string" where
  "js_join sep [] = []"
| "js_join sep [x] = x"
| "js_join sep (x # y # ys) = x @ sep @ js_join sep (y # ys)"

text \<open>
  The non-empty fields of a string: its maximal runs of characters with property \<open>p\<close>, which
  is what \<open>split(/[^p]+/)\<close> returns once the empty strings are filtered out.
\<close>

fun js_runs_acc :: "(char \<Rightarrow> bool) \<Rightarrow> string \<Rightarrow> string \<Rightarrow> string list" where
  "js_runs_acc p cur [] = (if cur = [] then [] else [cur])"
| "js_runs_acc p cur (c # cs) =
     (if p c then js_runs_acc p (cur @ [c]) cs
      else if cur = [] then js_runs_acc p [] cs
      else cur # js_runs_acc p [] cs)"

definition js_runs :: "(char \<Rightarrow> bool) \<Rightarrow> string \<Rightarrow> string list" where
  "js_runs p s = js_runs_acc p [] s"

definition ascii_lower_letter :: "char \<Rightarrow> bool" where
  "ascii_lower_letter c \<longleftrightarrow> (let n = (of_char c :: nat) in 97 \<le> n \<and> n \<le> 122)"

definition ascii_upper_letter :: "char \<Rightarrow> bool" where
  "ascii_upper_letter c \<longleftrightarrow> (let n = (of_char c :: nat) in 65 \<le> n \<and> n \<le> 90)"

definition ascii_digit :: "char \<Rightarrow> bool" where
  "ascii_digit c \<longleftrightarrow> (let n = (of_char c :: nat) in 48 \<le> n \<and> n \<le> 57)"

text \<open>The decimal text of a non-negative integer, and \<open>findIndex\<close> (\<open>None\<close> for \<open>-1\<close>).\<close>

fun js_nat_string :: "nat \<Rightarrow> string" where
  "js_nat_string n =
     (if n < 10 then [char_of (48 + n)] else js_nat_string (n div 10) @ [char_of (48 + n mod 10)])"

declare js_nat_string.simps [simp del]

fun js_findIndex :: "('a \<Rightarrow> bool) \<Rightarrow> 'a list \<Rightarrow> nat option" where
  "js_findIndex p [] = None"
| "js_findIndex p (x # xs) = (if p x then Some 0 else map_option Suc (js_findIndex p xs))"

text \<open>\<open>[...new Set(xs)]\<close>: the first occurrence of each element, in order.\<close>

definition js_unique :: "'a list \<Rightarrow> 'a list" where
  "js_unique xs = rev (remdups (rev xs))"

lemma set_js_unique [simp]: "set (js_unique xs) = set xs"
  by (simp add: js_unique_def)

lemma distinct_js_unique [simp]: "distinct (js_unique xs)"
  by (simp add: js_unique_def)

lemmas [js_string_defs] =
  js_ws_def js_trim_def js_lower_char_def js_toLowerCase_def js_startsWith_def
  ascii_lower_letter_def ascii_upper_letter_def ascii_digit_def

lemma js_split_nonempty [simp]: "js_split c s \<noteq> []"
  by (induction s) (auto split: list.splits)

lemma js_join_split: "js_join [c] (js_split c s) = s"
proof (induction s)
  case (Cons x xs)
  obtain w ws where "js_split c xs = w # ws"
    by (cases "js_split c xs") simp_all
  with Cons show ?case by (cases ws) auto
qed simp

lemma js_split_no_sep: "w \<in> set (js_split c s) \<Longrightarrow> c \<notin> set w"
  by (induction s arbitrary: w) (auto split: if_splits list.splits)

lemma set_js_join: "set (js_join sep xs) \<subseteq> set sep \<union> (\<Union>x \<in> set xs. set x)"
  by (induction sep xs rule: js_join.induct) auto

lemma js_runs_acc_all:
  "list_all p w \<Longrightarrow> cur @ w \<noteq> [] \<Longrightarrow> js_runs_acc p cur w = [cur @ w]"
  by (induction w arbitrary: cur) auto

lemma js_runs_word: "list_all p w \<Longrightarrow> w \<noteq> [] \<Longrightarrow> js_runs p w = [w]"
  by (simp add: js_runs_def js_runs_acc_all)

lemma js_runs_acc_elem:
  "w \<in> set (js_runs_acc p cur s) \<Longrightarrow> list_all p cur \<Longrightarrow> w \<noteq> [] \<and> list_all p w"
  by (induction p cur s rule: js_runs_acc.induct) (auto split: if_splits)

lemma js_runs_elem: "w \<in> set (js_runs p s) \<Longrightarrow> w \<noteq> [] \<and> list_all p w"
  by (simp add: js_runs_def js_runs_acc_elem)

lemma js_runs_acc_sep:
  "\<not> p c \<Longrightarrow> js_runs_acc p cur (s @ c # t) = js_runs_acc p cur s @ js_runs p t"
  by (induction p cur s rule: js_runs_acc.induct) (auto simp: js_runs_def)

lemma js_startsWith_append [simp]: "js_startsWith (p @ s) p"
  by (simp add: js_startsWith_def)

lemma js_startsWith_iff: "js_startsWith s p \<longleftrightarrow> (\<exists>t. s = p @ t)"
  unfolding js_startsWith_def by (metis append_take_drop_id append_eq_conv_conj)

lemma js_lower_char_idem [simp]: "js_lower_char (js_lower_char c) = js_lower_char c"
proof -
  have "(of_char c :: nat) < 256" using of_char_mod_256[of c] by (metis mod_less_divisor zero_less_numeral)
  then show ?thesis by (auto simp: js_lower_char_def Let_def)
qed

lemma js_toLowerCase_idem [simp]: "js_toLowerCase (js_toLowerCase s) = js_toLowerCase s"
  by (simp add: js_toLowerCase_def)

lemma js_toLowerCase_append [simp]:
  "js_toLowerCase (s @ t) = js_toLowerCase s @ js_toLowerCase t"
  by (simp add: js_toLowerCase_def)

lemma js_indexOf_Some:
  "js_indexOf s c = Some i \<Longrightarrow> i < length s \<and> s ! i = c \<and> c \<notin> set (take i s)"
  by (induction s arbitrary: i) (auto split: if_splits)

lemma js_indexOf_None: "js_indexOf s c = None \<longleftrightarrow> c \<notin> set s"
  by (induction s) auto


section \<open>Objects used as dictionaries\<close>

text \<open>
  \<open>obj[key]\<close> on an object literal finds the members of \<open>Object.prototype\<close> as well as the
  object's own. Every inherited member is truthy (a function, or the prototype itself), and
  none of them is a \<open>Set\<close>.
\<close>

datatype 'a js_prop = Own 'a | Inherited | Missing

definition object_prototype_keys :: "string list" where
  "object_prototype_keys =
     [''constructor'', ''__defineGetter__'', ''__defineSetter__'', ''hasOwnProperty'',
      ''__lookupGetter__'', ''__lookupSetter__'', ''isPrototypeOf'', ''propertyIsEnumerable'',
      ''toString'', ''valueOf'', ''__proto__'', ''toLocaleString'']"

definition js_record_get :: "(string \<times> 'a) list \<Rightarrow> string \<Rightarrow> 'a js_prop" where
  "js_record_get obj k =
     (case map_of obj k of
        Some v \<Rightarrow> Own v
      | None \<Rightarrow> if k \<in> set object_prototype_keys then Inherited else Missing)"

lemma js_record_get_Own [simp]: "js_record_get obj k = Own v \<longleftrightarrow> map_of obj k = Some v"
  by (auto simp: js_record_get_def split: option.splits)


section \<open>Sums and options\<close>

definition is_ok :: "'e + 'a \<Rightarrow> bool" where
  "is_ok r \<longleftrightarrow> (case r of Inl _ \<Rightarrow> False | Inr _ \<Rightarrow> True)"

lemma is_ok_simps [simp]: "is_ok (Inr x)" "\<not> is_ok (Inl e)"
  by (simp_all add: is_ok_def)

lemma is_ok_iff: "is_ok r \<longleftrightarrow> (\<exists>x. r = Inr x)"
  by (cases r) auto

text \<open>\<open>a ?? b\<close> on values that are present or \<open>undefined\<close>.\<close>

definition coalesce :: "'a option \<Rightarrow> 'a \<Rightarrow> 'a" where
  "coalesce a b = (case a of None \<Rightarrow> b | Some x \<Rightarrow> x)"

lemma coalesce_simps [simp]: "coalesce None b = b" "coalesce (Some a) b = a"
  by (simp_all add: coalesce_def)

text \<open>The truthiness of an optional string: absent and \<open>""\<close> are falsy.\<close>

definition truthy_str :: "string option \<Rightarrow> bool" where
  "truthy_str s \<longleftrightarrow> (case s of None \<Rightarrow> False | Some x \<Rightarrow> x \<noteq> [])"

lemma truthy_str_simps [simp]: "\<not> truthy_str None" "truthy_str (Some x) \<longleftrightarrow> x \<noteq> []"
  by (simp_all add: truthy_str_def)


section \<open>The get/set/delete interface\<close>

text \<open>
  What a client of a keyed store relies on: a value set is the value got, nothing else
  moves, and a deleted key is absent. The abstract contents are a map.
\<close>

locale keyed_store =
  fixes get :: "'s \<Rightarrow> 'k \<Rightarrow> 'v option"
    and set_op :: "'k \<Rightarrow> 'v \<Rightarrow> 's \<Rightarrow> 's"
    and delete :: "'k \<Rightarrow> 's \<Rightarrow> 's"
    and empty_store :: "'s"
  assumes get_empty: "get empty_store k = None"
    and get_set: "get (set_op k v s) k' = (if k' = k then Some v else get s k')"
    and get_delete: "get (delete k s) k' = (if k' = k then None else get s k')"
begin

lemma set_set: "get (set_op k v (set_op k u s)) = get (set_op k v s)"
  by (auto simp: fun_eq_iff get_set)

lemma set_commute:
  "k \<noteq> l \<Longrightarrow> get (set_op k v (set_op l u s)) = get (set_op l u (set_op k v s))"
  by (auto simp: fun_eq_iff get_set)

lemma delete_set: "get (delete k (set_op k v s)) = get (delete k s)"
  by (auto simp: fun_eq_iff get_set get_delete)

lemma get_fold_set:
  "distinct (map fst kvs) \<Longrightarrow>
     get (fold (\<lambda>(k, v). set_op k v) kvs s) k =
       (case map_of kvs k of Some v \<Rightarrow> Some v | None \<Rightarrow> get s k)"
proof (induction kvs arbitrary: s)
  case (Cons kv kvs)
  obtain a v where kv: "kv = (a, v)" by (cases kv)
  have "map_of kvs a = None" using Cons.prems kv by (simp add: map_of_eq_None_iff)
  with Cons kv show ?case by (auto simp: get_set split: option.splits)
qed simp

end

text \<open>The JavaScript \<open>Map\<close> itself is such a store.\<close>

interpretation js_map: keyed_store map_of AList.update AList.delete "[]"
  by unfold_locales (auto simp: update_conv' delete_conv')

lemma map_of_delete_other: "k' \<noteq> k \<Longrightarrow> map_of (AList.delete k m) k' = map_of m k'"
  by (simp add: js_map.get_delete)

end
