(* ===== verification/Approval.thy ===== *)
theory Approval
  imports Js_Prelude
begin

text \<open>
  \<open>apps/agent-orchestrator/src/agent/approval.ts\<close>: the declarative tool-approval policy and
  the deterministic reading of the user's answer to an approval prompt. The policy part is a
  most-specific-wins resolution; the answer part is deliberately asymmetric, so that a reply
  which is not plainly an approval never runs a tool.
\<close>

datatype ApprovalPolicy = Never | Always | Auto

datatype ApprovalDecision = Approve | Deny | Ambiguous

definition approvalPrompt :: "string \<Rightarrow> string" where
  "approvalPrompt toolId =
     ''Approval required: run tool \"'' @ toolId @ ''\"? Reply \"approve\" or \"deny\".''"

definition normalizePolicy :: "string option \<Rightarrow> ApprovalPolicy option" where
  "normalizePolicy value =
     (let v = js_toLowerCase (js_trim (coalesce value [])) in
      if v = ''never'' then Some Never
      else if v = ''always'' then Some Always
      else if v = ''auto'' then Some Auto
      else None)"

definition resolveApproval :: "string option \<Rightarrow> string option \<Rightarrow> ApprovalPolicy" where
  "resolveApproval toolApproval agentDefault =
     coalesce (normalizePolicy toolApproval) (coalesce (normalizePolicy agentDefault) Never)"

definition requiresApproval :: "ApprovalPolicy \<Rightarrow> bool" where
  "requiresApproval policy \<longleftrightarrow> policy = Always \<or> policy = Auto"

definition APPROVE_WORDS :: "string list" where
  "APPROVE_WORDS =
     [''approve'', ''approved'', ''yes'', ''y'', ''ok'', ''okay'', ''allow'', ''allowed'',
      ''confirm'', ''confirmed'']"

definition DENY_WORDS :: "string list" where
  "DENY_WORDS =
     [''deny'', ''denied'', ''no'', ''n'', ''reject'', ''rejected'', ''cancel'', ''cancelled'',
      ''stop'', ''disallow'']"

text \<open>\<open>.replace(/[.!,]$/, "")\<close>: one trailing mark is dropped.\<close>

definition strip_trailing_mark :: "string \<Rightarrow> string" where
  "strip_trailing_mark s =
     (if s \<noteq> [] \<and> last s \<in> {CHR ''.'', CHR ''!'', CHR '',''} then butlast s else s)"

text \<open>\<open>.split(/[^a-z]+/).filter(Boolean)\<close>: the maximal runs of lower-case ASCII letters.\<close>

definition letter_runs :: "string \<Rightarrow> string list" where
  "letter_runs s = js_runs ascii_lower_letter s"

definition parseApprovalDecision :: "string option \<Rightarrow> ApprovalDecision" where
  "parseApprovalDecision message =
     (let normalized = strip_trailing_mark (js_toLowerCase (js_trim (coalesce message [])));
          tokens = letter_runs normalized in
      if list_ex (\<lambda>t. t \<in> set DENY_WORDS) tokens then Deny
      else if normalized \<in> set APPROVE_WORDS then Approve
      else Ambiguous)"


subsection \<open>Facts\<close>

lemma APPROVE_WORDS_lower: "w \<in> set APPROVE_WORDS \<Longrightarrow> list_all ascii_lower_letter w \<and> w \<noteq> []"
  by (auto simp: APPROVE_WORDS_def ascii_lower_letter_def)

lemma approve_not_deny: "w \<in> set APPROVE_WORDS \<Longrightarrow> w \<notin> set DENY_WORDS"
  by (auto simp: APPROVE_WORDS_def DENY_WORDS_def)

text \<open>A run of letters between two non-letters is one of the fields.\<close>

lemma js_runs_delimited:
  assumes "list_all p w" "w \<noteq> []" "pre = [] \<or> \<not> p (last pre)" "post = [] \<or> \<not> p (hd post)"
  shows "w \<in> set (js_runs p (pre @ w @ post))"
proof -
  have tail: "w \<in> set (js_runs p (w @ post))"
  proof (cases post)
    case Nil
    then show ?thesis using js_runs_word[OF assms(1,2)] by simp
  next
    case (Cons c t)
    then show ?thesis
      using assms js_runs_word[OF assms(1,2)] js_runs_acc_sep[of p c "[]" w t] by (simp add: js_runs_def)
  qed
  show ?thesis
  proof (cases "pre = []")
    case False
    then obtain q c where "pre = q @ [c]" by (metis rev_exhaust)
    then show ?thesis
      using tail assms(3) js_runs_acc_sep[of p c "[]" q "w @ post"] by (simp add: js_runs_def)
  qed (use tail in simp)
qed

lemma DENY_WORDS_lower: "w \<in> set DENY_WORDS \<Longrightarrow> list_all ascii_lower_letter w \<and> w \<noteq> []"
  by (auto simp: DENY_WORDS_def ascii_lower_letter_def)

text \<open>
  Strict about approving: a reply approves if and only if, trimmed, in lower case and
  without one trailing mark, the whole of it is one approve word.
\<close>

theorem approve_is_strict:
  "parseApprovalDecision m = Approve \<longleftrightarrow>
     strip_trailing_mark (js_toLowerCase (js_trim (coalesce m []))) \<in> set APPROVE_WORDS"
proof -
  define n where "n = strip_trailing_mark (js_toLowerCase (js_trim (coalesce m [])))"
  have "n \<in> set APPROVE_WORDS \<Longrightarrow> letter_runs n = [n] \<and> n \<notin> set DENY_WORDS"
    using js_runs_word[of ascii_lower_letter n] APPROVE_WORDS_lower[of n] approve_not_deny[of n]
    by (simp add: letter_runs_def)
  then show ?thesis
    by (auto simp: parseApprovalDecision_def n_def[symmetric] Let_def)
qed

text \<open>
  Liberal about denying: one deny word anywhere in the reply, delimited by characters
  that are not letters or by its ends, denies, whatever surrounds it.
\<close>

theorem deny_word_anywhere_denies:
  assumes "w \<in> set DENY_WORDS"
    and "strip_trailing_mark (js_toLowerCase (js_trim (coalesce m []))) = pre @ w @ post"
    and "pre = [] \<or> \<not> ascii_lower_letter (last pre)" "post = [] \<or> \<not> ascii_lower_letter (hd post)"
  shows "parseApprovalDecision m = Deny"
proof -
  have "w \<in> set (letter_runs (pre @ w @ post))"
    using js_runs_delimited[of ascii_lower_letter w] DENY_WORDS_lower[OF assms(1)] assms(3,4)
    by (simp add: letter_runs_def)
  then have "list_ex (\<lambda>t. t \<in> set DENY_WORDS) (letter_runs (pre @ w @ post))"
    using assms(1) by (auto simp: list_ex_iff)
  then show ?thesis by (simp add: parseApprovalDecision_def Let_def assms(2))
qed

theorem deny_word_anywhere_denies_witness:
  "parseApprovalDecision (Some '' Yes, approve... NO! '') = Deny"
  by (rule deny_word_anywhere_denies[where pre = "''yes, approve... ''" and w = "''no''" and post = "[]"])
    code_simp+

end
