(* ===== verification/Command_Line.thy ===== *)
theory Command_Line
  imports Js_Prelude
begin

text \<open>
  The command-line tokenizer that the command tools (\<open>tools/kubectl-readonly\<close>,
  \<open>tools/github\<close>, \<open>tools/ssh\<close>) each carry a textually identical copy of: the loop over
  \<open>/"([^"]*)"|'([^']*)'|(\S+)/g\<close>. The alternatives are tried in order at the leftmost
  position where one matches: a quoted span whose quote is closed gives its contents, any
  other run of non-space characters (an unclosed quote included) gives itself.
\<close>

abbreviation dquote :: char where "dquote \<equiv> CHR 0x22"
abbreviation squote :: char where "squote \<equiv> CHR 0x27"

function tokenize :: "string \<Rightarrow> string list" where
  "tokenize [] = []"
| "tokenize (c # cs) =
     (if c = dquote \<and> dquote \<in> set cs then
        takeWhile (\<lambda>x. x \<noteq> dquote) cs # tokenize (tl (dropWhile (\<lambda>x. x \<noteq> dquote) cs))
      else if c = squote \<and> squote \<in> set cs then
        takeWhile (\<lambda>x. x \<noteq> squote) cs # tokenize (tl (dropWhile (\<lambda>x. x \<noteq> squote) cs))
      else if js_ws c then tokenize cs
      else (c # takeWhile (\<lambda>x. \<not> js_ws x) cs) # tokenize (dropWhile (\<lambda>x. \<not> js_ws x) cs))"
  by pat_completeness auto
termination
  by (relation "measure length") (auto simp: less_Suc_eq_le length_dropWhile_le
        intro: le_trans[OF diff_le_self length_dropWhile_le])

lemma not_ws_quotes [simp]: "\<not> js_ws dquote" "\<not> js_ws squote"
  by (simp_all add: js_ws_def)

text \<open>A word that the tokenizer leaves alone.\<close>

definition plain_word :: "string \<Rightarrow> bool" where
  "plain_word w \<longleftrightarrow> w \<noteq> [] \<and> hd w \<noteq> dquote \<and> hd w \<noteq> squote \<and> list_all (\<lambda>c. \<not> js_ws c) w"

lemma tokenize_space: "js_ws c \<Longrightarrow> tokenize (c # cs) = tokenize cs"
  by auto

lemma tokenize_word:
  assumes "plain_word w" and "t = [] \<or> js_ws (hd t)"
  shows "tokenize (w @ t) = w # tokenize t"
proof -
  obtain c cs where w: "w = c # cs" using assms(1) by (cases w) (auto simp: plain_word_def)
  have ws: "list_all (\<lambda>c. \<not> js_ws c) cs" "\<not> js_ws c" "c \<noteq> dquote" "c \<noteq> squote"
    using assms(1) w by (auto simp: plain_word_def)
  have t0: "takeWhile (\<lambda>x. \<not> js_ws x) t = []" "dropWhile (\<lambda>x. \<not> js_ws x) t = t"
    using assms(2) by (cases t; simp)+
  have "takeWhile (\<lambda>x. \<not> js_ws x) (cs @ t) = cs" "dropWhile (\<lambda>x. \<not> js_ws x) (cs @ t) = t"
    using ws(1) t0 by (induction cs) auto
  with ws w show ?thesis by simp
qed

lemma tokenize_join_spaces:
  "list_all plain_word ws \<Longrightarrow> tokenize (js_join '' '' ws) = ws"
proof (induction "'' ''" ws rule: js_join.induct)
  case (2 x)
  then show ?case using tokenize_word[of x "[]"] by simp
next
  case (3 x y ys)
  have sp: "js_ws (CHR '' '')" by (simp add: js_ws_def)
  have "tokenize (x @ '' '' @ js_join '' '' (y # ys)) = x # tokenize ('' '' @ js_join '' '' (y # ys))"
    using 3(2) sp by (intro tokenize_word) auto
  with 3 sp show ?case by (simp add: tokenize_space)
qed simp

lemma tokenize_quoted:
  "dquote \<notin> set w \<Longrightarrow> tokenize (dquote # w @ dquote # t) = w # tokenize t"
  by (simp add: takeWhile_tail dropWhile_append)

end
