(* ===== verification/Kubectl_Allowlist.thy ===== *)
theory Kubectl_Allowlist
  imports Command_Line
begin

text \<open>
  \<open>tools/kubectl-readonly/src/allowlist.ts\<close>: the allowlist that turns a tokenized command
  line into the argv to spawn. One constructor of \<open>kubectl_error\<close> per \<open>throw\<close>; the texts of
  the messages are not modelled, the values they report are.
\<close>

datatype kubectl_error =
    NoKubectlCommand
  | VerbNotAllowed string
  | FlagNotAllowed string
  | FlagRequiresValue string
  | FlagValueNotAllowed string string
  | FlagTakesNoValue string
  | KindNotAllowed string
  | OutputNotAllowed string string

definition ALLOWED_VERBS :: "string list" where
  "ALLOWED_VERBS = [''get'', ''describe'', ''logs'', ''events'', ''top'']"

definition VERBS_WITH_RESOURCE_KIND :: "string list" where
  "VERBS_WITH_RESOURCE_KIND = [''get'', ''describe'', ''top'']"

definition ALLOWED_RESOURCE_ALIASES :: "(string \<times> string list) list" where
  "ALLOWED_RESOURCE_ALIASES =
    [(''pods'', [''pods'', ''pod'', ''po'']),
     (''deployments'', [''deployments'', ''deployment'', ''deploy'']),
     (''replicasets'', [''replicasets'', ''replicaset'', ''rs'']),
     (''statefulsets'', [''statefulsets'', ''statefulset'', ''sts'']),
     (''daemonsets'', [''daemonsets'', ''daemonset'', ''ds'']),
     (''services'', [''services'', ''service'', ''svc'']),
     (''endpoints'', [''endpoints'', ''endpoint'', ''ep'']),
     (''events'', [''events'', ''event'', ''ev'']),
     (''nodes'', [''nodes'', ''node'', ''no'']),
     (''namespaces'', [''namespaces'', ''namespace'', ''ns'']),
     (''ingresses'', [''ingresses'', ''ingress'', ''ing'']),
     (''networkpolicies'', [''networkpolicies'', ''networkpolicy'', ''netpol'']),
     (''jobs'', [''jobs'', ''job'']),
     (''cronjobs'', [''cronjobs'', ''cronjob'', ''cj'']),
     (''configmaps'', [''configmaps'', ''configmap'', ''cm'']),
     (''persistentvolumes'', [''persistentvolumes'', ''persistentvolume'', ''pv'']),
     (''persistentvolumeclaims'', [''persistentvolumeclaims'', ''persistentvolumeclaim'', ''pvc'']),
     (''storageclasses'', [''storageclasses'', ''storageclass'', ''sc'']),
     (''resourcequotas'', [''resourcequotas'', ''resourcequota'', ''quota'']),
     (''limitranges'', [''limitranges'', ''limitrange'', ''limits'']),
     (''poddisruptionbudgets'', [''poddisruptionbudgets'', ''poddisruptionbudget'', ''pdb'']),
     (''horizontalpodautoscalers'', [''horizontalpodautoscalers'', ''horizontalpodautoscaler'', ''hpa'']),
     (''serviceaccounts'', [''serviceaccounts'', ''serviceaccount'', ''sa'']),
     (''secrets'', [''secrets'', ''secret''])]"

definition ALLOWED_RESOURCE_KINDS :: "string list" where
  "ALLOWED_RESOURCE_KINDS = concat (map snd ALLOWED_RESOURCE_ALIASES)"

definition RESOURCE_OUTPUT_RESTRICTIONS :: "(string \<times> string list) list" where
  "RESOURCE_OUTPUT_RESTRICTIONS = [(''secrets'', [''json'', ''yaml''])]"

record FlagSpec =
  flagspec_name :: string
  takesValue :: bool
  allowedValues :: "string list option"

definition valueFlag :: "string \<Rightarrow> FlagSpec" where
  "valueFlag n = \<lparr>flagspec_name = n, takesValue = True, allowedValues = None\<rparr>"

definition bareFlag :: "string \<Rightarrow> FlagSpec" where
  "bareFlag n = \<lparr>flagspec_name = n, takesValue = False, allowedValues = None\<rparr>"

definition outputFlag :: FlagSpec where
  "outputFlag = \<lparr>flagspec_name = ''--output'', takesValue = True,
     allowedValues = Some [''json'', ''yaml'', ''wide'', ''name'']\<rparr>"

definition ALLOWED_FLAGS :: "(string \<times> FlagSpec) list" where
  "ALLOWED_FLAGS =
    [(''-n'', valueFlag ''--namespace''),
     (''--namespace'', valueFlag ''--namespace''),
     (''-A'', bareFlag ''--all-namespaces''),
     (''--all-namespaces'', bareFlag ''--all-namespaces''),
     (''-l'', valueFlag ''--selector''),
     (''--selector'', valueFlag ''--selector''),
     (''--field-selector'', valueFlag ''--field-selector''),
     (''-c'', valueFlag ''--container''),
     (''--container'', valueFlag ''--container''),
     (''--tail'', valueFlag ''--tail''),
     (''--previous'', bareFlag ''--previous''),
     (''--since'', valueFlag ''--since''),
     (''--since-time'', valueFlag ''--since-time''),
     (''-o'', outputFlag),
     (''--output'', outputFlag),
     (''--sort-by'', valueFlag ''--sort-by'')]"

definition resourceKindOf :: "string \<Rightarrow> string" where
  "resourceKindOf positional = js_toLowerCase (hd (js_split (CHR ''/'') positional))"

definition canonicalKindOf :: "string \<Rightarrow> string option" where
  "canonicalKindOf alias =
     map_option fst (List.find (\<lambda>(canonical, aliases). alias \<in> set aliases) ALLOWED_RESOURCE_ALIASES)"

text \<open>The variables of the validation loop.\<close>

record kubectl_state =
  argv :: "string list"
  resourceKindChecked :: bool
  canonicalKind :: "string option"
  outputValue :: "string option"

text \<open>
  The \<open>allowedValues\<close> check and the recording of \<open>outputValue\<close>, once a flag's value and the
  tokens it pushes are known.
\<close>

definition accept_value ::
  "string \<Rightarrow> FlagSpec \<Rightarrow> string \<Rightarrow> string list \<Rightarrow> kubectl_state \<Rightarrow> kubectl_error + kubectl_state" where
  "accept_value flagName spec value pushed st =
     (case allowedValues spec of
        Some vs \<Rightarrow> if value \<in> set vs
           then Inr (st\<lparr>argv := argv st @ pushed,
                        outputValue := (if flagspec_name spec = ''--output'' then Some value
                                        else outputValue st)\<rparr>)
           else Inl (FlagValueNotAllowed flagName value)
      | None \<Rightarrow> Inr (st\<lparr>argv := argv st @ pushed,
                        outputValue := (if flagspec_name spec = ''--output'' then Some value
                                        else outputValue st)\<rparr>))"

definition accept_positional :: "string \<Rightarrow> kubectl_state \<Rightarrow> kubectl_error + kubectl_state" where
  "accept_positional token st =
     (if \<not> resourceKindChecked st then
        let kind = resourceKindOf token in
        if kind \<notin> set ALLOWED_RESOURCE_KINDS then Inl (KindNotAllowed kind)
        else Inr (st\<lparr>canonicalKind := canonicalKindOf kind, resourceKindChecked := True,
                     argv := argv st @ [token]\<rparr>)
      else Inr (st\<lparr>argv := argv st @ [token]\<rparr>))"

text \<open>\<open>eqIdx\<close>, the flag's name and, for \<open>--flag=value\<close>, its value.\<close>

definition split_flag :: "string \<Rightarrow> string \<times> string option" where
  "split_flag token =
     (case js_indexOf token (CHR ''='') of
        None \<Rightarrow> (token, None)
      | Some i \<Rightarrow> (take i token, Some (drop (i + 1) token)))"

fun kubectl_loop :: "string list \<Rightarrow> kubectl_state \<Rightarrow> kubectl_error + kubectl_state" where
  "kubectl_loop [] st = Inr st"
| "kubectl_loop (token # rest) st =
     (if js_startsWith token ''-'' then
        (case split_flag token of (flagName, eqValue) \<Rightarrow>
           (case map_of ALLOWED_FLAGS flagName of
              None \<Rightarrow> Inl (FlagNotAllowed flagName)
            | Some spec \<Rightarrow>
                if takesValue spec then
                  (case eqValue of
                     Some value \<Rightarrow>
                       (case accept_value flagName spec value [token] st of
                          Inl e \<Rightarrow> Inl e | Inr st' \<Rightarrow> kubectl_loop rest st')
                   | None \<Rightarrow>
                       (case rest of
                          [] \<Rightarrow> Inl (FlagRequiresValue flagName)
                        | value # rest' \<Rightarrow>
                            (case accept_value flagName spec value [token, value] st of
                               Inl e \<Rightarrow> Inl e | Inr st' \<Rightarrow> kubectl_loop rest' st')))
                else
                  (case eqValue of
                     Some _ \<Rightarrow> Inl (FlagTakesNoValue flagName)
                   | None \<Rightarrow> kubectl_loop rest (st\<lparr>argv := argv st @ [token]\<rparr>))))
      else
        (case accept_positional token st of
           Inl e \<Rightarrow> Inl e | Inr st' \<Rightarrow> kubectl_loop rest st'))"

definition restricted_output :: "string \<Rightarrow> string \<Rightarrow> bool" where
  "restricted_output kind out \<longleftrightarrow>
     (case map_of RESOURCE_OUTPUT_RESTRICTIONS kind of None \<Rightarrow> False | Some vs \<Rightarrow> out \<in> set vs)"

text \<open>
  The check after the loop. Both variables are tested for truthiness; a canonical kind and an
  accepted output value are never empty.
\<close>

definition output_restriction :: "kubectl_state \<Rightarrow> kubectl_error option" where
  "output_restriction st =
     (case (canonicalKind st, outputValue st) of
        (Some kind, Some out) \<Rightarrow>
          if restricted_output kind out then Some (OutputNotAllowed out kind) else None
      | _ \<Rightarrow> None)"

definition requestTimeout :: string where
  "requestTimeout = ''--request-timeout=10s''"

definition validateCommand_kubectl :: "string list \<Rightarrow> kubectl_error + string list" where
  "validateCommand_kubectl tokens =
     (case tokens of
        [] \<Rightarrow> Inl NoKubectlCommand
      | verb # rest \<Rightarrow>
          if verb = [] then Inl NoKubectlCommand
          else if verb \<notin> set ALLOWED_VERBS then Inl (VerbNotAllowed verb)
          else
            (case kubectl_loop rest
                    \<lparr>argv = [verb], resourceKindChecked = (verb \<notin> set VERBS_WITH_RESOURCE_KIND),
                     canonicalKind = None, outputValue = None\<rparr> of
               Inl e \<Rightarrow> Inl e
             | Inr st \<Rightarrow>
                 (case output_restriction st of
                    Some e \<Rightarrow> Inl e
                  | None \<Rightarrow> Inr (argv st @ [requestTimeout]))))"


subsection \<open>The grammar the loop accepts\<close>

text \<open>
  What the loop promises, without its control flow: the tokens after the verb are a sequence
  of arguments, each of one of four shapes.
\<close>

datatype karg =
    FlagEq string string     \<comment> \<open>\<open>--flag=value\<close>\<close>
  | FlagArg string string    \<comment> \<open>\<open>--flag value\<close>\<close>
  | FlagBare string
  | Positional string

fun karg_tokens :: "karg \<Rightarrow> string list" where
  "karg_tokens (FlagEq f v) = [f @ ''='' @ v]"
| "karg_tokens (FlagArg f v) = [f, v]"
| "karg_tokens (FlagBare f) = [f]"
| "karg_tokens (Positional t) = [t]"

definition value_ok :: "string \<Rightarrow> string \<Rightarrow> bool" where
  "value_ok f v \<longleftrightarrow>
     (case map_of ALLOWED_FLAGS f of
        None \<Rightarrow> False
      | Some spec \<Rightarrow> takesValue spec \<and> (case allowedValues spec of None \<Rightarrow> True | Some vs \<Rightarrow> v \<in> set vs))"

fun karg_ok :: "karg \<Rightarrow> bool" where
  "karg_ok (FlagEq f v) = value_ok f v"
| "karg_ok (FlagArg f v) = value_ok f v"
| "karg_ok (FlagBare f) =
     (case map_of ALLOWED_FLAGS f of None \<Rightarrow> False | Some spec \<Rightarrow> \<not> takesValue spec)"
| "karg_ok (Positional t) = (\<not> js_startsWith t ''-'')"

definition is_output_flag :: "string \<Rightarrow> bool" where
  "is_output_flag f \<longleftrightarrow> f = ''-o'' \<or> f = ''--output''"

fun karg_output :: "karg \<Rightarrow> string option" where
  "karg_output (FlagEq f v) = (if is_output_flag f then Some v else None)"
| "karg_output (FlagArg f v) = (if is_output_flag f then Some v else None)"
| "karg_output _ = None"

text \<open>The last output format given, and the first positional.\<close>

fun last_output :: "karg list \<Rightarrow> string option \<Rightarrow> string option" where
  "last_output [] o0 = o0"
| "last_output (a # as) o0 = last_output as (case karg_output a of None \<Rightarrow> o0 | Some v \<Rightarrow> Some v)"

fun first_positional :: "karg list \<Rightarrow> string option" where
  "first_positional [] = None"
| "first_positional (Positional t # as) = Some t"
| "first_positional (_ # as) = first_positional as"

text \<open>The effect of one well-formed argument on the loop's variables, and its admissibility.\<close>

definition karg_step :: "karg \<Rightarrow> kubectl_state \<Rightarrow> kubectl_state" where
  "karg_step a st =
     st\<lparr>argv := argv st @ karg_tokens a,
        canonicalKind :=
          (case a of Positional t \<Rightarrow>
             if resourceKindChecked st then canonicalKind st else canonicalKindOf (resourceKindOf t)
           | _ \<Rightarrow> canonicalKind st),
        resourceKindChecked :=
          (case a of Positional t \<Rightarrow> True | _ \<Rightarrow> resourceKindChecked st),
        outputValue := (case karg_output a of None \<Rightarrow> outputValue st | Some v \<Rightarrow> Some v)\<rparr>"

definition karg_admissible :: "karg \<Rightarrow> kubectl_state \<Rightarrow> bool" where
  "karg_admissible a st \<longleftrightarrow> karg_ok a \<and>
     (case a of Positional t \<Rightarrow>
        resourceKindChecked st \<or> resourceKindOf t \<in> set ALLOWED_RESOURCE_KINDS
      | _ \<Rightarrow> True)"

lemma ALLOWED_FLAGS_dash:
  "map_of ALLOWED_FLAGS f = Some spec \<Longrightarrow> js_startsWith f ''-'' \<and> CHR ''='' \<notin> set f"
  by (auto simp: ALLOWED_FLAGS_def js_startsWith_def split: if_splits)

lemma ALLOWED_FLAGS_output:
  "map_of ALLOWED_FLAGS f = Some spec \<Longrightarrow>
     flagspec_name spec = ''--output'' \<longleftrightarrow> is_output_flag f"
  by (auto simp: is_output_flag_def ALLOWED_FLAGS_def valueFlag_def bareFlag_def outputFlag_def split: if_splits)

lemma split_flag_eq:
  "split_flag token = (f, Some v) \<Longrightarrow> token = f @ ''='' @ v \<and> CHR ''='' \<notin> set f"
  by (auto simp: split_flag_def id_take_nth_drop[symmetric] dest!: js_indexOf_Some split: option.splits)
     (metis append_Cons append_Nil id_take_nth_drop)

lemma split_flag_none: "split_flag token = (f, None) \<Longrightarrow> token = f \<and> CHR ''='' \<notin> set f"
  by (auto simp: split_flag_def js_indexOf_None split: option.splits)

lemma js_indexOf_append: "c \<notin> set f \<Longrightarrow> js_indexOf (f @ c # v) c = Some (length f)"
  by (induction f) auto

lemma split_flag_FlagEq: "CHR ''='' \<notin> set f \<Longrightarrow> split_flag (f @ CHR ''='' # v) = (f, Some v)"
  by (simp add: split_flag_def js_indexOf_append)

lemma split_flag_bare: "CHR ''='' \<notin> set f \<Longrightarrow> split_flag f = (f, None)"
  using js_indexOf_None[of f "CHR ''=''"] by (simp add: split_flag_def)

lemma accept_value_Inr:
  assumes "map_of ALLOWED_FLAGS f = Some spec" and "takesValue spec"
  shows "accept_value f spec v ts st = Inr st' \<longleftrightarrow>
           value_ok f v \<and>
           st' = st\<lparr>argv := argv st @ ts,
                    outputValue := (if is_output_flag f then Some v else outputValue st)\<rparr>"
  using assms ALLOWED_FLAGS_output[OF assms(1)]
  by (auto simp: accept_value_def value_ok_def split: option.splits)


lemmas accept_value_ok = accept_value_Inr[THEN iffD2, OF _ _ conjI, OF _ _ _ refl]

lemma karg_step_fields [simp]:
  "argv (karg_step a st) = argv st @ karg_tokens a"
  "outputValue (karg_step a st) = (case karg_output a of None \<Rightarrow> outputValue st | Some v \<Rightarrow> Some v)"
  "resourceKindChecked (karg_step a st) =
     (case a of Positional t \<Rightarrow> True | _ \<Rightarrow> resourceKindChecked st)"
  "canonicalKind (karg_step a st) =
     (case a of Positional t \<Rightarrow>
        if resourceKindChecked st then canonicalKind st else canonicalKindOf (resourceKindOf t)
      | _ \<Rightarrow> canonicalKind st)"
  by (simp_all add: karg_step_def)

lemma kubectl_loop_karg:
  assumes "karg_admissible a st"
  shows "kubectl_loop (karg_tokens a @ rest) st = kubectl_loop rest (karg_step a st)"
proof (cases a)
  case (FlagEq f v)
  with assms obtain spec where spec: "map_of ALLOWED_FLAGS f = Some spec" "takesValue spec"
    and ok: "value_ok f v"
    by (auto simp: karg_admissible_def value_ok_def split: option.splits)
  note d = ALLOWED_FLAGS_dash[OF spec(1)]
  have "js_startsWith (f @ CHR ''='' # v) ''-''"
    using d by (auto simp: js_startsWith_iff)
  with FlagEq spec d accept_value_ok[OF spec ok] show ?thesis
    by (simp add: split_flag_FlagEq karg_step_def)
next
  case (FlagArg f v)
  with assms obtain spec where spec: "map_of ALLOWED_FLAGS f = Some spec" "takesValue spec"
    and ok: "value_ok f v"
    by (auto simp: karg_admissible_def value_ok_def split: option.splits)
  note d = ALLOWED_FLAGS_dash[OF spec(1)]
  from FlagArg spec d accept_value_ok[OF spec ok] show ?thesis
    by (simp add: split_flag_bare karg_step_def)
next
  case (FlagBare f)
  with assms obtain spec where spec: "map_of ALLOWED_FLAGS f = Some spec" "\<not> takesValue spec"
    by (auto simp: karg_admissible_def split: option.splits)
  with FlagBare ALLOWED_FLAGS_dash[OF spec(1)] show ?thesis
    by (simp add: split_flag_bare karg_step_def)
next
  case (Positional t)
  with assms show ?thesis
    by (cases st) (auto simp: karg_admissible_def accept_positional_def karg_step_def Let_def)
qed

lemma kubectl_loop_step:
  assumes "kubectl_loop (token # rest) st = Inr st'"
  shows "\<exists>a rest'. token # rest = karg_tokens a @ rest' \<and> karg_admissible a st \<and>
           kubectl_loop rest' (karg_step a st) = Inr st'"
proof (cases "js_startsWith token ''-''")
  case False
  with assms have "karg_admissible (Positional token) st"
    by (auto simp: karg_admissible_def accept_positional_def Let_def split: if_splits)
  moreover from this have "kubectl_loop rest (karg_step (Positional token) st) = Inr st'"
    using assms kubectl_loop_karg[of "Positional token" st rest] by simp
  ultimately show ?thesis
    by (intro exI[of _ "Positional token"] exI[of _ rest]) simp
next
  case True
  obtain f ev where fe: "split_flag token = (f, ev)" by fastforce
  with True assms obtain spec where spec: "map_of ALLOWED_FLAGS f = Some spec"
    by (auto split: option.splits)
  have "\<exists>a rest'. token # rest = karg_tokens a @ rest' \<and> karg_admissible a st"
  proof (cases "takesValue spec")
    case tv: True
    show ?thesis
    proof (cases ev)
      case (Some v)
      with fe have tok: "token = f @ ''='' @ v" by (auto dest: split_flag_eq)
      from True assms fe Some spec tv have "value_ok f v"
        using accept_value_Inr[OF spec tv] by (auto split: sum.splits)
      with tok show ?thesis
        by (intro exI[of _ "FlagEq f v"] exI[of _ rest]) (simp add: karg_admissible_def)
    next
      case None
      with fe have tok: "token = f" by (auto dest: split_flag_none)
      from True assms fe None spec tv obtain v rest' where "rest = v # rest'" and "value_ok f v"
        using accept_value_Inr[OF spec tv] by (auto split: sum.splits list.splits)
      with tok show ?thesis
        by (intro exI[of _ "FlagArg f v"] exI[of _ rest']) (simp add: karg_admissible_def)
    qed
  next
    case False
    with True assms fe spec have "ev = None" by (auto split: option.splits)
    with fe have tok: "token = f" by (auto dest: split_flag_none)
    with False spec show ?thesis
      by (intro exI[of _ "FlagBare f"] exI[of _ rest]) (simp add: karg_admissible_def)
  qed
  then show ?thesis using assms kubectl_loop_karg by metis
qed

text \<open>The arguments are admissible one after the other.\<close>

fun kargs_admissible :: "karg list \<Rightarrow> kubectl_state \<Rightarrow> bool" where
  "kargs_admissible [] st = True"
| "kargs_admissible (a # as) st = (karg_admissible a st \<and> kargs_admissible as (karg_step a st))"

lemma kubectl_loop_complete:
  "kargs_admissible as st \<Longrightarrow> kubectl_loop (concat (map karg_tokens as)) st = Inr (fold karg_step as st)"
  by (induction as arbitrary: st) (simp_all add: kubectl_loop_karg)

lemma karg_tokens_nonempty: "karg_tokens a \<noteq> []"
  by (cases a) auto

lemma kubectl_loop_sound:
  "kubectl_loop rest st = Inr st' \<Longrightarrow>
     \<exists>as. rest = concat (map karg_tokens as) \<and> kargs_admissible as st \<and> st' = fold karg_step as st"
proof (induction "length rest" arbitrary: rest st rule: less_induct)
  case less
  show ?case
  proof (cases rest)
    case Nil
    with less.prems show ?thesis by (intro exI[of _ "[]"]) simp
  next
    case (Cons token rest0)
    from kubectl_loop_step[OF less.prems[unfolded Cons]] obtain a rest' where
      a: "token # rest0 = karg_tokens a @ rest'" "karg_admissible a st"
      "kubectl_loop rest' (karg_step a st) = Inr st'" by blast
    have "length (token # rest0) = length (karg_tokens a) + length rest'"
      by (simp only: a(1) length_append)
    moreover have "0 < length (karg_tokens a)" using karg_tokens_nonempty by simp
    ultimately have "length rest' < length rest" using Cons by simp
    from less.hyps[OF this a(3)] obtain as where
      "rest' = concat (map karg_tokens as)" "kargs_admissible as (karg_step a st)"
      "st' = fold karg_step as (karg_step a st)" by blast
    with a Cons show ?thesis by (intro exI[of _ "a # as"]) simp
  qed
qed

text \<open>The loop's final variables in closed form.\<close>

lemma karg_step_argv: "argv (fold karg_step as st) = argv st @ concat (map karg_tokens as)"
  by (induction as arbitrary: st) simp_all

lemma karg_step_output: "outputValue (fold karg_step as st) = last_output as (outputValue st)"
  by (induction as arbitrary: st) simp_all

lemma karg_step_checked:
  "resourceKindChecked st \<Longrightarrow> canonicalKind (fold karg_step as st) = canonicalKind st"
  by (induction as arbitrary: st) (auto split: karg.splits)

lemma karg_step_kind:
  "\<not> resourceKindChecked st \<Longrightarrow>
     canonicalKind (fold karg_step as st) =
       (case first_positional as of None \<Rightarrow> canonicalKind st
        | Some t \<Rightarrow> canonicalKindOf (resourceKindOf t))"
proof (induction as arbitrary: st)
  case (Cons a as)
  then show ?case
    by (cases a) (simp_all add: karg_step_checked split: option.splits)
qed simp

lemma kargs_admissible_checked:
  "resourceKindChecked st \<Longrightarrow> kargs_admissible as st \<longleftrightarrow> list_all karg_ok as"
  by (induction as arbitrary: st) (auto simp: karg_admissible_def split: karg.splits)

lemma kargs_admissible_unchecked:
  "\<not> resourceKindChecked st \<Longrightarrow>
     kargs_admissible as st \<longleftrightarrow> list_all karg_ok as \<and>
       (case first_positional as of None \<Rightarrow> True
        | Some t \<Rightarrow> resourceKindOf t \<in> set ALLOWED_RESOURCE_KINDS)"
proof (induction as arbitrary: st)
  case (Cons a as)
  then show ?case
    by (cases a) (auto simp: karg_admissible_def kargs_admissible_checked)
qed simp


subsection \<open>Properties\<close>

text \<open>The specification of an acceptable command, over its arguments.\<close>

definition kubectl_command_ok :: "string \<Rightarrow> karg list \<Rightarrow> bool" where
  "kubectl_command_ok verb as \<longleftrightarrow>
     verb \<in> set ALLOWED_VERBS \<and> list_all karg_ok as \<and>
     (if verb \<in> set VERBS_WITH_RESOURCE_KIND then
        (case first_positional as of
           None \<Rightarrow> True
         | Some t \<Rightarrow>
             resourceKindOf t \<in> set ALLOWED_RESOURCE_KINDS \<and>
             (case (canonicalKindOf (resourceKindOf t), last_output as None) of
                (Some kind, Some out) \<Rightarrow> \<not> restricted_output kind out
              | _ \<Rightarrow> True))
      else True)"

lemma validateCommand_kubectl_loop:
  assumes "kargs_admissible as
     \<lparr>argv = [verb], resourceKindChecked = (verb \<notin> set VERBS_WITH_RESOURCE_KIND),
      canonicalKind = None, outputValue = None\<rparr>" (is "kargs_admissible as ?st")
    and "verb \<in> set ALLOWED_VERBS"
  shows "validateCommand_kubectl (verb # concat (map karg_tokens as)) =
           (case output_restriction (fold karg_step as ?st) of
              Some e \<Rightarrow> Inl e
            | None \<Rightarrow> Inr (verb # concat (map karg_tokens as) @ [requestTimeout]))"
proof -
  have "verb \<noteq> []" using assms(2) by (auto simp: ALLOWED_VERBS_def)
  with assms show ?thesis
    by (simp add: validateCommand_kubectl_def kubectl_loop_complete karg_step_argv
          split: option.splits)
qed

lemma kubectl_command_ok_iff:
  "kubectl_command_ok verb as \<longleftrightarrow>
     verb \<in> set ALLOWED_VERBS \<and>
     (let st = \<lparr>argv = [verb], resourceKindChecked = (verb \<notin> set VERBS_WITH_RESOURCE_KIND),
               canonicalKind = None, outputValue = None\<rparr>
      in kargs_admissible as st \<and> output_restriction (fold karg_step as st) = None)"
proof (cases "verb \<in> set VERBS_WITH_RESOURCE_KIND")
  case True
  then show ?thesis
    by (auto simp: kubectl_command_ok_def Let_def output_restriction_def karg_step_output
          kargs_admissible_unchecked karg_step_kind split: option.splits)
next
  case False
  then show ?thesis
    by (auto simp: kubectl_command_ok_def Let_def output_restriction_def karg_step_output
          kargs_admissible_checked karg_step_checked split: option.splits)
qed

lemma kubectl_command_ok_accepted:
  "kubectl_command_ok verb as \<Longrightarrow>
     validateCommand_kubectl (verb # concat (map karg_tokens as)) =
       Inr (verb # concat (map karg_tokens as) @ [requestTimeout])"
  using validateCommand_kubectl_loop by (auto simp: kubectl_command_ok_iff Let_def)

text \<open>
  C26. The kubectl allowlist accepts exactly the command lines of its grammar: an allowed
  verb, then allowlisted flags with permitted values and positionals, the first positional of
  a \<open>get\<close>/\<open>describe\<close>/\<open>top\<close> being an allowlisted kind that is not combined with an output
  format restricted for it. The argv to spawn is then the caller's tokens, in order, with the
  fixed request timeout appended; every other command line is refused.
\<close>

theorem kubectl_accepts_exactly_grammar:
  "validateCommand_kubectl tokens = Inr out \<longleftrightarrow>
     (\<exists>verb as. tokens = verb # concat (map karg_tokens as) \<and> kubectl_command_ok verb as \<and>
        out = tokens @ [requestTimeout])"
  (is "?L \<longleftrightarrow> ?R")
proof
  assume L: ?L
  then obtain verb rest where t: "tokens = verb # rest" and v: "verb \<in> set ALLOWED_VERBS"
    by (auto simp: validateCommand_kubectl_def split: list.splits if_splits)
  let ?st = "\<lparr>argv = [verb], resourceKindChecked = (verb \<notin> set VERBS_WITH_RESOURCE_KIND),
               canonicalKind = None, outputValue = None\<rparr>"
  obtain st' where "kubectl_loop rest ?st = Inr st'"
    using L t by (auto simp: validateCommand_kubectl_def split: sum.splits if_splits)
  from kubectl_loop_sound[OF this] obtain as where
    as: "rest = concat (map karg_tokens as)" "kargs_admissible as ?st" by blast
  with L t v validateCommand_kubectl_loop[OF as(2) v] show ?R
    by (intro exI[of _ verb] exI[of _ as])
      (auto simp: kubectl_command_ok_iff Let_def split: option.splits)
next
  assume ?R
  then show ?L by (auto simp: kubectl_command_ok_accepted)
qed

text \<open>
  The carve-out for Secrets is keyed to the first positional only: a \<open>get\<close> whose first
  resource is a pod and whose second is a Secret is accepted with \<open>-o yaml\<close>, the output
  form the carve-out exists to refuse (\<open>kubectl get pods/web secrets/db -o yaml\<close> prints the
  Secret's data).
\<close>

theorem kubectl_secret_yaml_second_resource:
  "validateCommand_kubectl [''get'', ''pods/'' @ n, ''secrets/'' @ m, ''-o'', ''yaml''] =
     Inr [''get'', ''pods/'' @ n, ''secrets/'' @ m, ''-o'', ''yaml'', requestTimeout]"
proof -
  have ok: "kubectl_command_ok ''get''
       [Positional (''pods/'' @ n), Positional (''secrets/'' @ m), FlagArg ''-o'' ''yaml'']"
    by (simp add: kubectl_command_ok_def ALLOWED_VERBS_def VERBS_WITH_RESOURCE_KIND_def
          js_startsWith_def value_ok_def ALLOWED_FLAGS_def outputFlag_def resourceKindOf_def
          js_toLowerCase_def js_lower_char_def ALLOWED_RESOURCE_KINDS_def
          ALLOWED_RESOURCE_ALIASES_def canonicalKindOf_def is_output_flag_def
          restricted_output_def RESOURCE_OUTPUT_RESTRICTIONS_def split: list.splits)
  from kubectl_command_ok_accepted[OF ok] show ?thesis by simp
qed

end
