(* ===== verification/Gh_Allowlist.thy ===== *)
theory Gh_Allowlist
  imports Command_Line
begin

text \<open>
  \<open>tools/github/src/allowlist.ts\<close>: the \<open>gh\<close> allowlist and its read-only subset. The tables
  are object literals indexed with caller text, so a name found on \<open>Object.prototype\<close> is a
  case of its own: the lookup succeeds with a value that is no \<open>Set\<close>, and using it throws a
  \<open>TypeError\<close> instead of the tool's own error.
\<close>

datatype gh_error =
    NoGhCommand
  | GhCommandNotAllowed string
  | GhSubcommandNotAllowed string "string option"
  | GhReadOnlyRefused string string
  | GhTypeError string

definition ALLOWED_COMMANDS :: "(string \<times> string list) list" where
  "ALLOWED_COMMANDS =
    [(''issue'', [''view'', ''list'', ''create'', ''comment'', ''edit'', ''close'', ''reopen'']),
     (''pr'', [''view'', ''list'', ''create'', ''comment'', ''edit'', ''close'', ''reopen'',
              ''diff'', ''checks'', ''merge'', ''review'', ''status'']),
     (''repo'', [''view'', ''list'', ''clone'']),
     (''release'', [''view'', ''list'']),
     (''gist'', [''view'', ''list'', ''create'']),
     (''label'', [''list'', ''create'']),
     (''search'', [''issues'', ''prs'', ''repos'', ''code'', ''commits'']),
     (''workflow'', [''view'', ''list'']),
     (''run'', [''view'', ''list'', ''watch'', ''download''])]"

definition READ_ONLY_COMMANDS :: "(string \<times> string list) list" where
  "READ_ONLY_COMMANDS =
    [(''issue'', [''view'', ''list'']),
     (''pr'', [''view'', ''list'', ''diff'', ''checks'', ''status'']),
     (''repo'', [''view'', ''list'', ''clone'']),
     (''release'', [''view'', ''list'']),
     (''gist'', [''view'', ''list'']),
     (''label'', [''list'']),
     (''search'', [''issues'', ''prs'', ''repos'', ''code'', ''commits'']),
     (''workflow'', [''view'', ''list'']),
     (''run'', [''view'', ''list'', ''watch'', ''download''])]"

text \<open>
  \<open>READ_ONLY_COMMANDS[command]?.has(subcommand)\<close>; it is reached only for a \<open>command\<close> that
  is an own key of \<open>ALLOWED_COMMANDS\<close>, and no such key is on the prototype.
\<close>

definition read_only_has :: "string \<Rightarrow> string \<Rightarrow> bool" where
  "read_only_has command subcommand \<longleftrightarrow>
     (case map_of READ_ONLY_COMMANDS command of None \<Rightarrow> False | Some subs \<Rightarrow> subcommand \<in> set subs)"

definition validateCommand_gh :: "string list \<Rightarrow> bool \<Rightarrow> gh_error + string list" where
  "validateCommand_gh tokens readOnly =
     (let command = (case tokens of [] \<Rightarrow> None | c # _ \<Rightarrow> Some c);
          subcommand = (case tokens of _ # s # _ \<Rightarrow> Some s | _ \<Rightarrow> None) in
      if \<not> truthy_str command then Inl NoGhCommand
      else
        (case js_record_get ALLOWED_COMMANDS (the command) of
           Missing \<Rightarrow> Inl (GhCommandNotAllowed (the command))
         | Inherited \<Rightarrow> Inl (GhTypeError (the command))
         | Own allowedSubcommands \<Rightarrow>
             if \<not> truthy_str subcommand \<or> the subcommand \<notin> set allowedSubcommands
             then Inl (GhSubcommandNotAllowed (the command) subcommand)
             else if readOnly \<and> \<not> read_only_has (the command) (the subcommand)
             then Inl (GhReadOnlyRefused (the command) (the subcommand))
             else Inr tokens))"

lemma read_only_allowed:
  "read_only_has c s \<Longrightarrow> \<exists>subs. map_of ALLOWED_COMMANDS c = Some subs \<and> s \<in> set subs"
  by (auto simp: read_only_has_def READ_ONLY_COMMANDS_def ALLOWED_COMMANDS_def split: if_splits)

lemma allowed_subcommand_nonempty:
  "map_of ALLOWED_COMMANDS c = Some subs \<Longrightarrow> s \<in> set subs \<Longrightarrow> s \<noteq> [] \<and> c \<noteq> []"
  by (auto simp: ALLOWED_COMMANDS_def split: if_splits)

text \<open>The commands a \<open>gh\<close> release has that change state on GitHub or on the caller's account.\<close>

definition gh_writes :: "(string \<times> string) list" where
  "gh_writes =
    [(''issue'', ''create''), (''issue'', ''comment''), (''issue'', ''edit''), (''issue'', ''close''),
     (''issue'', ''reopen''), (''pr'', ''create''), (''pr'', ''comment''), (''pr'', ''edit''),
     (''pr'', ''close''), (''pr'', ''reopen''), (''pr'', ''merge''), (''pr'', ''review''),
     (''gist'', ''create''), (''label'', ''create'')]"

lemma allowed_split:
  "map_of ALLOWED_COMMANDS c = Some subs \<Longrightarrow> s \<in> set subs \<Longrightarrow>
     read_only_has c s \<longleftrightarrow> (c, s) \<notin> set gh_writes"
  by (auto simp: read_only_has_def READ_ONLY_COMMANDS_def ALLOWED_COMMANDS_def gh_writes_def
        split: if_splits)

text \<open>The lookup on the prototype is not the tool's \<open>BlockedCommandError\<close>.\<close>

lemma gh_prototype_name:
  "validateCommand_gh (''constructor'' # rest) ro = Inl (GhTypeError ''constructor'')"
  by (simp add: validateCommand_gh_def js_record_get_def ALLOWED_COMMANDS_def
        object_prototype_keys_def)

text \<open>
  A read-only \<open>gh\<close> run: the command line is passed on unchanged exactly when its first two
  words are a command and subcommand of the allowlist that is not one of its writes (creating,
  commenting, editing, closing, reopening, merging, reviewing). So read-only acceptance is
  acceptance without the writes, and it never accepts what an ordinary run refuses.
\<close>

theorem gh_read_only_exact:
  "validateCommand_gh tokens True = Inr out \<longleftrightarrow>
     validateCommand_gh tokens False = Inr out \<and>
     (\<exists>c s rest. tokens = c # s # rest \<and> (c, s) \<notin> set gh_writes)"
proof -
  have "\<And>c s subs. map_of ALLOWED_COMMANDS c = Some subs \<Longrightarrow> s \<in> set subs \<Longrightarrow>
          read_only_has c s \<longleftrightarrow> (c, s) \<notin> set gh_writes"
    by (rule allowed_split)
  then show ?thesis
    by (auto simp: validateCommand_gh_def Let_def js_record_get_def truthy_str_def
          split: list.splits option.splits if_splits)
qed

text \<open>
  What the \<open>gh\<close> allowlist accepts, on every branch: acceptance returns the tokens
  themselves, and it happens exactly for an allowlisted command and subcommand pair that is
  also in the read-only table when the run is read-only. A command named like a member of
  \<open>Object.prototype\<close> is refused too, by a \<open>TypeError\<close>.
\<close>

theorem gh_accepts_exactly:
  "validateCommand_gh tokens ro = Inr out \<longleftrightarrow>
     out = tokens \<and>
     (\<exists>c s rest subs. tokens = c # s # rest \<and> map_of ALLOWED_COMMANDS c = Some subs \<and>
        s \<in> set subs \<and> (if ro then read_only_has c s else True))"
  by (auto simp: validateCommand_gh_def Let_def js_record_get_def truthy_str_def
        dest: allowed_subcommand_nonempty split: list.splits option.splits if_splits)

end
