(* ===== verification/Ssh_Allowlist.thy ===== *)
theory Ssh_Allowlist
  imports Command_Line
begin

text \<open>
  \<open>tools/ssh/src/allowlist.ts\<close>: the command allowlist and the unconditional charset check on
  what is handed to the remote login shell.
\<close>

datatype ssh_error =
    NoRemoteCommand
  | SshCommandNotAllowed string
  | SshSubcommandNotAllowed string "string option"
  | IpObjectNotAllowed "string list"
  | IpActionNotAllowed string string
  | FindPrimaryNotAllowed string
  | UnsafeArgument string
  | SshTypeError string

text \<open>\<open>ReadonlySet<string> | "*"\<close>.\<close>

datatype AllowedCommands = CommandSet "string list" | WideOpen

definition DEFAULT_ALLOWED_COMMANDS :: "string list" where
  "DEFAULT_ALLOWED_COMMANDS =
    [''uptime'', ''uname'', ''hostname'', ''whoami'', ''id'', ''date'', ''df'', ''du'', ''free'',
     ''ps'', ''top'', ''who'', ''w'', ''ss'', ''netstat'', ''ip'', ''systemctl'', ''journalctl'',
     ''docker'', ''cat'', ''head'', ''tail'', ''ls'', ''grep'', ''find'']"

definition READONLY_SUBCOMMANDS :: "(string \<times> string list) list" where
  "READONLY_SUBCOMMANDS =
    [(''systemctl'', [''status'', ''list-units'', ''list-unit-files'', ''is-active'', ''is-enabled'', ''show'']),
     (''docker'', [''ps'', ''logs'', ''inspect'', ''images'', ''stats'', ''top'', ''version'', ''info''])]"

definition IP_READONLY_OBJECTS :: "string list" where
  "IP_READONLY_OBJECTS =
    [''addr'', ''address'', ''route'', ''link'', ''neigh'', ''neighbour'', ''rule'', ''tunnel'',
     ''maddr'', ''mroute'', ''netns'']"

definition IP_READONLY_ACTIONS :: "string list" where
  "IP_READONLY_ACTIONS = [''show'', ''list'', ''get'']"

definition FIND_DANGEROUS_PRIMARIES :: "string list" where
  "FIND_DANGEROUS_PRIMARIES =
    [''-delete'', ''-exec'', ''-execdir'', ''-ok'', ''-okdir'', ''-fprint'', ''-fprintf'', ''-fls'']"

text \<open>The two scanning loops skip a prefix of \<open>-\<close> tokens.\<close>

definition skip_flags :: "string list \<Rightarrow> string list" where
  "skip_flags rest = dropWhile (\<lambda>t. js_startsWith t ''-'') rest"

definition validateIp :: "string list \<Rightarrow> ssh_error option" where
  "validateIp rest =
     (case skip_flags rest of
        [] \<Rightarrow> Some (IpObjectNotAllowed rest)
      | object # after \<Rightarrow>
          if object = [] \<or> object \<notin> set IP_READONLY_OBJECTS then Some (IpObjectNotAllowed rest)
          else
            (case skip_flags after of
               [] \<Rightarrow> None
             | action # _ \<Rightarrow>
                 if action \<notin> set IP_READONLY_ACTIONS then Some (IpActionNotAllowed object action)
                 else None))"

definition validateFind :: "string list \<Rightarrow> ssh_error option" where
  "validateFind rest =
     map_option FindPrimaryNotAllowed (List.find (\<lambda>t. t \<in> set FIND_DANGEROUS_PRIMARIES) rest)"

text \<open>\<open>/^[A-Za-z0-9._\-/:=@,]+$/\<close>\<close>

definition safe_char :: "char \<Rightarrow> bool" where
  "safe_char c \<longleftrightarrow>
     ascii_upper_letter c \<or> ascii_lower_letter c \<or> ascii_digit c \<or> c \<in> set ''._-/:=@,''"

definition SAFE_TOKEN :: "string \<Rightarrow> bool" where
  "SAFE_TOKEN t \<longleftrightarrow> t \<noteq> [] \<and> list_all safe_char t"

definition orelse_err :: "'e option \<Rightarrow> 'e option \<Rightarrow> 'e option" where
  "orelse_err a b = (case a of Some e \<Rightarrow> Some e | None \<Rightarrow> b)"

text \<open>The checks under \<open>if (!wideOpen)\<close>, in their order.\<close>

definition command_restrictions :: "string list \<Rightarrow> string \<Rightarrow> string list \<Rightarrow> ssh_error option" where
  "command_restrictions allowed command rest =
     (if command \<notin> set allowed then Some (SshCommandNotAllowed command)
      else
        orelse_err
          (case js_record_get READONLY_SUBCOMMANDS command of
             Missing \<Rightarrow> None
           | Inherited \<Rightarrow> Some (SshTypeError command)
           | Own subs \<Rightarrow>
               (case rest of
                  [] \<Rightarrow> Some (SshSubcommandNotAllowed command None)
                | sub # _ \<Rightarrow>
                    if sub = [] \<or> sub \<notin> set subs
                    then Some (SshSubcommandNotAllowed command (Some sub)) else None))
          (orelse_err (if command = ''ip'' then validateIp rest else None)
                      (if command = ''find'' then validateFind rest else None)))"

definition validateCommand_ssh :: "string list \<Rightarrow> AllowedCommands \<Rightarrow> ssh_error + string list" where
  "validateCommand_ssh tokens allowedCommands =
     (case tokens of
        [] \<Rightarrow> Inl NoRemoteCommand
      | command # rest \<Rightarrow>
          if command = [] then Inl NoRemoteCommand
          else
            (case (case allowedCommands of
                     WideOpen \<Rightarrow> None
                   | CommandSet allowed \<Rightarrow> command_restrictions allowed command rest) of
               Some e \<Rightarrow> Inl e
             | None \<Rightarrow>
                 (case List.find (\<lambda>t. \<not> SAFE_TOKEN t) tokens of
                    Some t \<Rightarrow> Inl (UnsafeArgument t)
                  | None \<Rightarrow> Inr tokens)))"


subsection \<open>What the remote shell sees\<close>

text \<open>
  OpenSSH joins the argv with spaces and hands the one string to the login shell. The
  characters below are those a POSIX shell gives meaning to outside a word: quoting,
  expansion, control operators, redirection, globbing, comments, tilde, history and line ends.
\<close>

definition shell_metachar :: "char \<Rightarrow> bool" where
  "shell_metachar c \<longleftrightarrow>
     c \<in> set ''|&;<>()$`*?[]{}#~!^%'' \<or> c = CHR 0x22 \<or> c = CHR 0x27 \<or> c = CHR 0x5C \<or>
     c = CHR 0x0A \<or> c = CHR 0x0D \<or> c = CHR 0x09"

lemma safe_char_not_meta: "safe_char c \<Longrightarrow> \<not> shell_metachar c \<and> \<not> js_ws c \<and> c \<noteq> CHR '' ''"
  by (auto simp: safe_char_def shell_metachar_def ascii_upper_letter_def ascii_lower_letter_def
        ascii_digit_def js_ws_def Let_def)

lemma not_SAFE_TOKEN_Nil [simp]: "\<not> SAFE_TOKEN []"
  by (simp add: SAFE_TOKEN_def)

lemma find_None_all: "List.find P xs = None \<longleftrightarrow> list_all (\<lambda>x. \<not> P x) xs"
  by (induction xs) auto

lemma find_Some_bex: "List.find P xs = Some x \<Longrightarrow> \<exists>y \<in> set xs. P y"
  by (induction xs) (auto split: if_splits)

lemma validateCommand_ssh_Inr:
  "validateCommand_ssh tokens ac = Inr out \<longleftrightarrow>
     out = tokens \<and> tokens \<noteq> [] \<and> list_all SAFE_TOKEN tokens \<and>
     (case ac of WideOpen \<Rightarrow> True
      | CommandSet allowed \<Rightarrow> command_restrictions allowed (hd tokens) (tl tokens) = None)"
  by (auto simp: validateCommand_ssh_def find_None_all list_all_iff
        dest: find_Some_bex[of "\<lambda>t. \<not> SAFE_TOKEN t"] split: list.splits option.splits AllowedCommands.splits if_splits)

lemma plain_word_safe: "SAFE_TOKEN t \<Longrightarrow> plain_word t"
proof -
  assume t: "SAFE_TOKEN t"
  then have "\<forall>c \<in> set t. \<not> js_ws c \<and> \<not> shell_metachar c"
    by (auto simp: SAFE_TOKEN_def list_all_iff dest: safe_char_not_meta)
  with t show ?thesis
    by (cases t) (auto simp: plain_word_def SAFE_TOKEN_def list_all_iff shell_metachar_def)
qed

text \<open>
  C27. No shell injection, whatever command allowlist is in force (the wide-open mode
  included): the string the remote login shell receives for an accepted command has no shell
  metacharacter, and splitting it at spaces gives back exactly the validated tokens.
\<close>

theorem ssh_remote_string_is_plain:
  assumes "validateCommand_ssh tokens ac = Inr out"
  shows "out = tokens \<and> list_all (\<lambda>c. \<not> shell_metachar c) (js_join '' '' out) \<and>
         tokenize (js_join '' '' out) = tokens"
proof -
  from assms have out: "out = tokens" and safe: "list_all SAFE_TOKEN tokens"
    by (simp_all add: validateCommand_ssh_Inr)
  have "\<forall>t \<in> set tokens. \<forall>c \<in> set t. \<not> shell_metachar c"
    using safe by (auto simp: list_all_iff SAFE_TOKEN_def dest: safe_char_not_meta)
  moreover have "\<not> shell_metachar (CHR '' '')" by (simp add: shell_metachar_def)
  ultimately have "list_all (\<lambda>c. \<not> shell_metachar c) (js_join '' '' tokens)"
    using set_js_join[of "'' ''" tokens] by (auto simp: list_all_iff)
  moreover have "tokenize (js_join '' '' tokens) = tokens"
    using safe by (intro tokenize_join_spaces) (auto simp: list_all_iff plain_word_safe)
  ultimately show ?thesis using out by simp
qed

theorem ssh_remote_string_is_plain_witness:
  "list_all (\<lambda>c. \<not> shell_metachar c) (js_join '' '' [''rm'', ''-rf'', ''/tmp/x'']) \<and>
   validateCommand_ssh [''rm'', ''-rf'', ''/tmp/x''] WideOpen = Inr [''rm'', ''-rf'', ''/tmp/x'']"
proof -
  have v: "validateCommand_ssh [''rm'', ''-rf'', ''/tmp/x''] WideOpen = Inr [''rm'', ''-rf'', ''/tmp/x'']"
    by code_simp
  from ssh_remote_string_is_plain[OF v] v show ?thesis by blast
qed

text \<open>
  With a command set in force the restrictions on the subcommands hold for every accepted
  command: the command is in the set; a \<open>systemctl\<close> or \<open>docker\<close> command has a read-only
  subcommand first; \<open>ip\<close> names a queryable object and at most a read-only action after it;
  \<open>find\<close> has none of the listed primaries anywhere.
\<close>

theorem ssh_command_set_restrictions:
  assumes "validateCommand_ssh (command # rest) (CommandSet allowed) = Inr out"
  shows "command \<in> set allowed \<and>
    (case map_of READONLY_SUBCOMMANDS command of
       None \<Rightarrow> True | Some subs \<Rightarrow> (\<exists>sub rest'. rest = sub # rest' \<and> sub \<in> set subs)) \<and>
    (if command = ''ip'' then
       (\<exists>object after. skip_flags rest = object # after \<and> object \<in> set IP_READONLY_OBJECTS \<and>
          (case skip_flags after of [] \<Rightarrow> True | action # _ \<Rightarrow> action \<in> set IP_READONLY_ACTIONS))
     else True) \<and>
    (if command = ''find'' then set rest \<inter> set FIND_DANGEROUS_PRIMARIES = {} else True)"
proof -
  from assms have r: "command_restrictions allowed command rest = None"
    by (simp add: validateCommand_ssh_Inr)
  then have sub: "\<And>subs. map_of READONLY_SUBCOMMANDS command = Some subs \<Longrightarrow>
       \<exists>sub rest'. rest = sub # rest' \<and> sub \<in> set subs"
    by (auto simp: command_restrictions_def orelse_err_def js_record_get_def
          split: list.splits option.splits if_splits)
  from r have ip: "command = ''ip'' \<Longrightarrow> validateIp rest = None"
    and fd: "command = ''find'' \<Longrightarrow> validateFind rest = None"
    by (auto simp: command_restrictions_def orelse_err_def
          split: js_prop.splits list.splits option.splits if_splits)
  have "command \<in> set allowed" using r by (auto simp: command_restrictions_def split: if_splits)
  moreover have "command = ''find'' \<Longrightarrow> set rest \<inter> set FIND_DANGEROUS_PRIMARIES = {}"
    using fd by (auto simp: validateFind_def find_None_all list_all_iff)
  moreover have ip_ok: "command = ''ip'' \<Longrightarrow>
      \<exists>object after. skip_flags rest = object # after \<and> object \<in> set IP_READONLY_OBJECTS \<and>
          (case skip_flags after of [] \<Rightarrow> True | action # _ \<Rightarrow> action \<in> set IP_READONLY_ACTIONS)"
    using ip by (cases "skip_flags rest") (auto simp: validateIp_def split: list.splits if_splits)
  ultimately show ?thesis
    using sub by (auto split: option.splits)
qed

theorem ssh_command_set_restrictions_witness:
  "set [''/var'', ''-name'', ''core''] \<inter> set FIND_DANGEROUS_PRIMARIES = {} \<and>
   validateCommand_ssh [''find'', ''/var'', ''-name'', ''core''] (CommandSet DEFAULT_ALLOWED_COMMANDS) =
     Inr [''find'', ''/var'', ''-name'', ''core'']"
proof -
  have v: "validateCommand_ssh (''find'' # [''/var'', ''-name'', ''core'']) (CommandSet DEFAULT_ALLOWED_COMMANDS) =
     Inr [''find'', ''/var'', ''-name'', ''core'']"
    by code_simp
  from ssh_command_set_restrictions[OF v] v show ?thesis by simp
qed

text \<open>
  Gaps of the curated default set, which is documented as holding nothing that writes or
  deletes: \<open>find\<close>'s file-writing primary \<open>-fprint0\<close> is not among the refused ones, and
  \<open>journalctl\<close>'s vacuuming and the setting forms of \<open>date\<close> and \<open>hostname\<close> pass, for any safe
  argument.
\<close>

theorem ssh_default_set_writes:
  "validateCommand_ssh [''find'', ''/'', ''-fprint0'', ''/tmp/out''] (CommandSet DEFAULT_ALLOWED_COMMANDS) =
     Inr [''find'', ''/'', ''-fprint0'', ''/tmp/out''] \<and>
   validateCommand_ssh [''journalctl'', ''--vacuum-time=1s''] (CommandSet DEFAULT_ALLOWED_COMMANDS) =
     Inr [''journalctl'', ''--vacuum-time=1s''] \<and>
   validateCommand_ssh [''date'', ''-s'', ''2020-01-01''] (CommandSet DEFAULT_ALLOWED_COMMANDS) =
     Inr [''date'', ''-s'', ''2020-01-01''] \<and>
   validateCommand_ssh [''hostname'', ''other''] (CommandSet DEFAULT_ALLOWED_COMMANDS) =
     Inr [''hostname'', ''other'']"
  by (intro conjI) code_simp+

end
