(* ===== verification/Url_Guard.thy ===== *)
theory Url_Guard
  imports Js_Prelude "HOL-Library.Word"
begin

text \<open>
  \<open>tools/web-fetch/src/security/url-guard.ts\<close> (the copies in \<open>tools/image-gen\<close> and
  \<open>tools/recipe-scraper\<close> are the same file): the SSRF guard. Addresses are 32-bit words, as
  JavaScript's bitwise operators make them. \<open>net.isIPv4\<close> and \<open>net.isIPv6\<close> are Node's
  address grammars, written out. The URL parser and the resolver are platform code: they are
  the arguments \<open>parse_url\<close> and \<open>dns_lookup\<close> of \<open>assertUrlAllowed\<close>, with no hypothesis on
  either.
\<close>

unbundle bit_operations_syntax

section \<open>Node's address grammars\<close>

definition digits_value :: "string \<Rightarrow> nat" where
  "digits_value s = foldl (\<lambda>acc c. 10 * acc + (of_char c - 48)) 0 s"

text \<open>An octet: \<open>0\<close>..\<open>255\<close> in decimal, without leading zeros.\<close>

definition v4_octet :: "string \<Rightarrow> bool" where
  "v4_octet s \<longleftrightarrow>
     s \<noteq> [] \<and> length s \<le> 3 \<and> list_all ascii_digit s \<and>
     (length s = 1 \<or> hd s \<noteq> CHR ''0'') \<and> digits_value s \<le> 255"

definition net_isIPv4 :: "string \<Rightarrow> bool" where
  "net_isIPv4 ip \<longleftrightarrow>
     (let parts = js_split (CHR ''.'') ip in length parts = 4 \<and> list_all v4_octet parts)"

definition hex_digit :: "char \<Rightarrow> bool" where
  "hex_digit c \<longleftrightarrow>
     ascii_digit c \<or> (let n = (of_char c :: nat) in (65 \<le> n \<and> n \<le> 70) \<or> (97 \<le> n \<and> n \<le> 102))"

definition v6_seg :: "string \<Rightarrow> bool" where
  "v6_seg s \<longleftrightarrow> s \<noteq> [] \<and> length s \<le> 4 \<and> list_all hex_digit s"

definition v6_groups :: "string \<Rightarrow> string list" where
  "v6_groups s = (if s = [] then [] else js_split (CHR '':'') s)"

text \<open>How many 16-bit groups a list stands for; an IPv4 tail, allowed at the end, is two.\<close>

fun v6_weight :: "string list \<Rightarrow> nat option" where
  "v6_weight [] = Some 0"
| "v6_weight [g] = (if v6_seg g then Some 1 else if net_isIPv4 g then Some 2 else None)"
| "v6_weight (g # gs) = (if v6_seg g then map_option Suc (v6_weight gs) else None)"

text \<open>The text before and after the first \<open>::\<close>.\<close>

fun cut_double_colon :: "string \<Rightarrow> (string \<times> string) option" where
  "cut_double_colon (a # b # s) =
     (if a = CHR '':'' \<and> b = CHR '':'' then Some ([], s)
      else map_option (\<lambda>(l, r). (a # l, r)) (cut_double_colon (b # s)))"
| "cut_double_colon _ = None"

definition v6_address :: "string \<Rightarrow> bool" where
  "v6_address s \<longleftrightarrow>
     (case cut_double_colon s of
        None \<Rightarrow> v6_weight (v6_groups s) = Some 8
      | Some (l, r) \<Rightarrow>
          list_all v6_seg (v6_groups l) \<and>
          (case v6_weight (v6_groups r) of None \<Rightarrow> False | Some n \<Rightarrow> length (v6_groups l) + n \<le> 7))"

definition v6_zone_char :: "char \<Rightarrow> bool" where
  "v6_zone_char c \<longleftrightarrow>
     ascii_digit c \<or> ascii_lower_letter c \<or> ascii_upper_letter c \<or> c \<in> set ''-.:''"

definition net_isIPv6 :: "string \<Rightarrow> bool" where
  "net_isIPv6 ip \<longleftrightarrow>
     (case js_indexOf ip (CHR ''%'') of
        None \<Rightarrow> v6_address ip
      | Some i \<Rightarrow>
          v6_address (take i ip) \<and> drop (i + 1) ip \<noteq> [] \<and> list_all v6_zone_char (drop (i + 1) ip))"


section \<open>The guard\<close>

definition ipv4ToLong :: "string \<Rightarrow> 32 word" where
  "ipv4ToLong ip =
     foldl (\<lambda>acc octet. push_bit 8 acc + of_nat (digits_value octet)) 0 (js_split (CHR ''.'') ip)"

definition blocked_ranges :: "(string \<times> nat) list" where
  "blocked_ranges =
    [(''0.0.0.0'', 8), (''10.0.0.0'', 8), (''100.64.0.0'', 10), (''127.0.0.0'', 8),
     (''169.254.0.0'', 16), (''172.16.0.0'', 12), (''192.0.0.0'', 24), (''192.0.2.0'', 24),
     (''192.88.99.0'', 24), (''192.168.0.0'', 16), (''198.18.0.0'', 15), (''198.51.100.0'', 24),
     (''203.0.113.0'', 24), (''224.0.0.0'', 4), (''240.0.0.0'', 4), (''255.255.255.255'', 32)]"

definition range_mask :: "nat \<Rightarrow> 32 word" where
  "range_mask bits = (if bits = 0 then 0 else push_bit (32 - bits) (NOT 0))"

definition isBlockedIPv4 :: "string \<Rightarrow> bool" where
  "isBlockedIPv4 ip \<longleftrightarrow>
     list_ex (\<lambda>(base, bits).
        (ipv4ToLong ip AND range_mask bits) = (ipv4ToLong base AND range_mask bits)) blocked_ranges"

text \<open>The regular expression \<open>((?:\d{1,3}\.){3}\d{1,3})\<close>, anchored.\<close>

definition dotted_quad :: "string \<Rightarrow> bool" where
  "dotted_quad s \<longleftrightarrow>
     (let parts = js_split (CHR ''.'') s
      in length parts = 4 \<and> list_all (\<lambda>p. p \<noteq> [] \<and> length p \<le> 3 \<and> list_all ascii_digit p) parts)"

definition mapped_v4 :: "string \<Rightarrow> string option" where
  "mapped_v4 norm =
     (if js_startsWith norm ''::ffff:'' \<and> dotted_quad (drop 7 norm) then Some (drop 7 norm)
      else if js_startsWith norm ''::'' \<and> dotted_quad (drop 2 norm) then Some (drop 2 norm)
      else None)"

definition v6_prefix_rules :: "string \<Rightarrow> bool" where
  "v6_prefix_rules norm \<longleftrightarrow>
     norm = ''::1'' \<or> norm = ''::'' \<or>
     js_startsWith norm ''fe80'' \<or> js_startsWith norm ''fec0'' \<or>
     js_startsWith norm ''fc'' \<or> js_startsWith norm ''fd'' \<or>
     js_startsWith norm ''ff'' \<or> js_startsWith norm ''2001:db8''"

definition isBlockedIPv6 :: "string \<Rightarrow> bool" where
  "isBlockedIPv6 ip \<longleftrightarrow>
     (let norm = js_toLowerCase ip in
      case mapped_v4 norm of
        Some m \<Rightarrow> if net_isIPv4 m then isBlockedIPv4 m else v6_prefix_rules norm
      | None \<Rightarrow> v6_prefix_rules norm)"

definition isBlockedIp :: "string \<Rightarrow> bool" where
  "isBlockedIp ip \<longleftrightarrow>
     (if net_isIPv4 ip then isBlockedIPv4 ip
      else if net_isIPv6 ip then isBlockedIPv6 ip
      else True)"

datatype url_guard_error =
    InvalidUrl string
  | BlockedProtocol string
  | MissingHostname
  | DnsFailed string
  | NoAddresses string
  | BlockedAddress string string

record parsed_url =
  url_protocol :: string
  url_hostname :: string

definition ALLOWED_PROTOCOLS :: "string list" where
  "ALLOWED_PROTOCOLS = [''http:'', ''https:'']"

text \<open>\<open>.replace(/^\[|\]$/g, "")\<close>\<close>

definition strip_brackets :: "string \<Rightarrow> string" where
  "strip_brackets h =
     (let h1 = (if js_startsWith h ''['' then tl h else h)
      in if h1 \<noteq> [] \<and> last h1 = CHR '']'' then butlast h1 else h1)"

definition assertUrlAllowed ::
  "(string \<Rightarrow> parsed_url option) \<Rightarrow> (string \<Rightarrow> string list option) \<Rightarrow> string
     \<Rightarrow> url_guard_error + parsed_url \<times> string list" where
  "assertUrlAllowed parse_url dns_lookup raw =
     (case parse_url raw of
        None \<Rightarrow> Inl (InvalidUrl raw)
      | Some url \<Rightarrow>
          if url_protocol url \<notin> set ALLOWED_PROTOCOLS then Inl (BlockedProtocol (url_protocol url))
          else
            let host = strip_brackets (url_hostname url) in
            if host = [] then Inl MissingHostname
            else
              (case (if net_isIPv4 host \<or> net_isIPv6 host then Some [host] else dns_lookup host) of
                 None \<Rightarrow> Inl (DnsFailed host)
               | Some addresses \<Rightarrow>
                   if addresses = [] then Inl (NoAddresses host)
                   else
                     (case List.find isBlockedIp addresses of
                        Some a \<Rightarrow> Inl (BlockedAddress a host)
                      | None \<Rightarrow> Inr (url, addresses))))"


section \<open>The ranges, in octets\<close>

text \<open>
  The specification of the blocked IPv4 space: the special-purpose blocks, by their octets.
\<close>

definition special_purpose :: "nat \<Rightarrow> nat \<Rightarrow> nat \<Rightarrow> bool" where
  "special_purpose a b c \<longleftrightarrow>
     a = 0 \<or> a = 10 \<or> a = 100 \<and> 64 \<le> b \<and> b \<le> 127 \<or> a = 127 \<or> a = 169 \<and> b = 254 \<or>
     a = 172 \<and> 16 \<le> b \<and> b \<le> 31 \<or> a = 192 \<and> b = 0 \<and> (c = 0 \<or> c = 2) \<or>
     a = 192 \<and> b = 88 \<and> c = 99 \<or> a = 192 \<and> b = 168 \<or> a = 198 \<and> (b = 18 \<or> b = 19) \<or>
     a = 198 \<and> b = 51 \<and> c = 100 \<or> a = 203 \<and> b = 0 \<and> c = 113 \<or> 224 \<le> a"

lemma drop_bit_nat_eq_div: "drop_bit n (m :: nat) = m div 2 ^ n"
  by (rule drop_bit_eq_div)

lemma mask_eq_div:
  fixes x y :: "32 word"
  assumes "0 < bits" "bits \<le> 32"
  shows "(x AND range_mask bits) = (y AND range_mask bits) \<longleftrightarrow>
           unat x div 2 ^ (32 - bits) = unat y div 2 ^ (32 - bits)"
proof -
  let ?n = "32 - bits"
  have m: "x AND range_mask bits = push_bit ?n (drop_bit ?n x)" for x :: "32 word"
  proof -
    have "range_mask bits = push_bit ?n (NOT 0)" using assms(1) by (simp add: range_mask_def)
    then show ?thesis by (auto simp: bit_eq_iff bit_simps)
  qed
  have "(push_bit ?n (drop_bit ?n x) = push_bit ?n (drop_bit ?n y)) \<longleftrightarrow> drop_bit ?n x = drop_bit ?n y"
  proof
    assume "push_bit ?n (drop_bit ?n x) = push_bit ?n (drop_bit ?n y)"
    then have "drop_bit ?n (push_bit ?n (drop_bit ?n x)) = drop_bit ?n (push_bit ?n (drop_bit ?n y))"
      by simp
    then show "drop_bit ?n x = drop_bit ?n y"
      by (fastforce simp: bit_eq_iff bit_simps dest: bit_imp_le_length)
  qed simp
  also have "\<dots> \<longleftrightarrow> unat (drop_bit ?n x) = unat (drop_bit ?n y)"
    by (simp add: word_unat_eq_iff)
  also have "\<dots> \<longleftrightarrow> unat x div 2 ^ ?n = unat y div 2 ^ ?n"
    by (simp only: unat_drop_bit_eq drop_bit_nat_eq_div)
  finally show ?thesis by (simp add: m)
qed


lemma ipv4ToLong_octets:
  assumes "js_split (CHR ''.'') ip = [p, q, r, s]"
    and "digits_value p \<le> 255" "digits_value q \<le> 255" "digits_value r \<le> 255" "digits_value s \<le> 255"
  shows "unat (ipv4ToLong ip) =
     digits_value p * 2 ^ 24 + digits_value q * 2 ^ 16 + digits_value r * 2 ^ 8 + digits_value s"
    (is "_ = ?n")
proof -
  define n where "n = ?n"
  have "ipv4ToLong ip = of_nat n"
    by (simp add: n_def ipv4ToLong_def assms(1) push_bit_eq_mult algebra_simps)
  moreover have "n < 2 ^ 32" using assms(2-5) by (simp add: n_def)
  ultimately have "unat (ipv4ToLong ip) = n" by (simp add: unat_of_nat)
  then show ?thesis by (simp add: n_def)
qed

lemma net_isIPv4_octets:
  assumes "net_isIPv4 ip"
  obtains p q r s where "js_split (CHR ''.'') ip = [p, q, r, s]"
    "digits_value p \<le> 255" "digits_value q \<le> 255" "digits_value r \<le> 255" "digits_value s \<le> 255"
proof -
  let ?parts = "js_split (CHR ''.'') ip"
  from assms have "length ?parts = 4" and v: "list_all v4_octet ?parts"
    by (simp_all add: net_isIPv4_def Let_def)
  then obtain p q r s where "?parts = [p, q, r, s]"
    by (auto simp: numeral_eq_Suc length_Suc_conv)
  with v that show thesis by (auto simp: v4_octet_def)
qed

text \<open>The value of each range's base address, by evaluation.\<close>

definition base_value :: "string \<Rightarrow> nat" where
  "base_value base = unat (ipv4ToLong base)"

lemma base_values [simp]:
  "base_value ''0.0.0.0'' = 0"
  "base_value ''10.0.0.0'' = 10 * 2 ^ 24"
  "base_value ''100.64.0.0'' = 100 * 2 ^ 24 + 64 * 2 ^ 16"
  "base_value ''127.0.0.0'' = 127 * 2 ^ 24"
  "base_value ''169.254.0.0'' = 169 * 2 ^ 24 + 254 * 2 ^ 16"
  "base_value ''172.16.0.0'' = 172 * 2 ^ 24 + 16 * 2 ^ 16"
  "base_value ''192.0.0.0'' = 192 * 2 ^ 24"
  "base_value ''192.0.2.0'' = 192 * 2 ^ 24 + 2 * 2 ^ 8"
  "base_value ''192.88.99.0'' = 192 * 2 ^ 24 + 88 * 2 ^ 16 + 99 * 2 ^ 8"
  "base_value ''192.168.0.0'' = 192 * 2 ^ 24 + 168 * 2 ^ 16"
  "base_value ''198.18.0.0'' = 198 * 2 ^ 24 + 18 * 2 ^ 16"
  "base_value ''198.51.100.0'' = 198 * 2 ^ 24 + 51 * 2 ^ 16 + 100 * 2 ^ 8"
  "base_value ''203.0.113.0'' = 203 * 2 ^ 24 + 113 * 2 ^ 8"
  "base_value ''224.0.0.0'' = 224 * 2 ^ 24"
  "base_value ''240.0.0.0'' = 240 * 2 ^ 24"
  "base_value ''255.255.255.255'' = 255 * 2 ^ 24 + 255 * 2 ^ 16 + 255 * 2 ^ 8 + 255"
  by (simp_all add: base_value_def ipv4ToLong_octets digits_value_def)

lemma quad_div:
  fixes a b c d :: nat
  assumes "b \<le> 255" "c \<le> 255" "d \<le> 255"
  defines "n \<equiv> a * 2 ^ 24 + b * 2 ^ 16 + c * 2 ^ 8 + d"
  shows "n div 2 ^ 24 = a" "n div 2 ^ 16 = a * 2 ^ 8 + b" "n div 2 ^ 8 = a * 2 ^ 16 + b * 2 ^ 8 + c"
  using assms by simp_all


lemma isBlockedIPv4_unat:
  "isBlockedIPv4 ip \<longleftrightarrow>
     list_ex (\<lambda>(base, bits).
        unat (ipv4ToLong ip) div 2 ^ (32 - bits) = base_value base div 2 ^ (32 - bits)) blocked_ranges"
  by (simp add: isBlockedIPv4_def blocked_ranges_def mask_eq_div base_value_def)

lemma digit_eq:
  fixes a b k :: nat
  assumes "b < k" "b' < k"
  shows "a * k + b = a' * k + b' \<longleftrightarrow> a = a' \<and> b = b'"
proof
  assume e: "a * k + b = a' * k + b'"
  then have "(a * k + b) div k = (a' * k + b') div k" "(a * k + b) mod k = (a' * k + b') mod k"
    by simp_all
  with assms show "a = a' \<and> b = b'" by simp
qed simp

lemma triple_eq:
  fixes a b c :: nat
  assumes "b \<le> 255" "c \<le> 255" "b' \<le> 255" "c' \<le> 255"
  shows "a * 65536 + b * 256 + c = a' * 65536 + b' * 256 + c' \<longleftrightarrow> a = a' \<and> b = b' \<and> c = c'"
  using digit_eq[of c 256 c' "a * 256 + b" "a' * 256 + b'"] digit_eq[of b 256 b' a a'] assms
  by (simp add: algebra_simps)

lemma pair_eq:
  fixes a b :: nat
  assumes "b \<le> 255" "b' \<le> 255"
  shows "a * 256 + b = a' * 256 + b' \<longleftrightarrow> a = a' \<and> b = b'"
  using digit_eq[of b 256 b' a a'] assms by simp

lemma range_arith:
  fixes a b c d :: nat
  assumes "a \<le> 255" "b \<le> 255" "c \<le> 255" "d \<le> 255"
  shows "4 * a + b div 64 = 401 \<longleftrightarrow> a = 100 \<and> 64 \<le> b \<and> b \<le> 127"
    "a * 256 + b = 43518 \<longleftrightarrow> a = 169 \<and> b = 254"
    "16 * a + b div 16 = 2753 \<longleftrightarrow> a = 172 \<and> 16 \<le> b \<and> b \<le> 31"
    "a * 65536 + b * 256 + c = 12582912 \<longleftrightarrow> a = 192 \<and> b = 0 \<and> c = 0"
    "a * 65536 + b * 256 + c = 12582914 \<longleftrightarrow> a = 192 \<and> b = 0 \<and> c = 2"
    "a * 65536 + b * 256 + c = 12605539 \<longleftrightarrow> a = 192 \<and> b = 88 \<and> c = 99"
    "a * 256 + b = 49320 \<longleftrightarrow> a = 192 \<and> b = 168"
    "128 * a + b div 2 = 25353 \<longleftrightarrow> a = 198 \<and> (b = 18 \<or> b = 19)"
    "a * 65536 + b * 256 + c = 12989284 \<longleftrightarrow> a = 198 \<and> b = 51 \<and> c = 100"
    "a * 65536 + b * 256 + c = 13303921 \<longleftrightarrow> a = 203 \<and> b = 0 \<and> c = 113"
    "a div 16 = 14 \<longleftrightarrow> 224 \<le> a \<and> a < 240"
    "a div 16 = 15 \<longleftrightarrow> 240 \<le> a"
proof -
  have q: "b div 64 < 4" "b div 16 < 16" "b div 2 < 128" using assms(2) by auto
  show "4 * a + b div 64 = 401 \<longleftrightarrow> a = 100 \<and> 64 \<le> b \<and> b \<le> 127"
    using digit_eq[OF q(1), of 1 a 100] by auto
  show "16 * a + b div 16 = 2753 \<longleftrightarrow> a = 172 \<and> 16 \<le> b \<and> b \<le> 31"
    using digit_eq[OF q(2), of 1 a 172] by auto
  show "128 * a + b div 2 = 25353 \<longleftrightarrow> a = 198 \<and> (b = 18 \<or> b = 19)"
    using digit_eq[OF q(3), of 9 a 198] by auto
  show "a * 256 + b = 43518 \<longleftrightarrow> a = 169 \<and> b = 254" "a * 256 + b = 49320 \<longleftrightarrow> a = 192 \<and> b = 168"
    using pair_eq[of b 254 a 169] pair_eq[of b 168 a 192] assms by simp_all
  show "a * 65536 + b * 256 + c = 12582912 \<longleftrightarrow> a = 192 \<and> b = 0 \<and> c = 0"
    "a * 65536 + b * 256 + c = 12582914 \<longleftrightarrow> a = 192 \<and> b = 0 \<and> c = 2"
    "a * 65536 + b * 256 + c = 12605539 \<longleftrightarrow> a = 192 \<and> b = 88 \<and> c = 99"
    "a * 65536 + b * 256 + c = 12989284 \<longleftrightarrow> a = 198 \<and> b = 51 \<and> c = 100"
    "a * 65536 + b * 256 + c = 13303921 \<longleftrightarrow> a = 203 \<and> b = 0 \<and> c = 113"
    using triple_eq[of b c 0 0 a 192] triple_eq[of b c 0 2 a 192] triple_eq[of b c 88 99 a 192]
      triple_eq[of b c 51 100 a 198] triple_eq[of b c 0 113 a 203] assms by simp_all
  show "a div 16 = 14 \<longleftrightarrow> 224 \<le> a \<and> a < 240" "a div 16 = 15 \<longleftrightarrow> 240 \<le> a"
    using assms(1) by auto
qed

lemma isBlockedIPv4_octets:
  assumes "js_split (CHR ''.'') ip = [p, q, r, s]"
    and "digits_value p \<le> 255" "digits_value q \<le> 255" "digits_value r \<le> 255" "digits_value s \<le> 255"
  shows "isBlockedIPv4 ip \<longleftrightarrow> special_purpose (digits_value p) (digits_value q) (digits_value r)"
proof -
  define a b c d where abcd: "a = digits_value p" "b = digits_value q" "c = digits_value r" "d = digits_value s"
  define n where "n = a * 2 ^ 24 + b * 2 ^ 16 + c * 2 ^ 8 + d"
  have le: "a \<le> 255" "b \<le> 255" "c \<le> 255" "d \<le> 255" using assms(2-5) abcd by simp_all
  have u: "unat (ipv4ToLong ip) = n"
    using ipv4ToLong_octets[OF assms] by (simp add: abcd n_def)
  have k: "n div 2 ^ 24 = a" "n div 2 ^ 16 = a * 2 ^ 8 + b" "n div 2 ^ 8 = a * 2 ^ 16 + b * 2 ^ 8 + c"
    using quad_div[OF le(2-4)] by (simp_all add: n_def)
  have d22: "n div 2 ^ 22 = 4 * a + b div 64" and d20: "n div 2 ^ 20 = 16 * a + b div 16"
    and d17: "n div 2 ^ 17 = 128 * a + b div 2" and d28: "n div 2 ^ 28 = a div 16"
    using le by (simp_all add: n_def)
  have "isBlockedIPv4 ip \<longleftrightarrow>
      a = 0 \<or> a = 10 \<or> 4 * a + b div 64 = 401 \<or> a = 127 \<or> a * 256 + b = 43518 \<or>
      16 * a + b div 16 = 2753 \<or> a * 65536 + b * 256 + c = 12582912 \<or>
      a * 65536 + b * 256 + c = 12582914 \<or> a * 65536 + b * 256 + c = 12605539 \<or>
      a * 256 + b = 49320 \<or> 128 * a + b div 2 = 25353 \<or>
      a * 65536 + b * 256 + c = 12989284 \<or> a * 65536 + b * 256 + c = 13303921 \<or>
      a div 16 = 14 \<or> a div 16 = 15 \<or> n = 4294967295"
    unfolding isBlockedIPv4_unat u blocked_ranges_def
    using k d22 d20 d17 d28 by simp
  also have "\<dots> \<longleftrightarrow> special_purpose a b c"
  proof -
    have "n = 4294967295 \<Longrightarrow> 224 \<le> a" using le by (simp add: n_def)
    then have top: "(224 \<le> a \<and> a < 240 \<or> 240 \<le> a \<or> n = 4294967295) \<longleftrightarrow> 224 \<le> a" by linarith
    show ?thesis
      unfolding special_purpose_def range_arith[OF le] top by argo
  qed
  finally show ?thesis by (simp add: abcd)
qed


section \<open>Properties\<close>

definition octet :: "string \<Rightarrow> nat \<Rightarrow> nat" where
  "octet ip i = digits_value (js_split (CHR ''.'') ip ! i)"

lemma isBlockedIPv4_special:
  "net_isIPv4 ip \<Longrightarrow> isBlockedIPv4 ip \<longleftrightarrow> special_purpose (octet ip 0) (octet ip 1) (octet ip 2)"
  by (elim net_isIPv4_octets) (simp add: isBlockedIPv4_octets octet_def numeral_eq_Suc)

text \<open>
  C28. The mask arithmetic on 32-bit words blocks exactly the special-purpose IPv4 blocks: for
  every dotted quad, in any of the sixteen ranges' terms, being blocked is the membership of
  its octets in the documented blocks (loopback, private, link-local with the cloud metadata
  address, CGNAT, documentation, benchmarking, multicast, reserved).
\<close>

theorem blocked_ipv4_is_special_purpose:
  assumes "net_isIPv4 ip"
  shows "isBlockedIp ip \<longleftrightarrow> special_purpose (octet ip 0) (octet ip 1) (octet ip 2)"
  using assms by (simp add: isBlockedIp_def isBlockedIPv4_special)

theorem blocked_ipv4_is_special_purpose_witness:
  "net_isIPv4 ''169.254.169.254'' \<and> isBlockedIp ''169.254.169.254'' \<and>
   net_isIPv4 ''8.8.8.8'' \<and> \<not> isBlockedIp ''8.8.8.8''"
proof -
  have ip: "net_isIPv4 ''169.254.169.254''" "net_isIPv4 ''8.8.8.8''"
    by (simp_all add: net_isIPv4_def v4_octet_def digits_value_def ascii_digit_def)
  show ?thesis
    using blocked_ipv4_is_special_purpose[OF ip(1)] blocked_ipv4_is_special_purpose[OF ip(2)] ip
    by (simp add: octet_def digits_value_def special_purpose_def)
qed

lemma find_None_iff_all: "List.find P xs = None \<longleftrightarrow> (\<forall>x \<in> set xs. \<not> P x)"
  by (induction xs) auto



text \<open>
  The IPv6 rules are textual: an IPv4-mapped address is recognised in its dotted form
  only. The hexadecimal form of the same address, which is the one a URL's hostname is
  normalised to, is let through: loopback and the metadata address among them. So is the part
  of the link-local block outside \<open>fe80\<close>.
\<close>

theorem mapped_ipv4_in_hex_not_blocked:
  "isBlockedIp ''::ffff:127.0.0.1'' \<and> \<not> isBlockedIp ''::ffff:7f00:1'' \<and>
   isBlockedIp ''::ffff:169.254.169.254'' \<and> \<not> isBlockedIp ''::ffff:a9fe:a9fe'' \<and>
   \<not> isBlockedIp ''fe90::1''"
  by (intro conjI) code_simp+

end
