(* ===== verification/Session_Store.thy ===== *)
theory Session_Store
  imports Js_Prelude
begin

text \<open>
  The conversation sessions of the orchestrator: the record
  (\<open>apps/agent-orchestrator/src/session/types.ts\<close>), the in-memory store
  (\<open>in-memory-session-store.ts\<close>), the mid-turn writers and the timeout sweep
  (\<open>inflight-agent-run.ts\<close>), and the two writers of \<open>server.ts\<close> (\<open>persistSession\<close>,
  \<open>setSessionReadOnly\<close>).

  A field of type \<open>boolean | undefined\<close> that the code only ever writes as \<open>true\<close> or leaves
  absent is a \<open>bool\<close>. Times are milliseconds, \<open>int\<close>. Each operation takes the clock values
  its calls of \<open>now()\<close> return. The tool and skill descriptors inside a paused call are
  carried, never inspected, and are modelled as their JSON text.
\<close>

section \<open>The session record\<close>

record SubAgentApprovalPending =
  sap_runId :: string
  sap_callId :: string
  sap_tool :: string
  sap_input :: string
  sap_agentId :: string
  sap_subject :: string
  sap_expiresAt :: int

record ApprovalPending =
  ap_toolId :: string
  ap_toolArgs :: "string option"
  ap_instanceKey :: "string option"
  ap_tool :: string
  ap_skill :: "string option"
  ap_skillTools :: "string list option"
  ap_subject :: "string option"

record SessionIdentityLink =
  sil_agentId :: string
  sil_provider :: string
  sil_flow :: string
  sil_deviceCode :: "string option"
  sil_expiresAt :: int
  sil_subject :: "string option"
  sil_request :: "string option"

type_synonym continuations = "(string \<times> string) list"

record SessionRecord =
  sr_subject :: string
  activeSkillId :: "string option"
  activeAgentId :: "string option"
  activeAgentRunId :: "string option"
  activeAgentRunAwaitingReply :: bool
  activeAgentRunReadOnly :: bool
  lastAgentRunId :: "string option"
  toolContinuations :: "continuations option"
  agentContinuations :: "continuations option"
  sr_pendingIdentityLink :: "SessionIdentityLink option"
  approvalPending :: "ApprovalPending option"
  subAgentApprovalPending :: "SubAgentApprovalPending option"
  sr_readOnly :: bool
  updatedAt :: int

text \<open>A record with nothing but its subject.\<close>

definition blank_record :: "string \<Rightarrow> SessionRecord" where
  "blank_record subj =
     \<lparr>sr_subject = subj, activeSkillId = None, activeAgentId = None, activeAgentRunId = None,
      activeAgentRunAwaitingReply = False, activeAgentRunReadOnly = False, lastAgentRunId = None,
      toolContinuations = None, agentContinuations = None, sr_pendingIdentityLink = None,
      approvalPending = None, subAgentApprovalPending = None, sr_readOnly = False, updatedAt = 0\<rparr>"


section \<open>The port and its in-memory adapter\<close>

record 's SessionStore =
  ss_get :: "int \<Rightarrow> string \<Rightarrow> 's \<Rightarrow> SessionRecord option \<times> 's"
  ss_set :: "int \<Rightarrow> string \<Rightarrow> SessionRecord \<Rightarrow> 's \<Rightarrow> 's"
  ss_list :: "(int \<Rightarrow> 's \<Rightarrow> (string \<times> SubAgentApprovalPending) list) option"

record InMemorySessionStore =
  ttlMs :: int
  maxEntries :: nat
  sessions :: "(string \<times> SessionRecord) list"

definition expired :: "int \<Rightarrow> int \<Rightarrow> SessionRecord \<Rightarrow> bool" where
  "expired ttl now r \<longleftrightarrow> now - updatedAt r > ttl"

definition ims_get ::
  "int \<Rightarrow> string \<Rightarrow> InMemorySessionStore \<Rightarrow> SessionRecord option \<times> InMemorySessionStore" where
  "ims_get now sessionId s =
     (case map_of (sessions s) sessionId of
        None \<Rightarrow> (None, s)
      | Some r \<Rightarrow>
          if expired (ttlMs s) now r
          then (None, s\<lparr>sessions := AList.delete sessionId (sessions s)\<rparr>)
          else (Some r, s))"

text \<open>The eviction loop: the first key of the map goes while the map is over its cap.\<close>

fun evict :: "nat \<Rightarrow> 'a list \<Rightarrow> 'a list" where
  "evict cap [] = []"
| "evict cap (x # xs) = (if length (x # xs) > cap then evict cap xs else x # xs)"

definition ims_set ::
  "int \<Rightarrow> string \<Rightarrow> SessionRecord \<Rightarrow> InMemorySessionStore \<Rightarrow> InMemorySessionStore" where
  "ims_set now sessionId r s =
     s\<lparr>sessions := evict (maxEntries s)
         (AList.delete sessionId (sessions s) @ [(sessionId, r\<lparr>updatedAt := now\<rparr>)])\<rparr>"

definition ims_list :: "int \<Rightarrow> InMemorySessionStore \<Rightarrow> (string \<times> SubAgentApprovalPending) list" where
  "ims_list now s =
     List.map_filter (\<lambda>(sid, r).
        if expired (ttlMs s) now r then None
        else map_option (\<lambda>p. (sid, p)) (subAgentApprovalPending r)) (sessions s)"

definition inMemory :: "InMemorySessionStore SessionStore" where
  "inMemory = \<lparr>ss_get = ims_get, ss_set = ims_set, ss_list = Some ims_list\<rparr>"

text \<open>Distinct keys, and never more entries than the cap.\<close>

definition ims_inv :: "InMemorySessionStore \<Rightarrow> bool" where
  "ims_inv s \<longleftrightarrow> 0 < maxEntries s \<and> 0 \<le> ttlMs s \<and> distinct (map fst (sessions s)) \<and>
     length (sessions s) \<le> maxEntries s"


section \<open>The writers\<close>

record agent_run_ref =
  run_subject :: string
  run_agentId :: string
  run_agentRunId :: string
  run_readOnly :: bool

definition markAgentRunAwaitingReply ::
  "'s SessionStore \<Rightarrow> int \<Rightarrow> int \<Rightarrow> string \<Rightarrow> agent_run_ref \<Rightarrow> 's \<Rightarrow> 's" where
  "markAgentRunAwaitingReply store t1 t2 sessionId run s =
     (let (existing, s1) = ss_get store t1 sessionId s;
          base = coalesce existing (blank_record (run_subject run))
      in ss_set store t2 sessionId
           (base\<lparr>activeAgentId := Some (run_agentId run),
                 activeAgentRunId := Some (run_agentRunId run),
                 activeAgentRunAwaitingReply := True,
                 activeAgentRunReadOnly := run_readOnly run,
                 lastAgentRunId := Some (run_agentRunId run),
                 activeSkillId := None\<rparr>) s1)"

definition clearAgentRunAwaitingReply ::
  "'s SessionStore \<Rightarrow> int \<Rightarrow> int \<Rightarrow> string \<Rightarrow> 's \<Rightarrow> 's" where
  "clearAgentRunAwaitingReply store t1 t2 sessionId s =
     (case ss_get store t1 sessionId s of
        (None, s1) \<Rightarrow> s1
      | (Some existing, s1) \<Rightarrow>
          ss_set store t2 sessionId
            (existing\<lparr>activeAgentId := None, activeAgentRunId := None,
                      activeAgentRunAwaitingReply := False, activeAgentRunReadOnly := False\<rparr>) s1)"

definition markSubAgentApproval ::
  "'s SessionStore \<Rightarrow> int \<Rightarrow> int \<Rightarrow> string \<Rightarrow> SubAgentApprovalPending \<Rightarrow> 's \<Rightarrow> 's" where
  "markSubAgentApproval store t1 t2 sessionId pending s =
     (let (existing, s1) = ss_get store t1 sessionId s;
          base = coalesce existing (blank_record (sap_subject pending))
      in ss_set store t2 sessionId
           (base\<lparr>activeAgentId := Some (sap_agentId pending),
                 activeAgentRunId := Some (sap_runId pending),
                 activeAgentRunAwaitingReply := True,
                 lastAgentRunId := Some (sap_runId pending),
                 subAgentApprovalPending := Some pending,
                 activeSkillId := None\<rparr>) s1)"

definition clearSubAgentApproval ::
  "'s SessionStore \<Rightarrow> int \<Rightarrow> int \<Rightarrow> string \<Rightarrow> 's \<Rightarrow> 's" where
  "clearSubAgentApproval store t1 t2 sessionId s =
     (case ss_get store t1 sessionId s of
        (None, s1) \<Rightarrow> s1
      | (Some existing, s1) \<Rightarrow> ss_set store t2 sessionId (existing\<lparr>subAgentApprovalPending := None\<rparr>) s1)"

text \<open>\<open>server.ts\<close>: the turn's read-only mode, written before the turn runs.\<close>

definition setSessionReadOnly ::
  "'s SessionStore \<Rightarrow> int \<Rightarrow> int \<Rightarrow> string \<Rightarrow> bool \<Rightarrow> 's \<Rightarrow> 's" where
  "setSessionReadOnly store t1 t2 sessionId readOnly s =
     (let (existing, s1) = ss_get store t1 sessionId s in
      if (case existing of None \<Rightarrow> False | Some r \<Rightarrow> sr_readOnly r) = readOnly then s1
      else ss_set store t2 sessionId ((coalesce existing (blank_record []))\<lparr>sr_readOnly := readOnly\<rparr>) s1)"

text \<open>\<open>server.ts\<close>: the turn's outcome, written after the graph returned.\<close>

record turn_outcome =
  selectedSkill :: "string option"
  selectedAgent :: "string option"
  oc_agentRunId :: "string option"
  agentAwaitingReply :: bool
  agentResumePending :: bool
  extractedContinuation :: "(string \<times> string) option"
  extractedAgentContinuation :: "(string \<times> string) option"
  oc_pendingIdentityLink :: "SessionIdentityLink option"
  identityLinkPending :: bool
  oc_approvalPending :: "ApprovalPending option"
  approvalWaiting :: bool
  oc_subAgentApprovalPending :: "SubAgentApprovalPending option"
  subAgentApprovalWaiting :: bool
  oc_readOnly :: bool

text \<open>A token replaces the stored one, an empty token removes it; an empty map is omitted.\<close>

definition merge_continuation :: "continuations option \<Rightarrow> (string \<times> string) option \<Rightarrow> continuations option" where
  "merge_continuation stored extracted =
     (let m0 = coalesce stored [];
          m = (case extracted of None \<Rightarrow> m0
               | Some (key, token) \<Rightarrow>
                   if token \<noteq> [] then AList.update key token m0 else AList.delete key m0)
      in if m = [] then None else Some m)"

definition persist_base :: "SessionRecord option \<Rightarrow> string \<Rightarrow> turn_outcome \<Rightarrow> SessionRecord" where
  "persist_base existing subj oc =
     (blank_record subj)
       \<lparr>toolContinuations := merge_continuation (Option.bind existing toolContinuations) (extractedContinuation oc),
        agentContinuations := merge_continuation (Option.bind existing agentContinuations) (extractedAgentContinuation oc),
        lastAgentRunId := (if truthy_str (oc_agentRunId oc) then oc_agentRunId oc
                           else Option.bind existing lastAgentRunId),
        sr_readOnly := ((case existing of None \<Rightarrow> False | Some r \<Rightarrow> sr_readOnly r) \<or> oc_readOnly oc)\<rparr>"

definition runReadOnly :: "SessionRecord option \<Rightarrow> turn_outcome \<Rightarrow> string \<Rightarrow> bool" where
  "runReadOnly existing oc runId =
     (case existing of
        Some r \<Rightarrow> if activeAgentRunId r = Some runId then activeAgentRunReadOnly r else oc_readOnly oc
      | None \<Rightarrow> oc_readOnly oc)"

text \<open>The record \<open>persistSession\<close> writes, \<open>None\<close> when it writes nothing.\<close>

definition persist_record ::
  "SessionRecord option \<Rightarrow> string \<Rightarrow> turn_outcome \<Rightarrow> SessionRecord option" where
  "persist_record existing subj oc =
     (let base = persist_base existing subj oc in
      if approvalWaiting oc \<and> oc_approvalPending oc \<noteq> None then
        Some (base\<lparr>approvalPending := oc_approvalPending oc\<rparr>)
      else if subAgentApprovalWaiting oc \<and> oc_subAgentApprovalPending oc \<noteq> None then
        (let pending = the (oc_subAgentApprovalPending oc) in
         Some (base\<lparr>activeAgentId := Some (sap_agentId pending),
                    activeAgentRunId := Some (sap_runId pending),
                    activeAgentRunAwaitingReply := True,
                    activeAgentRunReadOnly := runReadOnly existing oc (sap_runId pending),
                    subAgentApprovalPending := Some pending\<rparr>))
      else if identityLinkPending oc then
        Some (base\<lparr>sr_pendingIdentityLink := oc_pendingIdentityLink oc\<rparr>)
      else if selectedSkill oc \<noteq> None then
        Some (base\<lparr>activeSkillId := selectedSkill oc\<rparr>)
      else if truthy_str (oc_agentRunId oc) then
        (let runId = the (oc_agentRunId oc) in
         if agentResumePending oc \<and> selectedAgent oc \<noteq> None then
           Some (base\<lparr>activeAgentId := selectedAgent oc, activeAgentRunId := Some runId,
                      activeAgentRunAwaitingReply := True,
                      activeAgentRunReadOnly := runReadOnly existing oc runId\<rparr>)
         else if agentAwaitingReply oc \<and> selectedAgent oc \<noteq> None then
           Some (base\<lparr>activeAgentId := selectedAgent oc, activeAgentRunId := Some runId,
                      activeAgentRunReadOnly := runReadOnly existing oc runId\<rparr>)
         else Some base)
      else if extractedContinuation oc \<noteq> None \<or> extractedAgentContinuation oc \<noteq> None \<or>
              oc_readOnly oc \<and> \<not> (case existing of None \<Rightarrow> False | Some r \<Rightarrow> sr_readOnly r)
      then Some base
      else None)"

definition persistSession ::
  "'s SessionStore option \<Rightarrow> int \<Rightarrow> int \<Rightarrow> string option \<Rightarrow> string option \<Rightarrow> turn_outcome \<Rightarrow> 's \<Rightarrow> 's" where
  "persistSession store t1 t2 sessionId identity oc s =
     (case (store, identity) of
        (Some st, Some subj) \<Rightarrow>
          if \<not> truthy_str sessionId then s
          else
            (let sid = the sessionId; (existing, s1) = ss_get st t1 sid s in
             case persist_record existing subj oc of
               None \<Rightarrow> s1
             | Some r \<Rightarrow> ss_set st t2 sid r s1)
      | _ \<Rightarrow> s)"

text \<open>\<open>server.ts\<close>, \<open>buildGraphInput\<close>: the turn's read-only mode from its trigger and its session.\<close>

definition turn_read_only :: "SessionRecord option \<Rightarrow> bool option \<Rightarrow> bool" where
  "turn_read_only rec trigger =
     (case trigger of
        Some ro \<Rightarrow> ro
      | None \<Rightarrow> (case rec of None \<Rightarrow> False | Some r \<Rightarrow> sr_readOnly r))"


section \<open>The timeout sweep\<close>

text \<open>
  The channel's optional \<open>resolveToolCall\<close> is \<open>resolve\<close>: \<open>True\<close> when the publish succeeds,
  \<open>False\<close> when it throws. The sweep's effects are the calls it makes (in order), the store and
  its count. \<open>now\<close> is the sweep's own clock reading, \<open>t0\<close> the store's at the listing, and
  \<open>clk i\<close> its two readings in the clear that follows the \<open>i\<close>-th call.
\<close>

record 's sweep_state =
  sw_store :: 's
  sw_calls :: "(string \<times> string) list"
  sw_timedOut :: nat

fun sweep_loop ::
  "'s SessionStore \<Rightarrow> (string \<Rightarrow> string \<Rightarrow> bool) \<Rightarrow> int \<Rightarrow> (nat \<Rightarrow> int \<times> int)
     \<Rightarrow> (string \<times> SubAgentApprovalPending) list \<Rightarrow> 's sweep_state \<Rightarrow> 's sweep_state" where
  "sweep_loop store resolve now clk [] st = st"
| "sweep_loop store resolve now clk ((sid, pending) # rest) st =
     (if sap_expiresAt pending \<ge> now then sweep_loop store resolve now clk rest st
      else
        (let (t1, t2) = clk (length (sw_calls st));
             calls = sw_calls st @ [(sap_runId pending, sap_callId pending)]
         in if resolve (sap_runId pending) (sap_callId pending) then
              sweep_loop store resolve now clk rest
                \<lparr>sw_store = clearSubAgentApproval store t1 t2 sid (sw_store st),
                 sw_calls = calls, sw_timedOut = Suc (sw_timedOut st)\<rparr>
            else sweep_loop store resolve now clk rest (st\<lparr>sw_calls := calls\<rparr>)))"

definition sweepExpiredSubAgentApprovals ::
  "'s SessionStore \<Rightarrow> (string \<Rightarrow> string \<Rightarrow> bool) option \<Rightarrow> int \<Rightarrow> int \<Rightarrow> (nat \<Rightarrow> int \<times> int) \<Rightarrow> 's
     \<Rightarrow> 's sweep_state" where
  "sweepExpiredSubAgentApprovals store resolver now t0 clk s =
     (let idle = \<lparr>sw_store = s, sw_calls = [], sw_timedOut = 0\<rparr> in
      case (resolver, ss_list store) of
        (Some resolve, Some listing) \<Rightarrow> sweep_loop store resolve now clk (listing t0 s) idle
      | _ \<Rightarrow> idle)"


section \<open>The writers as operations of one session\<close>

datatype session_op =
    MarkRun string agent_run_ref
  | ClearRun string
  | MarkApproval string SubAgentApprovalPending
  | ClearApproval string
  | SetReadOnly string bool
  | Persist "string option" "string option" turn_outcome

fun session_step :: "'s SessionStore \<Rightarrow> int \<Rightarrow> int \<Rightarrow> session_op \<Rightarrow> 's \<Rightarrow> 's" where
  "session_step store t1 t2 (MarkRun sid run) s = markAgentRunAwaitingReply store t1 t2 sid run s"
| "session_step store t1 t2 (ClearRun sid) s = clearAgentRunAwaitingReply store t1 t2 sid s"
| "session_step store t1 t2 (MarkApproval sid p) s = markSubAgentApproval store t1 t2 sid p s"
| "session_step store t1 t2 (ClearApproval sid) s = clearSubAgentApproval store t1 t2 sid s"
| "session_step store t1 t2 (SetReadOnly sid ro) s = setSessionReadOnly store t1 t2 sid ro s"
| "session_step store t1 t2 (Persist sid identity oc) s =
     persistSession (Some store) t1 t2 sid identity oc s"

text \<open>
  The specification of a writer: the one session it is about, and what becomes of that
  session's record (\<open>None\<close>: nothing is written). \<open>store_update\<close> is the read-modify-write.
\<close>

definition store_update ::
  "'s SessionStore \<Rightarrow> int \<Rightarrow> int \<Rightarrow> string \<Rightarrow> (SessionRecord option \<Rightarrow> SessionRecord option) \<Rightarrow> 's \<Rightarrow> 's" where
  "store_update store t1 t2 sid f s =
     (let (existing, s1) = ss_get store t1 sid s in
      case f existing of None \<Rightarrow> s1 | Some r \<Rightarrow> ss_set store t2 sid r s1)"

fun op_session :: "session_op \<Rightarrow> string option" where
  "op_session (MarkRun sid _) = Some sid"
| "op_session (ClearRun sid) = Some sid"
| "op_session (MarkApproval sid _) = Some sid"
| "op_session (ClearApproval sid) = Some sid"
| "op_session (SetReadOnly sid _) = Some sid"
| "op_session (Persist sid identity _) = (if truthy_str sid \<and> identity \<noteq> None then sid else None)"

fun op_effect :: "session_op \<Rightarrow> SessionRecord option \<Rightarrow> SessionRecord option" where
  "op_effect (MarkRun sid run) e =
     Some ((coalesce e (blank_record (run_subject run)))
       \<lparr>activeAgentId := Some (run_agentId run), activeAgentRunId := Some (run_agentRunId run),
        activeAgentRunAwaitingReply := True, activeAgentRunReadOnly := run_readOnly run,
        lastAgentRunId := Some (run_agentRunId run), activeSkillId := None\<rparr>)"
| "op_effect (ClearRun sid) e =
     map_option (\<lambda>r. r\<lparr>activeAgentId := None, activeAgentRunId := None,
       activeAgentRunAwaitingReply := False, activeAgentRunReadOnly := False\<rparr>) e"
| "op_effect (MarkApproval sid p) e =
     Some ((coalesce e (blank_record (sap_subject p)))
       \<lparr>activeAgentId := Some (sap_agentId p), activeAgentRunId := Some (sap_runId p),
        activeAgentRunAwaitingReply := True, lastAgentRunId := Some (sap_runId p),
        subAgentApprovalPending := Some p, activeSkillId := None\<rparr>)"
| "op_effect (ClearApproval sid) e = map_option (\<lambda>r. r\<lparr>subAgentApprovalPending := None\<rparr>) e"
| "op_effect (SetReadOnly sid ro) e =
     (if (case e of None \<Rightarrow> False | Some r \<Rightarrow> sr_readOnly r) = ro then None
      else Some ((coalesce e (blank_record []))\<lparr>sr_readOnly := ro\<rparr>))"
| "op_effect (Persist sid identity oc) e = persist_record e (coalesce identity []) oc"

lemma session_step_update:
  "session_step store t1 t2 op s =
     (case op_session op of
        None \<Rightarrow> s
      | Some sid \<Rightarrow> store_update store t1 t2 sid (op_effect op) s)"
  by (cases op)
    (auto simp: store_update_def markAgentRunAwaitingReply_def clearAgentRunAwaitingReply_def
       markSubAgentApproval_def clearSubAgentApproval_def setSessionReadOnly_def persistSession_def
       truthy_str_def Let_def split: prod.splits option.splits)

text \<open>The anchors of a record agree: at most one of skill and run, flags only beside a run.\<close>

definition record_wf :: "SessionRecord \<Rightarrow> bool" where
  "record_wf r \<longleftrightarrow>
     (activeSkillId r = None \<or> activeAgentRunId r = None) \<and>
     (activeAgentId r = None) = (activeAgentRunId r = None) \<and>
     (activeAgentRunId r = None \<longrightarrow> \<not> activeAgentRunAwaitingReply r \<and> \<not> activeAgentRunReadOnly r)"

lemma blank_record_wf [simp]: "record_wf (blank_record subj)"
  by (simp add: record_wf_def blank_record_def)

lemma updatedAt_wf [simp]: "record_wf (r\<lparr>updatedAt := t\<rparr>) = record_wf r"
  by (simp add: record_wf_def)

lemma persist_record_wf: "persist_record e subj oc = Some r \<Longrightarrow> record_wf r"
  by (auto simp: persist_record_def persist_base_def blank_record_def record_wf_def Let_def
      split: if_splits)

lemma op_effect_wf:
  assumes "op_effect op e = Some r'" "\<And>r. e = Some r \<Longrightarrow> record_wf r"
  shows "record_wf r'"
proof (cases op)
  case (Persist sid identity oc)
  then show ?thesis using assms persist_record_wf by simp
qed (use assms in \<open>cases e; auto simp: record_wf_def blank_record_def split: if_splits\<close>)+

lemma persist_record_sticky:
  "persist_record (Some r) subj oc = Some r' \<Longrightarrow> sr_readOnly r \<Longrightarrow> sr_readOnly r'"
  by (auto simp: persist_record_def persist_base_def Let_def split: if_splits)

lemma op_effect_sticky:
  assumes "op_effect op (Some r) = Some r'" "sr_readOnly r" "\<And>sid. op \<noteq> SetReadOnly sid False"
  shows "sr_readOnly r'"
  using assms by (cases op) (auto simp: persist_record_sticky split: if_splits)


section \<open>The contract of a session store\<close>

text \<open>
  What the writers rely on: a record set is read back until its time to live has passed, a
  record read is one that was there before, and the store's own invariant is kept. Entries
  may disappear (expiry, eviction) but never change or appear.
\<close>

locale session_store =
  fixes store :: "'s SessionStore"
    and inv :: "'s \<Rightarrow> bool"
    and ttl :: "'s \<Rightarrow> int"
  assumes get_inv: "inv s \<Longrightarrow> inv (snd (ss_get store t k s))"
    and set_inv: "inv s \<Longrightarrow> inv (ss_set store t k r s)"
    and get_get: "inv s \<Longrightarrow> fst (ss_get store t' k' (snd (ss_get store t k s))) = Some r \<Longrightarrow>
                  fst (ss_get store t' k' s) = Some r"
    and get_set_same: "inv s \<Longrightarrow> t' - t \<le> ttl s \<Longrightarrow>
                  fst (ss_get store t' k (ss_set store t k r s)) = Some (r\<lparr>updatedAt := t\<rparr>)"
    and get_set_some: "inv s \<Longrightarrow> fst (ss_get store t' k' (ss_set store t k r s)) = Some r' \<Longrightarrow>
                  (if k' = k then r' = r\<lparr>updatedAt := t\<rparr> else fst (ss_get store t' k' s) = Some r')"
begin

lemma update_inv: "inv s \<Longrightarrow> inv (store_update store t1 t2 k f s)"
  using get_inv[of s t1 k] set_inv
  by (auto simp: store_update_def Let_def split: prod.splits option.splits)

lemma update_other:
  assumes "inv s" "k' \<noteq> k" "fst (ss_get store t' k' (store_update store t1 t2 k f s)) = Some r"
  shows "fst (ss_get store t' k' s) = Some r"
  using assms get_inv[of s t1 k] get_get[of s t' k' t1 k r]
    get_set_some[of "snd (ss_get store t1 k s)" t' k' t2 k]
  by (auto simp: store_update_def Let_def split: prod.splits option.splits)

lemma update_same:
  assumes "inv s" "fst (ss_get store t' k (store_update store t1 t2 k f s)) = Some r'"
  shows "(\<exists>r. f (fst (ss_get store t1 k s)) = Some r \<and> r' = r\<lparr>updatedAt := t2\<rparr>) \<or>
         f (fst (ss_get store t1 k s)) = None \<and> fst (ss_get store t' k s) = Some r'"
  using assms get_inv[of s t1 k] get_get[of s t' k t1 k r']
    get_set_some[of "snd (ss_get store t1 k s)" t' k t2 k]
  by (auto simp: store_update_def Let_def split: prod.splits option.splits)

text \<open>A property of every record that can be read survives every writer that keeps it.\<close>

lemma update_all:
  assumes "inv s" "\<forall>t k r. fst (ss_get store t k s) = Some r \<longrightarrow> P r"
    and "\<And>r r' t. P r \<Longrightarrow> P (r\<lparr>updatedAt := t\<rparr>)"
    and "\<And>e r'. f e = Some r' \<Longrightarrow> (\<And>r. e = Some r \<Longrightarrow> P r) \<Longrightarrow> P r'"
  shows "\<forall>t k r. fst (ss_get store t k (store_update store t1 t2 sid f s)) = Some r \<longrightarrow> P r"
proof (intro allI impI)
  fix t k r
  assume got: "fst (ss_get store t k (store_update store t1 t2 sid f s)) = Some r"
  show "P r"
  proof (cases "k = sid")
    case True
    from update_same[OF assms(1) got[unfolded True]] show ?thesis
      using assms(2,3) assms(4)[of "fst (ss_get store t1 sid s)"] by blast
  next
    case False
    then show ?thesis using update_other[OF assms(1)] got assms(2) by blast
  qed
qed

lemma step_inv: "inv s \<Longrightarrow> inv (session_step store t1 t2 op s)"
  by (auto simp: session_step_update update_inv split: option.splits)

lemma step_wf:
  assumes "inv s" "\<forall>t k r. fst (ss_get store t k s) = Some r \<longrightarrow> record_wf r"
  shows "\<forall>t k r. fst (ss_get store t k (session_step store t1 t2 op s)) = Some r \<longrightarrow> record_wf r"
proof (cases "op_session op")
  case None
  then show ?thesis using assms by (simp add: session_step_update)
next
  case (Some sid)
  show ?thesis
    using update_all[OF assms, of "op_effect op" t1 t2 sid] op_effect_wf Some
    by (simp add: session_step_update)
qed

lemma step_sticky:
  assumes "inv s" "fst (ss_get store t1 sid s) = Some r" "sr_readOnly r"
    and "\<forall>r. fst (ss_get store t' sid s) = Some r \<longrightarrow> sr_readOnly r"
    and "op \<noteq> SetReadOnly sid False"
    and got: "fst (ss_get store t' sid (session_step store t1 t2 op s)) = Some r'"
  shows "sr_readOnly r'"
proof (cases "op_session op = Some sid")
  case True
  have no: "op \<noteq> SetReadOnly sid' False" for sid' using assms(5) True by auto
  from True got have "fst (ss_get store t' sid (store_update store t1 t2 sid (op_effect op) s)) = Some r'"
    by (simp add: session_step_update)
  from update_same[OF assms(1) this] show ?thesis
    using op_effect_sticky[OF _ assms(3), of op] no assms(2,4) by fastforce
next
  case False
  then have "fst (ss_get store t' sid s) = Some r'"
  proof (cases "op_session op")
    case (Some k)
    with False have "sid \<noteq> k" by simp
    then show ?thesis
      using update_other[OF assms(1)] got Some by (simp add: session_step_update)
  qed (use got in \<open>simp add: session_step_update\<close>)
  with assms(4) show ?thesis by blast
qed

end


section \<open>The in-memory store keeps the contract\<close>

lemma evict_length: "length (evict cap xs) = min cap (length xs)"
  by (induction cap xs rule: evict.induct) auto

lemma evict_drop: "evict cap xs = drop (length xs - cap) xs"
  by (induction cap xs rule: evict.induct) (auto simp: Suc_diff_le not_le)

lemma ims_get_inv: "ims_inv s \<Longrightarrow> ims_inv (snd (ims_get t k s))"
  using length_delete_le[of k "sessions s"]
  by (auto simp: ims_get_def ims_inv_def distinct_delete split: option.splits)

lemma distinct_delete_append:
  "distinct (map fst xs) \<Longrightarrow> distinct (map fst (AList.delete k xs @ [(k, v)]))"
  by (auto simp: delete_keys distinct_removeAll)

lemma map_drop_keys: "map fst (drop n xs) = drop n (map fst xs)"
  by (simp add: drop_map)

lemma ims_set_inv: "ims_inv s \<Longrightarrow> ims_inv (ims_set t k r s)"
  using distinct_drop[OF distinct_delete_append[of "sessions s" k "r\<lparr>updatedAt := t\<rparr>"]]
  by (simp add: ims_set_def ims_inv_def evict_length evict_drop map_drop_keys
      del: distinct_append map_append drop_append)

lemma ims_get_fst:
  "fst (ims_get t k s) = Some r \<longleftrightarrow> map_of (sessions s) k = Some r \<and> \<not> expired (ttlMs s) t r"
  by (auto simp: ims_get_def split: option.splits)

lemma map_of_drop_Some:
  "distinct (map fst xs) \<Longrightarrow> map_of (drop n xs) k = Some v \<Longrightarrow> map_of xs k = Some v"
  using set_drop_subset[of n xs] by (auto simp: map_drop_keys)

lemma map_of_drop_last:
  "n \<le> length xs \<Longrightarrow> k \<notin> fst ` set xs \<Longrightarrow> map_of (drop n (xs @ [(k, v)])) k = Some v"
proof -
  assume "n \<le> length xs" "k \<notin> fst ` set xs"
  moreover have "map_of (drop n xs) k = None"
    using \<open>k \<notin> fst ` set xs\<close> set_drop_subset[of n xs] by (auto simp: map_of_eq_None_iff)
  ultimately show ?thesis by (simp add: map_add_def)
qed

lemma ims_set_other:
  assumes "ims_inv s" "map_of (sessions (ims_set t k r s)) k' = Some r'" "k' \<noteq> k"
  shows "map_of (sessions s) k' = Some r'"
proof -
  have "map_of (AList.delete k (sessions s) @ [(k, r\<lparr>updatedAt := t\<rparr>)]) k' = Some r'"
    using map_of_drop_Some[OF distinct_delete_append] assms
    by (auto simp: ims_set_def ims_inv_def evict_drop simp del: drop_append map_of_append)
  then show ?thesis
    using assms(3) by (auto simp: js_map.get_delete map_add_def split: option.splits)
qed

lemma ims_set_same:
  "ims_inv s \<Longrightarrow> map_of (sessions (ims_set t k r s)) k = Some (r\<lparr>updatedAt := t\<rparr>)"
proof -
  assume inv: "ims_inv s"
  let ?d = "AList.delete k (sessions s)"
  have "length (?d @ [(k, r\<lparr>updatedAt := t\<rparr>)]) - maxEntries s \<le> length ?d"
    using inv by (auto simp: ims_inv_def)
  then show ?thesis
    using map_of_drop_last[of _ ?d k "r\<lparr>updatedAt := t\<rparr>"]
    by (simp add: ims_set_def evict_drop delete_notin_dom del: drop_append)
qed

lemma ims_const [simp]:
  "ttlMs (ims_set t k r s) = ttlMs s" "ttlMs (snd (ims_get t k s)) = ttlMs s"
  by (auto simp: ims_set_def ims_get_def split: option.splits)

lemma ims_get_sessions:
  "map_of (sessions (snd (ims_get t k s))) k' = Some r \<Longrightarrow> map_of (sessions s) k' = Some r"
  by (auto simp: ims_get_def js_map.get_delete split: option.splits if_splits)

lemma inMemory_simps [simp]:
  "ss_get inMemory = ims_get" "ss_set inMemory = ims_set" "ss_list inMemory = Some ims_list"
  by (simp_all add: inMemory_def)

interpretation ims: session_store inMemory ims_inv ttlMs
proof
  fix s :: InMemorySessionStore and t t' k k' r r'
  assume inv: "ims_inv s"
  show "ims_inv (snd (ss_get inMemory t k s))" using inv by (simp add: ims_get_inv)
  show "ims_inv (ss_set inMemory t k r s)" using inv by (simp add: ims_set_inv)
  show "fst (ss_get inMemory t' k' s) = Some r"
    if "fst (ss_get inMemory t' k' (snd (ss_get inMemory t k s))) = Some r"
    using that ims_get_sessions[of t k s k' r] by (simp add: ims_get_fst)
  show "fst (ss_get inMemory t' k (ss_set inMemory t k r s)) = Some (r\<lparr>updatedAt := t\<rparr>)"
    if "t' - t \<le> ttlMs s"
    using that inv by (simp add: ims_get_fst ims_set_same expired_def)
  show "if k' = k then r' = r\<lparr>updatedAt := t\<rparr> else fst (ss_get inMemory t' k' s) = Some r'"
    if "fst (ss_get inMemory t' k' (ss_set inMemory t k r s)) = Some r'"
    using that ims_set_same[OF inv, of t k r] ims_set_other[OF inv, of t k r k' r']
    by (cases "k' = k") (simp_all add: ims_get_fst)
qed


section \<open>Runs of the store\<close>

inductive session_reach :: "'s SessionStore \<Rightarrow> 's \<Rightarrow> 's \<Rightarrow> bool" for store s where
  start: "session_reach store s s"
| writer: "session_reach store s s' \<Longrightarrow> session_reach store s (session_step store t1 t2 op s')"
| lookup: "session_reach store s s' \<Longrightarrow> session_reach store s (snd (ss_get store t sid s'))"
| sweep: "session_reach store s s' \<Longrightarrow>
    session_reach store s (sw_store (sweepExpiredSubAgentApprovals store resolver now t0 clk s'))"

context session_store
begin

lemma sweep_loop_keeps:
  assumes "\<And>s t1 t2 op. P s \<Longrightarrow> P (session_step store t1 t2 op s)" "P (sw_store st)"
  shows "P (sw_store (sweep_loop store resolve now clk pendings st))"
  using assms(2)
proof (induction pendings arbitrary: st)
  case (Cons x rest)
  obtain sid pending where "x = (sid, pending)" by (cases x)
  with Cons assms(1)[of "sw_store st" _ _ "ClearApproval sid"] show ?case
    by (simp add: Let_def split: prod.splits)
qed simp

lemma sweep_keeps:
  assumes "\<And>s t1 t2 op. P s \<Longrightarrow> P (session_step store t1 t2 op s)" "P s"
  shows "P (sw_store (sweepExpiredSubAgentApprovals store resolver now t0 clk s))"
  using sweep_loop_keeps[where P = P, OF assms(1)] assms(2)
  by (auto simp: sweepExpiredSubAgentApprovals_def Let_def split: option.splits)

lemma reach_wf:
  assumes "session_reach store s0 s" "inv s0"
    and "\<forall>t k r. fst (ss_get store t k s0) = Some r \<longrightarrow> record_wf r"
  shows "inv s \<and> (\<forall>t k r. fst (ss_get store t k s) = Some r \<longrightarrow> record_wf r)"
  using assms
proof (induction rule: session_reach.induct)
  case (writer s' t1 t2 op)
  then show ?case using step_inv step_wf by blast
next
  case (lookup s' t sid)
  then show ?case using get_inv get_get by blast
next
  case (sweep s' resolver now t0 clk)
  let ?P = "\<lambda>s. inv s \<and> (\<forall>t k r. fst (ss_get store t k s) = Some r \<longrightarrow> record_wf r)"
  have step: "?P (session_step store t1 t2 op s)" if "?P s" for s t1 t2 op
    using that step_inv step_wf by blast
  have "?P s'" using sweep by blast
  with step show ?case by (rule sweep_keeps[where P = ?P])
qed simp

end

definition new_store :: "int \<Rightarrow> nat \<Rightarrow> InMemorySessionStore" where
  "new_store ttl cap = \<lparr>ttlMs = ttl, maxEntries = cap, sessions = []\<rparr>"

lemma new_store_inv: "0 < cap \<Longrightarrow> 0 \<le> ttl \<Longrightarrow> ims_inv (new_store ttl cap)"
  by (simp add: new_store_def ims_inv_def)

lemma stored_is_readable:
  "ims_inv s \<Longrightarrow> map_of (sessions s) k = Some r \<Longrightarrow> fst (ims_get (updatedAt r) k s) = Some r"
  by (simp add: ims_get_fst expired_def ims_inv_def)

lemma session_step_const:
  "maxEntries (session_step inMemory t1 t2 op s) = maxEntries s \<and>
   ttlMs (session_step inMemory t1 t2 op s) = ttlMs s"
  by (auto simp: session_step_update store_update_def ims_get_def ims_set_def Let_def
      split: option.splits prod.splits)

lemma reach_const:
  "session_reach inMemory s0 s \<Longrightarrow> maxEntries s = maxEntries s0 \<and> ttlMs s = ttlMs s0"
proof (induction rule: session_reach.induct)
  case (lookup s' t sid)
  then show ?case by (auto simp: ims_get_def split: option.splits)
next
  case (sweep s' resolver now t0 clk)
  then show ?case
    using ims.sweep_keeps[where P = "\<lambda>s. maxEntries s = maxEntries s0 \<and> ttlMs s = ttlMs s0"]
      session_step_const by simp
qed (simp_all add: session_step_const)

text \<open>
  Whatever the writers, the reads and the sweep do to a new in-memory store, it keeps
  distinct session ids and its cap, and every record in it is well formed: never both an
  active skill and an active run, agent and run anchored together, and the run's flags only
  beside a run.
\<close>

theorem session_store_invariant:
  assumes "0 < cap" "0 \<le> ttl" "session_reach inMemory (new_store ttl cap) s"
  shows "distinct (map fst (sessions s)) \<and> length (sessions s) \<le> cap \<and>
         (\<forall>(sid, r) \<in> set (sessions s). record_wf r)"
proof -
  have reach: "ims_inv s \<and> (\<forall>t k r. fst (ims_get t k s) = Some r \<longrightarrow> record_wf r)"
    using ims.reach_wf[OF assms(3)] new_store_inv[OF assms(1,2)]
    by (simp add: new_store_def ims_get_fst)
  then have "record_wf r" if "(sid, r) \<in> set (sessions s)" for sid r
    using that stored_is_readable[of s sid r] by (auto simp: ims_inv_def)
  with reach show ?thesis
    using reach_const[OF assms(3)] by (auto simp: ims_inv_def new_store_def)
qed

definition run_a :: agent_run_ref where
  "run_a = \<lparr>run_subject = ''u'', run_agentId = ''swe'', run_agentRunId = ''run-1'', run_readOnly = True\<rparr>"

theorem session_store_invariant_witness:
  "let s = session_step inMemory 5 6 (ClearRun ''c1'')
             (session_step inMemory 1 2 (MarkRun ''c1'' run_a) (new_store 1000 2))
   in length (sessions s) = 1 \<and> distinct (map fst (sessions s)) \<and> length (sessions s) \<le> 2 \<and>
      (\<forall>(sid, r) \<in> set (sessions s). record_wf r)"
proof -
  let ?s = "session_step inMemory 5 6 (ClearRun ''c1'')
             (session_step inMemory 1 2 (MarkRun ''c1'' run_a) (new_store 1000 2))"
  have "session_reach inMemory (new_store 1000 2) ?s"
    by (intro session_reach.intros)
  from session_store_invariant[OF _ _ this] show ?thesis
    by (simp add: clearAgentRunAwaitingReply_def markAgentRunAwaitingReply_def ims_get_def
        ims_set_def new_store_def expired_def)
qed

text \<open>A run of writers, and that the session is there whenever a writer reads it.\<close>

fun session_run :: "'s SessionStore \<Rightarrow> (int \<times> int \<times> session_op) list \<Rightarrow> 's \<Rightarrow> 's" where
  "session_run store [] s = s"
| "session_run store ((t1, t2, op) # ops) s = session_run store ops (session_step store t1 t2 op s)"

fun present_throughout :: "string \<Rightarrow> (int \<times> int \<times> session_op) list \<Rightarrow> InMemorySessionStore \<Rightarrow> bool" where
  "present_throughout sid [] s = (map_of (sessions s) sid \<noteq> None)"
| "present_throughout sid ((t1, t2, op) # ops) s \<longleftrightarrow>
     fst (ims_get t1 sid s) \<noteq> None \<and> present_throughout sid ops (session_step inMemory t1 t2 op s)"

definition stored_read_only :: "string \<Rightarrow> InMemorySessionStore \<Rightarrow> bool" where
  "stored_read_only sid s \<longleftrightarrow>
     (case map_of (sessions s) sid of None \<Rightarrow> True | Some r \<Rightarrow> sr_readOnly r)"

lemma step_stored_read_only:
  assumes "ims_inv s" "fst (ims_get t1 sid s) \<noteq> None" "stored_read_only sid s"
    and "op \<noteq> SetReadOnly sid False"
  shows "stored_read_only sid (session_step inMemory t1 t2 op s)"
proof -
  have "sr_readOnly r'"
    if got: "map_of (sessions (session_step inMemory t1 t2 op s)) sid = Some r'" for r'
  proof -
    obtain r where r: "fst (ims_get t1 sid s) = Some r" using assms(2) by blast
    have ro: "sr_readOnly x" if "fst (ims_get t sid s) = Some x" for t x
      using that assms(3) by (simp add: ims_get_fst stored_read_only_def)
    show ?thesis
      using ims.step_sticky[OF assms(1), of t1 sid r "updatedAt r'" op t2 r'] r ro assms(4)
        stored_is_readable[OF ims.step_inv[OF assms(1)] got]
      by simp
  qed
  then show ?thesis by (simp add: stored_read_only_def split: option.splits)
qed

text \<open>
  C25. Sticky read-only. Once a conversation is stored as read-only, every sequence of writers
  that never makes it writable explicitly leaves it read-only, so its next turn without a
  trigger is read-only, as long as its record is still there whenever it is read.
\<close>

theorem read_only_is_sticky:
  assumes "ims_inv s" "stored_read_only sid s" "present_throughout sid ops s"
    and "\<forall>(t1, t2, op) \<in> set ops. op \<noteq> SetReadOnly sid False"
  shows "turn_read_only (map_of (sessions (session_run inMemory ops s)) sid) None"
  using assms
proof (induction ops arbitrary: s)
  case Nil
  then show ?case by (auto simp: turn_read_only_def stored_read_only_def)
next
  case (Cons x ops)
  obtain t1 t2 op where x: "x = (t1, t2, op)" by (cases x)
  show ?case
    using Cons.IH[OF ims.step_inv step_stored_read_only] Cons.prems x by auto
qed

definition outcome_done :: turn_outcome where
  "outcome_done =
     \<lparr>selectedSkill = Some ''sk'', selectedAgent = None, oc_agentRunId = None,
      agentAwaitingReply = False, agentResumePending = False, extractedContinuation = None,
      extractedAgentContinuation = None, oc_pendingIdentityLink = None, identityLinkPending = False,
      oc_approvalPending = None, approvalWaiting = False, oc_subAgentApprovalPending = None,
      subAgentApprovalWaiting = False, oc_readOnly = False\<rparr>"

theorem read_only_is_sticky_witness:
  "turn_read_only
     (map_of (sessions (session_run inMemory
        [(2, 2, MarkRun ''c1'' run_a), (3, 4, Persist (Some ''c1'') (Some ''u'') outcome_done)]
        (setSessionReadOnly inMemory 1 1 ''c1'' True (new_store 1000 2)))) ''c1'') None"
  by (rule read_only_is_sticky) code_simp+

text \<open>
  The mode written before a turn runs decides the mode of the conversation's next turn
  without a trigger, in both directions: a writable trigger turn makes a read-only
  conversation writable again, although the record's documentation calls \<open>readOnly\<close> monotonic.
\<close>

theorem eager_mode_decides_next_turn:
  assumes "ims_inv s" "t3 - t2 \<le> ttlMs s"
    and "\<forall>r. map_of (sessions s) sid = Some r \<longrightarrow> expired (ttlMs s) t3 r = expired (ttlMs s) t1 r"
  shows "turn_read_only (fst (ims_get t3 sid (setSessionReadOnly inMemory t1 t2 sid ro s))) None = ro"
proof -
  obtain e s1 where get: "ims_get t1 sid s = (e, s1)" by (cases "ims_get t1 sid s")
  have inv: "ims_inv s1" and ttl: "ttlMs s1 = ttlMs s"
    using ims_get_inv[OF assms(1), of t1 sid] ims_const(2)[of t1 sid s] get by simp_all
  have again: "fst (ims_get t3 sid s1) = e"
    using get assms(3) by (auto simp: ims_get_def js_map.get_delete split: option.splits if_splits)
  have "fst (ims_get t3 sid (ims_set t2 sid r s1)) = Some (r\<lparr>updatedAt := t2\<rparr>)" for r
    using ims.get_set_same[OF inv, of t3 t2 sid r] assms(2) ttl by simp
  with again show ?thesis
    by (auto simp: setSessionReadOnly_def get turn_read_only_def Let_def split: option.splits)
qed

theorem eager_mode_decides_next_turn_witness:
  "turn_read_only
     (fst (ims_get 9 ''c1'' (setSessionReadOnly inMemory 7 8 ''c1'' False
        (setSessionReadOnly inMemory 1 1 ''c1'' True (new_store 1000 2))))) None = False"
proof (rule eager_mode_decides_next_turn)
  let ?s = "setSessionReadOnly inMemory 1 1 ''c1'' True (new_store 1000 2)"
  show "ims_inv ?s" "9 - 8 \<le> ttlMs ?s" by code_simp+
  show "\<forall>r. map_of (sessions ?s) ''c1'' = Some r \<longrightarrow>
          expired (ttlMs ?s) 9 r = expired (ttlMs ?s) 7 r"
    by (simp add: setSessionReadOnly_def ims_get_def ims_set_def new_store_def expired_def)
qed

text \<open>
  The mode of an anchored run: whatever branch \<open>persistSession\<close> takes, a run the session
  already anchored keeps the mode it was launched with, and a newly anchored run has the mode
  of the turn that launched it.
\<close>

theorem persisted_run_keeps_launch_mode:
  assumes "persist_record existing subj oc = Some r" "activeAgentRunId r = Some runId"
  shows "activeAgentRunReadOnly r =
           (case existing of
              Some e \<Rightarrow> if activeAgentRunId e = Some runId then activeAgentRunReadOnly e else oc_readOnly oc
            | None \<Rightarrow> oc_readOnly oc)"
  using assms
  by (auto simp: persist_record_def persist_base_def blank_record_def runReadOnly_def Let_def
      split: if_splits option.splits)

theorem persisted_run_keeps_launch_mode_witness:
  "let existing = op_effect (MarkRun ''c1'' run_a) None;
       oc = outcome_done\<lparr>selectedSkill := None, selectedAgent := Some ''swe'',
              oc_agentRunId := Some ''run-1'', agentAwaitingReply := True\<rparr>
   in activeAgentRunReadOnly (the (persist_record existing ''u'' oc)) = True"
proof -
  let ?e = "op_effect (MarkRun ''c1'' run_a) None"
  let ?oc = "outcome_done\<lparr>selectedSkill := None, selectedAgent := Some ''swe'',
              oc_agentRunId := Some ''run-1'', agentAwaitingReply := True\<rparr>"
  let ?r = "the (persist_record ?e ''u'' ?oc)"
  have "persist_record ?e ''u'' ?oc = Some ?r" "activeAgentRunId ?r = Some ''run-1''"
    by (simp_all add: persist_record_def persist_base_def outcome_done_def Let_def)
  from persisted_run_keeps_launch_mode[OF this] show ?thesis by (simp add: run_a_def)
qed

text \<open>The entries a sweep acts on, and what it leaves of a session.\<close>

definition overdue :: "int \<Rightarrow> string \<times> SubAgentApprovalPending \<Rightarrow> bool" where
  "overdue now e \<longleftrightarrow> sap_expiresAt (snd e) < now"

definition resolved :: "(string \<Rightarrow> string \<Rightarrow> bool) \<Rightarrow> string \<times> SubAgentApprovalPending \<Rightarrow> bool" where
  "resolved resolve e \<longleftrightarrow> resolve (sap_runId (snd e)) (sap_callId (snd e))"

lemma sweep_loop_calls:
  "sw_calls (sweep_loop store resolve now clk ps st) =
     sw_calls st @ map (\<lambda>e. (sap_runId (snd e), sap_callId (snd e))) (filter (overdue now) ps)"
  by (induction store resolve now clk ps st rule: sweep_loop.induct)
    (auto simp: overdue_def Let_def split: prod.splits)

lemma sweep_loop_count:
  "sw_timedOut (sweep_loop store resolve now clk ps st) =
     sw_timedOut st + length (filter (\<lambda>e. overdue now e \<and> resolved resolve e) ps)"
  by (induction store resolve now clk ps st rule: sweep_loop.induct)
    (auto simp: overdue_def resolved_def Let_def split: prod.splits)

lemma ims_set_present:
  assumes "ims_inv s" "map_of (sessions s) k = Some r0" "k' \<noteq> k"
  shows "map_of (sessions (ims_set t k r s)) k' = map_of (sessions s) k'"
proof -
  have "k \<in> fst ` set (sessions s)" using assms(2) map_of_SomeD by force
  then have "length (AList.delete k (sessions s)) < length (sessions s)"
    by (auto simp: AList.delete_eq intro: length_filter_less)
  then have "Suc (length (AList.delete k (sessions s))) \<le> maxEntries s"
    using assms(1) by (simp add: ims_inv_def)
  then show ?thesis
    using assms(3) by (auto simp: ims_set_def evict_drop js_map.get_delete map_add_def split: option.splits)
qed

lemma clear_other:
  "ims_inv s \<Longrightarrow> k' \<noteq> k \<Longrightarrow>
     map_of (sessions (clearSubAgentApproval inMemory t1 t2 k s)) k' = map_of (sessions s) k'"
  by (auto simp: clearSubAgentApproval_def ims_get_def ims_set_present js_map.get_delete
      split: option.splits)

definition approval_cleared :: "SessionRecord \<Rightarrow> SessionRecord option \<Rightarrow> bool" where
  "approval_cleared r r' \<longleftrightarrow>
     (case r' of None \<Rightarrow> True
      | Some x \<Rightarrow> x = r\<lparr>subAgentApprovalPending := None, updatedAt := updatedAt x\<rparr>)"

lemma clear_same:
  "ims_inv s \<Longrightarrow> map_of (sessions s) k = Some r \<Longrightarrow>
     approval_cleared r (map_of (sessions (clearSubAgentApproval inMemory t1 t2 k s)) k)"
  by (simp add: clearSubAgentApproval_def ims_get_def ims_set_same approval_cleared_def js_map.get_delete)

lemma clear_inv: "ims_inv s \<Longrightarrow> ims_inv (clearSubAgentApproval inMemory t1 t2 k s)"
  using ims.step_inv[of s t1 t2 "ClearApproval k"] by simp

lemma sweep_loop_untouched:
  assumes "\<forall>p. (sid, p) \<in> set ps \<longrightarrow> \<not> (overdue now (sid, p) \<and> resolved resolve (sid, p))"
    and "ims_inv (sw_store st)"
  shows "map_of (sessions (sw_store (sweep_loop inMemory resolve now clk ps st))) sid =
         map_of (sessions (sw_store st)) sid"
  using assms
proof (induction ps arbitrary: st)
  case (Cons e ps)
  obtain k p where e: "e = (k, p)" by (cases e)
  show ?case
    using Cons e clear_other[OF Cons.prems(2), of sid k] clear_inv[OF Cons.prems(2)]
    by (fastforce simp: overdue_def resolved_def Let_def split: prod.splits)
qed simp

lemma sweep_loop_cleared:
  assumes "distinct (map fst ps)" "ims_inv (sw_store st)"
    and "map_of (sessions (sw_store st)) sid = Some r"
    and "(sid, p) \<in> set ps" "overdue now (sid, p)" "resolved resolve (sid, p)"
  shows "approval_cleared r
           (map_of (sessions (sw_store (sweep_loop inMemory resolve now clk ps st))) sid)"
  using assms
proof (induction ps arbitrary: st)
  case (Cons e ps)
  obtain k q where e: "e = (k, q)" by (cases e)
  obtain t1 t2 where t: "clk (length (sw_calls st)) = (t1, t2)" by force
  let ?st = "\<lparr>sw_store = clearSubAgentApproval inMemory t1 t2 k (sw_store st),
               sw_calls = sw_calls st @ [(sap_runId q, sap_callId q)],
               sw_timedOut = Suc (sw_timedOut st)\<rparr>"
  show ?case
  proof (cases "k = sid")
    case True
    have "q = p" "\<forall>p. (sid, p) \<notin> set ps" using Cons.prems(1,4) e True by (auto simp: rev_image_eqI)
    moreover have "map_of (sessions (sw_store (sweep_loop inMemory resolve now clk ps ?st))) sid =
                   map_of (sessions (sw_store ?st)) sid"
      using calculation clear_inv[OF Cons.prems(2)] by (intro sweep_loop_untouched) auto
    ultimately show ?thesis
      using Cons.prems(3,5,6) e True t clear_same[OF Cons.prems(2,3), of t1 t2]
      by (simp add: overdue_def resolved_def Let_def)
  next
    case False
    have ih: "approval_cleared r (map_of (sessions (sw_store (sweep_loop inMemory resolve now clk ps st'))) sid)"
      if "ims_inv (sw_store st')" "map_of (sessions (sw_store st')) sid = Some r" for st'
      using Cons.IH[OF _ that] Cons.prems e False by auto
    show ?thesis
      using ih[of st] ih[of ?st] ih[of "st\<lparr>sw_calls := sw_calls st @ [(sap_runId q, sap_callId q)]\<rparr>"]
        Cons.prems(2,3) clear_inv[OF Cons.prems(2)] clear_other[OF Cons.prems(2), of sid k] False e t
      by (auto simp: Let_def)
  qed
qed simp

lemma ims_list_mem:
  "ims_inv s \<Longrightarrow> (sid, p) \<in> set (ims_list t s) \<longleftrightarrow>
     (\<exists>r. map_of (sessions s) sid = Some r \<and> \<not> expired (ttlMs s) t r \<and> subAgentApprovalPending r = Some p)"
  by (auto simp: ims_list_def map_filter_def ims_inv_def image_iff split: if_splits)
    (metis (no_types, lifting) case_prod_conv map_of_SomeD option.simps(9) option.sel option.simps(3))

lemma distinct_map_filter_keys:
  "distinct (map fst xs) \<Longrightarrow>
     distinct (map fst (List.map_filter (\<lambda>(k, v). map_option (\<lambda>p. (k, p)) (f k v)) xs))"
  by (induction xs) (auto simp: List.map_filter_def image_iff split: option.splits)

lemma ims_list_distinct: "ims_inv s \<Longrightarrow> distinct (map fst (ims_list t s))"
proof -
  assume "ims_inv s"
  moreover have "ims_list t s = List.map_filter
      (\<lambda>(k, v). map_option (\<lambda>p. (k, p)) (if expired (ttlMs s) t v then None else subAgentApprovalPending v))
      (sessions s)"
    unfolding ims_list_def by (rule arg_cong2[where f = List.map_filter]) (auto split: if_splits)
  ultimately show ?thesis by (simp add: distinct_map_filter_keys ims_inv_def)
qed

text \<open>
  One pass of the approval sweep over the in-memory store. It resolves exactly the held
  calls of unexpired sessions whose deadline has passed, once each and in the order of the
  store, and counts those whose publish succeeded. Of such a session it clears the pause and
  keeps every other field (the run's anchor included); a record it did not resolve, because
  it is not overdue or the publish failed, is untouched.
\<close>

theorem sweep_times_out_overdue_approvals:
  assumes inv: "ims_inv s" and r: "map_of (sessions s) sid = Some r"
    and res: "res = sweepExpiredSubAgentApprovals inMemory (Some resolve) now t0 clk s"
  shows "sw_calls res = map (\<lambda>(_, p). (sap_runId p, sap_callId p)) (filter (overdue now) (ims_list t0 s)) \<and>
     sw_timedOut res = length (filter (resolved resolve) (filter (overdue now) (ims_list t0 s))) \<and>
     (if \<exists>p. subAgentApprovalPending r = Some p \<and> \<not> expired (ttlMs s) t0 r \<and>
             sap_expiresAt p < now \<and> resolve (sap_runId p) (sap_callId p)
      then approval_cleared r (map_of (sessions (sw_store res)) sid)
      else map_of (sessions (sw_store res)) sid = Some r)"
proof -
  let ?st = "\<lparr>sw_store = s, sw_calls = [], sw_timedOut = 0\<rparr>"
  have eq: "res = sweep_loop inMemory resolve now clk (ims_list t0 s) ?st"
    by (simp add: res sweepExpiredSubAgentApprovals_def)
  have hit: "(\<exists>p. (sid, p) \<in> set (ims_list t0 s) \<and> overdue now (sid, p) \<and> resolved resolve (sid, p)) \<longleftrightarrow>
        (\<exists>p. subAgentApprovalPending r = Some p \<and> \<not> expired (ttlMs s) t0 r \<and>
             sap_expiresAt p < now \<and> resolve (sap_runId p) (sap_callId p))"
    using r by (auto simp: ims_list_mem[OF inv] overdue_def resolved_def)
  have "if \<exists>p. (sid, p) \<in> set (ims_list t0 s) \<and> overdue now (sid, p) \<and> resolved resolve (sid, p)
        then approval_cleared r (map_of (sessions (sw_store res)) sid)
        else map_of (sessions (sw_store res)) sid = Some r"
    using sweep_loop_cleared[OF ims_list_distinct[OF inv], of ?st sid r _ t0 now resolve clk]
      sweep_loop_untouched[of sid "ims_list t0 s" now resolve ?st clk] inv r
    by (auto simp: eq)
  moreover have "sw_timedOut res = length (filter (resolved resolve) (filter (overdue now) (ims_list t0 s)))"
    by (simp add: eq sweep_loop_count conj_commute)
  moreover have "sw_calls res =
      map (\<lambda>(_, p). (sap_runId p, sap_callId p)) (filter (overdue now) (ims_list t0 s))"
    by (simp add: eq sweep_loop_calls case_prod_beta)
  ultimately show ?thesis unfolding hit by blast
qed

definition pending_a :: SubAgentApprovalPending where
  "pending_a = \<lparr>sap_runId = ''run-1'', sap_callId = ''k1'', sap_tool = ''gh'', sap_input = ''pr list'',
     sap_agentId = ''swe'', sap_subject = ''u'', sap_expiresAt = 50\<rparr>"

theorem sweep_times_out_overdue_approvals_witness:
  "let s = markSubAgentApproval inMemory 1 2 ''c1'' pending_a (new_store 1000 2);
       res = sweepExpiredSubAgentApprovals inMemory (Some (\<lambda>_ _. True)) 60 60 (\<lambda>_. (61, 62)) s
   in sw_calls res = [(''run-1'', ''k1'')] \<and> sw_timedOut res = 1 \<and>
      approval_cleared (the (map_of (sessions s) ''c1'')) (map_of (sessions (sw_store res)) ''c1'')"
proof -
  let ?s = "markSubAgentApproval inMemory 1 2 ''c1'' pending_a (new_store 1000 2)"
  let ?r = "the (map_of (sessions ?s) ''c1'')"
  have "ims_inv ?s" "map_of (sessions ?s) ''c1'' = Some ?r"
    "subAgentApprovalPending ?r = Some pending_a" "\<not> expired (ttlMs ?s) 60 ?r"
    "ims_list 60 ?s = [(''c1'', pending_a)]" "overdue 60 (''c1'', pending_a)"
    by (code_simp, simp add: markSubAgentApproval_def ims_get_def ims_set_def new_store_def, code_simp+)
  from sweep_times_out_overdue_approvals[OF this(1,2) refl, of "\<lambda>_ _. True" 60 60 "\<lambda>_. (61, 62)"] this(3-)
  show ?thesis
    by (simp add: resolved_def pending_a_def overdue_def Let_def)
qed

end
