(* ===== verification/Effect_Monad.thy ===== *)
theory Effect_Monad
  imports Js_Prelude
begin

text \<open>
  Asynchronous code that calls out to services, as functions over the log of those calls. A
  computation takes the events so far and returns what it threw (\<open>Inl\<close>) or its value
  (\<open>Inr\<close>), with the events appended. A service is a strategy: its answer depends on the
  whole log, so it may change between calls, fail, or contradict itself. The event of a call
  records the call and its answer.

  Statements about such code are weakest preconditions \<open>wp m Q\<close>, computed by the equations
  \<open>wp_simps\<close>, and statements \<open>emits A m\<close> about every event a computation adds, whether it
  returns or throws, with the rules \<open>emits_rules\<close>.
\<close>

type_synonym ('v, 'e, 'a) eff = "'v list \<Rightarrow> ('e + 'a) \<times> 'v list"

definition return_e :: "'a \<Rightarrow> ('v, 'e, 'a) eff" where
  "return_e x = (\<lambda>log. (Inr x, log))"

definition throw_e :: "'e \<Rightarrow> ('v, 'e, 'a) eff" where
  "throw_e e = (\<lambda>log. (Inl e, log))"

definition bind_e :: "('v, 'e, 'a) eff \<Rightarrow> ('a \<Rightarrow> ('v, 'e, 'b) eff) \<Rightarrow> ('v, 'e, 'b) eff" where
  "bind_e m f = (\<lambda>log. case m log of (Inl e, log') \<Rightarrow> (Inl e, log') | (Inr x, log') \<Rightarrow> f x log')"

text \<open>\<open>try\<close>: what was thrown becomes a value.\<close>

definition try_e :: "('v, 'e, 'a) eff \<Rightarrow> ('v, 'e, 'e + 'a) eff" where
  "try_e m = (\<lambda>log. case m log of (r, log') \<Rightarrow> (Inr r, log'))"

text \<open>One call of a service: its answer, and the event that records it.\<close>

definition call_e :: "('v list \<Rightarrow> 'e + 'a) \<Rightarrow> ('e + 'a \<Rightarrow> 'v) \<Rightarrow> ('v, 'e, 'a) eff" where
  "call_e f ev = (\<lambda>log. (f log, log @ [ev (f log)]))"

text \<open>A notification: an event without an answer.\<close>

definition emit_e :: "'v \<Rightarrow> ('v, 'e, unit) eff" where
  "emit_e v = (\<lambda>log. (Inr (), log @ [v]))"

text \<open>A value of the world at this point, such as the clock.\<close>

definition read_e :: "('v list \<Rightarrow> 'a) \<Rightarrow> ('v, 'e, 'a) eff" where
  "read_e f = (\<lambda>log. (Inr (f log), log))"

text \<open>A pure computation that may throw.\<close>

definition lift_e :: "'e + 'a \<Rightarrow> ('v, 'e, 'a) eff" where
  "lift_e r = (\<lambda>log. (r, log))"

named_theorems eff_defs \<open>definitions of the effect combinators\<close>

lemmas [eff_defs] = return_e_def throw_e_def bind_e_def try_e_def call_e_def emit_e_def read_e_def lift_e_def


section \<open>Weakest preconditions\<close>

text \<open>\<open>wp m Q log\<close>: if \<open>m\<close> returns from \<open>log\<close>, then \<open>Q\<close> holds of its value and the log.\<close>

definition wp :: "('v, 'e, 'a) eff \<Rightarrow> ('a \<Rightarrow> 'v list \<Rightarrow> bool) \<Rightarrow> 'v list \<Rightarrow> bool" where
  "wp m Q log \<longleftrightarrow> (case m log of (Inl _, _) \<Rightarrow> True | (Inr x, log') \<Rightarrow> Q x log')"

named_theorems wp_simps \<open>equations that compute weakest preconditions\<close>

lemma wp_return [wp_simps]: "wp (return_e x) Q log = Q x log"
  by (simp add: wp_def return_e_def)

lemma wp_throw [wp_simps]: "wp (throw_e e) Q log"
  by (simp add: wp_def throw_e_def)

lemma wp_bind [wp_simps]: "wp (bind_e m f) Q log = wp m (\<lambda>x. wp (f x) Q) log"
  by (auto simp: wp_def bind_e_def split: prod.splits sum.splits)

lemma wp_call [wp_simps]:
  "wp (call_e f ev) Q log = (\<forall>x. f log = Inr x \<longrightarrow> Q x (log @ [ev (Inr x)]))"
  by (auto simp: wp_def call_e_def split: sum.splits)

lemma wp_try_call [wp_simps]:
  "wp (try_e (call_e f ev)) Q log = Q (f log) (log @ [ev (f log)])"
  by (simp add: wp_def call_e_def try_e_def)

lemma wp_emit [wp_simps]: "wp (emit_e v) Q log = Q () (log @ [v])"
  by (simp add: wp_def emit_e_def)

lemma wp_read [wp_simps]: "wp (read_e f) Q log = Q (f log) log"
  by (simp add: wp_def read_e_def)

lemma wp_lift [wp_simps]: "wp (lift_e r) Q log = (\<forall>x. r = Inr x \<longrightarrow> Q x log)"
  by (auto simp: wp_def lift_e_def split: sum.splits)

lemma wp_if [wp_simps]: "wp (if b then m else n) Q log = (if b then wp m Q log else wp n Q log)"
  by simp

lemma wp_option [wp_simps]:
  "wp (case v of None \<Rightarrow> m | Some x \<Rightarrow> f x) Q log =
     (case v of None \<Rightarrow> wp m Q log | Some x \<Rightarrow> wp (f x) Q log)"
  by (simp split: option.splits)

lemma wp_sum [wp_simps]:
  "wp (case v of Inl e \<Rightarrow> g e | Inr x \<Rightarrow> f x) Q log =
     (case v of Inl e \<Rightarrow> wp (g e) Q log | Inr x \<Rightarrow> wp (f x) Q log)"
  by (simp split: sum.splits)

lemma wp_prod [wp_simps]:
  "wp (case v of (x, y) \<Rightarrow> f x y) Q log = (case v of (x, y) \<Rightarrow> wp (f x y) Q log)"
  by (simp split: prod.splits)

lemma wp_let [wp_simps]: "wp (let x = v in f x) Q log = (let x = v in wp (f x) Q log)"
  by (simp add: Let_def)

lemma wp_mono: "wp m Q log \<Longrightarrow> (\<And>x log'. Q x log' \<Longrightarrow> Q' x log') \<Longrightarrow> wp m Q' log"
  by (auto simp: wp_def split: prod.splits sum.splits)

lemma wp_conj: "wp m Q log \<Longrightarrow> wp m Q' log \<Longrightarrow> wp m (\<lambda>x log. Q x log \<and> Q' x log) log"
  by (auto simp: wp_def split: prod.splits sum.splits)

lemma wp_use: "wp m Q log \<Longrightarrow> m log = (Inr x, log') \<Longrightarrow> Q x log'"
  by (simp add: wp_def)


section \<open>Events\<close>

text \<open>What every event of a computation satisfies.\<close>

definition emits :: "('v \<Rightarrow> bool) \<Rightarrow> ('v, 'e, 'a) eff \<Rightarrow> bool" where
  "emits A m \<longleftrightarrow> (\<forall>log. \<exists>new. snd (m log) = log @ new \<and> list_all A new)"

named_theorems emits_rules \<open>introduction rules for \<open>emits\<close>\<close>

lemma emits_return [emits_rules]: "emits A (return_e x)"
  by (simp add: emits_def return_e_def)

lemma emits_throw [emits_rules]: "emits A (throw_e x)"
  by (simp add: emits_def throw_e_def)

lemma emits_bind [emits_rules]: "emits A m \<Longrightarrow> (\<And>x. emits A (f x)) \<Longrightarrow> emits A (bind_e m f)"
  unfolding emits_def bind_e_def
proof (intro allI)
  fix log
  assume m: "\<forall>log. \<exists>new. snd (m log) = log @ new \<and> list_all A new"
    and f: "\<And>x. \<forall>log. \<exists>new. snd (f x log) = log @ new \<and> list_all A new"
  obtain r l where ml: "m log = (r, l)" by (cases "m log")
  obtain n1 where n1: "l = log @ n1" "list_all A n1" using m ml by (metis snd_conv)
  show "\<exists>new. snd (case m log of (Inl e, log') \<Rightarrow> (Inl e, log') | (Inr x, log') \<Rightarrow> f x log') =
          log @ new \<and> list_all A new"
  proof (cases r)
    case (Inl e)
    then show ?thesis using ml n1 by auto
  next
    case (Inr x)
    obtain n2 where "snd (f x l) = l @ n2" "list_all A n2" using f by blast
    then show ?thesis using Inr ml n1 by (intro exI[of _ "n1 @ n2"]) simp
  qed
qed

lemma emits_try [emits_rules]: "emits A m \<Longrightarrow> emits A (try_e m)"
  by (auto simp: emits_def try_e_def split: prod.splits)
    (metis snd_conv)

lemma emits_call [emits_rules]: "(\<And>r. A (ev r)) \<Longrightarrow> emits A (call_e f ev)"
  by (simp add: emits_def call_e_def)

lemma emits_emit [emits_rules]: "A v \<Longrightarrow> emits A (emit_e v)"
  by (simp add: emits_def emit_e_def)

lemma emits_read [emits_rules]: "emits A (read_e f)"
  by (simp add: emits_def read_e_def)

lemma emits_lift [emits_rules]: "emits A (lift_e r)"
  by (simp add: emits_def lift_e_def)

lemma emits_if [emits_rules]:
  "(b \<Longrightarrow> emits A m) \<Longrightarrow> (\<not> b \<Longrightarrow> emits A n) \<Longrightarrow> emits A (if b then m else n)"
  by simp

lemma emits_option [emits_rules]:
  "(v = None \<Longrightarrow> emits A m) \<Longrightarrow> (\<And>x. v = Some x \<Longrightarrow> emits A (f x)) \<Longrightarrow>
     emits A (case v of None \<Rightarrow> m | Some x \<Rightarrow> f x)"
  by (cases v) simp_all

lemma emits_sum [emits_rules]:
  "(\<And>e. v = Inl e \<Longrightarrow> emits A (g e)) \<Longrightarrow> (\<And>x. v = Inr x \<Longrightarrow> emits A (f x)) \<Longrightarrow>
     emits A (case v of Inl e \<Rightarrow> g e | Inr x \<Rightarrow> f x)"
  by (cases v) simp_all

lemma emits_let [emits_rules]: "(\<And>x. x = v \<Longrightarrow> emits A (f x)) \<Longrightarrow> emits A (let x = v in f x)"
  by simp

lemma emits_prod [emits_rules]:
  "(\<And>x y. v = (x, y) \<Longrightarrow> emits A (f x y)) \<Longrightarrow> emits A (case v of (x, y) \<Rightarrow> f x y)"
  by (cases v) simp

lemma emits_mono: "emits A m \<Longrightarrow> (\<And>v. A v \<Longrightarrow> B v) \<Longrightarrow> emits B m"
  unfolding emits_def by (metis list.pred_mono_strong)

lemma emits_events: "emits A m \<Longrightarrow> list_all A (snd (m []))"
  unfolding emits_def by (metis append_Nil)

text \<open>Weakest preconditions step by step, and what holds of every longer log.\<close>

lemma wp_bindI: "wp m R log \<Longrightarrow> (\<And>x log'. R x log' \<Longrightarrow> wp (f x) Q log') \<Longrightarrow> wp (bind_e m f) Q log"
  by (simp add: wp_bind wp_mono)

lemma wp_bind_any: "(\<And>x log'. wp (f x) Q log') \<Longrightarrow> wp (bind_e m f) Q log"
  by (rule wp_bindI[where R = "\<lambda>_ _. True"]) (auto simp: wp_def split: sum.splits prod.splits)

lemma wp_keep:
  assumes "emits A m" "M log" "\<And>log new. M log \<Longrightarrow> M (log @ new)" "wp m Q log"
  shows "wp m (\<lambda>x log. Q x log \<and> M log) log"
proof -
  obtain r l where ml: "m log = (r, l)" by (cases "m log")
  moreover obtain new where "snd (m log) = log @ new" using assms(1) by (auto simp: emits_def)
  ultimately show ?thesis using assms(2-4) by (cases r) (auto simp: wp_def)
qed

text \<open>The continuation needs to be considered only at the values the first part returns.\<close>

lemma emits_bind_wp:
  assumes m: "emits A m" and w: "\<And>log. wp m (\<lambda>x _. R x) log" and f: "\<And>x. R x \<Longrightarrow> emits A (f x)"
  shows "emits A (bind_e m f)"
  unfolding emits_def bind_e_def
proof (intro allI)
  fix log
  obtain r l where ml: "m log = (r, l)" by (cases "m log")
  obtain n1 where n1: "l = log @ n1" "list_all A n1" using m ml unfolding emits_def by (metis snd_conv)
  show "\<exists>new. snd (case m log of (Inl e, log') \<Rightarrow> (Inl e, log') | (Inr x, log') \<Rightarrow> f x log') =
          log @ new \<and> list_all A new"
  proof (cases r)
    case (Inl e)
    then show ?thesis using ml n1 by auto
  next
    case (Inr x)
    then have "R x" using w[of log] ml by (simp add: wp_def)
    then obtain n2 where "snd (f x l) = l @ n2" "list_all A n2" using f unfolding emits_def by blast
    then show ?thesis using Inr ml n1 by (intro exI[of _ "n1 @ n2"]) simp
  qed
qed

lemma emits_grows: "emits A m \<Longrightarrow> set trail \<subseteq> set (snd (m trail))"
  unfolding emits_def by (metis Un_upper1 set_append)

lemma emits_new:
  "emits A m \<Longrightarrow> e \<in> set (snd (m trail)) \<Longrightarrow> e \<notin> set trail \<Longrightarrow> A e"
  unfolding emits_def list_all_iff by (metis Un_iff set_append)


section \<open>Results and new events together\<close>

text \<open>
  \<open>does m P\<close>: from every log, \<open>m\<close> appends events and ends with a result, returned or thrown,
  that are related by \<open>P\<close>.
\<close>

definition does :: "('v, 'e, 'a) eff \<Rightarrow> ('e + 'a \<Rightarrow> 'v list \<Rightarrow> bool) \<Rightarrow> bool" where
  "does m P \<longleftrightarrow> (\<forall>log. \<exists>new. snd (m log) = log @ new \<and> P (fst (m log)) new)"

named_theorems does_rules \<open>introduction rules for \<open>does\<close>\<close>

lemma does_use: "does m P \<Longrightarrow> m log = (r, log') \<Longrightarrow> \<exists>new. log' = log @ new \<and> P r new"
  unfolding does_def by (metis fst_conv snd_conv)

lemma does_return [does_rules]: "P (Inr x) [] \<Longrightarrow> does (return_e x) P"
  by (simp add: does_def return_e_def)

lemma does_throw [does_rules]: "P (Inl e) [] \<Longrightarrow> does (throw_e e) P"
  by (simp add: does_def throw_e_def)

lemma does_lift [does_rules]: "P r [] \<Longrightarrow> does (lift_e r) P"
  by (simp add: does_def lift_e_def)

lemma does_call [does_rules]: "(\<And>r. P r [ev r]) \<Longrightarrow> does (call_e f ev) P"
  by (simp add: does_def call_e_def)

lemma does_emit [does_rules]: "P (Inr ()) [v] \<Longrightarrow> does (emit_e v) P"
  by (simp add: does_def emit_e_def)

lemma does_read [does_rules]: "(\<And>x. P (Inr x) []) \<Longrightarrow> does (read_e f) P"
  by (simp add: does_def read_e_def)

lemma does_try [does_rules]: "does m (\<lambda>r new. P (Inr r) new) \<Longrightarrow> does (try_e m) P"
  by (simp add: does_def try_e_def split_beta)

lemma does_if [does_rules]: "(b \<Longrightarrow> does m P) \<Longrightarrow> (\<not> b \<Longrightarrow> does n P) \<Longrightarrow> does (if b then m else n) P"
  by simp

lemma does_mono: "does m P \<Longrightarrow> (\<And>r new. P r new \<Longrightarrow> Q r new) \<Longrightarrow> does m Q"
  unfolding does_def by blast

lemma does_emits: "emits A m \<longleftrightarrow> does m (\<lambda>_ new. list_all A new)"
  by (simp add: emits_def does_def)

lemma does_conj: "does m P \<Longrightarrow> does m Q \<Longrightarrow> does m (\<lambda>r new. P r new \<and> Q r new)"
  unfolding does_def by (metis same_append_eq)

lemma does_bind:
  assumes m: "does m P" and thrown: "\<And>e new. P (Inl e) new \<Longrightarrow> R (Inl e) new"
    and f: "\<And>x first. P (Inr x) first \<Longrightarrow> does (f x) (\<lambda>r new. R r (first @ new))"
  shows "does (bind_e m f) R"
  unfolding does_def
proof
  fix log
  obtain n1 where n1: "snd (m log) = log @ n1" "P (fst (m log)) n1" using m unfolding does_def by blast
  show "\<exists>new. snd (bind_e m f log) = log @ new \<and> R (fst (bind_e m f log)) new"
  proof (cases "fst (m log)")
    case (Inl e)
    then show ?thesis using n1 thrown by (intro exI[of _ n1]) (auto simp: bind_e_def split_beta)
  next
    case (Inr x)
    then obtain n2 where "snd (f x (log @ n1)) = (log @ n1) @ n2" "R (fst (f x (log @ n1))) (n1 @ n2)"
      using f[of x n1] n1 unfolding does_def by metis
    then show ?thesis using n1 Inr by (intro exI[of _ "n1 @ n2"]) (auto simp: bind_e_def split_beta)
  qed
qed

text \<open>One call whose failure is caught.\<close>

lemma does_try_call: "does (try_e (call_e f ev)) (\<lambda>r new. \<exists>a. r = Inr a \<and> new = [ev a])"
  by (intro does_try does_call) blast

lemma does_lift_none: "does (lift_e r) (\<lambda>_ new. new = [])"
  by (simp add: does_lift)

end
