(* ===== verification/Identity_Link.thy ===== *)
theory Identity_Link
  imports Effect_Monad
begin

text \<open>
  Identity linking as the orchestrator sees it
  (\<open>apps/agent-orchestrator/src/identity-link\<close>): the provider catalog
  (\<open>identity-provider-catalog.ts\<close>), the port to the gateways that hold credentials
  (\<open>gateway-client.ts\<close>, its interface) and the caller's principal
  (\<open>credential-subject.ts\<close>).

  The gateways themselves are another service, reached over HTTP. Their answers are the
  fields of \<open>link_env\<close>, strategies over the log of all calls so far: nothing is assumed of
  them, not even that two reads of one credential agree.
\<close>

section \<open>The provider catalog\<close>

datatype IdentityProviderFlow = Oauth | ClaudeCliSetupToken | ClaudeRemoteLogin

record IdentityProviderConfig =
  envVar :: string
  cfg_label :: string
  cfg_flow :: IdentityProviderFlow
  crossEntryPoint :: bool

definition DEFAULT_IDENTITY_PROVIDERS :: "(string \<times> IdentityProviderConfig) list" where
  "DEFAULT_IDENTITY_PROVIDERS =
     [(''github'', \<lparr>envVar = ''GITHUB_TOKEN'', cfg_label = ''GitHub'', cfg_flow = Oauth,
                    crossEntryPoint = False\<rparr>),
      (''claude'', \<lparr>envVar = ''CLAUDE_CODE_OAUTH_TOKEN'', cfg_label = ''Claude'',
                    cfg_flow = ClaudeCliSetupToken, crossEntryPoint = True\<rparr>),
      (''claude-remote'', \<lparr>envVar = ''CLAUDE_LOGIN_CREDENTIALS_JSON'',
                    cfg_label = ''Claude Remote Control'', cfg_flow = ClaudeRemoteLogin,
                    crossEntryPoint = True\<rparr>)]"

type_synonym IdentityProviderCatalog = "string \<Rightarrow> IdentityProviderConfig option"

text \<open>
  The fallback catalog indexes an object literal, so a name of \<open>Object.prototype\<close> finds a
  function there. None of the four fields exists on it, and every reader treats an absent
  field and an absent entry alike, so such a name is a missing entry.
\<close>

definition DEFAULT_IDENTITY_PROVIDER_CATALOG :: IdentityProviderCatalog where
  "DEFAULT_IDENTITY_PROVIDER_CATALOG provider =
     (case js_record_get DEFAULT_IDENTITY_PROVIDERS provider of Own c \<Rightarrow> Some c | _ \<Rightarrow> None)"

definition resolveIdentityProviderCatalog :: "IdentityProviderCatalog option \<Rightarrow> IdentityProviderCatalog" where
  "resolveIdentityProviderCatalog catalog = coalesce catalog DEFAULT_IDENTITY_PROVIDER_CATALOG"

text \<open>The custom resource, its decoding, and the in-memory view fed by list and watch.\<close>

record IdentityProviderSpec =
  spec_envVar :: "string option"
  spec_label :: "string option"
  spec_flow :: "IdentityProviderFlow option"
  spec_crossEntryPoint :: "bool option"

record IdentityProviderCustomResource =
  cr_name :: "string option"
  cr_spec :: "IdentityProviderSpec option"

definition toIdentityProviderConfig :: "IdentityProviderCustomResource \<Rightarrow> IdentityProviderConfig option" where
  "toIdentityProviderConfig cr =
     (case cr_spec cr of
        None \<Rightarrow> None
      | Some spec \<Rightarrow>
          if \<not> truthy_str (spec_envVar spec) \<or> \<not> truthy_str (spec_label spec) then None
          else Some \<lparr>envVar = the (spec_envVar spec), cfg_label = the (spec_label spec),
                     cfg_flow = coalesce (spec_flow spec) Oauth,
                     crossEntryPoint = coalesce (spec_crossEntryPoint spec) False\<rparr>)"

type_synonym InMemoryIdentityProviderCatalog = "(string \<times> IdentityProviderConfig) list"

definition catalog_new :: "(string \<times> IdentityProviderConfig) list \<Rightarrow> InMemoryIdentityProviderCatalog" where
  "catalog_new initial = fold (\<lambda>(ident, config). AList.update ident config) initial []"

definition catalog_get :: "InMemoryIdentityProviderCatalog \<Rightarrow> IdentityProviderCatalog" where
  "catalog_get c provider = map_of c provider"

definition catalog_upsert :: "string \<Rightarrow> IdentityProviderConfig \<Rightarrow> InMemoryIdentityProviderCatalog \<Rightarrow> InMemoryIdentityProviderCatalog" where
  "catalog_upsert ident config c = AList.update ident config c"

definition catalog_delete :: "string \<Rightarrow> InMemoryIdentityProviderCatalog \<Rightarrow> InMemoryIdentityProviderCatalog" where
  "catalog_delete ident c = AList.delete ident c"

datatype WatchPhase = ADDED | MODIFIED | DELETED

datatype CrdChangeEvent = Upsert string IdentityProviderConfig | DeleteId string

definition registry_listAll :: "IdentityProviderCustomResource list \<Rightarrow> (string \<times> IdentityProviderConfig) list" where
  "registry_listAll items =
     List.map_filter (\<lambda>cr.
       if truthy_str (cr_name cr)
       then map_option (\<lambda>config. (the (cr_name cr), config)) (toIdentityProviderConfig cr)
       else None) items"

definition registry_watch :: "WatchPhase \<Rightarrow> IdentityProviderCustomResource \<Rightarrow> CrdChangeEvent option" where
  "registry_watch phase cr =
     (if \<not> truthy_str (cr_name cr) then None
      else if phase = DELETED then Some (DeleteId (the (cr_name cr)))
      else map_option (Upsert (the (cr_name cr))) (toIdentityProviderConfig cr))"

text \<open>\<open>index.ts\<close>: the wiring of the watch to the catalog.\<close>

definition catalog_onChange :: "CrdChangeEvent option \<Rightarrow> InMemoryIdentityProviderCatalog \<Rightarrow> InMemoryIdentityProviderCatalog" where
  "catalog_onChange event c =
     (case event of
        None \<Rightarrow> c
      | Some (DeleteId ident) \<Rightarrow> catalog_delete ident c
      | Some (Upsert ident config) \<Rightarrow> catalog_upsert ident config c)"

interpretation provider_catalog: keyed_store catalog_get catalog_upsert catalog_delete "[]"
  by unfold_locales
    (auto simp: catalog_get_def catalog_upsert_def catalog_delete_def update_conv' delete_conv')

text \<open>What a stream of watch frames says about one provider: the last frame that decides it.\<close>

fun last_word :: "string \<Rightarrow> (WatchPhase \<times> IdentityProviderCustomResource) list
    \<Rightarrow> IdentityProviderConfig option \<Rightarrow> IdentityProviderConfig option" where
  "last_word p [] c = c"
| "last_word p ((phase, cr) # frames) c =
     last_word p frames
       (if p \<noteq> [] \<and> cr_name cr = Some p then
          (if phase = DELETED then None
           else case toIdentityProviderConfig cr of Some config \<Rightarrow> Some config | None \<Rightarrow> c)
        else c)"

lemma catalog_onChange_get:
  "catalog_get (catalog_onChange (registry_watch phase cr) c) p = last_word p [(phase, cr)] (catalog_get c p)"
  by (auto simp: catalog_onChange_def registry_watch_def provider_catalog.get_set
      provider_catalog.get_delete truthy_str_def split: option.splits)

lemma catalog_watch_get:
  "catalog_get (fold (\<lambda>(phase, cr). catalog_onChange (registry_watch phase cr)) frames c) p =
     last_word p frames (catalog_get c p)"
proof (induction frames arbitrary: c)
  case (Cons f frames)
  then show ?case
    using catalog_onChange_get[of "fst f" "snd f" c p] by (cases f) auto
qed simp

text \<open>The listing at startup is a run of \<open>ADDED\<close> frames.\<close>

lemma catalog_new_listAll:
  "fold (\<lambda>(ident, config). AList.update ident config) (registry_listAll items) c =
     fold (\<lambda>(phase, cr). catalog_onChange (registry_watch phase cr)) (map (Pair ADDED) items) c"
  by (induction items arbitrary: c)
    (auto simp: registry_listAll_def List.map_filter_def registry_watch_def catalog_onChange_def
       catalog_upsert_def split: option.splits)

text \<open>
  The catalog mirrors the custom resources: after the listing at startup and any stream
  of watch frames, the configuration of a provider is what the last frame that decides it
  says, where a frame decides it if it is a deletion of that name or carries a resource of
  that name with an environment variable and a label.
\<close>

theorem catalog_tracks_resources:
  "catalog_get
     (fold (\<lambda>(phase, cr). catalog_onChange (registry_watch phase cr)) frames
       (catalog_new (registry_listAll items))) p =
   last_word p (map (Pair ADDED) items @ frames) None"
proof -
  have "fold (\<lambda>(phase, cr). catalog_onChange (registry_watch phase cr)) frames
          (catalog_new (registry_listAll items)) =
        fold (\<lambda>(phase, cr). catalog_onChange (registry_watch phase cr))
          (map (Pair ADDED) items @ frames) []"
    by (simp add: catalog_new_def catalog_new_listAll)
  then show ?thesis
    using catalog_watch_get[of "map (Pair ADDED) items @ frames" "[]" p] by (simp add: catalog_get_def)
qed


section \<open>Gateways\<close>

datatype gateway_id = IdentityLinkGateway | ClaudeAuthGateway | ClaudeRemoteGateway

text \<open>Which of the optional methods of \<open>IdentityLinkPort\<close> a gateway has.\<close>

record IdentityLinkPort =
  has_waitForCompletion :: bool
  has_rekey :: bool
  has_getLinkedLogin :: bool

datatype link_flow = DeviceFlow | AuthcodeFlow

datatype IdentityLinkStartResult =
    IdentityLinkStart (verificationUri: string) (userCode: string) (deviceCode: string)
      (expiresInSeconds: int) (pollIntervalSeconds: int)
  | IdentityLinkAuthCodeStart (authorizeUrl: string) (expiresInSeconds: int)
  | IdentityLinkPageStart (pageUrl: string) (expiresInSeconds: int)

record IdentityLinkToken =
  tk_token :: string
  tk_githubLogin :: "string option"

record WritebackGrant =
  gr_url :: string
  gr_token :: string
  gr_secretName :: "string option"

text \<open>The calls the pre-flight makes, each with its answer (\<open>Inl\<close>: it threw), and its notifications.\<close>

datatype auth_event =
    GetToken gateway_id string string "string + IdentityLinkToken option"
  | StartLink gateway_id string string link_flow "string + IdentityLinkStartResult"
  | WaitForCompletion gateway_id string string int "string + IdentityLinkToken option"
  | Rekey gateway_id string string string "string + bool"
  | GetLinkedLogin gateway_id string string "string + string option"
  | CreateWritebackGrant string int "string + WritebackGrant option"
  | ReportPending string string
  | Progress string string

type_synonym 'a auth_eff = "(auth_event, string, 'a) eff"

text \<open>
  \<open>env_pageUrl\<close> is the use of the WHATWG \<open>URL\<close> class in \<open>connectionsPageStart\<close> (\<open>None\<close>: the
  constructor threw); \<open>env_now\<close> is \<open>Date.now()\<close>.
\<close>

record link_env =
  env_getToken :: "auth_event list \<Rightarrow> gateway_id \<Rightarrow> string \<Rightarrow> string \<Rightarrow> string + IdentityLinkToken option"
  env_start :: "auth_event list \<Rightarrow> gateway_id \<Rightarrow> string \<Rightarrow> string \<Rightarrow> link_flow \<Rightarrow> string + IdentityLinkStartResult"
  env_wait :: "auth_event list \<Rightarrow> gateway_id \<Rightarrow> string \<Rightarrow> string \<Rightarrow> int \<Rightarrow> string + IdentityLinkToken option"
  env_rekey :: "auth_event list \<Rightarrow> gateway_id \<Rightarrow> string \<Rightarrow> string \<Rightarrow> string \<Rightarrow> string + bool"
  env_linkedLogin :: "auth_event list \<Rightarrow> gateway_id \<Rightarrow> string \<Rightarrow> string \<Rightarrow> string + string option"
  env_grant :: "auth_event list \<Rightarrow> string \<Rightarrow> int \<Rightarrow> string + WritebackGrant option"
  env_pageUrl :: "string \<Rightarrow> string list \<Rightarrow> string option"
  env_now :: "auth_event list \<Rightarrow> int"

definition gw_getToken :: "link_env \<Rightarrow> gateway_id \<Rightarrow> string \<Rightarrow> string \<Rightarrow> IdentityLinkToken option auth_eff" where
  "gw_getToken env g p s = call_e (\<lambda>log. env_getToken env log g p s) (GetToken g p s)"

definition gw_start :: "link_env \<Rightarrow> gateway_id \<Rightarrow> string \<Rightarrow> string \<Rightarrow> link_flow \<Rightarrow> IdentityLinkStartResult auth_eff" where
  "gw_start env g p s flow = call_e (\<lambda>log. env_start env log g p s flow) (StartLink g p s flow)"

definition gw_wait :: "link_env \<Rightarrow> gateway_id \<Rightarrow> string \<Rightarrow> string \<Rightarrow> int \<Rightarrow> IdentityLinkToken option auth_eff" where
  "gw_wait env g p s t = call_e (\<lambda>log. env_wait env log g p s t) (WaitForCompletion g p s t)"

definition gw_rekey :: "link_env \<Rightarrow> gateway_id \<Rightarrow> string \<Rightarrow> string \<Rightarrow> string \<Rightarrow> bool auth_eff" where
  "gw_rekey env g p from to = call_e (\<lambda>log. env_rekey env log g p from to) (Rekey g p from to)"

definition gw_linkedLogin :: "link_env \<Rightarrow> gateway_id \<Rightarrow> string \<Rightarrow> string \<Rightarrow> string option auth_eff" where
  "gw_linkedLogin env g p s = call_e (\<lambda>log. env_linkedLogin env log g p s) (GetLinkedLogin g p s)"

definition wb_grant :: "link_env \<Rightarrow> string \<Rightarrow> int \<Rightarrow> WritebackGrant option auth_eff" where
  "wb_grant env s ttl = call_e (\<lambda>log. env_grant env log s ttl) (CreateWritebackGrant s ttl)"

lemmas gw_defs = gw_getToken_def gw_start_def gw_wait_def gw_rekey_def gw_linkedLogin_def wb_grant_def

record identity_deps =
  identityLinkGateway :: "IdentityLinkPort option"
  claudeAuthGateway :: "IdentityLinkPort option"
  claudeRemoteGateway :: "IdentityLinkPort option"

definition resolveIdentityGateway ::
  "string \<Rightarrow> IdentityProviderCatalog \<Rightarrow> 'a identity_deps_scheme \<Rightarrow> (gateway_id \<times> IdentityLinkPort) option" where
  "resolveIdentityGateway provider catalog deps =
     (case coalesce (map_option cfg_flow (catalog provider)) Oauth of
        ClaudeCliSetupToken \<Rightarrow> map_option (Pair ClaudeAuthGateway) (claudeAuthGateway deps)
      | ClaudeRemoteLogin \<Rightarrow> map_option (Pair ClaudeRemoteGateway) (claudeRemoteGateway deps)
      | Oauth \<Rightarrow> map_option (Pair IdentityLinkGateway) (identityLinkGateway deps))"


section \<open>Principals\<close>

definition CANONICAL_PRINCIPAL_PREFIX :: string where
  "CANONICAL_PRINCIPAL_PREFIX = ''github:''"

definition canonicalSubjectForLogin :: "string \<Rightarrow> string" where
  "canonicalSubjectForLogin login = CANONICAL_PRINCIPAL_PREFIX @ js_toLowerCase login"

definition isCanonicalPrincipal :: "string \<Rightarrow> bool" where
  "isCanonicalPrincipal p = js_startsWith p CANONICAL_PRINCIPAL_PREFIX"

definition resolveActorLogin ::
  "link_env \<Rightarrow> string \<Rightarrow> string option \<Rightarrow> IdentityLinkPort option \<Rightarrow> string option auth_eff" where
  "resolveActorLogin env rawSubject senderLogin githubGateway =
     (if truthy_str senderLogin then return_e senderLogin
      else case githubGateway of
        None \<Rightarrow> return_e None
      | Some port \<Rightarrow>
          bind_e
            (try_e
              (if has_getLinkedLogin port
               then gw_linkedLogin env IdentityLinkGateway ''github'' rawSubject
               else bind_e (gw_getToken env IdentityLinkGateway ''github'' rawSubject)
                      (\<lambda>t. return_e (Option.bind t tk_githubLogin))))
            (\<lambda>r. case r of Inl _ \<Rightarrow> return_e None | Inr login \<Rightarrow> return_e login))"

definition resolvePrincipal ::
  "link_env \<Rightarrow> string \<Rightarrow> string option \<Rightarrow> IdentityLinkPort option \<Rightarrow> string auth_eff" where
  "resolvePrincipal env rawSubject senderLogin githubGateway =
     bind_e (resolveActorLogin env rawSubject senderLogin githubGateway)
       (\<lambda>login. return_e (if truthy_str login then canonicalSubjectForLogin (the login) else rawSubject))"

lemma canonical_is_canonical [simp]: "isCanonicalPrincipal (canonicalSubjectForLogin login)"
  by (simp add: isCanonicalPrincipal_def canonicalSubjectForLogin_def)

lemma canonical_eq_iff:
  "canonicalSubjectForLogin a = canonicalSubjectForLogin b \<longleftrightarrow> js_toLowerCase a = js_toLowerCase b"
  by (simp add: canonicalSubjectForLogin_def)

text \<open>Neither lookup throws: a failed lookup is an unknown login.\<close>

lemma resolveActorLogin_total: "\<exists>x. fst (resolveActorLogin env s sender gw log) = Inr x"
  by (auto simp: resolveActorLogin_def eff_defs gw_defs split: option.splits prod.splits sum.splits)

lemma resolvePrincipal_total: "\<exists>x. fst (resolvePrincipal env s sender gw log) = Inr x"
proof -
  obtain x l where "resolveActorLogin env s sender gw log = (Inr x, l)"
    using resolveActorLogin_total[of env s sender gw log] by (cases "resolveActorLogin env s sender gw log") auto
  then show ?thesis by (simp add: resolvePrincipal_def eff_defs)
qed

end
