(* ===== verification/Authorization.thy ===== *)
theory Authorization
  imports Identity_Link
begin

text \<open>
  \<open>apps/agent-orchestrator/src/agent/authorization-service.ts\<close>: the authorization pre-flight
  of an agent launch. It decides which credentials a run carries, or that the caller has
  links to complete first.

  The body of \<open>authorize\<close> is split at the places where the source has its own section
  comments: the provider plan and the principal pre-flight, the reading and adoption of one
  credential, the offer of a link, \<open>settle\<close>, the provider loop, the deferred providers of the
  Connections page, and the verdict. The variables the closure \<open>settle\<close> and the loop mutate
  are the record \<open>auth_state\<close>. Log lines are left out.
\<close>

section \<open>Data\<close>

definition ACTOR_LOGIN_ENV :: string where "ACTOR_LOGIN_ENV = ''AGENT_ACTOR_LOGIN''"

definition PRINCIPAL_PROVIDER :: string where "PRINCIPAL_PROVIDER = ''github''"

definition WRITEBACK_URL_ENV :: string where
  "WRITEBACK_URL_ENV = ''CLAUDE_CREDENTIALS_WRITEBACK_URL''"

definition WRITEBACK_TOKEN_ENV :: string where
  "WRITEBACK_TOKEN_ENV = ''CLAUDE_CREDENTIALS_WRITEBACK_TOKEN''"

definition WRITEBACK_GRANT_MARGIN_SECONDS :: int where
  "WRITEBACK_GRANT_MARGIN_SECONDS = 15 * 60"

definition START_ATTEMPTS :: nat where "START_ATTEMPTS = 2"

definition WRITE_CAPABLE_PROVIDERS :: "string list" where
  "WRITE_CAPABLE_PROVIDERS = [''github'']"

definition CONNECTIONS_LINK_TTL_SECONDS :: int where
  "CONNECTIONS_LINK_TTL_SECONDS = 10 * 60"

record CredentialEnvEntry =
  ce_name :: string
  ce_value :: string

record PendingIdentityLink =
  pil_agentId :: string
  pil_provider :: string
  pil_flow :: string
  pil_deviceCode :: "string option"
  pil_expiresAt :: int
  pil_subject :: string
  pil_request :: string

record Identity =
  id_subject :: string
  id_principal :: "string option"
  id_perUser :: bool

record AuthorizationRequest =
  rq_agentId :: string
  rq_identityProviders :: "string list option"
  rq_identity :: Identity
  rq_request :: string
  rq_senderLogin :: "string option"
  rq_progressListener :: bool
  rq_reportIdentityLinkPending :: bool
  rq_identityLinkFlow :: "link_flow option"
  rq_readOnly :: bool

record authorized_outcome =
  ao_secretEnv :: "CredentialEnvEntry list option"
  ao_actorLogin :: "string option"
  ao_principal :: string
  ao_ownedSecretNames :: "string list"

datatype AuthorizationOutcome =
    Authorized authorized_outcome
  | LinkRequired string "PendingIdentityLink option"
  | NoGateway string "string list" string
  | UnsupportedProvider string string

text \<open>\<open>NoGateway\<close> and \<open>UnsupportedProvider\<close> are the two \<open>misconfigured\<close> outcomes.\<close>

record AuthorizationServiceDeps = identity_deps +
  connectionsUrl :: "string option"
  has_claudeRemoteWriteback :: bool
  agentRunTimeoutSeconds :: "int option"
  identityProviderCatalog :: "IdentityProviderCatalog option"


section \<open>Prompts\<close>

definition linkPromptText :: "IdentityLinkStartResult \<Rightarrow> string \<Rightarrow> string" where
  "linkPromptText started label =
     (case started of
        IdentityLinkStart uri code _ _ _ \<Rightarrow>
          ''[link your '' @ label @ '' account]('' @ uri @ '') and enter code `'' @ code @ ''`''
      | IdentityLinkAuthCodeStart url _ \<Rightarrow> ''[link your '' @ label @ '' account]('' @ url @ '')''
      | IdentityLinkPageStart url _ \<Rightarrow> ''[link your '' @ label @ '' account]('' @ url @ '')'')"

definition usesConnectionsPage :: "string option \<Rightarrow> string \<Rightarrow> link_flow \<Rightarrow> bool" where
  "usesConnectionsPage url callerSubject flow \<longleftrightarrow>
     truthy_str url \<and> flow \<noteq> DeviceFlow \<and> js_startsWith callerSubject ''openwebui:''"

definition connectionsPageStart ::
  "link_env \<Rightarrow> string option \<Rightarrow> string \<Rightarrow> string list \<Rightarrow> link_flow \<Rightarrow> string + IdentityLinkStartResult option" where
  "connectionsPageStart env url callerSubject providers flow =
     (if \<not> truthy_str url \<or> \<not> usesConnectionsPage url callerSubject flow then Inr None
      else case env_pageUrl env (the url) providers of
        None \<Rightarrow> Inl ''Invalid URL''
      | Some page \<Rightarrow> Inr (Some (IdentityLinkPageStart page CONNECTIONS_LINK_TTL_SECONDS)))"

definition joinLabels :: "string list \<Rightarrow> string" where
  "joinLabels labels =
     (if length labels \<le> 1 then concat labels
      else js_join '', '' (butlast labels) @ '' and '' @ last labels)"

definition connectionsLinkText :: "IdentityLinkStartResult \<Rightarrow> string list \<Rightarrow> string" where
  "connectionsLinkText started labels =
     (case labels of
        [] \<Rightarrow> linkPromptText started []
      | [label] \<Rightarrow> linkPromptText started label
      | _ \<Rightarrow> ''[connect your '' @ joinLabels labels @ '' accounts]('' @ pageUrl started @ '')'')"

record pending_link =
  pl_provider :: string
  pl_label :: string
  pl_linkUrlText :: string
  pl_surfacedLive :: bool
  pl_pending :: PendingIdentityLink

definition links_toPrint :: "pending_link list \<Rightarrow> pending_link list" where
  "links_toPrint links =
     map fst (filter (\<lambda>(l, i). \<not> pl_surfacedLive l \<and>
                        js_findIndex (\<lambda>x. pl_linkUrlText x = pl_linkUrlText l) links = Some i)
                (zip links [0..<length links]))"

definition pending_part :: "pending_link list \<Rightarrow> string list" where
  "pending_part pendingLinks =
     (if pendingLinks = [] then []
      else case links_toPrint pendingLinks of
        [] \<Rightarrow>
          [if length pendingLinks = 1
           then ''I haven't received your '' @ pl_label (hd pendingLinks) @
                '' account link yet. Send any message once you're done and I'll continue.''
           else ''I haven't received your '' @ js_join '' and '' (map pl_label pendingLinks) @
                '' account links yet. Send any message once you're done and I'll continue.'']
      | [l] \<Rightarrow>
          [''To continue, please '' @ pl_linkUrlText l @
           ''. This is a one-time step -- send any message once you're done.'']
      | toPrint \<Rightarrow>
          [''To continue, I need you to link '' @ js_nat_string (length toPrint) @
           '' accounts (one-time). Please '' @ js_join '', and '' (map pl_linkUrlText toPrint) @
           ''. Send any message once you're done.''])"

definition composeLinkRequiredMessage :: "pending_link list \<Rightarrow> string list \<Rightarrow> string" where
  "composeLinkRequiredMessage pendingLinks failedToStart =
     (let parts = pending_part pendingLinks;
          labels = js_join '' and '' failedToStart;
          failed_part =
            (if failedToStart = [] then []
             else if parts \<noteq> []
             then [''I also couldn't start the '' @ labels @
                   '' linking step just now -- try again in a moment and I'll retry that part.'']
             else [''I couldn't start the one-time '' @ labels @
                   '' account-linking step just now. Please try again in a moment -- re-apply the label or send any message and I'll retry.''])
      in js_join '' '' (parts @ failed_part))"


section \<open>Gateways\<close>

definition svc_catalog :: "AuthorizationServiceDeps \<Rightarrow> IdentityProviderCatalog" where
  "svc_catalog deps = resolveIdentityProviderCatalog (identityProviderCatalog deps)"

definition gatewayFor :: "AuthorizationServiceDeps \<Rightarrow> string \<Rightarrow> (gateway_id \<times> IdentityLinkPort) option" where
  "gatewayFor deps provider = resolveIdentityGateway provider (svc_catalog deps) deps"

definition isCrossEntryPoint :: "AuthorizationServiceDeps \<Rightarrow> string \<Rightarrow> bool" where
  "isCrossEntryPoint deps provider \<longleftrightarrow>
     (case svc_catalog deps provider of None \<Rightarrow> False | Some c \<Rightarrow> crossEntryPoint c)"

definition provider_label :: "AuthorizationServiceDeps \<Rightarrow> string \<Rightarrow> string" where
  "provider_label deps provider = coalesce (map_option cfg_label (svc_catalog deps provider)) provider"

definition env_var_name :: "AuthorizationServiceDeps \<Rightarrow> string \<Rightarrow> string option" where
  "env_var_name deps provider = map_option envVar (svc_catalog deps provider)"

text \<open>Up to \<open>n\<close> attempts at starting a flow; \<open>null\<close> once every attempt has thrown.\<close>

fun start_attempts ::
  "link_env \<Rightarrow> nat \<Rightarrow> gateway_id \<Rightarrow> string \<Rightarrow> string \<Rightarrow> link_flow \<Rightarrow> IdentityLinkStartResult option auth_eff" where
  "start_attempts env 0 g provider subj flow = return_e None"
| "start_attempts env (Suc n) g provider subj flow =
     bind_e (try_e (gw_start env g provider subj flow))
       (\<lambda>r. case r of
              Inr started \<Rightarrow> return_e (Some started)
            | Inl _ \<Rightarrow> start_attempts env n g provider subj flow)"

definition startWithRetry ::
  "link_env \<Rightarrow> gateway_id \<Rightarrow> string \<Rightarrow> string \<Rightarrow> link_flow \<Rightarrow> IdentityLinkStartResult option auth_eff" where
  "startWithRetry env g provider subj flow = start_attempts env START_ATTEMPTS g provider subj flow"

definition waitForLink ::
  "link_env \<Rightarrow> gateway_id \<times> IdentityLinkPort \<Rightarrow> string \<Rightarrow> string \<Rightarrow> int \<Rightarrow> IdentityLinkToken option auth_eff" where
  "waitForLink env gateway provider subj timeoutMs =
     (if has_waitForCompletion (snd gateway) then
        bind_e (try_e (gw_wait env (fst gateway) provider subj timeoutMs))
          (\<lambda>r. case r of Inl _ \<Rightarrow> return_e None | Inr t \<Rightarrow> return_e t)
      else return_e None)"


section \<open>The variables of \<open>authorize\<close>\<close>

record plan_entry =
  pe_name :: string
  pe_principalOnly :: bool

record deferred_provider =
  df_provider :: string
  df_gateway :: "gateway_id \<times> IdentityLinkPort"
  df_credentialSubject :: string

record auth_state =
  st_secretEnv :: "CredentialEnvEntry list option"
  st_ownedSecretNames :: "string list"
  st_pendingLinks :: "pending_link list"
  st_failedToStart :: "string list"
  st_actorLoginFromLoop :: "string option"
  st_principal :: string
  st_principalLogin :: "string option"
  st_deferred :: "deferred_provider list"
  st_offered :: "string list"

definition initial_state :: "Identity \<Rightarrow> auth_state" where
  "initial_state identity =
     \<lparr>st_secretEnv = None, st_ownedSecretNames = [], st_pendingLinks = [], st_failedToStart = [],
      st_actorLoginFromLoop = None, st_principal = coalesce (id_principal identity) (id_subject identity),
      st_principalLogin = None, st_deferred = [], st_offered = []\<rparr>"

definition add_env :: "CredentialEnvEntry list \<Rightarrow> auth_state \<Rightarrow> auth_state" where
  "add_env entries st = st\<lparr>st_secretEnv := Some (coalesce (st_secretEnv st) [] @ entries)\<rparr>"


section \<open>The plan and the principal pre-flight\<close>

text \<open>A read-only turn drops the write-capable providers before anything is asked of them.\<close>

definition declared_plan :: "AuthorizationRequest \<Rightarrow> plan_entry list" where
  "declared_plan req =
     map (\<lambda>name. \<lparr>pe_name = name, pe_principalOnly = False\<rparr>)
       (filter (\<lambda>name. \<not> (rq_readOnly req \<and> name \<in> set WRITE_CAPABLE_PROVIDERS))
         (coalesce (rq_identityProviders req) []))"

definition needs_principal :: "AuthorizationServiceDeps \<Rightarrow> plan_entry list \<Rightarrow> auth_state \<Rightarrow> bool" where
  "needs_principal deps plan st \<longleftrightarrow>
     list_ex (\<lambda>p. isCrossEntryPoint deps (pe_name p)) plan \<and> \<not> isCanonicalPrincipal (st_principal st)"

text \<open>The lookup of an existing link; the flag says that the lookup itself failed.\<close>

definition principal_lookup ::
  "link_env \<Rightarrow> AuthorizationServiceDeps \<Rightarrow> AuthorizationRequest \<Rightarrow> plan_entry list \<Rightarrow> auth_state
     \<Rightarrow> (auth_state \<times> bool) auth_eff" where
  "principal_lookup env deps req plan st =
     (if needs_principal deps plan st \<and> id_perUser (rq_identity req) \<and>
         (case identityLinkGateway deps of None \<Rightarrow> False | Some port \<Rightarrow> has_getLinkedLogin port)
      then
        bind_e (try_e (gw_linkedLogin env IdentityLinkGateway PRINCIPAL_PROVIDER (id_subject (rq_identity req))))
          (\<lambda>r. case r of
                 Inl _ \<Rightarrow> return_e (st, True)
               | Inr login \<Rightarrow>
                   return_e
                     (if truthy_str login
                      then (st\<lparr>st_principalLogin := login,
                               st_principal := canonicalSubjectForLogin (the login)\<rparr>, False)
                      else (st, False)))
      else return_e (st, False))"

definition provider_plan ::
  "AuthorizationServiceDeps \<Rightarrow> AuthorizationRequest \<Rightarrow> plan_entry list \<Rightarrow> auth_state \<Rightarrow> bool \<Rightarrow> plan_entry list" where
  "provider_plan deps req plan st principalLookupFailed =
     (if needs_principal deps plan st \<and> \<not> principalLookupFailed \<and>
         identityLinkGateway deps \<noteq> None \<and> id_perUser (rq_identity req)
      then \<lparr>pe_name = PRINCIPAL_PROVIDER, pe_principalOnly = True\<rparr> # plan
      else plan)"


section \<open>One provider\<close>

text \<open>\<open>settle\<close>: fold one resolved credential into the verdict. \<open>Inl\<close> ends the turn.\<close>

definition settle ::
  "link_env \<Rightarrow> AuthorizationServiceDeps \<Rightarrow> AuthorizationRequest \<Rightarrow> bool \<Rightarrow> string \<Rightarrow> string
     \<Rightarrow> IdentityLinkToken \<Rightarrow> auth_state \<Rightarrow> (AuthorizationOutcome + auth_state) auth_eff" where
  "settle env deps req principalOnly provider credentialSubject existing st =
     (if principalOnly then
        return_e (Inr
          (if truthy_str (tk_githubLogin existing)
           then st\<lparr>st_principalLogin := tk_githubLogin existing,
                   st_principal := canonicalSubjectForLogin (the (tk_githubLogin existing))\<rparr>
           else st))
      else
        (let st1 = (if provider = ''github'' \<and> truthy_str (tk_githubLogin existing)
                    then st\<lparr>st_actorLoginFromLoop := tk_githubLogin existing\<rparr> else st)
         in if \<not> truthy_str (env_var_name deps provider) then
              return_e (Inl (UnsupportedProvider (rq_agentId req) provider))
            else
              (let st2 = add_env [\<lparr>ce_name = the (env_var_name deps provider), ce_value = tk_token existing\<rparr>] st1
               in if provider = ''claude-remote'' \<and> has_claudeRemoteWriteback deps then
                    bind_e (wb_grant env credentialSubject
                              (coalesce (agentRunTimeoutSeconds deps) 0 + WRITEBACK_GRANT_MARGIN_SECONDS))
                      (\<lambda>grant. return_e (Inr (case grant of
                           None \<Rightarrow> st2
                         | Some g \<Rightarrow>
                             (add_env [\<lparr>ce_name = WRITEBACK_URL_ENV, ce_value = gr_url g\<rparr>,
                                       \<lparr>ce_name = WRITEBACK_TOKEN_ENV, ce_value = gr_token g\<rparr>] st2)
                             \<lparr>st_ownedSecretNames :=
                                st_ownedSecretNames st2 @
                                (if truthy_str (gr_secretName g) then [the (gr_secretName g)] else [])\<rparr>)))
                  else return_e (Inr st2))))"

definition credential_subject ::
  "AuthorizationServiceDeps \<Rightarrow> Identity \<Rightarrow> string \<Rightarrow> string \<Rightarrow> string" where
  "credential_subject deps identity provider prin =
     (if isCrossEntryPoint deps provider then prin else id_subject identity)"

text \<open>Reading one credential, and adopting a pre-principal one.\<close>

definition read_credential ::
  "link_env \<Rightarrow> AuthorizationServiceDeps \<Rightarrow> Identity \<Rightarrow> gateway_id \<times> IdentityLinkPort \<Rightarrow> string \<Rightarrow> string
     \<Rightarrow> IdentityLinkToken option auth_eff" where
  "read_credential env deps identity gateway provider credentialSubject =
     bind_e (gw_getToken env (fst gateway) provider credentialSubject)
       (\<lambda>existing.
          if existing = None \<and> isCrossEntryPoint deps provider \<and> id_perUser identity \<and>
             credentialSubject \<noteq> id_subject identity \<and> has_rekey (snd gateway)
          then
            bind_e (gw_rekey env (fst gateway) provider (id_subject identity) credentialSubject)
              (\<lambda>moved. if moved then gw_getToken env (fst gateway) provider credentialSubject
                        else return_e existing)
          else return_e existing)"

text \<open>What became of a missing credential: it landed, or the loop continues or breaks without it.\<close>

datatype offer_result = Landed IdentityLinkToken auth_state | Parked auth_state | ParkedPrincipal auth_state

definition start_flow_name :: "IdentityLinkStartResult \<Rightarrow> string" where
  "start_flow_name started =
     (case started of
        IdentityLinkStart _ _ _ _ _ \<Rightarrow> ''device''
      | IdentityLinkAuthCodeStart _ _ \<Rightarrow> ''authcode''
      | IdentityLinkPageStart _ _ \<Rightarrow> ''page'')"

definition start_device_code :: "IdentityLinkStartResult \<Rightarrow> string option" where
  "start_device_code started =
     (case started of IdentityLinkStart _ _ c _ _ \<Rightarrow> Some c | _ \<Rightarrow> None)"

definition pending_anchor ::
  "AuthorizationRequest \<Rightarrow> string \<Rightarrow> string \<Rightarrow> IdentityLinkStartResult \<Rightarrow> int \<Rightarrow> PendingIdentityLink" where
  "pending_anchor req provider subj started now =
     \<lparr>pil_agentId = rq_agentId req, pil_provider = provider, pil_flow = start_flow_name started,
      pil_deviceCode = start_device_code started,
      pil_expiresAt = now + expiresInSeconds started * 1000, pil_subject = subj,
      pil_request = rq_request req\<rparr>"

text \<open>
  A started flow is surfaced live and waited for when the turn has a channel, and parked when
  nothing landed. The sentence around the link text in the live message is fixed; the event
  carries the link text.
\<close>

definition surface_link ::
  "link_env \<Rightarrow> AuthorizationServiceDeps \<Rightarrow> AuthorizationRequest \<Rightarrow> plan_entry
     \<Rightarrow> gateway_id \<times> IdentityLinkPort \<Rightarrow> string \<Rightarrow> IdentityLinkStartResult \<Rightarrow> string \<Rightarrow> auth_state
     \<Rightarrow> offer_result auth_eff" where
  "surface_link env deps req entry gateway subj started linkUrlText st =
     bind_e
       (if rq_progressListener req then
          bind_e (emit_e (Progress ''identity-link'' linkUrlText))
            (\<lambda>_. waitForLink env gateway (pe_name entry) subj (expiresInSeconds started * 1000))
        else return_e None)
       (\<lambda>existing. case existing of
          Some t \<Rightarrow> return_e (Landed t st)
        | None \<Rightarrow>
            bind_e (read_e (env_now env))
              (\<lambda>now.
                let st' = st\<lparr>st_pendingLinks := st_pendingLinks st @
                       [\<lparr>pl_provider = pe_name entry, pl_label = provider_label deps (pe_name entry),
                         pl_linkUrlText = linkUrlText, pl_surfacedLive = rq_progressListener req,
                         pl_pending = pending_anchor req (pe_name entry) subj started now\<rparr>]\<rparr>
                in return_e (if pe_principalOnly entry then ParkedPrincipal st' else Parked st')))"

text \<open>The page's link stands in for the provider's own flow when there is one.\<close>

definition start_and_surface ::
  "link_env \<Rightarrow> AuthorizationServiceDeps \<Rightarrow> AuthorizationRequest \<Rightarrow> link_flow \<Rightarrow> plan_entry
     \<Rightarrow> gateway_id \<times> IdentityLinkPort \<Rightarrow> string \<Rightarrow> string list \<Rightarrow> auth_state
     \<Rightarrow> IdentityLinkStartResult option \<Rightarrow> offer_result auth_eff" where
  "start_and_surface env deps req flow entry gateway subj pageProviders st pageStart =
     bind_e (case pageStart of
               Some p \<Rightarrow> return_e (Some p)
             | None \<Rightarrow> startWithRetry env (fst gateway) (pe_name entry) subj flow)
       (\<lambda>started. case started of
          None \<Rightarrow>
            return_e (Parked (if pe_principalOnly entry then st
              else st\<lparr>st_failedToStart := st_failedToStart st @ [provider_label deps (pe_name entry)]\<rparr>))
        | Some s \<Rightarrow>
            surface_link env deps req entry gateway subj s
              (case pageStart of
                 Some p \<Rightarrow> connectionsLinkText p (map (provider_label deps) pageProviders)
               | None \<Rightarrow> linkPromptText s (provider_label deps (pe_name entry)))
              (st\<lparr>st_offered := st_offered st @ pageProviders\<rparr>))"

definition offer_link ::
  "link_env \<Rightarrow> AuthorizationServiceDeps \<Rightarrow> AuthorizationRequest \<Rightarrow> link_flow \<Rightarrow> bool \<Rightarrow> plan_entry
     \<Rightarrow> plan_entry list \<Rightarrow> gateway_id \<times> IdentityLinkPort \<Rightarrow> string \<Rightarrow> auth_state \<Rightarrow> offer_result auth_eff" where
  "offer_link env deps req flow viaPage entry later gateway subj st =
     bind_e (if rq_reportIdentityLinkPending req then emit_e (ReportPending (pe_name entry) subj)
             else return_e ())
       (\<lambda>_.
          if viaPage \<and> \<not> pe_principalOnly entry then
            return_e (Parked (st\<lparr>st_deferred := st_deferred st @
              [\<lparr>df_provider = pe_name entry, df_gateway = gateway, df_credentialSubject = subj\<rparr>]\<rparr>))
          else if viaPage then
            (let pageProviders = js_unique (pe_name entry # map pe_name later)
             in bind_e (lift_e (connectionsPageStart env (connectionsUrl deps)
                                  (id_subject (rq_identity req)) pageProviders flow))
                  (start_and_surface env deps req flow entry gateway subj pageProviders st))
          else start_and_surface env deps req flow entry gateway subj [] st None)"

datatype loop_step = Return AuthorizationOutcome | Continue auth_state | Break auth_state

definition settle_step :: "AuthorizationOutcome + auth_state \<Rightarrow> loop_step" where
  "settle_step r = (case r of Inl oc \<Rightarrow> Return oc | Inr st \<Rightarrow> Continue st)"

definition assess_provider ::
  "link_env \<Rightarrow> AuthorizationServiceDeps \<Rightarrow> AuthorizationRequest \<Rightarrow> link_flow \<Rightarrow> bool \<Rightarrow> plan_entry
     \<Rightarrow> plan_entry list \<Rightarrow> auth_state \<Rightarrow> loop_step auth_eff" where
  "assess_provider env deps req flow viaPage entry later st =
     (case gatewayFor deps (pe_name entry) of
        None \<Rightarrow> return_e (Return (NoGateway (rq_agentId req) (coalesce (rq_identityProviders req) []) (pe_name entry)))
      | Some gateway \<Rightarrow>
          (let subj = credential_subject deps (rq_identity req) (pe_name entry) (st_principal st) in
           bind_e (read_credential env deps (rq_identity req) gateway (pe_name entry) subj)
             (\<lambda>existing. case existing of
                Some t \<Rightarrow>
                  bind_e (settle env deps req (pe_principalOnly entry) (pe_name entry) subj t st)
                    (\<lambda>r. return_e (settle_step r))
              | None \<Rightarrow>
                  bind_e (offer_link env deps req flow viaPage entry later gateway subj st)
                    (\<lambda>offer. case offer of
                       Parked st' \<Rightarrow> return_e (Continue st')
                     | ParkedPrincipal st' \<Rightarrow> return_e (Break st')
                     | Landed t st' \<Rightarrow>
                         bind_e (settle env deps req (pe_principalOnly entry) (pe_name entry) subj t st')
                           (\<lambda>r. return_e (settle_step r))))))"

fun provider_loop ::
  "link_env \<Rightarrow> AuthorizationServiceDeps \<Rightarrow> AuthorizationRequest \<Rightarrow> link_flow \<Rightarrow> bool \<Rightarrow> plan_entry list
     \<Rightarrow> auth_state \<Rightarrow> (AuthorizationOutcome + auth_state) auth_eff" where
  "provider_loop env deps req flow viaPage [] st = return_e (Inr st)"
| "provider_loop env deps req flow viaPage (entry # later) st =
     bind_e (assess_provider env deps req flow viaPage entry later st)
       (\<lambda>step. case step of
          Return oc \<Rightarrow> return_e (Inl oc)
        | Break st' \<Rightarrow> return_e (Inr st')
        | Continue st' \<Rightarrow> provider_loop env deps req flow viaPage later st')"


section \<open>The deferred providers and the verdict\<close>

text \<open>One wait per deferred provider, in order, until one does not land.\<close>

fun deferred_loop ::
  "link_env \<Rightarrow> AuthorizationServiceDeps \<Rightarrow> AuthorizationRequest \<Rightarrow> IdentityLinkStartResult \<Rightarrow> string \<Rightarrow> bool
     \<Rightarrow> deferred_provider list \<Rightarrow> auth_state \<Rightarrow> (AuthorizationOutcome + auth_state) auth_eff" where
  "deferred_loop env deps req started linkUrlText waiting [] st = return_e (Inr st)"
| "deferred_loop env deps req started linkUrlText waiting (d # ds) st =
     bind_e (if waiting
             then waitForLink env (df_gateway d) (df_provider d) (df_credentialSubject d)
                    (expiresInSeconds started * 1000)
             else return_e None)
       (\<lambda>existing. case existing of
          None \<Rightarrow>
            bind_e (read_e (env_now env))
              (\<lambda>now. deferred_loop env deps req started linkUrlText False ds
                (st\<lparr>st_pendingLinks := st_pendingLinks st @
                    [\<lparr>pl_provider = df_provider d, pl_label = provider_label deps (df_provider d),
                      pl_linkUrlText = linkUrlText, pl_surfacedLive = rq_progressListener req,
                      pl_pending = pending_anchor req (df_provider d) (df_credentialSubject d) started now\<rparr>]\<rparr>))
        | Some t \<Rightarrow>
            bind_e (settle env deps req False (df_provider d) (df_credentialSubject d) t st)
              (\<lambda>r. case r of
                 Inl oc \<Rightarrow> return_e (Inl oc)
               | Inr st' \<Rightarrow> deferred_loop env deps req started linkUrlText waiting ds st'))"

definition deferred_page ::
  "link_env \<Rightarrow> AuthorizationServiceDeps \<Rightarrow> AuthorizationRequest \<Rightarrow> link_flow \<Rightarrow> auth_state
     \<Rightarrow> (AuthorizationOutcome + auth_state) auth_eff" where
  "deferred_page env deps req flow st =
     (if st_deferred st = [] then return_e (Inr st)
      else
        bind_e (lift_e (connectionsPageStart env (connectionsUrl deps) (id_subject (rq_identity req))
                          (map df_provider (st_deferred st)) flow))
          (\<lambda>page. case page of
             None \<Rightarrow> throw_e ''TypeError''
           | Some started \<Rightarrow>
               (let linkUrlText = connectionsLinkText started (map (provider_label deps \<circ> df_provider) (st_deferred st))
                in bind_e (if rq_progressListener req \<and>
                              list_ex (\<lambda>d. df_provider d \<notin> set (st_offered st)) (st_deferred st)
                           then emit_e (Progress ''identity-link'' linkUrlText) else return_e ())
                     (\<lambda>_. deferred_loop env deps req started linkUrlText (rq_progressListener req) (st_deferred st) st))))"

definition verdict ::
  "link_env \<Rightarrow> AuthorizationServiceDeps \<Rightarrow> AuthorizationRequest \<Rightarrow> auth_state \<Rightarrow> AuthorizationOutcome auth_eff" where
  "verdict env deps req st =
     (if st_pendingLinks st \<noteq> [] \<or> st_failedToStart st \<noteq> [] then
        return_e (LinkRequired (composeLinkRequiredMessage (st_pendingLinks st) (st_failedToStart st))
          (case st_pendingLinks st of [] \<Rightarrow> None | l # _ \<Rightarrow> Some (pl_pending l)))
      else
        bind_e
          (case st_actorLoginFromLoop st of
             Some l \<Rightarrow> return_e (Some l)
           | None \<Rightarrow>
               (case st_principalLogin st of
                  Some l \<Rightarrow> return_e (Some l)
                | None \<Rightarrow> resolveActorLogin env (id_subject (rq_identity req)) (rq_senderLogin req)
                            (identityLinkGateway deps)))
          (\<lambda>actorLogin.
             let st' = (if truthy_str actorLogin
                        then add_env [\<lparr>ce_name = ACTOR_LOGIN_ENV, ce_value = the actorLogin\<rparr>] st else st)
             in return_e (Authorized
                  \<lparr>ao_secretEnv = st_secretEnv st',
                   ao_actorLogin = (if truthy_str actorLogin then actorLogin else None),
                   ao_principal = st_principal st', ao_ownedSecretNames = st_ownedSecretNames st'\<rparr>)))"

text \<open>Everything after the principal pre-flight, for a given plan.\<close>

definition assess_plan ::
  "link_env \<Rightarrow> AuthorizationServiceDeps \<Rightarrow> AuthorizationRequest \<Rightarrow> link_flow \<Rightarrow> bool \<Rightarrow> plan_entry list
     \<Rightarrow> auth_state \<Rightarrow> AuthorizationOutcome auth_eff" where
  "assess_plan env deps req flow viaPage plan st =
     bind_e (provider_loop env deps req flow viaPage plan st)
       (\<lambda>r. case r of
          Inl oc \<Rightarrow> return_e oc
        | Inr st1 \<Rightarrow>
            bind_e (deferred_page env deps req flow st1)
              (\<lambda>r. case r of Inl oc \<Rightarrow> return_e oc | Inr st2 \<Rightarrow> verdict env deps req st2))"

definition authorize ::
  "link_env \<Rightarrow> AuthorizationServiceDeps \<Rightarrow> AuthorizationRequest \<Rightarrow> AuthorizationOutcome auth_eff" where
  "authorize env deps req =
     (let declared = declared_plan req;
          flow = coalesce (rq_identityLinkFlow req) AuthcodeFlow;
          viaPage = usesConnectionsPage (connectionsUrl deps) (id_subject (rq_identity req)) flow
      in bind_e (principal_lookup env deps req declared (initial_state (rq_identity req)))
           (\<lambda>x. assess_plan env deps req flow viaPage
                  (provider_plan deps req declared (fst x) (snd x)) (fst x)))"


section \<open>\<open>resolveLinkedCredentials\<close>\<close>

datatype linked_result =
    Resolved "CredentialEnvEntry list option"
  | GatewayMissing string
  | NotLinked string
  | Unsupported string
  | ReadOnlyRefused string

fun linked_loop ::
  "link_env \<Rightarrow> AuthorizationServiceDeps \<Rightarrow> Identity \<Rightarrow> string list \<Rightarrow> CredentialEnvEntry list option
     \<Rightarrow> linked_result auth_eff" where
  "linked_loop env deps identity [] secretEnv = return_e (Resolved secretEnv)"
| "linked_loop env deps identity (provider # rest) secretEnv =
     (case gatewayFor deps provider of
        None \<Rightarrow> return_e (GatewayMissing provider)
      | Some gateway \<Rightarrow>
          bind_e (gw_getToken env (fst gateway) provider
                    (credential_subject deps identity provider
                       (coalesce (id_principal identity) (id_subject identity))))
            (\<lambda>existing. case existing of
               None \<Rightarrow> return_e (NotLinked provider)
             | Some t \<Rightarrow>
                 if \<not> truthy_str (env_var_name deps provider) then return_e (Unsupported provider)
                 else linked_loop env deps identity rest
                        (Some (coalesce secretEnv [] @
                           [\<lparr>ce_name = the (env_var_name deps provider), ce_value = tk_token t\<rparr>]))))"

definition resolveLinkedCredentials ::
  "link_env \<Rightarrow> AuthorizationServiceDeps \<Rightarrow> Identity \<Rightarrow> string list option \<Rightarrow> bool \<Rightarrow> linked_result auth_eff" where
  "resolveLinkedCredentials env deps identity identityProviders readOnly =
     (let providers = coalesce identityProviders [];
          writeCapable = (if readOnly then List.find (\<lambda>p. p \<in> set WRITE_CAPABLE_PROVIDERS) providers else None)
      in case writeCapable of
           Some p \<Rightarrow> if p \<noteq> [] then return_e (ReadOnlyRefused p)
                     else linked_loop env deps identity providers None
         | None \<Rightarrow> linked_loop env deps identity providers None)"

end
