(* ===== verification/Authorization_Outcomes.thy ===== *)
theory Authorization_Outcomes
  imports Authorization
begin

text \<open>
  What the authorization pre-flight does: which calls it may make (\<open>allowed_call\<close>), and how a
  turn can end (\<open>outcome_ok\<close>). The first is proved with the rules \<open>emits_rules\<close>, the second
  by following the pre-flight's variables: \<open>progress\<close> says that nothing they hold is dropped,
  \<open>accounted\<close> that a provider is injected, deferred, parked or reported.
\<close>

section \<open>The calls of the pre-flight\<close>

definition planned :: "AuthorizationRequest \<Rightarrow> string \<Rightarrow> bool" where
  "planned req p \<longleftrightarrow> p \<in> set (coalesce (rq_identityProviders req) []) \<and>
     \<not> (rq_readOnly req \<and> p \<in> set WRITE_CAPABLE_PROVIDERS)"

definition entry_ok :: "AuthorizationRequest \<Rightarrow> plan_entry \<Rightarrow> bool" where
  "entry_ok req entry \<longleftrightarrow>
     (if pe_principalOnly entry then pe_name entry = ''github'' \<and> id_perUser (rq_identity req)
      else planned req (pe_name entry))"

text \<open>
  The discipline of the calls. A credential is read, linked or waited for only for a planned
  provider, or for GitHub; it is moved only from a per-user subject to its principal, for a
  provider shared across entry points; a flow is started at a provider only when the
  Connections page does not stand in for it; only a turn with a live channel waits; a
  write-back grant is minted only for a planned \<open>claude-remote\<close>.
\<close>

fun allowed_call :: "AuthorizationServiceDeps \<Rightarrow> AuthorizationRequest \<Rightarrow> bool \<Rightarrow> auth_event \<Rightarrow> bool" where
  "allowed_call deps req viaPage (GetToken g p s r) \<longleftrightarrow> planned req p \<or> p = ''github''"
| "allowed_call deps req viaPage (StartLink g p s f r) \<longleftrightarrow> (planned req p \<or> p = ''github'') \<and> \<not> viaPage"
| "allowed_call deps req viaPage (WaitForCompletion g p s ms r) \<longleftrightarrow>
     (planned req p \<or> p = ''github'') \<and> rq_progressListener req"
| "allowed_call deps req viaPage (Rekey g p from to r) \<longleftrightarrow>
     id_perUser (rq_identity req) \<and> isCrossEntryPoint deps p \<and>
     from = id_subject (rq_identity req) \<and> to \<noteq> from"
| "allowed_call deps req viaPage (GetLinkedLogin g p s r) \<longleftrightarrow>
     g = IdentityLinkGateway \<and> p = ''github'' \<and> s = id_subject (rq_identity req)"
| "allowed_call deps req viaPage (CreateWritebackGrant s ttl r) \<longleftrightarrow>
     planned req ''claude-remote'' \<and> has_claudeRemoteWriteback deps"
| "allowed_call deps req viaPage (ReportPending p s) \<longleftrightarrow> rq_reportIdentityLinkPending req"
| "allowed_call deps req viaPage (Progress stage m) \<longleftrightarrow> rq_progressListener req"

lemma entry_ok_name: "entry_ok req entry \<Longrightarrow> planned req (pe_name entry) \<or> pe_name entry = ''github''"
  by (simp add: entry_ok_def split: if_splits)

lemma settle_emits:
  "(\<not> po \<Longrightarrow> planned req p) \<Longrightarrow> emits (allowed_call deps req vp) (settle env deps req po p s t st)"
  unfolding settle_def gw_defs by (intro emits_rules) auto

lemma read_credential_emits:
  "planned req p \<or> p = ''github'' \<Longrightarrow>
     emits (allowed_call deps req vp) (read_credential env deps (rq_identity req) gw p s)"
  unfolding read_credential_def gw_defs by (intro emits_rules) auto

lemma waitForLink_emits:
  "planned req p \<or> p = ''github'' \<Longrightarrow> rq_progressListener req \<Longrightarrow>
     emits (allowed_call deps req vp) (waitForLink env gw p s ms)"
  unfolding waitForLink_def gw_defs by (intro emits_rules) auto

lemma start_attempts_emits:
  "planned req p \<or> p = ''github'' \<Longrightarrow> emits (allowed_call deps req False) (start_attempts env n g p s flow)"
  by (induction n) (auto simp: gw_defs intro!: emits_rules)

lemma surface_link_emits:
  "planned req (pe_name entry) \<or> pe_name entry = ''github'' \<Longrightarrow>
     emits (allowed_call deps req vp) (surface_link env deps req entry gw s started msg st)"
  unfolding surface_link_def by (intro emits_rules waitForLink_emits) auto

lemma page_start_present:
  "usesConnectionsPage url subj flow \<Longrightarrow> connectionsPageStart env url subj ps flow \<noteq> Inr None"
  by (auto simp: connectionsPageStart_def usesConnectionsPage_def split: option.splits)

lemma start_and_surface_emits:
  assumes "planned req (pe_name entry) \<or> pe_name entry = ''github''" "vp \<Longrightarrow> pageStart \<noteq> None"
  shows "emits (allowed_call deps req vp) (start_and_surface env deps req flow entry gw s ps st pageStart)"
proof (cases pageStart)
  case None
  with assms(2) have "vp = False" by blast
  then show ?thesis
    using start_attempts_emits[OF assms(1)] assms(1) None
    unfolding start_and_surface_def startWithRetry_def
    by (auto intro!: emits_rules surface_link_emits)
next
  case (Some p)
  then show ?thesis
    unfolding start_and_surface_def using assms(1) by (auto intro!: emits_rules surface_link_emits)
qed

lemma offer_link_emits:
  assumes "entry_ok req entry"
    and vp: "vp = usesConnectionsPage (connectionsUrl deps) (id_subject (rq_identity req)) flow"
  shows "emits (allowed_call deps req vp) (offer_link env deps req flow vp entry later gw s st)"
proof -
  note start = start_and_surface_emits[OF entry_ok_name[OF assms(1)]]
  have page: "emits (allowed_call deps req vp)
      (bind_e (lift_e (connectionsPageStart env (connectionsUrl deps) (id_subject (rq_identity req)) ps flow))
        (start_and_surface env deps req flow entry gw s ps st))" if on: vp for ps
  proof (cases "connectionsPageStart env (connectionsUrl deps) (id_subject (rq_identity req)) ps flow")
    case (Inr x)
    then obtain y where "x = Some y"
      using page_start_present[of "connectionsUrl deps" "id_subject (rq_identity req)" flow env ps] on vp
      by (cases x) auto
    with Inr start[of vp "Some y"] show ?thesis by (simp add: emits_def bind_e_def lift_e_def)
  qed (simp add: emits_def bind_e_def lift_e_def)
  show ?thesis
    unfolding offer_link_def Let_def
    by (intro emits_rules page start) auto
qed

lemma emits_offer:
  assumes "\<And>t st. r = Landed t st \<Longrightarrow> emits A (f t st)" "\<And>st. r = Parked st \<Longrightarrow> emits A (g st)"
    "\<And>st. r = ParkedPrincipal st \<Longrightarrow> emits A (h st)"
  shows "emits A (case r of Landed t st \<Rightarrow> f t st | Parked st \<Rightarrow> g st | ParkedPrincipal st \<Rightarrow> h st)"
  using assms by (cases r) simp_all

lemma assess_provider_emits:
  assumes "entry_ok req entry"
    and vp: "vp = usesConnectionsPage (connectionsUrl deps) (id_subject (rq_identity req)) flow"
  shows "emits (allowed_call deps req vp) (assess_provider env deps req flow vp entry later st)"
proof -
  have settle: "emits (allowed_call deps req vp)
      (settle env deps req (pe_principalOnly entry) (pe_name entry) s t st')" for s t st'
    using settle_emits assms(1) by (simp add: entry_ok_def split: if_splits)
  show ?thesis
    unfolding assess_provider_def Let_def
    by (intro emits_rules emits_offer read_credential_emits offer_link_emits assms settle entry_ok_name)
qed

lemma provider_loop_emits:
  assumes "\<forall>entry \<in> set plan. entry_ok req entry"
    and vp: "vp = usesConnectionsPage (connectionsUrl deps) (id_subject (rq_identity req)) flow"
  shows "emits (allowed_call deps req vp) (provider_loop env deps req flow vp plan st)"
  using assms(1)
proof (induction plan arbitrary: st)
  case (Cons entry later)
  then show ?case
    using assess_provider_emits[OF _ vp, of entry] by (auto intro!: emits_bind emits_return split: loop_step.splits)
qed (simp add: emits_return)

lemma deferred_loop_emits:
  assumes "\<forall>d \<in> set ds. planned req (df_provider d)" "waiting \<Longrightarrow> rq_progressListener req"
  shows "emits (allowed_call deps req vp) (deferred_loop env deps req started msg waiting ds st)"
  using assms
proof (induction ds arbitrary: st waiting)
  case (Cons d ds)
  then show ?case by (auto intro!: emits_rules waitForLink_emits settle_emits)
qed (simp add: emits_return)

lemma resolveActorLogin_emits:
  "emits (allowed_call deps req vp) (resolveActorLogin env (id_subject (rq_identity req)) sender gw)"
  unfolding resolveActorLogin_def gw_defs by (intro emits_rules) auto

lemma verdict_emits: "emits (allowed_call deps req vp) (verdict env deps req st)"
  unfolding verdict_def Let_def by (intro emits_rules resolveActorLogin_emits)

lemma principal_lookup_emits: "emits (allowed_call deps req vp) (principal_lookup env deps req plan st)"
  unfolding principal_lookup_def gw_defs by (intro emits_rules) (auto simp: PRINCIPAL_PROVIDER_def)

lemma declared_plan_ok: "entry \<in> set (declared_plan req) \<Longrightarrow> entry_ok req entry"
  by (auto simp: declared_plan_def entry_ok_def planned_def)

lemma provider_plan_ok:
  "entry \<in> set (provider_plan deps req (declared_plan req) st failed) \<Longrightarrow> entry_ok req entry"
  using declared_plan_ok
  by (auto simp: provider_plan_def entry_ok_def PRINCIPAL_PROVIDER_def split: if_splits)


section \<open>Progress of the variables\<close>

text \<open>No credential, parked link, failure or deferred provider is ever dropped.\<close>

definition progress :: "auth_state \<Rightarrow> auth_state \<Rightarrow> bool" where
  "progress st st' \<longleftrightarrow>
     set (coalesce (st_secretEnv st) []) \<subseteq> set (coalesce (st_secretEnv st') []) \<and>
     set (st_pendingLinks st) \<subseteq> set (st_pendingLinks st') \<and>
     set (st_failedToStart st) \<subseteq> set (st_failedToStart st') \<and>
     set (st_deferred st) \<subseteq> set (st_deferred st')"

lemma progress_refl [simp]: "progress st st"
  by (simp add: progress_def)

lemma progress_trans: "progress a b \<Longrightarrow> progress b c \<Longrightarrow> progress a c"
  by (auto simp: progress_def)

lemma progress_updates [simp]:
  "progress st (st\<lparr>st_pendingLinks := st_pendingLinks st @ xs\<rparr>)"
  "progress st (st\<lparr>st_failedToStart := st_failedToStart st @ ys\<rparr>)"
  "progress st (st\<lparr>st_deferred := st_deferred st @ ds\<rparr>)"
  "progress st (st\<lparr>st_offered := os\<rparr>)"
  by (simp_all add: progress_def)

definition injected :: "AuthorizationServiceDeps \<Rightarrow> auth_state \<Rightarrow> string \<Rightarrow> bool" where
  "injected deps st p \<longleftrightarrow>
     (\<exists>e \<in> set (coalesce (st_secretEnv st) []). env_var_name deps p = Some (ce_name e))"

definition accounted :: "AuthorizationServiceDeps \<Rightarrow> auth_state \<Rightarrow> string \<Rightarrow> bool" where
  "accounted deps st p \<longleftrightarrow>
     injected deps st p \<or> p \<in> df_provider ` set (st_deferred st) \<or>
     st_pendingLinks st \<noteq> [] \<or> st_failedToStart st \<noteq> []"

lemma injected_progress: "injected deps st p \<Longrightarrow> progress st st' \<Longrightarrow> injected deps st' p"
  by (auto simp: injected_def progress_def)

lemma accounted_progress: "accounted deps st p \<Longrightarrow> progress st st' \<Longrightarrow> accounted deps st' p"
  unfolding accounted_def using injected_progress by (fastforce simp: progress_def)

lemma settle_state:
  "wp (settle env deps req po p s t st)
     (\<lambda>r _. \<forall>st'. r = Inr st' \<longrightarrow>
        progress st st' \<and> st_deferred st' = st_deferred st \<and> (\<not> po \<longrightarrow> injected deps st' p)) log"
  by (auto simp: settle_def wp_simps gw_defs Let_def add_env_def progress_def injected_def truthy_str_def
      split: option.splits)

lemma surface_link_state:
  "wp (surface_link env deps req entry gw s x msg st)
     (\<lambda>r _. case r of
        Landed t st' \<Rightarrow> st' = st
      | Parked st' \<Rightarrow> \<not> pe_principalOnly entry \<and>
          (\<exists>l. st' = st\<lparr>st_pendingLinks := st_pendingLinks st @ [l]\<rparr>)
      | ParkedPrincipal st' \<Rightarrow> pe_principalOnly entry \<and>
          (\<exists>l. st' = st\<lparr>st_pendingLinks := st_pendingLinks st @ [l]\<rparr>)) log"
  unfolding surface_link_def
  by (rule wp_bind_any) (auto simp: wp_simps Let_def split: option.splits)

text \<open>What the offer of a link does to the variables.\<close>

definition offer_post :: "AuthorizationServiceDeps \<Rightarrow> plan_entry \<Rightarrow> auth_state \<Rightarrow> offer_result \<Rightarrow> bool" where
  "offer_post deps entry st r \<longleftrightarrow>
     (case r of
        Landed t st' \<Rightarrow> progress st st' \<and> st_deferred st' = st_deferred st
      | Parked st' \<Rightarrow> progress st st' \<and>
          (\<not> pe_principalOnly entry \<longrightarrow> accounted deps st' (pe_name entry)) \<and>
          df_provider ` set (st_deferred st') \<subseteq> df_provider ` set (st_deferred st) \<union>
            (if pe_principalOnly entry then {} else {pe_name entry})
      | ParkedPrincipal st' \<Rightarrow> progress st st' \<and> st_deferred st' = st_deferred st \<and>
          st_pendingLinks st' \<noteq> [] \<and> pe_principalOnly entry)"

lemma offer_post_parked:
  "\<not> pe_principalOnly entry \<Longrightarrow> offer_post deps entry st (Parked (st\<lparr>st_deferred := st_deferred st @
     [\<lparr>df_provider = pe_name entry, df_gateway = gw, df_credentialSubject = s\<rparr>]\<rparr>))"
  "pe_principalOnly entry \<Longrightarrow> offer_post deps entry st (Parked st)"
  "offer_post deps entry st (Parked (st\<lparr>st_failedToStart := st_failedToStart st @ [l]\<rparr>))"
  by (auto simp: offer_post_def accounted_def)

lemma start_and_surface_state:
  "wp (start_and_surface env deps req flow entry gw s ps st pageStart) (\<lambda>r _. offer_post deps entry st r) log"
proof -
  have step: "wp (surface_link env deps req entry gw s x msg (st\<lparr>st_offered := os\<rparr>))
          (\<lambda>r _. offer_post deps entry st r) log" for x msg os log
    by (rule wp_mono[OF surface_link_state])
      (auto simp: offer_post_def progress_def accounted_def split: offer_result.splits)
  show ?thesis
    unfolding start_and_surface_def
    by (rule wp_bind_any)
      (auto simp: wp_simps offer_post_parked step split: option.splits)
qed

lemma offer_link_state:
  "wp (offer_link env deps req flow vp entry later gw s st) (\<lambda>r _. offer_post deps entry st r) log"
  unfolding offer_link_def
  by (rule wp_bind_any)
    (auto simp: wp_simps Let_def offer_post_parked start_and_surface_state)

definition step_post :: "AuthorizationServiceDeps \<Rightarrow> plan_entry \<Rightarrow> auth_state \<Rightarrow> loop_step \<Rightarrow> bool" where
  "step_post deps entry st r \<longleftrightarrow>
     (case r of
        Return _ \<Rightarrow> True
      | Continue st' \<Rightarrow> progress st st' \<and>
          (\<not> pe_principalOnly entry \<longrightarrow> accounted deps st' (pe_name entry)) \<and>
          df_provider ` set (st_deferred st') \<subseteq> df_provider ` set (st_deferred st) \<union>
            (if pe_principalOnly entry then {} else {pe_name entry})
      | Break st' \<Rightarrow> progress st st' \<and> st_deferred st' = st_deferred st \<and> st_pendingLinks st' \<noteq> [])"

lemma offer_to_step:
  "offer_post deps entry st (Landed t st') \<Longrightarrow> progress st st' \<and> st_deferred st' = st_deferred st"
  "offer_post deps entry st (Parked st') \<Longrightarrow> step_post deps entry st (Continue st')"
  "offer_post deps entry st (ParkedPrincipal st') \<Longrightarrow> step_post deps entry st (Break st')"
  by (simp_all add: offer_post_def step_post_def)

lemma settle_step_state:
  assumes "progress st st1" "st_deferred st1 = st_deferred st"
  shows "wp (bind_e (settle env deps req (pe_principalOnly entry) (pe_name entry) s t st1)
               (\<lambda>r. return_e (settle_step r)))
           (\<lambda>r _. step_post deps entry st r) log"
  by (rule wp_bindI[OF settle_state])
    (use assms progress_trans in \<open>auto simp: wp_simps settle_step_def step_post_def accounted_def split: sum.splits\<close>)

lemma assess_provider_state:
  "wp (assess_provider env deps req flow vp entry later st) (\<lambda>r _. step_post deps entry st r) log"
proof (cases "gatewayFor deps (pe_name entry)")
  case (Some gw)
  let ?s = "credential_subject deps (rq_identity req) (pe_name entry) (st_principal st)"
  have settled: "wp (bind_e (settle env deps req (pe_principalOnly entry) (pe_name entry) ?s t st1)
               (\<lambda>r. return_e (settle_step r))) (\<lambda>r _. step_post deps entry st r) log"
    if "progress st st1" "st_deferred st1 = st_deferred st" for t st1 log
    using settle_step_state that by blast
  have offered: "wp (bind_e (offer_link env deps req flow vp entry later gw ?s st)
         (\<lambda>offer. case offer of
            Parked st' \<Rightarrow> return_e (Continue st')
          | ParkedPrincipal st' \<Rightarrow> return_e (Break st')
          | Landed t st' \<Rightarrow>
              bind_e (settle env deps req (pe_principalOnly entry) (pe_name entry) ?s t st')
                (\<lambda>r. return_e (settle_step r))))
         (\<lambda>r _. step_post deps entry st r) log" for log
    by (rule wp_bindI[OF offer_link_state])
      (auto simp: offer_to_step settled wp_return split: offer_result.splits)
  show ?thesis
    unfolding assess_provider_def Some option.case Let_def
    by (rule wp_bind_any) (auto simp: settled offered split: option.splits)
qed (simp add: assess_provider_def wp_simps step_post_def)


text \<open>After the loop every planned provider is accounted for, and only those are deferred.\<close>

lemma provider_loop_state:
  "wp (provider_loop env deps req flow vp plan st)
     (\<lambda>r _. \<forall>st'. r = Inr st' \<longrightarrow> progress st st' \<and>
        (\<forall>entry \<in> set plan. pe_principalOnly entry \<or> accounted deps st' (pe_name entry)) \<and>
        df_provider ` set (st_deferred st') \<subseteq> df_provider ` set (st_deferred st) \<union>
          pe_name ` set (filter (\<lambda>e. \<not> pe_principalOnly e) plan)) log"
proof (induction plan arbitrary: st log)
  case (Cons entry later)
  let ?names = "\<lambda>plan. pe_name ` set (filter (\<lambda>e. \<not> pe_principalOnly e) plan)"
  show ?case
    unfolding provider_loop.simps
  proof (rule wp_bindI[OF assess_provider_state])
    fix step log'
    assume post: "step_post deps entry st step"
    show "wp (case step of Return oc \<Rightarrow> return_e (Inl oc) | Break st' \<Rightarrow> return_e (Inr st')
              | Continue st' \<Rightarrow> provider_loop env deps req flow vp later st')
       (\<lambda>r _. \<forall>st'. r = Inr st' \<longrightarrow> progress st st' \<and>
        (\<forall>e \<in> set (entry # later). pe_principalOnly e \<or> accounted deps st' (pe_name e)) \<and>
        df_provider ` set (st_deferred st') \<subseteq> df_provider ` set (st_deferred st) \<union> ?names (entry # later)) log'"
    proof (cases step)
      case (Continue st1)
      note p = post[unfolded Continue step_post_def loop_step.case]
      show ?thesis
        unfolding Continue loop_step.case
      proof (rule wp_mono[OF Cons.IH], intro allI impI conjI)
        fix r log' st'
        assume ih: "\<forall>st'. r = Inr st' \<longrightarrow> progress st1 st' \<and>
          (\<forall>entry \<in> set later. pe_principalOnly entry \<or> accounted deps st' (pe_name entry)) \<and>
          df_provider ` set (st_deferred st') \<subseteq> df_provider ` set (st_deferred st1) \<union> ?names later"
          and r: "r = Inr st'"
        from ih r have ih: "progress st1 st'"
          "\<forall>entry \<in> set later. pe_principalOnly entry \<or> accounted deps st' (pe_name entry)"
          "df_provider ` set (st_deferred st') \<subseteq> df_provider ` set (st_deferred st1) \<union> ?names later"
          by blast+
        show "progress st st'" using p ih(1) progress_trans by blast
        show "\<forall>e \<in> set (entry # later). pe_principalOnly e \<or> accounted deps st' (pe_name e)"
          using p ih accounted_progress by auto
        show "df_provider ` set (st_deferred st') \<subseteq> df_provider ` set (st_deferred st) \<union> ?names (entry # later)"
          using p ih(3) by (cases "pe_principalOnly entry") (simp_all, blast+)
      qed
    qed (use post in \<open>auto simp: wp_return step_post_def accounted_def\<close>)
  qed
qed (simp add: wp_simps)

definition deferred_post ::
  "AuthorizationServiceDeps \<Rightarrow> string set \<Rightarrow> auth_state \<Rightarrow> AuthorizationOutcome + auth_state \<Rightarrow> bool" where
  "deferred_post deps ps st r \<longleftrightarrow>
     (\<forall>st'. r = Inr st' \<longrightarrow> progress st st' \<and>
        (\<forall>p \<in> ps. injected deps st' p \<or> st_pendingLinks st' \<noteq> [] \<or> st_failedToStart st' \<noteq> []))"

lemma deferred_post_parked:
  assumes "deferred_post deps ps (st\<lparr>st_pendingLinks := st_pendingLinks st @ [l]\<rparr>) r"
  shows "deferred_post deps (insert p ps) st r"
  using assms by (auto simp: deferred_post_def progress_def)

lemma deferred_post_settled:
  assumes "deferred_post deps ps st1 r" "progress st st1" "injected deps st1 p"
  shows "deferred_post deps (insert p ps) st r"
  using assms progress_trans injected_progress unfolding deferred_post_def by blast

lemma deferred_loop_state:
  "wp (deferred_loop env deps req started msg waiting ds st)
     (\<lambda>r _. deferred_post deps (df_provider ` set ds) st r) log"
proof (induction ds arbitrary: st log waiting)
  case (Cons d ds)
  have parked: "wp (deferred_loop env deps req started msg False ds
          (st\<lparr>st_pendingLinks := st_pendingLinks st @ [l]\<rparr>))
        (\<lambda>r _. deferred_post deps (insert (df_provider d) (df_provider ` set ds)) st r) log'" for l log'
    by (rule wp_mono[OF Cons.IH]) (rule deferred_post_parked)
  have settled: "wp (deferred_loop env deps req started msg waiting ds st1)
        (\<lambda>r _. deferred_post deps (insert (df_provider d) (df_provider ` set ds)) st r) log'"
    if "progress st st1" "injected deps st1 (df_provider d)" for st1 log'
    by (rule wp_mono[OF Cons.IH]) (rule deferred_post_settled[OF _ that])
  have ended: "deferred_post deps ps st (Inl oc)" for ps oc by (simp add: deferred_post_def)
  have landed: "wp (bind_e (settle env deps req False (df_provider d) (df_credentialSubject d) t st)
              (\<lambda>r. case r of
                 Inl oc \<Rightarrow> return_e (Inl oc)
               | Inr st' \<Rightarrow> deferred_loop env deps req started msg waiting ds st'))
        (\<lambda>r _. deferred_post deps (insert (df_provider d) (df_provider ` set ds)) st r) log'" for t log'
    by (rule wp_bindI[OF settle_state]) (auto simp: wp_return ended settled split: sum.splits)
  show ?case
    unfolding deferred_loop.simps
    by (rule wp_bind_any) (auto simp: parked landed[unfolded wp_bind] wp_bind wp_read split: option.splits)
qed (simp add: wp_simps deferred_post_def)

lemma deferred_page_state:
  "wp (deferred_page env deps req flow st) (\<lambda>r _. deferred_post deps {p. accounted deps st p} st r) log"
proof -
  have "deferred_post deps {p. accounted deps st p} st r"
    if "deferred_post deps (df_provider ` set (st_deferred st)) st r" for r
    using that injected_progress by (fastforce simp: deferred_post_def accounted_def progress_def)
  then have loop: "wp (deferred_loop env deps req started msg waiting (st_deferred st) st)
     (\<lambda>r _. deferred_post deps {p. accounted deps st p} st r) log" for started msg waiting log
    by (rule wp_mono[OF deferred_loop_state])
  have "deferred_post deps {p. accounted deps st p} st (Inr st)" if "st_deferred st = []"
    using that by (auto simp: deferred_post_def accounted_def)
  then show ?thesis
    by (auto simp: deferred_page_def wp_simps Let_def loop split: option.splits)
qed

text \<open>A provider is injected into the run's environment under its variable.\<close>

definition env_has :: "CredentialEnvEntry list option \<Rightarrow> string \<Rightarrow> bool" where
  "env_has secretEnv name \<longleftrightarrow> name \<in> ce_name ` set (coalesce secretEnv [])"

lemma injected_env: "injected deps st p \<Longrightarrow> \<exists>v. env_var_name deps p = Some v \<and> env_has (st_secretEnv st) v"
  by (auto simp: injected_def env_has_def)

lemma verdict_state:
  "wp (verdict env deps req st)
     (\<lambda>oc _. case oc of
        Authorized a \<Rightarrow> st_pendingLinks st = [] \<and> st_failedToStart st = [] \<and>
          set (coalesce (st_secretEnv st) []) \<subseteq> set (coalesce (ao_secretEnv a) [])
      | LinkRequired _ _ \<Rightarrow> True
      | _ \<Rightarrow> False) log"
proof (cases "st_pendingLinks st \<noteq> [] \<or> st_failedToStart st \<noteq> []")
  case False
  show ?thesis
    unfolding verdict_def if_not_P[OF False]
    by (rule wp_bind_any) (use False in \<open>auto simp: wp_simps add_env_def Let_def\<close>)
qed (simp add: verdict_def wp_simps)


lemma principal_lookup_state:
  "wp (principal_lookup env deps req plan st) (\<lambda>x _. st_deferred (fst x) = st_deferred st) log"
  by (auto simp: principal_lookup_def wp_simps gw_defs split: sum.splits)

definition loop_post ::
  "AuthorizationServiceDeps \<Rightarrow> plan_entry list \<Rightarrow> AuthorizationOutcome + auth_state \<Rightarrow> bool" where
  "loop_post deps plan r \<longleftrightarrow>
     (\<forall>st. r = Inr st \<longrightarrow>
        (\<forall>entry \<in> set plan. pe_principalOnly entry \<or> accounted deps st (pe_name entry)) \<and>
        df_provider ` set (st_deferred st) \<subseteq> pe_name ` set (filter (\<lambda>e. \<not> pe_principalOnly e) plan))"

lemma provider_loop_post:
  "st_deferred st = [] \<Longrightarrow>
     wp (provider_loop env deps req flow vp plan st) (\<lambda>r _. loop_post deps plan r) log"
  by (rule wp_mono[OF provider_loop_state]) (auto simp: loop_post_def)

lemma deferred_page_emits:
  assumes "loop_post deps (provider_plan deps req (declared_plan req) st0 failed) (Inr st)"
  shows "emits (allowed_call deps req vp) (deferred_page env deps req flow st)"
proof -
  have "planned req (df_provider d)" if "d \<in> set (st_deferred st)" for d
  proof -
    obtain entry where "entry \<in> set (provider_plan deps req (declared_plan req) st0 failed)"
      "\<not> pe_principalOnly entry" "df_provider d = pe_name entry"
      using assms \<open>d \<in> set (st_deferred st)\<close> by (auto simp: loop_post_def)
    with provider_plan_ok show ?thesis by (auto simp: entry_ok_def split: if_splits)
  qed
  then show ?thesis
    unfolding deferred_page_def Let_def
    by (intro emits_rules deferred_loop_emits) auto
qed

abbreviation via_page :: "AuthorizationServiceDeps \<Rightarrow> AuthorizationRequest \<Rightarrow> bool" where
  "via_page deps req \<equiv> usesConnectionsPage (connectionsUrl deps) (id_subject (rq_identity req))
     (coalesce (rq_identityLinkFlow req) AuthcodeFlow)"

lemma assess_plan_emits:
  assumes "st_deferred st = []"
    and plan: "plan = provider_plan deps req (declared_plan req) st0 failed"
    and vp: "vp = usesConnectionsPage (connectionsUrl deps) (id_subject (rq_identity req)) flow"
  shows "emits (allowed_call deps req vp) (assess_plan env deps req flow vp plan st)"
proof -
  have ok: "\<forall>entry \<in> set plan. entry_ok req entry" using provider_plan_ok plan by blast
  show ?thesis
    unfolding assess_plan_def
    by (rule emits_bind_wp[OF provider_loop_emits[OF ok vp] provider_loop_post[OF assms(1)]])
      (auto simp: plan intro!: emits_rules deferred_page_emits verdict_emits)
qed

lemma authorize_emits: "emits (allowed_call deps req (via_page deps req)) (authorize env deps req)"
  unfolding authorize_def Let_def
  by (rule emits_bind_wp[OF principal_lookup_emits principal_lookup_state])
    (auto simp: initial_state_def intro!: assess_plan_emits)

text \<open>A turn ends early only because the deployment cannot serve a provider.\<close>

definition misconfigured :: "AuthorizationServiceDeps \<Rightarrow> AuthorizationRequest \<Rightarrow> AuthorizationOutcome \<Rightarrow> bool" where
  "misconfigured deps req oc \<longleftrightarrow>
     (case oc of
        NoGateway _ _ p \<Rightarrow> gatewayFor deps p = None \<and> (planned req p \<or> p = ''github'')
      | UnsupportedProvider _ p \<Rightarrow> \<not> truthy_str (env_var_name deps p) \<and> planned req p
      | _ \<Rightarrow> False)"

text \<open>The outcomes of the pre-flight.\<close>

definition outcome_ok :: "AuthorizationServiceDeps \<Rightarrow> AuthorizationRequest \<Rightarrow> AuthorizationOutcome \<Rightarrow> bool" where
  "outcome_ok deps req oc \<longleftrightarrow>
     (case oc of
        Authorized a \<Rightarrow> \<forall>p. planned req p \<longrightarrow> (\<exists>v. env_var_name deps p = Some v \<and> env_has (ao_secretEnv a) v)
      | LinkRequired _ _ \<Rightarrow> True
      | _ \<Rightarrow> misconfigured deps req oc)"

lemma outcome_okI: "misconfigured deps req oc \<Longrightarrow> outcome_ok deps req oc"
  by (auto simp: outcome_ok_def misconfigured_def split: AuthorizationOutcome.splits)

lemma verdict_outcome:
  assumes "\<forall>p. planned req p \<longrightarrow> injected deps st p \<or> st_pendingLinks st \<noteq> [] \<or> st_failedToStart st \<noteq> []"
  shows "wp (verdict env deps req st) (\<lambda>oc _. outcome_ok deps req oc) log"
proof (rule wp_mono[OF verdict_state])
  fix oc log'
  assume v: "case oc of
        Authorized a \<Rightarrow> st_pendingLinks st = [] \<and> st_failedToStart st = [] \<and>
          set (coalesce (st_secretEnv st) []) \<subseteq> set (coalesce (ao_secretEnv a) [])
      | LinkRequired _ _ \<Rightarrow> True
      | _ \<Rightarrow> False"
  show "outcome_ok deps req oc"
  proof (cases oc)
    case (Authorized a)
    with v assms have "planned req p \<Longrightarrow> injected deps st p" for p by auto
    then show ?thesis
      using v Authorized injected_env[of deps st] by (fastforce simp: outcome_ok_def env_has_def)
  qed (use v in \<open>simp_all add: outcome_ok_def\<close>)
qed

lemma planned_in_plan:
  "planned req p \<Longrightarrow> \<exists>entry \<in> set (provider_plan deps req (declared_plan req) st failed).
     \<not> pe_principalOnly entry \<and> pe_name entry = p"
  by (force simp: provider_plan_def declared_plan_def planned_def)

lemma settle_misconfigured:
  "(\<not> po \<Longrightarrow> planned req p) \<Longrightarrow>
     wp (settle env deps req po p s t st) (\<lambda>r _. \<forall>oc. r = Inl oc \<longrightarrow> misconfigured deps req oc) log"
  by (auto simp: settle_def wp_simps gw_defs Let_def misconfigured_def split: option.splits)

lemma assess_provider_misconfigured:
  assumes "entry_ok req entry"
  shows "wp (assess_provider env deps req flow vp entry later st)
           (\<lambda>r _. \<forall>oc. r = Return oc \<longrightarrow> misconfigured deps req oc) log"
proof (cases "gatewayFor deps (pe_name entry)")
  case None
  then show ?thesis
    using entry_ok_name[OF assms] by (simp add: assess_provider_def wp_simps misconfigured_def)
next
  case (Some gw)
  let ?Q = "\<lambda>r _. \<forall>oc. r = Return oc \<longrightarrow> misconfigured deps req oc"
  have settled: "wp (bind_e (settle env deps req (pe_principalOnly entry) (pe_name entry) s t st1)
               (\<lambda>r. return_e (settle_step r))) ?Q log" for s t st1 log
    by (rule wp_bindI[OF settle_misconfigured])
      (use assms in \<open>auto simp: entry_ok_def wp_return settle_step_def split: sum.splits if_splits\<close>)
  have offered: "wp (bind_e (offer_link env deps req flow vp entry later gw s st)
         (\<lambda>offer. case offer of
            Parked st' \<Rightarrow> return_e (Continue st')
          | ParkedPrincipal st' \<Rightarrow> return_e (Break st')
          | Landed t st' \<Rightarrow>
              bind_e (settle env deps req (pe_principalOnly entry) (pe_name entry) s t st')
                (\<lambda>r. return_e (settle_step r)))) ?Q log" for s log
    by (rule wp_bind_any) (auto simp: wp_return settled split: offer_result.splits)
  show ?thesis
    unfolding assess_provider_def Some option.case Let_def
    by (rule wp_bind_any) (auto simp: settled offered split: option.splits)
qed

lemma provider_loop_misconfigured:
  assumes "\<forall>entry \<in> set plan. entry_ok req entry"
  shows "wp (provider_loop env deps req flow vp plan st)
           (\<lambda>r _. \<forall>oc. r = Inl oc \<longrightarrow> misconfigured deps req oc) log"
  using assms
proof (induction plan arbitrary: st log)
  case (Cons entry later)
  then show ?case
    unfolding provider_loop.simps
    by (intro wp_bindI[OF assess_provider_misconfigured]) (auto simp: wp_return split: loop_step.splits)
qed (simp add: wp_return)

lemma deferred_loop_misconfigured:
  assumes "\<forall>d \<in> set ds. planned req (df_provider d)"
  shows "wp (deferred_loop env deps req started msg waiting ds st)
           (\<lambda>r _. \<forall>oc. r = Inl oc \<longrightarrow> misconfigured deps req oc) log"
  using assms
proof (induction ds arbitrary: st log waiting)
  case (Cons d ds)
  then have ih: "wp (deferred_loop env deps req started msg w ds st1)
      (\<lambda>r _. \<forall>oc. r = Inl oc \<longrightarrow> misconfigured deps req oc) log" for w st1 log by simp
  have landed: "wp (bind_e (settle env deps req False (df_provider d) (df_credentialSubject d) t st)
              (\<lambda>r. case r of
                 Inl oc \<Rightarrow> return_e (Inl oc)
               | Inr st' \<Rightarrow> deferred_loop env deps req started msg waiting ds st'))
      (\<lambda>r _. \<forall>oc. r = Inl oc \<longrightarrow> misconfigured deps req oc) log'" for t log'
    by (rule wp_bindI[OF settle_misconfigured]) (use Cons.prems in \<open>auto simp: wp_return ih split: sum.splits\<close>)
  show ?case
    unfolding deferred_loop.simps
    by (rule wp_bind_any) (auto simp: ih landed[unfolded wp_bind] wp_bind wp_read split: option.splits)
qed (simp add: wp_return)

lemma deferred_page_misconfigured:
  assumes "\<forall>d \<in> set (st_deferred st). planned req (df_provider d)"
  shows "wp (deferred_page env deps req flow st)
           (\<lambda>r _. \<forall>oc. r = Inl oc \<longrightarrow> misconfigured deps req oc) log"
  using deferred_loop_misconfigured[OF assms]
  by (auto simp: deferred_page_def wp_simps Let_def split: option.splits)

lemma assess_plan_complete:
  assumes "st_deferred st = []"
    and plan: "plan = provider_plan deps req (declared_plan req) st0 failed"
  shows "wp (assess_plan env deps req flow vp plan st) (\<lambda>oc _. outcome_ok deps req oc) log"
proof -
  have ok: "\<forall>entry \<in> set plan. entry_ok req entry" using provider_plan_ok plan by blast
  have rest: "wp (bind_e (deferred_page env deps req flow st1)
       (\<lambda>r. case r of Inl oc \<Rightarrow> return_e oc | Inr st2 \<Rightarrow> verdict env deps req st2))
     (\<lambda>oc _. outcome_ok deps req oc) log" if post: "loop_post deps plan (Inr st1)" for st1 log
  proof -
    have dp: "\<forall>d \<in> set (st_deferred st1). planned req (df_provider d)"
      using post ok by (fastforce simp: loop_post_def entry_ok_def)
    have acc: "accounted deps st1 p" if "planned req p" for p
      using planned_in_plan[OF that, of deps st0 failed] post by (auto simp: loop_post_def plan)
    have fin: "wp (verdict env deps req st2) (\<lambda>oc _. outcome_ok deps req oc) log'"
      if "deferred_post deps {p. accounted deps st1 p} st1 (Inr st2)" for st2 log'
      using that acc by (intro verdict_outcome) (auto simp: deferred_post_def)
    show ?thesis
      by (rule wp_bindI[OF wp_conj[OF deferred_page_state deferred_page_misconfigured[OF dp]]])
        (auto simp: wp_return outcome_okI fin split: sum.splits)
  qed
  show ?thesis
    unfolding assess_plan_def
    by (rule wp_bindI[OF wp_conj[OF provider_loop_post[OF assms(1)] provider_loop_misconfigured[OF ok]]])
      (auto simp: wp_return outcome_okI rest split: sum.splits)
qed

lemma authorize_outcome: "wp (authorize env deps req) (\<lambda>oc _. outcome_ok deps req oc) log"
  unfolding authorize_def Let_def
  by (rule wp_bindI[OF principal_lookup_state]) (auto simp: initial_state_def intro!: assess_plan_complete)

end
