(* ===== verification/Authorization_Provenance.thy ===== *)
theory Authorization_Provenance
  imports Authorization_Outcomes "HOL-Library.Sublist"
begin

text \<open>
  Where every credential of a cleared run comes from, and the properties of the pre-flight.
  \<open>own_subject\<close> is the set of subjects that are the caller's, \<open>justified\<close> the provenance of
  one environment entry in terms of the calls that were answered, and \<open>auth_inv\<close> the
  invariant of the pre-flight's variables that carries it through.
\<close>

section \<open>Where a credential comes from\<close>

text \<open>The log has a token of provider \<open>p\<close> stored under subject \<open>s\<close>.\<close>

definition token_event :: "auth_event list \<Rightarrow> string \<Rightarrow> string \<Rightarrow> IdentityLinkToken \<Rightarrow> bool" where
  "token_event log p s t \<longleftrightarrow>
     (\<exists>g. GetToken g p s (Inr (Some t)) \<in> set log) \<or>
     (\<exists>g ms. WaitForCompletion g p s ms (Inr (Some t)) \<in> set log)"

text \<open>
  The subjects that are the caller's own: the subject and the principal of the identity, and,
  for a per-user subject only, the canonical subject of a GitHub login that a gateway reported
  for one of them.
\<close>

inductive own_subject :: "Identity \<Rightarrow> auth_event list \<Rightarrow> string \<Rightarrow> bool" for identity log where
  raw: "own_subject identity log (id_subject identity)"
| resolved: "own_subject identity log (coalesce (id_principal identity) (id_subject identity))"
| looked_up: "id_perUser identity \<Longrightarrow>
    GetLinkedLogin IdentityLinkGateway ''github'' (id_subject identity) (Inr (Some l)) \<in> set log \<Longrightarrow>
    own_subject identity log (canonicalSubjectForLogin l)"
| linked: "id_perUser identity \<Longrightarrow> own_subject identity log s \<Longrightarrow> token_event log ''github'' s t \<Longrightarrow>
    tk_githubLogin t = Some l \<Longrightarrow> own_subject identity log (canonicalSubjectForLogin l)"

definition from_link :: "AuthorizationServiceDeps \<Rightarrow> AuthorizationRequest \<Rightarrow> auth_event list \<Rightarrow> CredentialEnvEntry \<Rightarrow> bool" where
  "from_link deps req log e \<longleftrightarrow>
     (\<exists>p s t. planned req p \<and> own_subject (rq_identity req) log s \<and>
        (isCrossEntryPoint deps p \<or> s = id_subject (rq_identity req)) \<and>
        token_event log p s t \<and> env_var_name deps p = Some (ce_name e) \<and> ce_value e = tk_token t)"

definition from_grant :: "AuthorizationRequest \<Rightarrow> auth_event list \<Rightarrow> CredentialEnvEntry \<Rightarrow> bool" where
  "from_grant req log e \<longleftrightarrow>
     (\<exists>s ttl g. own_subject (rq_identity req) log s \<and> CreateWritebackGrant s ttl (Inr (Some g)) \<in> set log \<and>
        planned req ''claude-remote'' \<and>
        (e = \<lparr>ce_name = WRITEBACK_URL_ENV, ce_value = gr_url g\<rparr> \<or>
         e = \<lparr>ce_name = WRITEBACK_TOKEN_ENV, ce_value = gr_token g\<rparr>))"

definition own_login :: "AuthorizationRequest \<Rightarrow> auth_event list \<Rightarrow> string \<Rightarrow> bool" where
  "own_login req log l \<longleftrightarrow>
     rq_senderLogin req = Some l \<or>
     GetLinkedLogin IdentityLinkGateway ''github'' (id_subject (rq_identity req)) (Inr (Some l)) \<in> set log \<or>
     (\<exists>s t. own_subject (rq_identity req) log s \<and> token_event log ''github'' s t \<and> tk_githubLogin t = Some l)"

definition justified :: "AuthorizationServiceDeps \<Rightarrow> AuthorizationRequest \<Rightarrow> auth_event list \<Rightarrow> CredentialEnvEntry \<Rightarrow> bool" where
  "justified deps req log e \<longleftrightarrow>
     from_link deps req log e \<or> from_grant req log e \<or>
     (ce_name e = ACTOR_LOGIN_ENV \<and> own_login req log (ce_value e))"

lemma token_event_mono: "token_event log p s t \<Longrightarrow> token_event (log @ new) p s t"
  by (auto simp: token_event_def)

lemma own_subject_mono: "own_subject identity log s \<Longrightarrow> own_subject identity (log @ new) s"
proof (induction rule: own_subject.induct)
  case (linked s t l)
  then show ?case using own_subject.linked token_event_mono by blast
qed (auto intro: own_subject.intros)

lemma own_login_mono: "own_login req log l \<Longrightarrow> own_login req (log @ new) l"
  using own_subject_mono token_event_mono unfolding own_login_def by (metis Un_iff set_append)

lemma justified_mono: "justified deps req log e \<Longrightarrow> justified deps req (log @ new) e"
proof -
  assume j: "justified deps req log e"
  have "from_link deps req log e \<Longrightarrow> from_link deps req (log @ new) e"
    unfolding from_link_def using own_subject_mono token_event_mono by blast
  moreover have "from_grant req log e \<Longrightarrow> from_grant req (log @ new) e"
    unfolding from_grant_def using own_subject_mono by fastforce
  ultimately show ?thesis using j own_login_mono by (auto simp: justified_def)
qed

text \<open>The invariant of the pre-flight's variables.\<close>

definition auth_inv :: "AuthorizationServiceDeps \<Rightarrow> AuthorizationRequest \<Rightarrow> auth_state \<Rightarrow> auth_event list \<Rightarrow> bool" where
  "auth_inv deps req st log \<longleftrightarrow>
     own_subject (rq_identity req) log (st_principal st) \<and>
     (id_perUser (rq_identity req) \<or>
        st_principal st = coalesce (id_principal (rq_identity req)) (id_subject (rq_identity req))) \<and>
     (\<forall>l. st_principalLogin st = Some l \<longrightarrow> own_login req log l) \<and>
     (\<forall>l. st_actorLoginFromLoop st = Some l \<longrightarrow> own_login req log l) \<and>
     (\<forall>e \<in> set (coalesce (st_secretEnv st) []). justified deps req log e) \<and>
     (\<forall>d \<in> set (st_deferred st). planned req (df_provider d) \<and>
        own_subject (rq_identity req) log (df_credentialSubject d) \<and>
        (isCrossEntryPoint deps (df_provider d) \<or> df_credentialSubject d = id_subject (rq_identity req)))"

lemma auth_inv_mono [intro]: "auth_inv deps req st log \<Longrightarrow> auth_inv deps req st (log @ new)"
  using own_subject_mono own_login_mono justified_mono unfolding auth_inv_def by blast

lemma auth_inv_updates [simp]:
  "auth_inv deps req (st\<lparr>st_pendingLinks := x\<rparr>) log = auth_inv deps req st log"
  "auth_inv deps req (st\<lparr>st_failedToStart := y\<rparr>) log = auth_inv deps req st log"
  "auth_inv deps req (st\<lparr>st_offered := z\<rparr>) log = auth_inv deps req st log"
  "auth_inv deps req (st\<lparr>st_ownedSecretNames := z\<rparr>) log = auth_inv deps req st log"
  by (simp_all add: auth_inv_def)

lemma auth_inv_add_env:
  "auth_inv deps req st log \<Longrightarrow> \<forall>e \<in> set es. justified deps req log e \<Longrightarrow>
     auth_inv deps req (add_env es st) log"
  by (auto simp: auth_inv_def add_env_def)

lemma auth_inv_principal:
  assumes "auth_inv deps req st log" "id_perUser (rq_identity req)"
    "own_subject (rq_identity req) log s" "token_event log ''github'' s t" "tk_githubLogin t = Some l"
  shows "auth_inv deps req (st\<lparr>st_principalLogin := Some l, st_principal := canonicalSubjectForLogin l\<rparr>) log"
  using assms own_subject.linked[OF assms(2-5)] by (auto simp: auth_inv_def own_login_def)

lemma grant_justified:
  assumes "own_subject (rq_identity req) log s" "planned req ''claude-remote''"
    "CreateWritebackGrant s ttl (Inr (Some g)) \<in> set log"
  shows "\<forall>e \<in> set [\<lparr>ce_name = WRITEBACK_URL_ENV, ce_value = gr_url g\<rparr>,
                   \<lparr>ce_name = WRITEBACK_TOKEN_ENV, ce_value = gr_token g\<rparr>]. justified deps req log e"
proof -
  have "from_grant req log \<lparr>ce_name = WRITEBACK_URL_ENV, ce_value = gr_url g\<rparr>"
       "from_grant req log \<lparr>ce_name = WRITEBACK_TOKEN_ENV, ce_value = gr_token g\<rparr>"
    using assms unfolding from_grant_def by blast+
  then show ?thesis by (simp add: justified_def)
qed

lemma settle_inv:
  assumes "auth_inv deps req st log" "token_event log p s t" "own_subject (rq_identity req) log s"
    and "isCrossEntryPoint deps p \<or> s = id_subject (rq_identity req)"
    and "if po then p = ''github'' \<and> id_perUser (rq_identity req) else planned req p"
  shows "wp (settle env deps req po p s t st)
           (\<lambda>r log. case r of Inl oc \<Rightarrow> \<forall>a. oc \<noteq> Authorized a | Inr st' \<Rightarrow> auth_inv deps req st' log) log"
proof (cases po)
  case True
  then show ?thesis
    using assms auth_inv_principal[OF assms(1) _ assms(3)]
    by (auto simp: settle_def wp_simps truthy_str_def split: option.splits)
next
  case False
  define st1 where "st1 = (if p = ''github'' \<and> truthy_str (tk_githubLogin t)
                           then st\<lparr>st_actorLoginFromLoop := tk_githubLogin t\<rparr> else st)"
  define e where "e = \<lparr>ce_name = the (env_var_name deps p), ce_value = tk_token t\<rparr>"
  have "auth_inv deps req st1 log"
    using assms(1-3) by (auto simp: st1_def auth_inv_def own_login_def)
  moreover have "truthy_str (env_var_name deps p) \<Longrightarrow> justified deps req log e"
    using assms False by (auto simp: justified_def from_link_def e_def truthy_str_def split: option.splits)
  ultimately have st2: "truthy_str (env_var_name deps p) \<Longrightarrow> auth_inv deps req (add_env [e] st1) log"
    by (simp add: auth_inv_add_env)
  have grant: "auth_inv deps req
      ((add_env [\<lparr>ce_name = WRITEBACK_URL_ENV, ce_value = gr_url g\<rparr>,
                 \<lparr>ce_name = WRITEBACK_TOKEN_ENV, ce_value = gr_token g\<rparr>] (add_env [e] st1))
       \<lparr>st_ownedSecretNames := owned\<rparr>) (log @ [CreateWritebackGrant s ttl (Inr (Some g))])"
    if "truthy_str (env_var_name deps p)" "p = ''claude-remote''" for g ttl owned
  proof -
    let ?log = "log @ [CreateWritebackGrant s ttl (Inr (Some g))]"
    have "own_subject (rq_identity req) ?log s" "planned req ''claude-remote''"
      using own_subject_mono[OF assms(3)] assms(5) False that(2) by simp_all
    from grant_justified[OF this, of ttl g deps] show ?thesis
      using auth_inv_add_env[OF auth_inv_mono[OF st2[OF that(1)]]] by simp
  qed
  show ?thesis
    unfolding settle_def st1_def[symmetric] e_def[symmetric]
    using False st2 grant auth_inv_mono[OF st2]
    by (auto simp: wp_simps gw_defs Let_def split: option.splits)
qed



lemma token_event_last [simp]:
  "token_event (log @ [GetToken g p s (Inr (Some t))]) p s t"
  "token_event (log @ [WaitForCompletion g p s ms (Inr (Some t))]) p s t"
  by (auto simp: token_event_def)

text \<open>A subject a provider may be keyed by.\<close>

definition subject_ok :: "AuthorizationServiceDeps \<Rightarrow> AuthorizationRequest \<Rightarrow> string \<Rightarrow> string \<Rightarrow> auth_event list \<Rightarrow> bool" where
  "subject_ok deps req p s log \<longleftrightarrow>
     own_subject (rq_identity req) log s \<and> (isCrossEntryPoint deps p \<or> s = id_subject (rq_identity req))"

lemma subject_ok_mono: "subject_ok deps req p s log \<Longrightarrow> subject_ok deps req p s (log @ new)"
  using own_subject_mono by (auto simp: subject_ok_def)

definition found :: "AuthorizationServiceDeps \<Rightarrow> AuthorizationRequest \<Rightarrow> auth_state \<Rightarrow> string \<Rightarrow> string
    \<Rightarrow> IdentityLinkToken option \<Rightarrow> auth_event list \<Rightarrow> bool" where
  "found deps req st p s r log \<longleftrightarrow>
     auth_inv deps req st log \<and> subject_ok deps req p s log \<and> (\<forall>t. r = Some t \<longrightarrow> token_event log p s t)"

lemma found_mono: "found deps req st p s None log \<Longrightarrow> found deps req st p s None (log @ new)"
  by (simp add: found_def auth_inv_mono subject_ok_mono)

lemma read_credential_inv:
  "auth_inv deps req st log \<Longrightarrow> subject_ok deps req p s log \<Longrightarrow>
     wp (read_credential env deps identity gw p s) (found deps req st p s) log"
  by (simp add: read_credential_def wp_simps gw_defs found_def auth_inv_mono subject_ok_mono)
    (auto simp: token_event_def)

lemma waitForLink_inv:
  "auth_inv deps req st log \<Longrightarrow> subject_ok deps req p s log \<Longrightarrow>
     wp (waitForLink env gw p s ms) (found deps req st p s) log"
  by (auto simp: waitForLink_def wp_simps gw_defs found_def auth_inv_mono subject_ok_mono split: sum.splits)

definition offered :: "AuthorizationServiceDeps \<Rightarrow> AuthorizationRequest \<Rightarrow> string \<Rightarrow> string
    \<Rightarrow> offer_result \<Rightarrow> auth_event list \<Rightarrow> bool" where
  "offered deps req p s r log \<longleftrightarrow>
     (case r of
        Landed t st \<Rightarrow> found deps req st p s (Some t) log
      | Parked st \<Rightarrow> auth_inv deps req st log
      | ParkedPrincipal st \<Rightarrow> auth_inv deps req st log)"

lemma surface_link_inv:
  assumes "auth_inv deps req st log" "subject_ok deps req (pe_name entry) s log"
  shows "wp (surface_link env deps req entry gw s started msg st) (offered deps req (pe_name entry) s) log"
proof -
  let ?m = "if rq_progressListener req then
          bind_e (emit_e (Progress ''identity-link'' msg))
            (\<lambda>_. waitForLink env gw (pe_name entry) s (expiresInSeconds started * 1000))
        else return_e None"
  have "wp ?m (found deps req st (pe_name entry) s) log"
    using assms by (simp add: wp_simps waitForLink_inv auth_inv_mono subject_ok_mono found_def)
  then show ?thesis
    unfolding surface_link_def
    by (rule wp_bindI) (auto simp: wp_simps Let_def offered_def found_def split: option.splits)
qed

lemma start_attempts_inv:
  "auth_inv deps req st log \<Longrightarrow> subject_ok deps req p s log \<Longrightarrow>
     wp (start_attempts env n g p s flow) (\<lambda>_. found deps req st p s None) log"
proof (induction n arbitrary: log)
  case (Suc n)
  then show ?case
    by (auto simp: wp_simps gw_defs found_def auth_inv_mono subject_ok_mono split: sum.splits)
qed (simp add: wp_simps found_def)

lemma start_and_surface_inv:
  assumes "auth_inv deps req st log" "subject_ok deps req (pe_name entry) s log"
  shows "wp (start_and_surface env deps req flow entry gw s ps st pageStart)
           (offered deps req (pe_name entry) s) log"
proof -
  have "wp (case pageStart of
               Some p \<Rightarrow> return_e (Some p)
             | None \<Rightarrow> startWithRetry env (fst gw) (pe_name entry) s flow)
          (\<lambda>_. found deps req st (pe_name entry) s None) log"
    using assms start_attempts_inv by (auto simp: startWithRetry_def wp_simps found_def split: option.splits)
  then show ?thesis
    unfolding start_and_surface_def
    by (rule wp_bindI)
      (auto simp: found_def wp_return offered_def surface_link_inv split: option.splits)
qed

lemma offer_link_inv:
  assumes "auth_inv deps req st log" "entry_ok req entry" "subject_ok deps req (pe_name entry) s log"
  shows "wp (offer_link env deps req flow vp entry later gw s st) (offered deps req (pe_name entry) s) log"
proof -
  have deferred: "offered deps req (pe_name entry) s (Parked (st\<lparr>st_deferred := st_deferred st @
        [\<lparr>df_provider = pe_name entry, df_gateway = gw, df_credentialSubject = s\<rparr>]\<rparr>)) l"
    if "\<not> pe_principalOnly entry" "found deps req st (pe_name entry) s None l" for l
    using that assms(2) by (auto simp: offered_def found_def auth_inv_def entry_ok_def subject_ok_def)
  have "wp (if rq_reportIdentityLinkPending req then emit_e (ReportPending (pe_name entry) s) else return_e ())
          (\<lambda>_. found deps req st (pe_name entry) s None) log"
    using assms by (simp add: wp_simps found_def auth_inv_mono subject_ok_mono)
  then show ?thesis
    unfolding offer_link_def
    by (rule wp_bindI) (auto simp: wp_simps Let_def deferred found_def start_and_surface_inv)
qed

definition settled :: "AuthorizationServiceDeps \<Rightarrow> AuthorizationRequest \<Rightarrow> AuthorizationOutcome + auth_state
    \<Rightarrow> auth_event list \<Rightarrow> bool" where
  "settled deps req r log \<longleftrightarrow>
     (case r of Inl oc \<Rightarrow> \<forall>a. oc \<noteq> Authorized a | Inr st \<Rightarrow> auth_inv deps req st log)"

lemma settle_settled:
  assumes "found deps req st p s (Some t) log"
    and "if po then p = ''github'' \<and> id_perUser (rq_identity req) else planned req p"
  shows "wp (settle env deps req po p s t st) (settled deps req) log"
  by (rule wp_mono[OF settle_inv]) (use assms in \<open>auto simp: found_def subject_ok_def settled_def split: sum.splits\<close>)

definition stepped :: "AuthorizationServiceDeps \<Rightarrow> AuthorizationRequest \<Rightarrow> loop_step \<Rightarrow> auth_event list \<Rightarrow> bool" where
  "stepped deps req r log \<longleftrightarrow>
     (case r of Return oc \<Rightarrow> \<forall>a. oc \<noteq> Authorized a | Continue st \<Rightarrow> auth_inv deps req st log | Break st \<Rightarrow> auth_inv deps req st log)"

lemma assess_provider_inv:
  assumes inv: "auth_inv deps req st log" and ok: "entry_ok req entry"
  shows "wp (assess_provider env deps req flow vp entry later st) (stepped deps req) log"
proof (cases "gatewayFor deps (pe_name entry)")
  case (Some gw)
  define s where "s = credential_subject deps (rq_identity req) (pe_name entry) (st_principal st)"
  have subj: "subject_ok deps req (pe_name entry) s log"
    using inv own_subject.raw by (auto simp: subject_ok_def s_def credential_subject_def auth_inv_def)
  have settle: "wp (bind_e (settle env deps req (pe_principalOnly entry) (pe_name entry) s t st1)
               (\<lambda>r. return_e (settle_step r))) (stepped deps req) l"
    if "found deps req st1 (pe_name entry) s (Some t) l" for t st1 l
    by (rule wp_bindI[OF settle_settled[OF that]])
      (use ok in \<open>auto simp: entry_ok_def wp_return settle_step_def settled_def stepped_def split: sum.splits\<close>)
  have offer: "wp (bind_e (offer_link env deps req flow vp entry later gw s st)
         (\<lambda>offer. case offer of
            Parked st' \<Rightarrow> return_e (Continue st')
          | ParkedPrincipal st' \<Rightarrow> return_e (Break st')
          | Landed t st' \<Rightarrow>
              bind_e (settle env deps req (pe_principalOnly entry) (pe_name entry) s t st')
                (\<lambda>r. return_e (settle_step r)))) (stepped deps req) l"
    if "found deps req st (pe_name entry) s None l" for l
    by (rule wp_bindI[OF offer_link_inv[OF _ ok]])
      (use that in \<open>auto simp: found_def offered_def wp_return stepped_def settle split: offer_result.splits\<close>)
  show ?thesis
    unfolding assess_provider_def Some option.case Let_def s_def[symmetric]
    by (rule wp_bindI[OF read_credential_inv[OF inv subj]]) (auto simp: settle offer split: option.splits)
qed (simp add: assess_provider_def wp_simps stepped_def)

lemma provider_loop_inv:
  assumes "auth_inv deps req st log" "\<forall>entry \<in> set plan. entry_ok req entry"
  shows "wp (provider_loop env deps req flow vp plan st) (settled deps req) log"
  using assms
proof (induction plan arbitrary: st log)
  case (Cons entry later)
  then show ?case
    unfolding provider_loop.simps
    by (intro wp_bindI[OF assess_provider_inv])
      (auto simp: wp_return stepped_def settled_def split: loop_step.splits)
qed (simp add: wp_return settled_def)


definition deferred_ok :: "AuthorizationServiceDeps \<Rightarrow> AuthorizationRequest \<Rightarrow> deferred_provider list \<Rightarrow> auth_event list \<Rightarrow> bool" where
  "deferred_ok deps req ds log \<longleftrightarrow>
     (\<forall>d \<in> set ds. planned req (df_provider d) \<and> subject_ok deps req (df_provider d) (df_credentialSubject d) log)"

lemma deferred_ok_mono: "deferred_ok deps req ds log \<Longrightarrow> deferred_ok deps req ds (log @ new)"
  by (auto simp: deferred_ok_def subject_ok_mono)

lemma deferred_ok_tl: "deferred_ok deps req (d # ds) log \<Longrightarrow> deferred_ok deps req ds log"
  by (simp add: deferred_ok_def)

lemma deferred_loop_inv:
  assumes "auth_inv deps req st log" "deferred_ok deps req ds log"
  shows "wp (deferred_loop env deps req started msg waiting ds st) (settled deps req) log"
  using assms
proof (induction ds arbitrary: st log waiting)
  case (Cons d ds)
  let ?p = "df_provider d" and ?s = "df_credentialSubject d"
  have d: "planned req ?p" "subject_ok deps req ?p ?s log"
    using Cons.prems(2) by (simp_all add: deferred_ok_def)
  let ?M = "deferred_ok deps req ds"
  have wait: "wp (if waiting then waitForLink env (df_gateway d) ?p ?s (expiresInSeconds started * 1000)
                  else return_e None)
        (\<lambda>r log. found deps req st ?p ?s r log \<and> ?M log) log"
  proof (rule wp_keep[where A = "\<lambda>_. True"])
    show "emits (\<lambda>_. True) (if waiting then waitForLink env (df_gateway d) ?p ?s (expiresInSeconds started * 1000)
            else return_e None)"
      unfolding waitForLink_def gw_defs by (intro emits_rules) auto
    show "?M log" using Cons.prems(2) by (rule deferred_ok_tl)
    show "wp (if waiting then waitForLink env (df_gateway d) ?p ?s (expiresInSeconds started * 1000)
            else return_e None) (found deps req st ?p ?s) log"
      using Cons.prems(1) d(2) by (simp add: wp_simps waitForLink_inv found_def)
  qed (rule deferred_ok_mono)
  have landed: "wp (bind_e (settle env deps req False ?p ?s t st)
              (\<lambda>r. case r of Inl oc \<Rightarrow> return_e (Inl oc)
               | Inr st' \<Rightarrow> deferred_loop env deps req started msg waiting ds st')) (settled deps req) l"
    if "found deps req st ?p ?s (Some t) l" "?M l" for t l
  proof (rule wp_bindI)
    show "wp (settle env deps req False ?p ?s t st) (\<lambda>r log. settled deps req r log \<and> ?M log) l"
      by (rule wp_keep[OF _ that(2) deferred_ok_mono settle_settled[OF that(1)], of "\<lambda>_. True"])
        (use d(1) in \<open>auto simp: settle_def gw_defs intro!: emits_rules\<close>)
  qed (auto simp: settled_def wp_return Cons.IH split: sum.splits)
  show ?case
    unfolding deferred_loop.simps
    by (rule wp_bindI[OF wait])
      (auto simp: landed[unfolded wp_bind] wp_bind wp_read Cons.IH found_def split: option.splits)
qed (simp add: wp_return settled_def)

lemma deferred_page_inv:
  assumes "auth_inv deps req st log"
  shows "wp (deferred_page env deps req flow st) (settled deps req) log"
proof -
  have "deferred_ok deps req (st_deferred st) log"
    using assms by (simp add: deferred_ok_def auth_inv_def subject_ok_def)
  then show ?thesis
    using assms
    by (auto simp: deferred_page_def wp_simps Let_def settled_def deferred_loop_inv auth_inv_mono
        deferred_ok_mono split: option.splits)
qed

definition outcome_justified :: "AuthorizationServiceDeps \<Rightarrow> AuthorizationRequest \<Rightarrow> AuthorizationOutcome \<Rightarrow> auth_event list \<Rightarrow> bool" where
  "outcome_justified deps req oc log \<longleftrightarrow>
     (case oc of
        Authorized a \<Rightarrow>
          (\<forall>e \<in> set (coalesce (ao_secretEnv a) []). justified deps req log e) \<and>
          own_subject (rq_identity req) log (ao_principal a) \<and>
          (id_perUser (rq_identity req) \<or>
             ao_principal a = coalesce (id_principal (rq_identity req)) (id_subject (rq_identity req)))
      | _ \<Rightarrow> True)"

lemma resolveActorLogin_own:
  assumes "auth_inv deps req st log"
  shows "wp (resolveActorLogin env (id_subject (rq_identity req)) (rq_senderLogin req) gw)
           (\<lambda>r log. auth_inv deps req st log \<and> (\<forall>l. r = Some l \<longrightarrow> own_login req log l)) log"
proof (cases "truthy_str (rq_senderLogin req)")
  case True
  then show ?thesis using assms by (simp add: resolveActorLogin_def wp_return own_login_def)
next
  case False
  show ?thesis
  proof (cases gw)
    case (Some port)
    show ?thesis
    proof (cases "has_getLinkedLogin port")
      case True
      then show ?thesis
        using False Some assms
        by (auto simp: resolveActorLogin_def wp_simps gw_defs own_login_def auth_inv_mono split: sum.splits)
    next
      case no: False
      have "own_login req (log' @ [GetToken g ''github'' (id_subject (rq_identity req)) (Inr (Some t))]) l"
        if "tk_githubLogin t = Some l" for log' g t l
        using that own_subject.raw token_event_last(1) unfolding own_login_def by blast
      then show ?thesis
        using False Some no assms
        by (auto simp: resolveActorLogin_def eff_defs wp_def gw_defs auth_inv_mono bind_eq_Some_conv
            split: sum.splits)
    qed
  qed (use False assms in \<open>simp add: resolveActorLogin_def wp_return\<close>)
qed

lemma verdict_inv:
  assumes "auth_inv deps req st log"
  shows "wp (verdict env deps req st) (outcome_justified deps req) log"
proof (cases "st_pendingLinks st \<noteq> [] \<or> st_failedToStart st \<noteq> []")
  case False
  let ?m = "case st_actorLoginFromLoop st of
             Some l \<Rightarrow> return_e (Some l)
           | None \<Rightarrow>
               (case st_principalLogin st of
                  Some l \<Rightarrow> return_e (Some l)
                | None \<Rightarrow> resolveActorLogin env (id_subject (rq_identity req)) (rq_senderLogin req)
                            (identityLinkGateway deps))"
  have "wp ?m (\<lambda>r log. auth_inv deps req st log \<and> (\<forall>l. r = Some l \<longrightarrow> own_login req log l)) log"
    using assms resolveActorLogin_own[OF assms]
    by (auto simp: wp_return auth_inv_def split: option.splits)
  then show ?thesis
    unfolding verdict_def if_not_P[OF False]
  proof (rule wp_bindI)
    fix actorLogin log'
    assume a: "auth_inv deps req st log' \<and> (\<forall>l. actorLogin = Some l \<longrightarrow> own_login req log' l)"
    define st' where "st' = (if truthy_str actorLogin
        then add_env [\<lparr>ce_name = ACTOR_LOGIN_ENV, ce_value = the actorLogin\<rparr>] st else st)"
    have "auth_inv deps req st' log'"
      using a by (auto simp: st'_def truthy_str_def justified_def intro!: auth_inv_add_env split: option.splits)
    then show "wp (let st' = (if truthy_str actorLogin
                        then add_env [\<lparr>ce_name = ACTOR_LOGIN_ENV, ce_value = the actorLogin\<rparr>] st else st)
             in return_e (Authorized
                  \<lparr>ao_secretEnv = st_secretEnv st',
                   ao_actorLogin = (if truthy_str actorLogin then actorLogin else None),
                   ao_principal = st_principal st', ao_ownedSecretNames = st_ownedSecretNames st'\<rparr>))
          (outcome_justified deps req) log'"
      unfolding st'_def[symmetric] Let_def by (simp add: wp_return outcome_justified_def auth_inv_def)
  qed
qed (simp add: verdict_def wp_simps outcome_justified_def)

lemma principal_lookup_inv:
  assumes "auth_inv deps req st log"
  shows "wp (principal_lookup env deps req plan st) (\<lambda>x. auth_inv deps req (fst x)) log"
proof -
  have "auth_inv deps req (st\<lparr>st_principalLogin := Some l, st_principal := canonicalSubjectForLogin l\<rparr>)
      (log @ [GetLinkedLogin IdentityLinkGateway ''github'' (id_subject (rq_identity req)) (Inr (Some l))])"
    if "id_perUser (rq_identity req)" for l
  proof -
    let ?log = "log @ [GetLinkedLogin IdentityLinkGateway ''github'' (id_subject (rq_identity req)) (Inr (Some l))]"
    have "own_subject (rq_identity req) ?log (canonicalSubjectForLogin l)"
      using that by (intro own_subject.looked_up) simp_all
    moreover have "own_login req ?log l" by (simp add: own_login_def)
    ultimately show ?thesis using auth_inv_mono[OF assms] that by (simp add: auth_inv_def)
  qed
  then show ?thesis
    using assms
    by (auto simp: principal_lookup_def wp_simps gw_defs auth_inv_mono PRINCIPAL_PROVIDER_def truthy_str_def
        split: sum.splits option.splits)
qed

lemma initial_inv: "auth_inv deps req (initial_state (rq_identity req)) log"
  using own_subject.resolved by (simp add: auth_inv_def initial_state_def)

lemma assess_plan_inv:
  assumes "auth_inv deps req st log" "\<forall>entry \<in> set plan. entry_ok req entry"
  shows "wp (assess_plan env deps req flow vp plan st) (outcome_justified deps req) log"
proof -
  have stop: "outcome_justified deps req oc l" if "\<forall>a. oc \<noteq> Authorized a" for oc l
    using that by (cases oc) (auto simp: outcome_justified_def)
  have rest: "wp (bind_e (deferred_page env deps req flow st1)
       (\<lambda>r. case r of Inl oc \<Rightarrow> return_e oc | Inr st2 \<Rightarrow> verdict env deps req st2)) (outcome_justified deps req) l"
    if "auth_inv deps req st1 l" for st1 l
    by (rule wp_bindI[OF deferred_page_inv[OF that]])
      (auto simp: settled_def wp_return stop verdict_inv split: sum.splits)
  show ?thesis
    unfolding assess_plan_def
    by (rule wp_bindI[OF provider_loop_inv[OF assms]])
      (auto simp: settled_def wp_return stop rest split: sum.splits)
qed

lemma authorize_inv: "wp (authorize env deps req) (outcome_justified deps req) log"
  unfolding authorize_def Let_def
  by (rule wp_bindI[OF principal_lookup_inv[OF initial_inv]])
    (use provider_plan_ok in \<open>auto intro!: assess_plan_inv\<close>)



section \<open>An example\<close>

definition port_full :: IdentityLinkPort where
  "port_full = \<lparr>has_waitForCompletion = True, has_rekey = True, has_getLinkedLogin = True\<rparr>"

definition deps_a :: AuthorizationServiceDeps where
  "deps_a = \<lparr>identityLinkGateway = Some port_full, claudeAuthGateway = Some port_full,
     claudeRemoteGateway = None, connectionsUrl = None, has_claudeRemoteWriteback = False,
     agentRunTimeoutSeconds = None, identityProviderCatalog = None\<rparr>"

text \<open>Gateways that know the login of \<open>openwebui:u1\<close> and have its credentials.\<close>

definition env_a :: link_env where
  "env_a = \<lparr>env_getToken = (\<lambda>_ g p s. Inr (Some \<lparr>tk_token = p @ ''-tok'', tk_githubLogin = None\<rparr>)),
     env_start = (\<lambda>_ g p s f. Inl ''down''), env_wait = (\<lambda>_ g p s ms. Inr None),
     env_rekey = (\<lambda>_ g p a b. Inr False), env_linkedLogin = (\<lambda>_ g p s. Inr (Some ''Alice'')),
     env_grant = (\<lambda>_ s ttl. Inr None), env_pageUrl = (\<lambda>u ps. Some u), env_now = (\<lambda>_. 0)\<rparr>"

definition req_a :: AuthorizationRequest where
  "req_a = \<lparr>rq_agentId = ''swe'', rq_identityProviders = Some [''github'', ''claude''],
     rq_identity = \<lparr>id_subject = ''openwebui:u1'', id_principal = None, id_perUser = True\<rparr>,
     rq_request = ''fix it'', rq_senderLogin = None, rq_progressListener = False,
     rq_reportIdentityLinkPending = False, rq_identityLinkFlow = None, rq_readOnly = True\<rparr>"

definition cleared_a :: authorized_outcome where
  "cleared_a = \<lparr>ao_secretEnv = Some [\<lparr>ce_name = ''CLAUDE_CODE_OAUTH_TOKEN'', ce_value = ''claude-tok''\<rparr>,
                                \<lparr>ce_name = ''AGENT_ACTOR_LOGIN'', ce_value = ''Alice''\<rparr>],
     ao_actorLogin = Some ''Alice'', ao_principal = ''github:alice'', ao_ownedSecretNames = []\<rparr>"

definition log_a :: "auth_event list" where
  "log_a = [GetLinkedLogin IdentityLinkGateway ''github'' ''openwebui:u1'' (Inr (Some ''Alice'')),
            GetToken ClaudeAuthGateway ''claude'' ''github:alice''
              (Inr (Some \<lparr>tk_token = ''claude-tok'', tk_githubLogin = None\<rparr>))]"

lemma authorize_example: "authorize env_a deps_a req_a [] = (Inr (Authorized cleared_a), log_a)"
  by code_simp

section \<open>Properties\<close>

text \<open>
  C2. Every credential a cleared run carries is the caller's own. Each entry of its
  environment is the token a gateway returned, in this very pre-flight, for a provider the
  agent declares and this turn may use, stored under a subject of the caller; or part of a
  write-back grant minted for such a subject; or the caller's own login. What the gateways
  answer, and when, is arbitrary.
\<close>

theorem credentials_are_the_callers_own:
  assumes "authorize env deps req log0 = (Inr (Authorized a), log)"
    and "e \<in> set (coalesce (ao_secretEnv a) [])"
  shows "justified deps req log e"
  using wp_use[OF authorize_inv assms(1)] assms(2) by (simp add: outcome_justified_def)

theorem credentials_are_the_callers_own_witness:
  "justified deps_a req_a log_a \<lparr>ce_name = ''CLAUDE_CODE_OAUTH_TOKEN'', ce_value = ''claude-tok''\<rparr>"
  by (rule credentials_are_the_callers_own[OF authorize_example]) (simp add: cleared_a_def)

text \<open>
  C3. A shared subject is never given to one person. For a caller whose subject is not known
  to be one human's, the pre-flight never moves a credential between subjects and never
  changes the principal, whatever the gateways answer.
\<close>

theorem shared_subject_is_never_rekeyed:
  assumes "\<not> id_perUser (rq_identity req)"
  shows "list_all (\<lambda>ev. case ev of Rekey _ _ _ _ _ \<Rightarrow> False | _ \<Rightarrow> True) (snd (authorize env deps req [])) \<and>
     (case fst (authorize env deps req []) of
        Inr (Authorized a) \<Rightarrow> ao_principal a = coalesce (id_principal (rq_identity req)) (id_subject (rq_identity req))
      | _ \<Rightarrow> True)"
proof
  have "emits (\<lambda>ev. case ev of Rekey _ _ _ _ _ \<Rightarrow> False | _ \<Rightarrow> True) (authorize env deps req)"
    by (rule emits_mono[OF authorize_emits]) (use assms in \<open>auto split: auth_event.splits\<close>)
  then show "list_all (\<lambda>ev. case ev of Rekey _ _ _ _ _ \<Rightarrow> False | _ \<Rightarrow> True) (snd (authorize env deps req []))"
    by (rule emits_events)
  obtain r log where r: "authorize env deps req [] = (r, log)" by (cases "authorize env deps req []")
  have "outcome_justified deps req oc log" if "r = Inr oc" for oc
    using wp_use[OF authorize_inv r[unfolded that]] .
  then show "case fst (authorize env deps req []) of
        Inr (Authorized a) \<Rightarrow> ao_principal a = coalesce (id_principal (rq_identity req)) (id_subject (rq_identity req))
      | _ \<Rightarrow> True"
    using r assms
    by (auto simp: outcome_justified_def split: sum.splits AuthorizationOutcome.splits)
qed

definition req_shared :: AuthorizationRequest where
  "req_shared = req_a\<lparr>rq_identity := \<lparr>id_subject = ''sa:gateway'', id_principal = None, id_perUser = False\<rparr>\<rparr>"

theorem shared_subject_is_never_rekeyed_witness:
  "\<not> id_perUser (rq_identity req_shared) \<and>
   list_all (\<lambda>ev. case ev of Rekey _ _ _ _ _ \<Rightarrow> False | _ \<Rightarrow> True) (snd (authorize env_a deps_a req_shared []))"
  using shared_subject_is_never_rekeyed[of req_shared env_a deps_a] by (simp add: req_shared_def)

text \<open>
  A read-only turn of the default catalog never carries the GitHub token, even when the
  agent declares the provider and the caller has it linked.
\<close>

theorem read_only_run_has_no_github_token:
  assumes "rq_readOnly req" "identityProviderCatalog deps = None"
    and "authorize env deps req log0 = (Inr (Authorized a), log)"
  shows "\<not> env_has (ao_secretEnv a) ''GITHUB_TOKEN''"
proof
  assume "env_has (ao_secretEnv a) ''GITHUB_TOKEN''"
  then obtain e where e: "e \<in> set (coalesce (ao_secretEnv a) [])" "ce_name e = ''GITHUB_TOKEN''"
    by (auto simp: env_has_def)
  have "justified deps req log e"
    using wp_use[OF authorize_inv assms(3)] e(1) by (simp add: outcome_justified_def)
  then have "from_link deps req log e"
    using e(2) by (auto simp: justified_def from_grant_def WRITEBACK_URL_ENV_def WRITEBACK_TOKEN_ENV_def ACTOR_LOGIN_ENV_def)
  then obtain p where "planned req p" "env_var_name deps p = Some ''GITHUB_TOKEN''"
    using e(2) by (auto simp: from_link_def)
  then show False
    using assms(1,2)
    by (auto simp: planned_def WRITE_CAPABLE_PROVIDERS_def env_var_name_def svc_catalog_def
        resolveIdentityProviderCatalog_def DEFAULT_IDENTITY_PROVIDER_CATALOG_def
        DEFAULT_IDENTITY_PROVIDERS_def js_record_get_def split: if_splits)
qed

theorem read_only_run_has_no_github_token_witness:
  "\<not> env_has (ao_secretEnv cleared_a) ''GITHUB_TOKEN''"
  by (rule read_only_run_has_no_github_token[OF _ _ authorize_example]) (simp_all add: req_a_def deps_a_def)

text \<open>
  C4. The outcomes. A cleared run carries a credential for every provider of its plan; the
  turn ends as misconfigured only for a provider of the plan (or the principal's) that has
  no gateway or no environment variable.
\<close>

theorem authorize_outcomes:
  assumes "authorize env deps req log0 = (Inr oc, log)"
  shows "outcome_ok deps req oc"
  using wp_use[OF authorize_outcome assms] .

theorem authorize_outcomes_witness: "outcome_ok deps_a req_a (Authorized cleared_a)"
  by (rule authorize_outcomes[OF authorize_example])


text \<open>
  Starting a flow: at most two attempts, the second only after the first threw, and the
  result is the first one that did not throw.
\<close>

theorem start_is_retried_once:
  "\<exists>attempts.
     startWithRetry env g p s flow log =
       (Inr (case last attempts of Inr x \<Rightarrow> Some x | Inl _ \<Rightarrow> None), log @ map (StartLink g p s flow) attempts) \<and>
     (length attempts = 1 \<and> is_ok (last attempts) \<or> length attempts = 2 \<and> \<not> is_ok (hd attempts))"
proof -
  define a1 a2 where "a1 = env_start env log g p s flow"
    and "a2 = env_start env (log @ [StartLink g p s flow a1]) g p s flow"
  show ?thesis
  proof (cases a1)
    case (Inl e)
    then show ?thesis
      by (intro exI[of _ "[a1, a2]"])
        (cases a2; simp add: startWithRetry_def START_ATTEMPTS_def numeral_2_eq_2 eff_defs gw_defs a1_def a2_def)
  next
    case (Inr x)
    then show ?thesis
      by (intro exI[of _ "[a1]"])
        (simp add: startWithRetry_def START_ATTEMPTS_def numeral_2_eq_2 eff_defs gw_defs a1_def)
  qed
qed

section \<open>The message\<close>

lemma js_findIndex_first:
  "x \<in> set xs \<Longrightarrow> P x \<Longrightarrow> \<exists>i < length xs. js_findIndex P xs = Some i \<and> P (xs ! i)"
  by (induction xs) (auto simp: nth_Cons split: nat.splits)

lemma links_toPrint_texts:
  assumes "\<forall>l \<in> set links. \<not> pl_surfacedLive l" "l \<in> set links"
  shows "pl_linkUrlText l \<in> pl_linkUrlText ` set (links_toPrint links)"
proof -
  obtain i where i: "i < length links" "pl_linkUrlText (links ! i) = pl_linkUrlText l"
    "js_findIndex (\<lambda>x. pl_linkUrlText x = pl_linkUrlText l) links = Some i"
    using js_findIndex_first[OF assms(2), of "\<lambda>x. pl_linkUrlText x = pl_linkUrlText l"] by auto
  have "(links ! i, i) \<in> set (zip links [0..<length links])"
    using i(1) by (auto simp: set_zip intro!: exI[of _ i])
  then have "links ! i \<in> set (links_toPrint links)"
    using i assms(1) by (force simp: links_toPrint_def)
  then show ?thesis using i(2) by (metis image_eqI)
qed

lemma sublist_context: "sublist x y \<Longrightarrow> sublist x (a @ y @ b)"
  by (meson sublist_appendI sublist_order.order.trans)

lemma sublist_js_join: "x \<in> set xs \<Longrightarrow> sublist x (js_join sep xs)"
proof (induction sep xs rule: js_join.induct)
  case (3 sep x' y ys)
  show ?case
  proof (cases "x = x'")
    case True
    then show ?thesis by simp
  next
    case False
    with 3 have "sublist x (js_join sep (y # ys))" by simp
    from sublist_context[OF this, of "x' @ sep" "[]"] show ?thesis by simp
  qed
qed auto

lemma pending_part_texts:
  assumes "\<forall>l \<in> set links. \<not> pl_surfacedLive l" "l \<in> set links"
  shows "\<exists>part \<in> set (pending_part links). sublist (pl_linkUrlText l) part"
proof -
  obtain l' where l': "l' \<in> set (links_toPrint links)" "pl_linkUrlText l' = pl_linkUrlText l"
    using links_toPrint_texts[OF assms] by auto
  have ne: "links \<noteq> []" using assms(2) by auto
  consider "links_toPrint links = [l']" | a b c where "links_toPrint links = a # b # c"
    using l'(1) by (cases "links_toPrint links"; cases "tl (links_toPrint links)") auto
  then show ?thesis
  proof cases
    case 1
    then show ?thesis
      using ne l'(2) by (simp add: pending_part_def sublist_context del: append_Cons append.simps)
  next
    case 2
    have "sublist (pl_linkUrlText l) (js_join '', and '' (map pl_linkUrlText (links_toPrint links)))"
      using l' by (intro sublist_js_join) (metis image_eqI set_map)
    then show ?thesis
      using ne 2 sublist_context[of "pl_linkUrlText l" "js_join '', and '' (map pl_linkUrlText (links_toPrint links))"
          "''To continue, I need you to link '' @ js_nat_string (length (links_toPrint links)) @
           '' accounts (one-time). Please ''" "''. Send any message once you're done.''"]
      by (simp add: pending_part_def del: js_join.simps append_Cons append.simps)
  qed
qed


text \<open>
  One message reports everything: when nothing was surfaced live, the text of every
  outstanding link is in the message, and so is the label of every provider whose flow did
  not start, whatever else is reported.
\<close>

theorem link_required_message_reports_all:
  assumes "\<forall>l \<in> set pendingLinks. \<not> pl_surfacedLive l"
  shows "(\<forall>l \<in> set pendingLinks.
            sublist (pl_linkUrlText l) (composeLinkRequiredMessage pendingLinks failedToStart)) \<and>
         (\<forall>x \<in> set failedToStart. sublist x (composeLinkRequiredMessage pendingLinks failedToStart))"
proof -
  have link: "sublist (pl_linkUrlText l) (js_join '' '' (pending_part pendingLinks @ more))"
    if "l \<in> set pendingLinks" for l more
    using pending_part_texts[OF assms that] sublist_js_join[of _ "pending_part pendingLinks @ more" "'' ''"]
    by (auto dest: sublist_order.order.trans)
  have lab: "sublist x (js_join '' '' (parts @ [a @ js_join '' and '' failedToStart @ b]))"
    if "x \<in> set failedToStart" for x parts a b
    using sublist_js_join[of "a @ js_join '' and '' failedToStart @ b" "parts @ [a @ js_join '' and '' failedToStart @ b]" "'' ''"]
      sublist_context[OF sublist_js_join[OF that, of "'' and ''"], of a b]
    by (auto dest: sublist_order.order.trans)
  show ?thesis
  proof (cases "failedToStart = []")
    case True
    then show ?thesis using link[of _ "[]"] by (simp add: composeLinkRequiredMessage_def)
  next
    case False
    have "\<exists>a b. composeLinkRequiredMessage pendingLinks failedToStart =
        js_join '' '' (pending_part pendingLinks @ [a @ js_join '' and '' failedToStart @ b])"
    proof (cases "pending_part pendingLinks = []")
      case True
      with False show ?thesis
        by (intro exI[of _ "''I couldn't start the one-time ''"]
            exI[of _ "'' account-linking step just now. Please try again in a moment -- re-apply the label or send any message and I'll retry.''"])
          (simp add: composeLinkRequiredMessage_def Let_def del: js_join.simps append_Cons append.simps)
    next
      case nonempty: False
      with False show ?thesis
        by (intro exI[of _ "''I also couldn't start the ''"]
            exI[of _ "'' linking step just now -- try again in a moment and I'll retry that part.''"])
          (simp add: composeLinkRequiredMessage_def Let_def del: js_join.simps append_Cons append.simps)
    qed
    then obtain a b where "composeLinkRequiredMessage pendingLinks failedToStart =
        js_join '' '' (pending_part pendingLinks @ [a @ js_join '' and '' failedToStart @ b])" by blast
    then show ?thesis using link lab by simp
  qed
qed

theorem link_required_message_reports_all_witness:
  "sublist ''[link your GitHub account](u)''
     (composeLinkRequiredMessage
       [\<lparr>pl_provider = ''github'', pl_label = ''GitHub'', pl_linkUrlText = ''[link your GitHub account](u)'',
         pl_surfacedLive = False,
         pl_pending = pending_anchor req_a ''github'' ''openwebui:u1'' (IdentityLinkAuthCodeStart ''u'' 600) 0\<rparr>]
       [''Claude''])"
  using link_required_message_reports_all[of "[\<lparr>pl_provider = ''github'', pl_label = ''GitHub'',
      pl_linkUrlText = ''[link your GitHub account](u)'', pl_surfacedLive = False,
      pl_pending = pending_anchor req_a ''github'' ''openwebui:u1'' (IdentityLinkAuthCodeStart ''u'' 600) 0\<rparr>]"
      "[''Claude'']"]
  by simp

section \<open>Credentials of an agent-backed tool\<close>

abbreviation linked_subject :: "AuthorizationServiceDeps \<Rightarrow> Identity \<Rightarrow> string \<Rightarrow> string" where
  "linked_subject deps identity p \<equiv>
     credential_subject deps identity p (coalesce (id_principal identity) (id_subject identity))"

lemma linked_loop_resolved:
  assumes "linked_loop env deps identity ps se0 log0 = (Inr (Resolved se), log)"
  shows "\<exists>gs ts. length gs = length ps \<and> length ts = length ps \<and>
     log = log0 @ map2 (\<lambda>g (p, t). GetToken g p (linked_subject deps identity p) (Inr (Some t))) gs (zip ps ts) \<and>
     coalesce se [] = coalesce se0 [] @
       map2 (\<lambda>p t. \<lparr>ce_name = the (env_var_name deps p), ce_value = tk_token t\<rparr>) ps ts"
  using assms
proof (induction ps arbitrary: se0 log0)
  case (Cons p ps)
  obtain gw t where gw: "gatewayFor deps p = Some gw"
    and t: "env_getToken env log0 (fst gw) p (linked_subject deps identity p) = Inr (Some t)"
    and rest: "linked_loop env deps identity ps
        (Some (coalesce se0 [] @ [\<lparr>ce_name = the (env_var_name deps p), ce_value = tk_token t\<rparr>]))
        (log0 @ [GetToken (fst gw) p (linked_subject deps identity p) (Inr (Some t))]) = (Inr (Resolved se), log)"
    using Cons.prems
    by (auto simp: eff_defs gw_defs split: option.splits sum.splits if_splits)
  from Cons.IH[OF rest] obtain gs ts where "length gs = length ps" "length ts = length ps"
     "log = (log0 @ [GetToken (fst gw) p (linked_subject deps identity p) (Inr (Some t))]) @
        map2 (\<lambda>g (p, t). GetToken g p (linked_subject deps identity p) (Inr (Some t))) gs (zip ps ts)"
     "coalesce se [] = (coalesce se0 [] @ [\<lparr>ce_name = the (env_var_name deps p), ce_value = tk_token t\<rparr>]) @
       map2 (\<lambda>p t. \<lparr>ce_name = the (env_var_name deps p), ce_value = tk_token t\<rparr>) ps ts"
    by auto
  then show ?case by (intro exI[of _ "fst gw # gs"] exI[of _ "t # ts"]) simp
qed (simp add: return_e_def)

text \<open>
  The credentials of an agent-backed tool. When they resolve, the only calls made are one
  read per declared provider, in order, each under the subject the pre-flight would use, and
  the environment is exactly the tokens read, in order; and a read-only turn resolves nothing
  for a tool that declares a write-capable provider.
\<close>

theorem linked_credentials_are_exactly_the_reads:
  assumes "resolveLinkedCredentials env deps identity (Some ps) readOnly log0 = (Inr (Resolved se), log)"
  shows "(if readOnly then set ps \<inter> set WRITE_CAPABLE_PROVIDERS = {} else True) \<and>
     (\<exists>gs ts. length gs = length ps \<and> length ts = length ps \<and>
        log = log0 @ map2 (\<lambda>g (p, t). GetToken g p (linked_subject deps identity p) (Inr (Some t))) gs (zip ps ts) \<and>
        coalesce se [] = map2 (\<lambda>p t. \<lparr>ce_name = the (env_var_name deps p), ce_value = tk_token t\<rparr>) ps ts)"
proof -
  have loop: "linked_loop env deps identity ps None log0 = (Inr (Resolved se), log)"
    using assms by (auto simp: resolveLinkedCredentials_def return_e_def Let_def split: option.splits if_splits)
  have "set ps \<inter> set WRITE_CAPABLE_PROVIDERS = {}" if readOnly
    using assms that
    by (auto simp: resolveLinkedCredentials_def return_e_def Let_def WRITE_CAPABLE_PROVIDERS_def find_None_iff
        find_Some_iff split: option.splits if_splits)
  with linked_loop_resolved[OF loop] show ?thesis by simp
qed

definition env_claude :: "CredentialEnvEntry list" where
  "env_claude = [\<lparr>ce_name = ''CLAUDE_CODE_OAUTH_TOKEN'', ce_value = ''claude-tok''\<rparr>]"

theorem linked_credentials_are_exactly_the_reads_witness:
  "set [''claude''] \<inter> set WRITE_CAPABLE_PROVIDERS = {} \<and>
   (\<exists>ts :: IdentityLinkToken list. length ts = length [''claude''] \<and>
     env_claude = map2 (\<lambda>p t. \<lparr>ce_name = the (env_var_name deps_a p), ce_value = tk_token t\<rparr>) [''claude''] ts)"
proof -
  have "resolveLinkedCredentials env_a deps_a (rq_identity req_a) (Some [''claude'']) True [] =
      (Inr (Resolved (Some env_claude)),
       [GetToken ClaudeAuthGateway ''claude'' ''openwebui:u1''
          (Inr (Some \<lparr>tk_token = ''claude-tok'', tk_githubLogin = None\<rparr>))])"
    by code_simp
  note reads = linked_credentials_are_exactly_the_reads[OF this, unfolded if_True coalesce_simps]
  from conjunct2[OF reads] obtain ts :: "IdentityLinkToken list" where "length ts = length [''claude'']"
    "env_claude = map2 (\<lambda>p t. \<lparr>ce_name = the (env_var_name deps_a p), ce_value = tk_token t\<rparr>) [''claude''] ts"
    by (elim exE conjE)
  with conjunct1[OF reads] show ?thesis by (intro conjI exI[of _ ts])
qed

end
