(* ===== verification/Agent_Protocol.thy ===== *)
theory Agent_Protocol
  imports Complex_Main Js_Prelude
begin

text \<open>
  The agent message protocol (\<open>packages/messaging/src/agent-protocol.ts\<close>): what a running
  sub-agent and the orchestrator say to each other on the two subjects of one run.

  Fields the schemas declare as \<open>z.unknown()\<close> are carried and never looked into; their type
  is the parameter \<open>'v\<close>. Optional fields are options, \<open>pct\<close> is a rational number, and the
  sequence numbers are natural numbers, which is what \<open>z.number().int().nonnegative()\<close>
  says of them. The JSON codec and the schema library are not part of the model: a message
  that reaches a handler is one of these values.
\<close>

section \<open>Messages\<close>

record AgentMessageBase =
  agent_run_id :: string
  seq :: nat
  ts :: string

datatype 'v up_body =
    Ready
  | Progress_up "string option" string "rat option"
  | Warning string
  | Reply string bool "'v option"
  | Failed string string
  | Opencode_event "'v option"
  | Opencode_response string int "'v option"
  | Session_idle string
  | Session_ended string
  | Tool_call string string string

record 'v AgentUpMessage = AgentMessageBase +
  up_body :: "'v up_body"

datatype 'v down_body =
    Prompt string
  | Cancel "string option"
  | Signal string "'v option"
  | Opencode_request string string string "'v option"
  | Reply_ack nat
  | Tool_result string bool "'v option" "string option"

record 'v AgentDownMessage = AgentMessageBase +
  down_body :: "'v down_body"

text \<open>
  What the schema of the up direction asks beyond the types: the percentage of a progress
  message is between 0 and 100.
\<close>

definition AgentUpMessageSchema :: "'v AgentUpMessage \<Rightarrow> bool" where
  "AgentUpMessageSchema m \<longleftrightarrow>
     (case up_body m of
        Progress_up _ _ (Some pct) \<Rightarrow> 0 \<le> pct \<and> pct \<le> 100
      | _ \<Rightarrow> True)"

text \<open>The messages that end a turn, the ones the orchestrator acknowledges.\<close>

definition concluding :: "'v up_body \<Rightarrow> bool" where
  "concluding b \<longleftrightarrow> (case b of Reply _ _ _ \<Rightarrow> True | Failed _ _ \<Rightarrow> True | _ \<Rightarrow> False)"

text \<open>The messages that end the run: a final reply or a failure.\<close>

definition terminal :: "'v up_body \<Rightarrow> bool" where
  "terminal b \<longleftrightarrow> (case b of Reply _ final _ \<Rightarrow> final | Failed _ _ \<Rightarrow> True | _ \<Rightarrow> False)"

lemma concluding_simps [simp]:
  "concluding (Reply m f r)" "concluding (Failed c m)" "\<not> concluding Ready"
  "\<not> concluding (Progress_up s m p)" "\<not> concluding (Warning m)" "\<not> concluding (Tool_call c t i)"
  by (simp_all add: concluding_def)

lemma terminal_simps [simp]:
  "terminal (Reply m f r) \<longleftrightarrow> f" "terminal (Failed c m)" "\<not> terminal Ready"
  "\<not> terminal (Progress_up s m p)" "\<not> terminal (Warning m)" "\<not> terminal (Tool_call c t i)"
  by (simp_all add: terminal_def)

lemma terminal_concluding: "terminal b \<Longrightarrow> concluding b"
  by (cases b) (simp_all add: terminal_def)


section \<open>Subjects\<close>

record AgentSubjects =
  subj_up :: string
  subj_down :: string

definition agentSubjects :: "string \<Rightarrow> string \<Rightarrow> AgentSubjects" where
  "agentSubjects agentRunId prefix =
     \<lparr>subj_up = prefix @ ''.'' @ agentRunId @ ''.up'',
      subj_down = prefix @ ''.'' @ agentRunId @ ''.down''\<rparr>"

lemma agentSubjects_separate:
  "subj_up (agentSubjects r p) \<noteq> subj_down (agentSubjects r' p)"
proof
  assume "subj_up (agentSubjects r p) = subj_down (agentSubjects r' p)"
  then have "r @ ''.up'' = r' @ ''.down''" by (simp add: agentSubjects_def)
  then have "last (r @ ''.up'') = last (r' @ ''.down'')" by simp
  then show False by simp
qed

lemma agentSubjects_injective:
  "agentSubjects r p = agentSubjects r' p \<Longrightarrow> r = r'"
  by (simp add: agentSubjects_def)

end
