(* ===== verification/Agent_Runtime.thy ===== *)
theory Agent_Runtime
  imports Agent_Protocol
begin

text \<open>
  The agent's side of the protocol (\<open>packages/agent-runtime/src/runtime.ts\<close>): \<open>runAgent\<close>
  connects an agent implementation to the orchestrator, holds every concluding message until
  it is acknowledged, and routes answers, tool results and cancellation back to the promises
  the agent waits on.

  The process is single-threaded and runs between suspension points without interruption, so
  the model is a state and one function per uninterrupted stretch of code; \<open>rt_step\<close> runs
  the stretch an event of the environment wakes. The environment decides everything the
  code does not: the order of events, the clock, whether a publish fails, what the handler
  does and when. The theorems hold for every sequence of events.

  \<^item> A promise handed to the agent is a number; \<open>rt_settled\<close> lists the calls of its \<open>resolve\<close>
    or \<open>reject\<close>, so that a second settlement would be visible.
  \<^item> \<open>rt_published\<close> lists the calls of \<open>channel.publishUp\<close>, in order.
  \<^item> A hold keeps the variables of its \<open>publishHeld\<close> call and the point it is suspended at;
    \<open>wake\<close> is set exactly at the point \<open>Parked\<close>.
  \<^item> Times are whole milliseconds. Log lines are left out.
\<close>

section \<open>Configuration and state\<close>

record AgentRuntimeConfig =
  cf_natsUrl :: string
  cf_runId :: string
  cf_subjectPrefix :: string
  cf_goal :: string
  cf_readOnly :: bool
  cf_params :: "(string \<times> string) list"
  cf_replyAckTimeoutMs :: "int option"
  cf_replyAckRetryMs :: "int option"

record RunAgentOptions =
  op_config :: AgentRuntimeConfig
  op_replyAckRetryMs :: "int option"
  op_replyAckTimeoutMs :: "int option"

definition REPLY_ACK_RETRY_MS :: int where
  "REPLY_ACK_RETRY_MS = 10000"

definition REPLY_ACK_TIMEOUT_MS :: int where
  "REPLY_ACK_TIMEOUT_MS = 10 * 60 * 1000"

definition retryMs :: "RunAgentOptions \<Rightarrow> int" where
  "retryMs opts =
     coalesce (op_replyAckRetryMs opts)
       (coalesce (cf_replyAckRetryMs (op_config opts)) REPLY_ACK_RETRY_MS)"

definition timeoutMs :: "RunAgentOptions \<Rightarrow> int" where
  "timeoutMs opts =
     coalesce (op_replyAckTimeoutMs opts)
       (coalesce (cf_replyAckTimeoutMs (op_config opts)) REPLY_ACK_TIMEOUT_MS)"

text \<open>
  \<open>setTimeout\<close> of Node: a delay outside 1..2147483647 is 1 ms.
\<close>

definition timer_delay :: "int \<Rightarrow> int" where
  "timer_delay ms = (if 1 \<le> ms \<and> ms \<le> 2147483647 then ms else 1)"

text \<open>One reading of the clock: \<open>Date.now()\<close> and the ISO text of the same instant.\<close>

record clock =
  clk_now :: int
  clk_iso :: string

datatype hold_point =
    Offering          \<comment> \<open>awaiting \<open>channel.publishUp\<close>\<close>
  | Parked int        \<comment> \<open>awaiting the timer due at that time, or \<open>wake\<close>\<close>
  | Woken             \<comment> \<open>the wait is over, the loop has not run on yet\<close>

record 'v hold =
  acked :: bool
  hold_done :: bool
  hold_envelope :: "'v AgentUpMessage"
  deadline :: int
  hold_at :: hold_point

datatype 'v outcome =
    Answer string
  | ToolValue "'v option"
  | ToolCallError string
  | CancelledError string

record PendingAsk =
  ask_promise :: nat
  ask_seq :: nat

text \<open>Where \<open>runAgent\<close> itself is: the two \<open>Sending\<close> points are the publish without a hold.\<close>

datatype run_point =
    AwaitReady
  | InHandler
  | HoldingReply nat
  | HoldingFailed nat
  | SendingReply
  | SendingFailed
  | Closing bool      \<comment> \<open>awaiting \<open>channel.close()\<close>; whether an error propagates after it\<close>
  | Ended bool        \<comment> \<open>settled; whether \<open>runAgent\<close> rejected\<close>

record 'v runtime =
  rt_seq :: nat
  rt_aborted :: "string option"
  rt_pendingAsk :: "PendingAsk option"
  rt_holds :: "(nat \<times> 'v hold) list"
  rt_pendingToolCalls :: "(string \<times> nat) list"
  rt_promises :: nat
  rt_settled :: "(nat \<times> 'v outcome) list"
  rt_published :: "'v AgentUpMessage list"
  rt_point :: run_point


section \<open>Publishing\<close>

definition envelope :: "RunAgentOptions \<Rightarrow> clock \<Rightarrow> nat \<Rightarrow> 'v up_body \<Rightarrow> 'v AgentUpMessage" where
  "envelope opts clk n b =
     \<lparr>agent_run_id = cf_runId (op_config opts), seq = n, ts = clk_iso clk, up_body = b\<rparr>"

definition channel_publishUp :: "'v AgentUpMessage \<Rightarrow> 'v runtime \<Rightarrow> 'v runtime" where
  "channel_publishUp m st = st\<lparr>rt_published := rt_published st @ [m]\<rparr>"

definition take_seq :: "'v runtime \<Rightarrow> 'v runtime" where
  "take_seq st = st\<lparr>rt_seq := rt_seq st + 1\<rparr>"

definition publishUp :: "RunAgentOptions \<Rightarrow> clock \<Rightarrow> 'v up_body \<Rightarrow> 'v runtime \<Rightarrow> 'v runtime" where
  "publishUp opts clk b st =
     channel_publishUp (envelope opts clk (rt_seq st) b) (take_seq st)"

definition settle_promise :: "nat \<Rightarrow> 'v outcome \<Rightarrow> 'v runtime \<Rightarrow> 'v runtime" where
  "settle_promise p v st = st\<lparr>rt_settled := rt_settled st @ [(p, v)]\<rparr>"

definition new_promise :: "'v runtime \<Rightarrow> 'v runtime" where
  "new_promise st = st\<lparr>rt_promises := rt_promises st + 1\<rparr>"


section \<open>Holding a concluding message\<close>

text \<open>\<open>hold.wake?.()\<close>: the timer is cleared and the suspended loop becomes runnable.\<close>

definition wake :: "'v hold \<Rightarrow> 'v hold" where
  "wake h = (case hold_at h of Parked _ \<Rightarrow> h\<lparr>hold_at := Woken\<rparr> | _ \<Rightarrow> h)"

definition releaseHold :: "nat \<Rightarrow> 'v runtime \<Rightarrow> 'v runtime" where
  "releaseHold n st =
     (case map_of (rt_holds st) n of
        None \<Rightarrow> st
      | Some h \<Rightarrow> st\<lparr>rt_holds := AList.update n (wake (h\<lparr>hold_done := True\<rparr>)) (rt_holds st)\<rparr>)"

text \<open>
  \<open>publishHeld\<close> up to its first suspension: without holding, one publish; otherwise the hold
  is registered and the message offered for the first time.
\<close>

definition publishHeld ::
  "RunAgentOptions \<Rightarrow> clock \<Rightarrow> 'v up_body \<Rightarrow> nat \<Rightarrow> 'v runtime \<Rightarrow> 'v runtime" where
  "publishHeld opts clk b n st =
     (let m = envelope opts clk n b in
      if timeoutMs opts = 0 then channel_publishUp m st
      else channel_publishUp m
        (st\<lparr>rt_holds := AList.update n
              \<lparr>acked = False, hold_done = False, hold_envelope = m,
               deadline = clk_now clk + timeoutMs opts, hold_at = Offering\<rparr> (rt_holds st)\<rparr>))"

text \<open>The condition of the loop, and of the break after the wait (negated there).\<close>

definition keep_offering :: "clock \<Rightarrow> 'v runtime \<Rightarrow> 'v hold \<Rightarrow> bool" where
  "keep_offering clk st h \<longleftrightarrow>
     \<not> acked h \<and> \<not> hold_done h \<and> rt_aborted st = None \<and> clk_now clk < deadline h"

text \<open>
  The end of \<open>publishHeld\<close>: the hold is removed, and \<open>runAgent\<close> goes on to close the channel
  when it was waiting for this one.
\<close>

definition end_hold :: "nat \<Rightarrow> 'v runtime \<Rightarrow> 'v runtime" where
  "end_hold n st =
     (let st' = st\<lparr>rt_holds := AList.delete n (rt_holds st)\<rparr>
      in if rt_point st = HoldingReply n \<or> rt_point st = HoldingFailed n
         then st'\<lparr>rt_point := Closing False\<rparr> else st')"

text \<open>The three ways a hold runs on: its publish settled, its timer fired, its wait is over.\<close>

definition offer_settled :: "RunAgentOptions \<Rightarrow> clock \<Rightarrow> nat \<Rightarrow> 'v runtime \<Rightarrow> 'v runtime option" where
  "offer_settled opts clk n st =
     (case map_of (rt_holds st) n of
        None \<Rightarrow> None
      | Some h \<Rightarrow>
          if hold_at h \<noteq> Offering then None
          else if keep_offering clk st h then
            Some (st\<lparr>rt_holds := AList.update n
                       (h\<lparr>hold_at := Parked (clk_now clk + timer_delay (retryMs opts))\<rparr>) (rt_holds st)\<rparr>)
          else Some (end_hold n st))"

definition timer_fired :: "clock \<Rightarrow> nat \<Rightarrow> 'v runtime \<Rightarrow> 'v runtime option" where
  "timer_fired clk n st =
     (case map_of (rt_holds st) n of
        None \<Rightarrow> None
      | Some h \<Rightarrow>
          (case hold_at h of
             Parked due \<Rightarrow>
               if due \<le> clk_now clk
               then Some (st\<lparr>rt_holds := AList.update n (h\<lparr>hold_at := Woken\<rparr>) (rt_holds st)\<rparr>)
               else None
           | _ \<Rightarrow> None))"

definition hold_resumed :: "clock \<Rightarrow> nat \<Rightarrow> 'v runtime \<Rightarrow> 'v runtime option" where
  "hold_resumed clk n st =
     (case map_of (rt_holds st) n of
        None \<Rightarrow> None
      | Some h \<Rightarrow>
          if hold_at h \<noteq> Woken then None
          else if keep_offering clk st h then
            Some (channel_publishUp (hold_envelope h)
              (st\<lparr>rt_holds := AList.update n (h\<lparr>hold_at := Offering\<rparr>) (rt_holds st)\<rparr>))
          else Some (end_hold n st))"


section \<open>Messages from the orchestrator\<close>

definition cancelled_message :: "string option \<Rightarrow> string" where
  "cancelled_message reason = coalesce reason ''agent run cancelled''"

definition on_prompt :: "string \<Rightarrow> 'v runtime \<Rightarrow> 'v runtime" where
  "on_prompt message st =
     (case rt_pendingAsk st of
        None \<Rightarrow> st
      | Some a \<Rightarrow>
          settle_promise (ask_promise a) (Answer message)
            (releaseHold (ask_seq a) (st\<lparr>rt_pendingAsk := None\<rparr>)))"

definition on_tool_result ::
  "string \<Rightarrow> bool \<Rightarrow> 'v option \<Rightarrow> string option \<Rightarrow> 'v runtime \<Rightarrow> 'v runtime" where
  "on_tool_result callId ok result error st =
     (case map_of (rt_pendingToolCalls st) callId of
        None \<Rightarrow> st
      | Some p \<Rightarrow>
          settle_promise p
            (if ok then ToolValue result
             else ToolCallError (coalesce error (''tool call '' @ callId @ '' failed'')))
            (st\<lparr>rt_pendingToolCalls := AList.delete callId (rt_pendingToolCalls st)\<rparr>))"

text \<open>The two loops of the cancel case: over the pending tool calls, and over the held seqs.\<close>

fun reject_tool_calls :: "string \<Rightarrow> (string \<times> nat) list \<Rightarrow> 'v runtime \<Rightarrow> 'v runtime" where
  "reject_tool_calls why [] st = st"
| "reject_tool_calls why ((callId, p) # rest) st =
     reject_tool_calls why rest
       (settle_promise p (CancelledError why)
         (st\<lparr>rt_pendingToolCalls := AList.delete callId (rt_pendingToolCalls st)\<rparr>))"

definition on_cancel :: "string option \<Rightarrow> 'v runtime \<Rightarrow> 'v runtime" where
  "on_cancel reason st =
     (let why = cancelled_message reason;
          st1 = (if rt_aborted st = None then st\<lparr>rt_aborted := Some why\<rparr> else st);
          st2 = (case rt_pendingAsk st1 of
                   None \<Rightarrow> st1
                 | Some a \<Rightarrow>
                     settle_promise (ask_promise a) (CancelledError why) (st1\<lparr>rt_pendingAsk := None\<rparr>));
          st3 = reject_tool_calls why (rt_pendingToolCalls st2) st2
      in fold releaseHold (map fst (rt_holds st3)) st3)"

definition on_reply_ack :: "nat \<Rightarrow> 'v runtime \<Rightarrow> 'v runtime" where
  "on_reply_ack ackSeq st =
     (case map_of (rt_holds st) ackSeq of
        None \<Rightarrow> st
      | Some h \<Rightarrow> st\<lparr>rt_holds := AList.update ackSeq (wake (h\<lparr>acked := True\<rparr>)) (rt_holds st)\<rparr>)"

definition onDown :: "'v AgentDownMessage \<Rightarrow> 'v runtime \<Rightarrow> 'v runtime" where
  "onDown m st =
     (case down_body m of
        Prompt message \<Rightarrow> on_prompt message st
      | Tool_result callId ok result error \<Rightarrow> on_tool_result callId ok result error st
      | Cancel reason \<Rightarrow> on_cancel reason st
      | Reply_ack ackSeq \<Rightarrow> on_reply_ack ackSeq st
      | Signal _ _ \<Rightarrow> st
      | Opencode_request _ _ _ _ \<Rightarrow> st)"


section \<open>The session handed to the agent\<close>

definition session_progress ::
  "RunAgentOptions \<Rightarrow> clock \<Rightarrow> string \<Rightarrow> string option \<Rightarrow> rat option \<Rightarrow> 'v runtime \<Rightarrow> 'v runtime" where
  "session_progress opts clk message stage pct =
     publishUp opts clk (Progress_up stage message pct)"

definition session_warn :: "RunAgentOptions \<Rightarrow> clock \<Rightarrow> string \<Rightarrow> 'v runtime \<Rightarrow> 'v runtime" where
  "session_warn opts clk message = publishUp opts clk (Warning message)"

definition session_ask :: "RunAgentOptions \<Rightarrow> clock \<Rightarrow> string \<Rightarrow> 'v runtime \<Rightarrow> 'v runtime" where
  "session_ask opts clk question st0 =
     (let p = rt_promises st0; st = new_promise st0 in
      if rt_aborted st \<noteq> None then settle_promise p (CancelledError (cancelled_message None)) st
      else
        (let n = rt_seq st;
             st' = (take_seq st)\<lparr>rt_pendingAsk := Some \<lparr>ask_promise = p, ask_seq = n\<rparr>\<rparr>
         in publishHeld opts clk (Reply question False None) n st'))"

text \<open>The \<open>callId\<close> is what \<open>randomUUID\<close> returned.\<close>

definition session_callTool ::
  "RunAgentOptions \<Rightarrow> clock \<Rightarrow> string \<Rightarrow> string \<Rightarrow> string \<Rightarrow> 'v runtime \<Rightarrow> 'v runtime" where
  "session_callTool opts clk callId tool input st0 =
     (let p = rt_promises st0; st = new_promise st0 in
      if rt_aborted st \<noteq> None then settle_promise p (CancelledError (cancelled_message None)) st
      else publishUp opts clk (Tool_call callId tool input)
             (st\<lparr>rt_pendingToolCalls := AList.update callId p (rt_pendingToolCalls st)\<rparr>))"


section \<open>Running the handler\<close>

text \<open>
  A thrown value as the catch block looks at it: its class tests, its \<open>name\<close> and \<open>code\<close> when
  they are strings, and its message (\<open>err.message\<close>, or \<open>String(err)\<close>).
\<close>

record thrown =
  th_isCancelled :: bool
  th_isAgentFailure :: bool
  th_isConfigError :: bool
  th_name :: "string option"
  th_code :: "string option"
  th_message :: string

definition failure_code :: "thrown \<Rightarrow> string" where
  "failure_code err =
     (let declared = (if th_isAgentFailure err \<or> th_name err = Some ''AgentFailure''
                      then th_code err else None)
      in if truthy_str declared then the declared
         else if th_isConfigError err then ''config_error'' else ''agent_error'')"

record 'v AgentReply =
  ar_message :: string
  ar_result :: "'v option"

definition handler_returned ::
  "RunAgentOptions \<Rightarrow> clock \<Rightarrow> 'v AgentReply \<Rightarrow> 'v runtime \<Rightarrow> 'v runtime" where
  "handler_returned opts clk r st =
     (let n = rt_seq st
      in (publishHeld opts clk (Reply (ar_message r) True (ar_result r)) n (take_seq st))
           \<lparr>rt_point := if timeoutMs opts = 0 then SendingReply else HoldingReply n\<rparr>)"

definition catch_block :: "RunAgentOptions \<Rightarrow> clock \<Rightarrow> thrown \<Rightarrow> 'v runtime \<Rightarrow> 'v runtime" where
  "catch_block opts clk err st =
     (if \<not> th_isCancelled err \<and> rt_aborted st = None then
        (let n = rt_seq st
         in (publishHeld opts clk (Failed (failure_code err) (th_message err)) n (take_seq st))
              \<lparr>rt_point := if timeoutMs opts = 0 then SendingFailed else HoldingFailed n\<rparr>)
      else st\<lparr>rt_point := Closing False\<rparr>)"

text \<open>
  The start: the handlers are registered and \<open>ready\<close> is published before the first
  suspension.
\<close>

definition rt_start :: "RunAgentOptions \<Rightarrow> clock \<Rightarrow> 'v runtime" where
  "rt_start opts clk =
     publishUp opts clk Ready
       \<lparr>rt_seq = 0, rt_aborted = None, rt_pendingAsk = None, rt_holds = [],
        rt_pendingToolCalls = [], rt_promises = 0, rt_settled = [], rt_published = [],
        rt_point = AwaitReady\<rparr>"

datatype 'v rt_event =
    ReadySettled bool
  | Down "'v AgentDownMessage"
  | DoProgress clock string "string option" "rat option"
  | DoWarn clock string
  | DoAsk clock string
  | DoCallTool clock string string string
  | OfferSettled clock nat
  | TimerFired clock nat
  | HoldResumed clock nat
  | HandlerReturned clock "'v AgentReply"
  | HandlerThrew clock thrown
  | SendSettled clock "thrown option"
  | CloseSettled bool

text \<open>
  One event, \<open>None\<close> when nothing waits for it. A \<open>CancelledError\<close> is made by this module
  only, for a promise rejected after the abort, so the handler cannot throw one before.
\<close>

definition rt_step :: "RunAgentOptions \<Rightarrow> 'v rt_event \<Rightarrow> 'v runtime \<Rightarrow> 'v runtime option" where
  "rt_step opts ev st =
     (case ev of
        ReadySettled ok \<Rightarrow>
          if rt_point st = AwaitReady
          then Some (st\<lparr>rt_point := if ok then InHandler else Ended True\<rparr>) else None
      | Down m \<Rightarrow> Some (onDown m st)
      | DoProgress clk message stage pct \<Rightarrow> Some (session_progress opts clk message stage pct st)
      | DoWarn clk message \<Rightarrow> Some (session_warn opts clk message st)
      | DoAsk clk question \<Rightarrow> Some (session_ask opts clk question st)
      | DoCallTool clk callId tool input \<Rightarrow> Some (session_callTool opts clk callId tool input st)
      | OfferSettled clk n \<Rightarrow> offer_settled opts clk n st
      | TimerFired clk n \<Rightarrow> timer_fired clk n st
      | HoldResumed clk n \<Rightarrow> hold_resumed clk n st
      | HandlerReturned clk r \<Rightarrow>
          if rt_point st = InHandler then Some (handler_returned opts clk r st) else None
      | HandlerThrew clk err \<Rightarrow>
          if rt_point st = InHandler \<and> (th_isCancelled err \<longrightarrow> rt_aborted st \<noteq> None)
          then Some (catch_block opts clk err st) else None
      | SendSettled clk failure \<Rightarrow>
          (case (rt_point st, failure) of
             (SendingReply, None) \<Rightarrow> Some (st\<lparr>rt_point := Closing False\<rparr>)
           | (SendingReply, Some err) \<Rightarrow>
               if th_isCancelled err then None else Some (catch_block opts clk err st)
           | (SendingFailed, None) \<Rightarrow> Some (st\<lparr>rt_point := Closing False\<rparr>)
           | (SendingFailed, Some _) \<Rightarrow> Some (st\<lparr>rt_point := Closing True\<rparr>)
           | _ \<Rightarrow> None)
      | CloseSettled ok \<Rightarrow>
          (case rt_point st of
             Closing failed \<Rightarrow> Some (st\<lparr>rt_point := Ended (failed \<or> \<not> ok)\<rparr>)
           | _ \<Rightarrow> None))"

inductive rt_run :: "RunAgentOptions \<Rightarrow> 'v runtime \<Rightarrow> 'v rt_event list \<Rightarrow> 'v runtime \<Rightarrow> bool"
  for opts where
  rt_run_nil: "rt_run opts st [] st"
| rt_run_snoc: "rt_run opts st evs st' \<Longrightarrow> rt_step opts ev st' = Some st'' \<Longrightarrow>
    rt_run opts st (evs @ [ev]) st''"

definition rt_reachable :: "RunAgentOptions \<Rightarrow> 'v runtime \<Rightarrow> bool" where
  "rt_reachable opts st \<longleftrightarrow> (\<exists>clk evs. rt_run opts (rt_start opts clk) evs st)"


text \<open>The same, computed.\<close>

fun rt_exec :: "RunAgentOptions \<Rightarrow> 'v runtime \<Rightarrow> 'v rt_event list \<Rightarrow> 'v runtime option" where
  "rt_exec opts st [] = Some st"
| "rt_exec opts st (ev # evs) =
     (case rt_step opts ev st of None \<Rightarrow> None | Some st' \<Rightarrow> rt_exec opts st' evs)"

lemma rt_exec_snoc:
  "rt_exec opts st (evs @ [ev]) =
     (case rt_exec opts st evs of None \<Rightarrow> None | Some st' \<Rightarrow> rt_step opts ev st')"
  by (induction evs arbitrary: st) (auto split: option.split)

lemma rt_run_exec: "rt_run opts st evs st' \<longleftrightarrow> rt_exec opts st evs = Some st'"
proof
  show "rt_run opts st evs st' \<Longrightarrow> rt_exec opts st evs = Some st'"
    by (induction rule: rt_run.induct) (simp_all add: rt_exec_snoc)
  show "rt_exec opts st evs = Some st' \<Longrightarrow> rt_run opts st evs st'"
    by (induction evs arbitrary: st' rule: rev_induct)
      (auto simp: rt_exec_snoc intro: rt_run_nil rt_run_snoc split: option.splits)
qed

lemma rt_reachable_exec: "rt_exec opts (rt_start opts clk) evs = Some st \<Longrightarrow> rt_reachable opts st"
  by (auto simp: rt_reachable_def rt_run_exec)

end
