(* ===== verification/Agent_Runtime_Log.thy ===== *)
theory Agent_Runtime_Log
  imports Agent_Runtime
begin

text \<open>
  The log of published messages: every step of the runtime publishes nothing, publishes one
  message under a fresh sequence number, or offers a held message again. From this follow
  that one sequence number stands for one message, and that a released hold is silent.
\<close>

section \<open>What a step does to the log and the holds\<close>

text \<open>
  Every step is of one of three kinds: it publishes nothing, it publishes one message under
  a sequence number never used before, or it offers a held message again.
\<close>

definition holds_from :: "'v runtime \<Rightarrow> 'v runtime \<Rightarrow> bool" where
  "holds_from st st' \<longleftrightarrow>
     (\<forall>n h'. map_of (rt_holds st') n = Some h' \<longrightarrow>
        (\<exists>h. map_of (rt_holds st) n = Some h \<and> hold_envelope h' = hold_envelope h \<and>
             deadline h' = deadline h \<and> (acked h \<longrightarrow> acked h') \<and> (hold_done h \<longrightarrow> hold_done h')))"

definition calm :: "'v runtime \<Rightarrow> 'v runtime \<Rightarrow> bool" where
  "calm st st' \<longleftrightarrow>
     rt_published st' = rt_published st \<and> rt_seq st' = rt_seq st \<and>
     (rt_aborted st \<noteq> None \<longrightarrow> rt_aborted st' \<noteq> None) \<and> holds_from st st'"

definition publishes_fresh :: "'v runtime \<Rightarrow> 'v runtime \<Rightarrow> bool" where
  "publishes_fresh st st' \<longleftrightarrow>
     (\<exists>m. seq m = rt_seq st \<and> rt_seq st' = rt_seq st + 1 \<and>
          rt_published st' = rt_published st @ [m] \<and> rt_aborted st' = rt_aborted st \<and>
          (\<forall>n h'. map_of (rt_holds st') n = Some h' \<longrightarrow>
             map_of (rt_holds st) n = Some h' \<or> (n = rt_seq st \<and> hold_envelope h' = m)))"

definition offers_again :: "'v runtime \<Rightarrow> 'v runtime \<Rightarrow> bool" where
  "offers_again st st' \<longleftrightarrow>
     (\<exists>n h. map_of (rt_holds st) n = Some h \<and> \<not> acked h \<and> \<not> hold_done h \<and> rt_aborted st = None \<and>
            rt_published st' = rt_published st @ [hold_envelope h] \<and> rt_seq st' = rt_seq st \<and>
            rt_aborted st' = rt_aborted st \<and> holds_from st st')"

lemma holds_from_refl [simp]: "holds_from st st"
  by (simp add: holds_from_def)

lemma holds_from_trans: "holds_from a b \<Longrightarrow> holds_from b c \<Longrightarrow> holds_from a c"
  unfolding holds_from_def by metis

lemma holds_from_same: "rt_holds st' = rt_holds st \<Longrightarrow> holds_from st st'"
  by (simp add: holds_from_def)

lemma calm_refl [simp]: "calm st st"
  by (simp add: calm_def)

lemma calm_trans: "calm a b \<Longrightarrow> calm b c \<Longrightarrow> calm a c"
  unfolding calm_def using holds_from_trans by metis

lemma calm_same:
  "rt_published st' = rt_published st \<Longrightarrow> rt_seq st' = rt_seq st \<Longrightarrow>
   rt_aborted st' = rt_aborted st \<Longrightarrow> rt_holds st' = rt_holds st \<Longrightarrow> calm st st'"
  by (simp add: calm_def holds_from_same)

lemma wake_simps [simp]:
  "acked (wake h) = acked h" "hold_done (wake h) = hold_done h"
  "hold_envelope (wake h) = hold_envelope h" "deadline (wake h) = deadline h"
  by (simp_all add: wake_def split: hold_point.splits)

lemma holds_from_update:
  assumes "map_of (rt_holds st) n = Some h"
    and "hold_envelope h' = hold_envelope h" "deadline h' = deadline h"
    and "acked h \<Longrightarrow> acked h'" "hold_done h \<Longrightarrow> hold_done h'"
  shows "holds_from st (st\<lparr>rt_holds := AList.update n h' (rt_holds st)\<rparr>)"
  using assms by (auto simp: holds_from_def js_map.get_set)

lemma calm_update:
  assumes "map_of (rt_holds st) n = Some h"
    and "hold_envelope h' = hold_envelope h" "deadline h' = deadline h"
    and "acked h \<Longrightarrow> acked h'" "hold_done h \<Longrightarrow> hold_done h'"
  shows "calm st (st\<lparr>rt_holds := AList.update n h' (rt_holds st)\<rparr>)"
  using holds_from_update[OF assms] by (simp add: calm_def)

lemma calm_releaseHold: "calm st (releaseHold n st)"
  by (simp add: releaseHold_def calm_update split: option.split)

lemma calm_fold_releaseHold: "calm st (fold releaseHold ns st)"
  by (induction ns arbitrary: st) (auto intro: calm_trans calm_releaseHold)

lemma calm_end_hold: "calm st (end_hold n st)"
  by (auto simp: calm_def end_hold_def Let_def holds_from_def js_map.get_delete split: if_splits)

lemma calm_settle [simp]: "calm st (settle_promise p v st)"
  by (simp add: settle_promise_def calm_same)

lemma calm_on_prompt: "calm st (on_prompt m st)"
proof (cases "rt_pendingAsk st")
  case (Some a)
  have "calm st (st\<lparr>rt_pendingAsk := None\<rparr>)" by (simp add: calm_same)
  then have "calm st (releaseHold (ask_seq a) (st\<lparr>rt_pendingAsk := None\<rparr>))"
    using calm_releaseHold by (rule calm_trans)
  from calm_trans[OF this calm_settle] show ?thesis by (simp add: on_prompt_def Some)
qed (simp add: on_prompt_def)

lemma calm_on_tool_result: "calm st (on_tool_result c ok r e st)"
  by (auto simp: on_tool_result_def settle_promise_def split: option.split intro: calm_same)

lemma calm_reject_tool_calls: "calm st (reject_tool_calls why cs st)"
proof (induction why cs st rule: reject_tool_calls.induct)
  case (2 why c p rest st)
  have "calm st (settle_promise p (CancelledError why)
          (st\<lparr>rt_pendingToolCalls := AList.delete c (rt_pendingToolCalls st)\<rparr>))"
    by (simp add: settle_promise_def calm_same)
  then show ?case using 2 by (simp add: calm_trans)
qed simp

text \<open>The cancel case, in its steps.\<close>

definition cancel_abort :: "string \<Rightarrow> 'v runtime \<Rightarrow> 'v runtime" where
  "cancel_abort why st = (if rt_aborted st = None then st\<lparr>rt_aborted := Some why\<rparr> else st)"

definition cancel_ask :: "string \<Rightarrow> 'v runtime \<Rightarrow> 'v runtime" where
  "cancel_ask why st =
     (case rt_pendingAsk st of
        None \<Rightarrow> st
      | Some a \<Rightarrow> settle_promise (ask_promise a) (CancelledError why) (st\<lparr>rt_pendingAsk := None\<rparr>))"

definition cancel_tools :: "string \<Rightarrow> 'v runtime \<Rightarrow> 'v runtime" where
  "cancel_tools why st = reject_tool_calls why (rt_pendingToolCalls st) st"

definition cancel_holds :: "'v runtime \<Rightarrow> 'v runtime" where
  "cancel_holds st = fold releaseHold (map fst (rt_holds st)) st"

lemma on_cancel_steps:
  "on_cancel reason st =
     cancel_holds (cancel_tools (cancelled_message reason)
       (cancel_ask (cancelled_message reason) (cancel_abort (cancelled_message reason) st)))"
  by (simp add: on_cancel_def cancel_holds_def cancel_tools_def cancel_ask_def cancel_abort_def
      Let_def)

lemma calm_on_cancel: "calm st (on_cancel reason st)"
proof -
  have abort: "calm st (cancel_abort why st)" for why
    by (simp add: cancel_abort_def calm_def holds_from_same)
  have ask: "calm st (cancel_ask why st)" for why and st :: "'a runtime"
    by (auto simp: cancel_ask_def settle_promise_def split: option.split intro: calm_same)
  show ?thesis
    unfolding on_cancel_steps cancel_tools_def cancel_holds_def
    by (rule calm_trans[OF calm_trans[OF calm_trans[OF abort ask] calm_reject_tool_calls]
          calm_fold_releaseHold])
qed

lemma calm_on_reply_ack: "calm st (on_reply_ack n st)"
  by (simp add: on_reply_ack_def calm_update split: option.split)

lemma calm_onDown: "calm st (onDown m st)"
  by (simp add: onDown_def calm_on_prompt calm_on_tool_result calm_on_cancel calm_on_reply_ack
      split: down_body.split)

lemma calm_offer_settled: "offer_settled opts clk n st = Some st' \<Longrightarrow> calm st st'"
  by (auto simp: offer_settled_def split: option.splits if_splits
      intro: calm_end_hold calm_update)

lemma calm_timer_fired: "timer_fired clk n st = Some st' \<Longrightarrow> calm st st'"
  by (auto simp: timer_fired_def split: option.splits hold_point.splits if_splits
      intro: calm_update)

lemma hold_resumed_kind:
  assumes "hold_resumed clk n st = Some st'"
  shows "calm st st' \<or> offers_again st st'"
proof -
  obtain h where h: "map_of (rt_holds st) n = Some h" "hold_at h = Woken"
    using assms by (auto simp: hold_resumed_def split: option.splits if_splits)
  show ?thesis
  proof (cases "keep_offering clk st h")
    case True
    have "holds_from st (st\<lparr>rt_holds := AList.update n (h\<lparr>hold_at := Offering\<rparr>) (rt_holds st)\<rparr>)"
      by (rule holds_from_update[OF h(1)]) simp_all
    then have "offers_again st st'"
      unfolding offers_again_def using assms h True
      by (intro exI[of _ n] exI[of _ h])
        (auto simp: hold_resumed_def keep_offering_def channel_publishUp_def holds_from_def)
    then show ?thesis ..
  next
    case False
    then show ?thesis using assms h calm_end_hold by (auto simp: hold_resumed_def)
  qed
qed

lemma fresh_publishUp:
  "publishes_fresh st (publishUp opts clk b st)"
  by (auto simp: publishes_fresh_def publishUp_def channel_publishUp_def take_seq_def envelope_def)

lemma fresh_publishHeld:
  "publishes_fresh st (publishHeld opts clk b (rt_seq st) (take_seq st))"
  by (auto simp: publishes_fresh_def publishHeld_def channel_publishUp_def take_seq_def envelope_def
      Let_def js_map.get_set split: if_splits)

lemma fresh_new_promise: "publishes_fresh (new_promise st) st' \<Longrightarrow> publishes_fresh st st'"
  by (simp add: publishes_fresh_def new_promise_def)

lemma fresh_point: "publishes_fresh st st' \<Longrightarrow> publishes_fresh st (st'\<lparr>rt_point := p\<rparr>)"
  by (simp add: publishes_fresh_def)

lemma session_ask_kind:
  "calm st (session_ask opts clk q st) \<or> publishes_fresh st (session_ask opts clk q st)"
  by (simp add: session_ask_def Let_def settle_promise_def new_promise_def take_seq_def
      publishHeld_def channel_publishUp_def envelope_def calm_same publishes_fresh_def js_map.get_set)

lemma session_callTool_kind:
  "calm st (session_callTool opts clk c t i st) \<or> publishes_fresh st (session_callTool opts clk c t i st)"
  by (simp add: session_callTool_def Let_def settle_promise_def new_promise_def take_seq_def
      publishUp_def channel_publishUp_def envelope_def calm_same publishes_fresh_def)

lemma catch_block_kind:
  "calm st (catch_block opts clk err st) \<or> publishes_fresh st (catch_block opts clk err st)"
  by (auto simp: catch_block_def Let_def calm_same intro: fresh_point fresh_publishHeld)

theorem rt_step_kinds:
  assumes "rt_step opts ev st = Some st'"
  shows "calm st st' \<or> publishes_fresh st st' \<or> offers_again st st'"
proof (cases ev)
  case (SendSettled clk failure)
  then show ?thesis using assms catch_block_kind[of st opts clk]
    by (auto simp: rt_step_def calm_same split: run_point.splits option.splits if_splits)
next
  case (CloseSettled ok)
  then show ?thesis using assms
    by (auto simp: rt_step_def calm_same split: run_point.splits)
next
  case (HandlerThrew clk err)
  then show ?thesis using assms catch_block_kind[of st opts clk err]
    by (auto simp: rt_step_def split: if_splits)
next
  case (HandlerReturned clk r)
  then show ?thesis using assms
    by (auto simp: rt_step_def handler_returned_def Let_def split: if_splits
        intro: fresh_point fresh_publishHeld)
next
  case (DoAsk clk q)
  then show ?thesis using assms session_ask_kind[of st opts clk q] by (auto simp: rt_step_def)
next
  case (DoCallTool clk c t i)
  then show ?thesis using assms session_callTool_kind[of st opts clk c t i] by (auto simp: rt_step_def)
next
  case (HoldResumed clk n)
  then show ?thesis using assms hold_resumed_kind[of clk n st] by (auto simp: rt_step_def)
qed (use assms in
     \<open>auto simp: rt_step_def calm_onDown session_progress_def session_warn_def fresh_publishUp
        calm_same calm_offer_settled calm_timer_fired split: if_splits\<close>)


section \<open>One message per sequence number\<close>

definition log_inv :: "'v runtime \<Rightarrow> bool" where
  "log_inv st \<longleftrightarrow>
     (\<forall>m \<in> set (rt_published st). seq m < rt_seq st) \<and>
     (\<forall>m \<in> set (rt_published st). \<forall>m' \<in> set (rt_published st). seq m = seq m' \<longrightarrow> m = m') \<and>
     (\<forall>n h. map_of (rt_holds st) n = Some h \<longrightarrow>
        seq (hold_envelope h) = n \<and> hold_envelope h \<in> set (rt_published st))"

lemma log_inv_start: "log_inv (rt_start opts clk)"
  by (simp add: log_inv_def rt_start_def publishUp_def channel_publishUp_def take_seq_def envelope_def)

lemma holds_fromD:
  "holds_from st st' \<Longrightarrow> map_of (rt_holds st') n = Some h' \<Longrightarrow>
   \<exists>h. map_of (rt_holds st) n = Some h \<and> hold_envelope h' = hold_envelope h"
  by (auto simp: holds_from_def)

lemma log_inv_same:
  assumes "log_inv st" "set (rt_published st') = set (rt_published st)" "rt_seq st' = rt_seq st"
    and "holds_from st st'"
  shows "log_inv st'"
proof -
  have "seq (hold_envelope h) = n \<and> hold_envelope h \<in> set (rt_published st')"
    if "map_of (rt_holds st') n = Some h" for n h
    using holds_fromD[OF assms(4) that] assms(1,2) by (auto simp: log_inv_def)
  with assms(1-3) show ?thesis by (simp add: log_inv_def)
qed

lemma log_inv_step:
  assumes "log_inv st" "rt_step opts ev st = Some st'"
  shows "log_inv st'"
proof -
  consider "calm st st'" | "publishes_fresh st st'" | "offers_again st st'"
    using rt_step_kinds[OF assms(2)] by blast
  then show ?thesis
  proof cases
    case 1
    then show ?thesis using log_inv_same[OF assms(1)] by (simp add: calm_def)
  next
    case 2
    then obtain m where m: "seq m = rt_seq st" "rt_seq st' = rt_seq st + 1"
      "rt_published st' = rt_published st @ [m]"
      and holds: "\<And>n h. map_of (rt_holds st') n = Some h \<Longrightarrow>
        map_of (rt_holds st) n = Some h \<or> (n = rt_seq st \<and> hold_envelope h = m)"
      by (auto simp: publishes_fresh_def)
    have "\<forall>n h. map_of (rt_holds st') n = Some h \<longrightarrow>
        seq (hold_envelope h) = n \<and> hold_envelope h \<in> set (rt_published st')"
      using holds m assms(1) unfolding log_inv_def by fastforce
    then show ?thesis using m assms(1) unfolding log_inv_def
      by (simp add: less_Suc_eq ball_Un) (metis nat_less_le)
  next
    case 3
    then obtain n h where *: "map_of (rt_holds st) n = Some h"
      "rt_published st' = rt_published st @ [hold_envelope h]" "rt_seq st' = rt_seq st"
      "holds_from st st'" by (auto simp: offers_again_def)
    have "set (rt_published st') = set (rt_published st)"
      using * assms(1) by (auto simp: log_inv_def)
    then show ?thesis using log_inv_same[OF assms(1)] * by simp
  qed
qed

lemma rt_run_invariant:
  assumes "rt_run opts st evs st'" "I st"
    and "\<And>st ev st'. I st \<Longrightarrow> rt_step opts ev st = Some st' \<Longrightarrow> I st'"
  shows "I st'"
  using assms by (induction) auto

lemma log_inv_reachable: "rt_reachable opts st \<Longrightarrow> log_inv st"
  unfolding rt_reachable_def using rt_run_invariant[of opts _ _ st log_inv] log_inv_start log_inv_step
  by blast


section \<open>A released hold is not offered again\<close>

definition offers :: "nat \<Rightarrow> 'v runtime \<Rightarrow> 'v AgentUpMessage list" where
  "offers n st = filter (\<lambda>m. seq m = n) (rt_published st)"

definition spent :: "nat \<Rightarrow> 'v runtime \<Rightarrow> bool" where
  "spent n st \<longleftrightarrow> n < rt_seq st \<and>
     (rt_aborted st \<noteq> None \<or>
      (\<forall>h. map_of (rt_holds st) n = Some h \<longrightarrow> acked h \<or> hold_done h))"

lemma spent_step:
  assumes inv: "log_inv st" and spent: "spent n st" and step: "rt_step opts ev st = Some st'"
  shows "spent n st' \<and> offers n st' = offers n st"
proof -
  consider "calm st st'" | "publishes_fresh st st'" | "offers_again st st'"
    using rt_step_kinds[OF step] by blast
  then show ?thesis
  proof cases
    case 1
    then show ?thesis using spent unfolding spent_def offers_def calm_def holds_from_def by metis
  next
    case 2
    then show ?thesis using spent unfolding spent_def offers_def publishes_fresh_def
      by (auto simp: less_Suc_eq)
  next
    case 3
    then obtain k h where *: "map_of (rt_holds st) k = Some h" "\<not> acked h" "\<not> hold_done h"
      "rt_aborted st = None" "rt_published st' = rt_published st @ [hold_envelope h]"
      "rt_seq st' = rt_seq st" "rt_aborted st' = rt_aborted st" "holds_from st st'"
      by (auto simp: offers_again_def)
    have "k \<noteq> n" "seq (hold_envelope h) = k"
      using * spent inv by (auto simp: spent_def log_inv_def)
    then show ?thesis using * spent unfolding spent_def offers_def holds_from_def by auto
  qed
qed

lemma spent_run:
  assumes "rt_run opts st evs st'" "log_inv st" "spent n st"
  shows "offers n st' = offers n st"
proof -
  have "log_inv st' \<and> spent n st' \<and> offers n st' = offers n st"
    using assms by (induction) (auto dest: log_inv_step spent_step)
  then show ?thesis by simp
qed


lemma rt_reachable_run:
  "rt_reachable opts st \<Longrightarrow> rt_run opts st evs st' \<Longrightarrow> rt_reachable opts st'"
proof -
  assume "rt_reachable opts st" "rt_run opts st evs st'"
  then obtain clk es where "rt_run opts (rt_start opts clk) es st" by (auto simp: rt_reachable_def)
  with \<open>rt_run opts st evs st'\<close> have "\<exists>es. rt_run opts (rt_start opts clk) es st'"
    by (induction) (blast intro: rt_run_snoc)+
  then show ?thesis by (auto simp: rt_reachable_def)
qed

lemma rt_reachable_step:
  "rt_reachable opts st \<Longrightarrow> rt_step opts ev st = Some st' \<Longrightarrow> rt_reachable opts st'"
  using rt_reachable_run[of opts st "[ev]" st'] rt_run_snoc[OF rt_run_nil, of opts ev st st'] by simp

lemma rt_reachable_induct [consumes 1, case_names start step]:
  assumes "rt_reachable opts st"
    and "\<And>clk. P (rt_start opts clk)"
    and "\<And>st ev st'. rt_reachable opts st \<Longrightarrow> P st \<Longrightarrow> rt_step opts ev st = Some st' \<Longrightarrow> P st'"
  shows "P st"
proof -
  obtain clk evs where "rt_run opts (rt_start opts clk) evs st"
    using assms(1) by (auto simp: rt_reachable_def)
  moreover have "rt_reachable opts (rt_start opts clk)"
    by (auto simp: rt_reachable_def intro: rt_run_nil)
  ultimately show ?thesis
    using rt_run_invariant[of opts "rt_start opts clk" evs st "\<lambda>s. rt_reachable opts s \<and> P s"]
      assms(2,3) rt_reachable_step by blast
qed

text \<open>The messages that release the hold of sequence number \<open>n\<close>.\<close>

definition releases :: "nat \<Rightarrow> 'v AgentDownMessage \<Rightarrow> 'v runtime \<Rightarrow> bool" where
  "releases n m st \<longleftrightarrow>
     (case down_body m of
        Reply_ack k \<Rightarrow> k = n
      | Prompt _ \<Rightarrow> map_option ask_seq (rt_pendingAsk st) = Some n
      | Cancel _ \<Rightarrow> True
      | _ \<Rightarrow> False)"

lemma releaseHold_sets:
  "map_of (rt_holds (releaseHold n st)) n = Some h \<Longrightarrow> hold_done h"
  by (auto simp: releaseHold_def js_map.get_set split: option.splits)

lemma cancel_aborts: "rt_aborted (on_cancel reason st) \<noteq> None"
proof -
  have "rt_aborted (cancel_abort why st) \<noteq> None" for why
    by (simp add: cancel_abort_def)
  moreover have "calm st' (cancel_ask why st')" for why and st' :: "'a runtime"
    by (auto simp: cancel_ask_def settle_promise_def split: option.split intro: calm_same)
  ultimately show ?thesis
    using calm_reject_tool_calls calm_fold_releaseHold unfolding on_cancel_steps cancel_tools_def
      cancel_holds_def calm_def by metis
qed

lemma releases_spends:
  assumes "releases n m st" "n < rt_seq st"
  shows "spent n (onDown m st)"
proof (cases "down_body m")
  case (Prompt msg)
  then obtain a where "rt_pendingAsk st = Some a" "ask_seq a = n"
    using assms(1) by (auto simp: releases_def)
  then show ?thesis
    using Prompt assms(2) calm_onDown[of st m]
    by (auto simp: spent_def calm_def onDown_def on_prompt_def settle_promise_def
        dest: releaseHold_sets)
next
  case (Cancel reason)
  then show ?thesis using assms(2) calm_onDown[of st m] cancel_aborts[of reason st]
    by (auto simp: spent_def calm_def onDown_def)
next
  case (Reply_ack k)
  then show ?thesis using assms calm_onDown[of st m]
    by (auto simp: spent_def calm_def releases_def onDown_def on_reply_ack_def js_map.get_set
        split: option.splits)
qed (use assms in \<open>simp_all add: releases_def\<close>)

lemma offers_onDown: "offers n (onDown m st) = offers n st"
  using calm_onDown[of st m] by (simp add: calm_def offers_def)


section \<open>Properties\<close>

text \<open>An agent that asks one question, which is offered twice while nobody answers.\<close>

definition rt_opts_ex :: RunAgentOptions where
  "rt_opts_ex =
     \<lparr>op_config = \<lparr>cf_natsUrl = ''nats://n'', cf_runId = ''run-1'', cf_subjectPrefix = ''agent'',
        cf_goal = ''g'', cf_readOnly = False, cf_params = [], cf_replyAckTimeoutMs = Some 25,
        cf_replyAckRetryMs = None\<rparr>,
      op_replyAckRetryMs = Some 10, op_replyAckTimeoutMs = None\<rparr>"

definition clock_ex :: "int \<Rightarrow> clock" where
  "clock_ex t = \<lparr>clk_now = t, clk_iso = ''T''\<rparr>"

definition down_ex :: "unit down_body \<Rightarrow> unit AgentDownMessage" where
  "down_ex b = \<lparr>agent_run_id = ''run-1'', seq = 0, ts = ''T'', down_body = b\<rparr>"

definition rt_events_ex :: "unit rt_event list" where
  "rt_events_ex =
     [ReadySettled True, DoAsk (clock_ex 0) ''which one?'', OfferSettled (clock_ex 0) 1,
      TimerFired (clock_ex 10) 1, HoldResumed (clock_ex 10) 1, OfferSettled (clock_ex 10) 1]"

definition rt_asking_ex :: "unit runtime" where
  "rt_asking_ex = the (rt_exec rt_opts_ex (rt_start rt_opts_ex (clock_ex 0)) rt_events_ex)"

lemma rt_asking_exec:
  "rt_exec rt_opts_ex (rt_start rt_opts_ex (clock_ex 0)) rt_events_ex = Some rt_asking_ex"
proof -
  have "rt_exec rt_opts_ex (rt_start rt_opts_ex (clock_ex 0)) rt_events_ex \<noteq> None"
    by code_simp
  then show ?thesis by (simp add: rt_asking_ex_def)
qed

lemma rt_asking_reachable: "rt_reachable rt_opts_ex rt_asking_ex"
  by (rule rt_reachable_exec[OF rt_asking_exec])

text \<open>
  C22. Sequence numbers identify messages: in every state the runtime can reach, whatever
  the order of events, two published messages with the same sequence number are the same
  message, envelope included. A re-offer is therefore recognisable as a duplicate, and the
  sequence number in an acknowledgement names one message.
\<close>

theorem one_message_per_seq:
  assumes "rt_reachable opts st" "m \<in> set (rt_published st)" "m' \<in> set (rt_published st)"
    and "seq m = seq m'"
  shows "m = m'"
  using log_inv_reachable[OF assms(1)] assms(2-4) by (auto simp: log_inv_def)

theorem one_message_per_seq_witness:
  "length (rt_published rt_asking_ex) = 3 \<and>
   rt_published rt_asking_ex ! 1 = rt_published rt_asking_ex ! 2"
proof -
  have "length (rt_published rt_asking_ex) = 3 \<and>
      seq (rt_published rt_asking_ex ! 1) = seq (rt_published rt_asking_ex ! 2)"
    by code_simp
  then show ?thesis
    using one_message_per_seq[OF rt_asking_reachable, of "rt_published rt_asking_ex ! 1"
        "rt_published rt_asking_ex ! 2"] by simp
qed

text \<open>
  An acknowledgement of its sequence number, the answer to the question it asks, or a
  cancellation ends the hold of a message for good: whatever happens afterwards, the
  message is never published again.
\<close>

theorem released_hold_is_not_offered_again:
  assumes "rt_reachable opts st" "n < rt_seq st" "releases n m st"
    and "rt_run opts (onDown m st) evs st'"
  shows "offers n st' = offers n st"
proof -
  have "log_inv (onDown m st)"
    using log_inv_reachable[OF rt_reachable_step[OF assms(1), of "Down m"]] by (simp add: rt_step_def)
  from spent_run[OF assms(4) this releases_spends[OF assms(3,2)]] show ?thesis
    by (simp add: offers_onDown)
qed

theorem released_hold_is_not_offered_again_witness:
  "\<exists>st'. rt_run rt_opts_ex (onDown (down_ex (Prompt ''the left'')) rt_asking_ex)
      [HoldResumed (clock_ex 20) 1] st' \<and> length (offers 1 st') = 2"
proof -
  let ?m = "down_ex (Prompt ''the left'')"
  have pre: "1 < rt_seq rt_asking_ex \<and> releases 1 ?m rt_asking_ex \<and> length (offers 1 rt_asking_ex) = 2 \<and>
      rt_exec rt_opts_ex (onDown ?m rt_asking_ex) [HoldResumed (clock_ex 20) 1] \<noteq> None"
    by code_simp
  then obtain st' where run: "rt_run rt_opts_ex (onDown ?m rt_asking_ex) [HoldResumed (clock_ex 20) 1] st'"
    by (auto simp: rt_run_exec)
  have "offers 1 st' = offers 1 rt_asking_ex"
    using released_hold_is_not_offered_again[OF rt_asking_reachable _ _ run] pre by blast
  then show ?thesis using run pre by auto
qed

end
