(* ===== verification/Agent_Runtime_Promises.thy ===== *)
theory Agent_Runtime_Promises
  imports Agent_Runtime_Log
begin

text \<open>
  The promises handed to the agent by \<open>ask\<close> and \<open>callTool\<close>: which are outstanding, that each
  is settled at most once, and that cancellation settles every one of them.
\<close>

section \<open>Promises\<close>

definition asked :: "PendingAsk option \<Rightarrow> nat list" where
  "asked pending = (case pending of None \<Rightarrow> [] | Some a \<Rightarrow> [ask_promise a])"

definition called :: "(string \<times> nat) list \<Rightarrow> nat list" where
  "called calls = map snd calls"

definition settled_ids :: "'v runtime \<Rightarrow> nat list" where
  "settled_ids st = map fst (rt_settled st)"

definition outstanding :: "'v runtime \<Rightarrow> nat list" where
  "outstanding st = asked (rt_pendingAsk st) @ called (rt_pendingToolCalls st)"

lemma asked_simps [simp]: "asked None = []" "asked (Some a) = [ask_promise a]"
  by (simp_all add: asked_def)

lemma called_Nil [simp]: "called [] = []"
  by (simp add: called_def)

definition promise_inv :: "'v runtime \<Rightarrow> bool" where
  "promise_inv st \<longleftrightarrow>
     distinct (settled_ids st @ outstanding st) \<and>
     (\<forall>p \<in> set (settled_ids st @ outstanding st). p < rt_promises st) \<and>
     (rt_aborted st \<noteq> None \<longrightarrow> outstanding st = [])"

lemma called_delete_subset: "set (called (AList.delete k m)) \<subseteq> set (called m)"
  by (auto simp: called_def AList.delete_eq)

lemma called_delete:
  "distinct (called m) \<Longrightarrow> map_of m k = Some v \<Longrightarrow>
   v \<in> set (called m) \<and> distinct (v # called (AList.delete k m))"
proof (induction m)
  case (Cons kv m)
  obtain a b where kv: "kv = (a, b)" by (cases kv)
  show ?case
  proof (cases "a = k")
    case True
    moreover have "distinct (called (AList.delete k m))"
      using Cons.prems by (simp add: called_def AList.delete_eq distinct_map inj_on_def)
    ultimately show ?thesis
      using Cons.prems called_delete_subset[of k m] by (auto simp: called_def kv)
  next
    case False
    then show ?thesis
      using Cons called_delete_subset[of k m] by (auto simp: called_def kv)
  qed
qed (simp add: called_def)

lemma called_update_subset: "set (called (AList.update k v m)) \<subseteq> insert v (set (called m))"
  by (induction m) (auto simp: called_def)

lemma distinct_called_update:
  "distinct (called m) \<Longrightarrow> v \<notin> set (called m) \<Longrightarrow> distinct (called (AList.update k v m))"
proof (induction m)
  case (Cons kv m)
  obtain a b where kv: "kv = (a, b)" by (cases kv)
  show ?case using Cons called_update_subset[of k v m] by (auto simp: called_def kv)
qed (simp add: called_def)

text \<open>Rejecting every pending tool call, in closed form.\<close>

lemma reject_tool_calls_eq:
  "reject_tool_calls why cs st =
     st\<lparr>rt_pendingToolCalls := filter (\<lambda>(c, p). c \<notin> fst ` set cs) (rt_pendingToolCalls st),
        rt_settled := rt_settled st @ map (\<lambda>(c, p). (p, CancelledError why)) cs\<rparr>"
proof (induction why cs st rule: reject_tool_calls.induct)
  case (1 why st)
  then show ?case by (simp add: case_prod_unfold)
next
  case (2 why c p rest st)
  have "filter (\<lambda>(c', p). c' \<notin> fst ` set rest) (AList.delete c m) =
        filter (\<lambda>(c', p). c' \<notin> fst ` set ((c, p) # rest)) m" for m :: "(string \<times> nat) list"
    by (auto simp: AList.delete_eq case_prod_unfold intro!: filter_cong)
  then show ?case using 2 by (simp add: settle_promise_def)
qed

lemma fold_releaseHold_frame:
  "rt_pendingAsk (fold releaseHold ns st) = rt_pendingAsk st \<and>
   rt_pendingToolCalls (fold releaseHold ns st) = rt_pendingToolCalls st \<and>
   rt_settled (fold releaseHold ns st) = rt_settled st \<and>
   rt_promises (fold releaseHold ns st) = rt_promises st \<and>
   rt_point (fold releaseHold ns st) = rt_point st \<and>
   rt_aborted (fold releaseHold ns st) = rt_aborted st"
proof (induction ns arbitrary: st)
  case (Cons n ns)
  then show ?case by (simp add: releaseHold_def split: option.split)
qed simp

lemma on_cancel_effect:
  "rt_pendingAsk (on_cancel reason st) = None" 
  "rt_pendingToolCalls (on_cancel reason st) = []"
  "rt_settled (on_cancel reason st) =
     rt_settled st @ map (\<lambda>p. (p, CancelledError (cancelled_message reason))) (outstanding st)"
  "rt_promises (on_cancel reason st) = rt_promises st"
  "rt_point (on_cancel reason st) = rt_point st"
proof -
  have [simp]: "filter (\<lambda>(c, p). c \<notin> fst ` set m) m = []" for m :: "(string \<times> nat) list"
    by (induction m) (auto simp: filter_empty_conv image_iff)
  show "rt_pendingAsk (on_cancel reason st) = None" 
    "rt_pendingToolCalls (on_cancel reason st) = []"
    "rt_settled (on_cancel reason st) =
     rt_settled st @ map (\<lambda>p. (p, CancelledError (cancelled_message reason))) (outstanding st)"
    "rt_promises (on_cancel reason st) = rt_promises st"
    "rt_point (on_cancel reason st) = rt_point st"
    by (simp_all add: on_cancel_steps cancel_holds_def fold_releaseHold_frame cancel_tools_def
        reject_tool_calls_eq cancel_ask_def cancel_abort_def settle_promise_def outstanding_def called_def
        case_prod_unfold o_def split: option.split)
qed


text \<open>The parts of the state the promises live in.\<close>

definition promise_frame :: "'v runtime \<Rightarrow> 'v runtime \<Rightarrow> bool" where
  "promise_frame st st' \<longleftrightarrow>
     rt_settled st' = rt_settled st \<and> rt_pendingAsk st' = rt_pendingAsk st \<and>
     rt_pendingToolCalls st' = rt_pendingToolCalls st \<and> rt_promises st' = rt_promises st \<and>
     rt_aborted st' = rt_aborted st"

lemma promise_frame_inv: "promise_frame st st' \<Longrightarrow> promise_inv st \<Longrightarrow> promise_inv st'"
  by (simp add: promise_inv_def promise_frame_def settled_ids_def outstanding_def)

lemma promise_frame_publishUp: "promise_frame st (publishUp opts clk b st)"
  by (simp add: promise_frame_def publishUp_def channel_publishUp_def take_seq_def)

lemma promise_frame_publishHeld: "promise_frame st (publishHeld opts clk b n st)"
  by (simp add: promise_frame_def publishHeld_def channel_publishUp_def Let_def)

lemma promise_frame_catch_block: "promise_frame st (catch_block opts clk err st)"
  by (simp add: promise_frame_def catch_block_def publishHeld_def channel_publishUp_def Let_def
      take_seq_def)

lemma promise_frame_handler_returned: "promise_frame st (handler_returned opts clk r st)"
  by (simp add: promise_frame_def handler_returned_def publishHeld_def channel_publishUp_def Let_def
      take_seq_def)

lemma promise_frame_point: "promise_frame st (st\<lparr>rt_point := p\<rparr>)"
  by (simp add: promise_frame_def)

lemma promise_frame_end_hold: "promise_frame st (end_hold n st)"
  by (simp add: promise_frame_def end_hold_def Let_def)

lemma promise_inv_settle:
  assumes inv: "promise_inv st" and p: "p \<in> set (outstanding st)"
    and log: "rt_settled st' = rt_settled st @ [(p, v)]"
    and rest: "set (outstanding st') \<subseteq> set (outstanding st) - {p}" "distinct (outstanding st')"
    and same: "rt_promises st' = rt_promises st" "rt_aborted st' = rt_aborted st"
  shows "promise_inv st'"
proof -
  have ids: "settled_ids st' = settled_ids st @ [p]" using log by (simp add: settled_ids_def)
  have "outstanding st' = []" if "rt_aborted st' \<noteq> None"
    using that inv p same(2) by (auto simp: promise_inv_def)
  then show ?thesis
    using inv p rest same(1) unfolding promise_inv_def ids by (auto simp: subset_iff)
qed

lemma promise_inv_fresh:
  assumes inv: "promise_inv st" and none: "rt_aborted st = None" "rt_aborted st' = None"
    and log: "rt_settled st' = rt_settled st" and n: "rt_promises st' = rt_promises st + 1"
    and rest: "set (outstanding st') \<subseteq> insert (rt_promises st) (set (outstanding st))"
      "distinct (outstanding st')"
  shows "promise_inv st'"
proof -
  have ids: "settled_ids st' = settled_ids st" using log by (simp add: settled_ids_def)
  have below: "\<forall>p \<in> set (settled_ids st) \<union> set (outstanding st). p < rt_promises st"
    and apart: "set (settled_ids st) \<inter> set (outstanding st) = {}"
    using inv by (simp_all add: promise_inv_def)
  have "\<forall>p \<in> set (settled_ids st') \<union> set (outstanding st'). p < rt_promises st'"
    using below rest(1) n ids by (auto simp: less_Suc_eq)
  moreover have "set (settled_ids st') \<inter> set (outstanding st') = {}"
    using below apart rest(1) ids by (auto simp: disjoint_iff subset_iff)
  ultimately show ?thesis using inv rest(2) none ids by (simp add: promise_inv_def)
qed

lemma promise_inv_on_prompt:
  assumes "promise_inv st"
  shows "promise_inv (on_prompt m st)"
proof (cases "rt_pendingAsk st")
  case (Some a)
  have "distinct (outstanding st)" using assms by (simp add: promise_inv_def)
  with Some show ?thesis
    by (intro promise_inv_settle[OF assms, of "ask_promise a"])
      (auto simp: on_prompt_def settle_promise_def releaseHold_def outstanding_def
        split: option.splits)
qed (use assms in \<open>simp add: on_prompt_def\<close>)

lemma on_tool_result_outstanding:
  assumes "map_of (rt_pendingToolCalls st) c = Some p" "distinct (outstanding st)"
  shows "p \<in> set (outstanding st)" "distinct (outstanding (on_tool_result c ok r e st))"
    "set (outstanding (on_tool_result c ok r e st)) \<subseteq> set (outstanding st) - {p}"
proof -
  let ?a = "asked (rt_pendingAsk st)"
  let ?t = "rt_pendingToolCalls st"
  have out: "outstanding st = ?a @ called ?t"
    "outstanding (on_tool_result c ok r e st) = ?a @ called (AList.delete c ?t)"
    by (simp_all add: outstanding_def on_tool_result_def assms(1) settle_promise_def)
  have d: "p \<in> set (called ?t)" "distinct (p # called (AList.delete c ?t))"
    using called_delete[OF _ assms(1)] assms(2) out(1) by simp_all
  with called_delete_subset[of c ?t] assms(2)
  show "p \<in> set (outstanding st)" "distinct (outstanding (on_tool_result c ok r e st))"
    "set (outstanding (on_tool_result c ok r e st)) \<subseteq> set (outstanding st) - {p}"
    unfolding out by auto
qed

lemma promise_inv_on_tool_result:
  assumes "promise_inv st"
  shows "promise_inv (on_tool_result c ok r e st)"
proof (cases "map_of (rt_pendingToolCalls st) c")
  case (Some p)
  have "distinct (outstanding st)" using assms by (simp add: promise_inv_def)
  note out = on_tool_result_outstanding[OF Some this]
  show ?thesis
    by (rule promise_inv_settle[OF assms out(1) _ out(3) out(2)])
      (simp_all add: on_tool_result_def Some settle_promise_def)
qed (use assms in \<open>simp add: on_tool_result_def\<close>)

lemma promise_inv_on_cancel: "promise_inv st \<Longrightarrow> promise_inv (on_cancel reason st)"
  by (simp add: promise_inv_def on_cancel_effect settled_ids_def outstanding_def o_def)

lemma promise_inv_onDown: "promise_inv st \<Longrightarrow> promise_inv (onDown m st)"
proof (cases "down_body m")
  case (Reply_ack n)
  have "promise_frame st (on_reply_ack n st)"
    by (simp add: promise_frame_def on_reply_ack_def split: option.split)
  then show "promise_inv st \<Longrightarrow> ?thesis" using Reply_ack promise_frame_inv by (simp add: onDown_def)
qed (simp_all add: onDown_def promise_inv_on_prompt promise_inv_on_tool_result promise_inv_on_cancel)

text \<open>A promise made after the abort is rejected at once.\<close>

lemma promise_inv_refused:
  "promise_inv st \<Longrightarrow> promise_inv (settle_promise (rt_promises st) v (new_promise st))"
  by (auto simp: promise_inv_def settle_promise_def new_promise_def settled_ids_def outstanding_def
      less_Suc_eq)

lemma session_ask_outstanding:
  "rt_aborted st = None \<Longrightarrow>
   outstanding (session_ask opts clk q st) = rt_promises st # called (rt_pendingToolCalls st)"
  by (simp add: session_ask_def new_promise_def take_seq_def publishHeld_def channel_publishUp_def
      Let_def outstanding_def)

lemma session_callTool_outstanding:
  "rt_aborted st = None \<Longrightarrow>
   outstanding (session_callTool opts clk c t i st) =
     asked (rt_pendingAsk st) @
     called (AList.update c (rt_promises st) (rt_pendingToolCalls st))"
  by (simp add: session_callTool_def new_promise_def take_seq_def publishUp_def
      channel_publishUp_def Let_def outstanding_def)

lemma session_call_frame:
  assumes "rt_aborted st = None"
  shows "rt_aborted (session_ask opts clk q st) = None"
    "rt_settled (session_ask opts clk q st) = rt_settled st"
    "rt_promises (session_ask opts clk q st) = rt_promises st + 1"
    "rt_aborted (session_callTool opts clk c t i st) = None"
    "rt_settled (session_callTool opts clk c t i st) = rt_settled st"
    "rt_promises (session_callTool opts clk c t i st) = rt_promises st + 1"
  using assms
  by (simp_all add: session_ask_def session_callTool_def new_promise_def take_seq_def publishHeld_def
      publishUp_def channel_publishUp_def Let_def)

lemma promise_inv_session_ask:
  assumes "promise_inv st"
  shows "promise_inv (session_ask opts clk q st)"
proof (cases "rt_aborted st")
  case None
  have "rt_promises st \<notin> set (outstanding st)" "distinct (outstanding st)"
    using assms by (auto simp: promise_inv_def)
  then show ?thesis
    by (intro promise_inv_fresh[OF assms None])
      (auto simp: session_call_frame[OF None] session_ask_outstanding[OF None], auto simp: outstanding_def)
next
  case (Some why)
  then show ?thesis using promise_inv_refused[OF assms]
    by (simp add: session_ask_def Let_def new_promise_def)
qed

lemma promise_inv_session_callTool:
  assumes "promise_inv st"
  shows "promise_inv (session_callTool opts clk c t i st)"
proof (cases "rt_aborted st")
  case None
  let ?t = "rt_pendingToolCalls st"
  let ?a = "asked (rt_pendingAsk st)"
  have *: "rt_promises st \<notin> set (?a @ called ?t)" "distinct (?a @ called ?t)"
    using assms by (auto simp: promise_inv_def outstanding_def)
  then have "distinct (?a @ called (AList.update c (rt_promises st) ?t))"
    "set (?a @ called (AList.update c (rt_promises st) ?t)) \<subseteq>
       insert (rt_promises st) (set (?a @ called ?t))"
    using called_update_subset[of c "rt_promises st" ?t] distinct_called_update[of ?t "rt_promises st" c]
    by auto
  then show ?thesis
    by (intro promise_inv_fresh[OF assms None])
      (simp_all only: session_call_frame[OF None] session_callTool_outstanding[OF None],
       simp_all only: outstanding_def)
next
  case (Some why)
  then show ?thesis using promise_inv_refused[OF assms]
    by (simp add: session_callTool_def Let_def new_promise_def)
qed

lemma promise_frame_hold_steps:
  "offer_settled opts clk n st = Some st' \<Longrightarrow> promise_frame st st'"
  "timer_fired clk n st = Some st' \<Longrightarrow> promise_frame st st'"
  "hold_resumed clk n st = Some st' \<Longrightarrow> promise_frame st st'"
  by (auto simp: offer_settled_def timer_fired_def hold_resumed_def promise_frame_def end_hold_def
      Let_def channel_publishUp_def split: option.splits if_splits hold_point.splits)

text \<open>Only messages from the orchestrator, questions and tool calls touch the promises.\<close>

lemma promise_frame_step:
  assumes "rt_step opts ev st = Some st'"
    and "\<And>m. ev \<noteq> Down m" "\<And>c q. ev \<noteq> DoAsk c q" "\<And>c i t x. ev \<noteq> DoCallTool c i t x"
  shows "promise_frame st st'"
  using assms
  by (cases ev)
    (auto simp: rt_step_def session_progress_def session_warn_def promise_frame_publishUp
      promise_frame_catch_block promise_frame_handler_returned promise_frame_point
      split: if_splits run_point.splits option.splits dest: promise_frame_hold_steps)

lemma promise_inv_step:
  assumes "promise_inv st" "rt_step opts ev st = Some st'"
  shows "promise_inv st'"
proof (cases "(\<exists>m. ev = Down m) \<or> (\<exists>c q. ev = DoAsk c q) \<or> (\<exists>c i t x. ev = DoCallTool c i t x)")
  case True
  then show ?thesis using assms
    by (auto simp: rt_step_def promise_inv_onDown promise_inv_session_ask promise_inv_session_callTool)
next
  case False
  then show ?thesis using promise_frame_inv[OF promise_frame_step] assms by blast
qed

lemma promise_inv_start: "promise_inv (rt_start opts clk)"
  by (simp add: promise_inv_def settled_ids_def rt_start_def publishUp_def channel_publishUp_def take_seq_def
      outstanding_def)

lemma promise_inv_reachable: "rt_reachable opts st \<Longrightarrow> promise_inv st"
  by (induction rule: rt_reachable_induct) (auto intro: promise_inv_start promise_inv_step)

text \<open>
  An agent that asks one question at a time, with call ids that are not in use: the
  contract of \<open>ask\<close>, and what \<open>randomUUID\<close> gives. Then no promise is ever forgotten.
\<close>

definition orderly :: "'v runtime \<Rightarrow> 'v rt_event \<Rightarrow> bool" where
  "orderly st ev \<longleftrightarrow>
     (case ev of
        DoAsk _ _ \<Rightarrow> rt_pendingAsk st = None
      | DoCallTool _ callId _ _ \<Rightarrow> callId \<notin> fst ` set (rt_pendingToolCalls st)
      | _ \<Rightarrow> True)"

inductive orderly_reach :: "RunAgentOptions \<Rightarrow> 'v runtime \<Rightarrow> bool" for opts where
  orderly_start: "orderly_reach opts (rt_start opts clk)"
| orderly_step: "orderly_reach opts st \<Longrightarrow> orderly st ev \<Longrightarrow> rt_step opts ev st = Some st' \<Longrightarrow>
    orderly_reach opts st'"

definition promises_kept :: "'v runtime \<Rightarrow> bool" where
  "promises_kept st \<longleftrightarrow> {..<rt_promises st} \<subseteq> set (settled_ids st) \<union> set (outstanding st)"

lemma orderly_reachable: "orderly_reach opts st \<Longrightarrow> rt_reachable opts st"
proof (induction rule: orderly_reach.induct)
  case (orderly_start clk)
  then show ?case by (auto simp: rt_reachable_def intro: rt_run_nil)
qed (rule rt_reachable_step)

lemma called_delete_superset:
  assumes "map_of m k = Some v" "distinct (map fst m)"
  shows "set (called m) \<subseteq> insert v (set (called (AList.delete k m)))"
proof
  fix x assume "x \<in> set (called m)"
  then obtain j where j: "(j, x) \<in> set m" by (auto simp: called_def)
  show "x \<in> insert v (set (called (AList.delete k m)))"
  proof (cases "j = k")
    case True
    then show ?thesis using map_of_is_SomeI[OF assms(2) j] assms(1) by simp
  next
    case False
    then show ?thesis using j by (force simp: called_def AList.delete_eq)
  qed
qed

lemma update_new: "k \<notin> fst ` set m \<Longrightarrow> AList.update k v m = m @ [(k, v)]"
  by (induction m) auto

definition call_ids_distinct :: "'v runtime \<Rightarrow> bool" where
  "call_ids_distinct st \<longleftrightarrow> distinct (map fst (rt_pendingToolCalls st))"

lemma promises_keptI:
  assumes "promises_kept st" "rt_promises st' \<le> rt_promises st + 1"
    and "set (settled_ids st) \<union> set (outstanding st) \<subseteq>
         set (settled_ids st') \<union> set (outstanding st')"
    and "rt_promises st < rt_promises st' \<Longrightarrow>
         rt_promises st \<in> set (settled_ids st') \<union> set (outstanding st')"
  shows "promises_kept st'"
  unfolding promises_kept_def
proof
  fix p assume "p \<in> {..<rt_promises st'}"
  then consider "p < rt_promises st" | "p = rt_promises st" "rt_promises st < rt_promises st'"
    using assms(2) by fastforce
  then show "p \<in> set (settled_ids st') \<union> set (outstanding st')"
    by cases (use assms(1,3,4) in \<open>unfold promises_kept_def, blast+\<close>)
qed

lemma promises_kept_onDown:
  assumes "promises_kept st" "call_ids_distinct st"
  shows "promises_kept (onDown m st)" "call_ids_distinct (onDown m st)"
proof -
  have tool: "promises_kept (on_tool_result c ok r e st) \<and> call_ids_distinct (on_tool_result c ok r e st)"
    for c ok r e
  proof (cases "map_of (rt_pendingToolCalls st) c")
    case (Some p)
    then show ?thesis
      using assms called_delete_superset[OF Some]
      by (intro conjI promises_keptI[OF assms(1)])
        (auto simp: on_tool_result_def settle_promise_def settled_ids_def call_ids_distinct_def outstanding_def
          split: option.splits intro: distinct_delete)
  qed (use assms in \<open>simp add: on_tool_result_def\<close>)
  have prompt: "promises_kept (on_prompt q st) \<and> call_ids_distinct (on_prompt q st)" for q
    using assms by (auto intro!: promises_keptI[OF assms(1)] simp: on_prompt_def settle_promise_def
        releaseHold_def settled_ids_def call_ids_distinct_def outstanding_def split: option.splits)
  have ack: "promises_kept (on_reply_ack n st) \<and> call_ids_distinct (on_reply_ack n st)" for n
    using assms by (auto intro!: promises_keptI[OF assms(1)] simp: on_reply_ack_def settled_ids_def
        call_ids_distinct_def outstanding_def split: option.splits)
  have cancel: "promises_kept (on_cancel w st) \<and> call_ids_distinct (on_cancel w st)" for w
    by (auto intro!: promises_keptI[OF assms(1)] simp: on_cancel_effect settled_ids_def call_ids_distinct_def
        image_Un image_image)
  show "promises_kept (onDown m st)" "call_ids_distinct (onDown m st)"
    using assms tool prompt ack cancel by (simp_all add: onDown_def split: down_body.split)
qed

lemma promises_kept_step:
  assumes "promises_kept st" "call_ids_distinct st" "orderly st ev" "rt_step opts ev st = Some st'"
  shows "promises_kept st' \<and> call_ids_distinct st'"
proof -
  consider (down) m where "ev = Down m" | (ask) c q where "ev = DoAsk c q"
    | (tool) c i t x where "ev = DoCallTool c i t x" | (other) "promise_frame st st'"
    using promise_frame_step[OF assms(4)] by blast
  then show ?thesis
  proof cases
    case down
    then show ?thesis using assms promises_kept_onDown by (auto simp: rt_step_def)
  next
    case ask
    then have st': "st' = session_ask opts c q st" and none: "rt_pendingAsk st = None"
      using assms(3,4) by (simp_all add: rt_step_def orderly_def)
    show ?thesis unfolding st' using assms(1,2) none
      by (intro conjI promises_keptI[OF assms(1)])
        (auto simp: session_ask_def Let_def settle_promise_def new_promise_def
          settled_ids_def take_seq_def publishHeld_def channel_publishUp_def call_ids_distinct_def outstanding_def)
  next
    case tool
    then have st': "st' = session_callTool opts c i t x st" and i: "i \<notin> fst ` set (rt_pendingToolCalls st)"
      using assms(3,4) by (simp_all add: rt_step_def orderly_def)
    show ?thesis unfolding st' using assms(1,2) i
      by (intro conjI promises_keptI[OF assms(1)])
        (auto simp: session_callTool_def Let_def settle_promise_def new_promise_def update_new
          settled_ids_def called_def take_seq_def publishUp_def channel_publishUp_def call_ids_distinct_def outstanding_def)
  next
    case other
    then show ?thesis using assms
      by (simp add: promise_frame_def settled_ids_def promises_kept_def call_ids_distinct_def outstanding_def)
  qed
qed

lemma promises_kept_reach: "orderly_reach opts st \<Longrightarrow> promises_kept st \<and> call_ids_distinct st"
proof (induction rule: orderly_reach.induct)
  case (orderly_start clk)
  then show ?case
    by (simp add: promises_kept_def call_ids_distinct_def rt_start_def publishUp_def
        channel_publishUp_def take_seq_def)
qed (use promises_kept_step in blast)


section \<open>Properties\<close>

text \<open>
  A promise is settled at most once: in every reachable state no promise has been
  resolved or rejected twice, none that is settled is still registered as pending, and once
  the run is cancelled nothing is pending.
\<close>

theorem promises_settle_at_most_once:
  assumes "rt_reachable opts st"
  shows "distinct (map fst (rt_settled st)) \<and>
    set (map fst (rt_settled st)) \<inter> set (outstanding st) = {} \<and>
    (rt_aborted st = None \<or> rt_pendingAsk st = None \<and> rt_pendingToolCalls st = [])"
proof -
  have inv: "promise_inv st" by (rule promise_inv_reachable[OF assms])
  have "rt_pendingAsk st = None \<and> rt_pendingToolCalls st = []" if "rt_aborted st \<noteq> None"
    using inv that by (cases "rt_pendingAsk st") (simp_all add: promise_inv_def outstanding_def called_def)
  then show ?thesis using inv by (auto simp: promise_inv_def settled_ids_def)
qed

definition rt_cancelled_ex :: "unit runtime" where
  "rt_cancelled_ex = onDown (down_ex (Cancel None)) rt_asking_ex"

theorem promises_settle_at_most_once_witness:
  "rt_settled rt_cancelled_ex = [(0, CancelledError ''agent run cancelled'')] \<and>
   distinct (map fst (rt_settled rt_cancelled_ex)) \<and>
   rt_pendingAsk rt_cancelled_ex = None \<and> rt_pendingToolCalls rt_cancelled_ex = []"
proof -
  have reach: "rt_reachable rt_opts_ex rt_cancelled_ex"
    using rt_reachable_step[OF rt_asking_reachable, of "Down (down_ex (Cancel None))"]
    by (simp add: rt_step_def rt_cancelled_ex_def)
  have log: "rt_settled rt_cancelled_ex = [(0, CancelledError ''agent run cancelled'')]"
    by code_simp
  have "rt_aborted rt_cancelled_ex = Some ''agent run cancelled''" by code_simp
  then have "rt_pendingAsk rt_cancelled_ex = None \<and> rt_pendingToolCalls rt_cancelled_ex = []"
    using promises_settle_at_most_once[OF reach] by simp
  with log show ?thesis using promises_settle_at_most_once[OF reach] by (intro conjI) simp_all
qed

text \<open>
  Cancellation leaves nobody waiting: for an agent that asks one question at a time, every
  promise the session ever handed out is settled, exactly once, as soon as a cancel message
  has been handled, and those that were still open at that moment are rejected with the
  reason of the cancellation.
\<close>

theorem cancel_settles_every_promise:
  assumes "orderly_reach opts st" "down_body m = Cancel reason"
  shows "distinct (map fst (rt_settled (onDown m st))) \<and>
    set (map fst (rt_settled (onDown m st))) = {..<rt_promises (onDown m st)} \<and>
    (\<forall>p \<in> set (outstanding st).
       (p, CancelledError (coalesce reason ''agent run cancelled'')) \<in> set (rt_settled (onDown m st)))"
proof -
  let ?st' = "onDown m st"
  have st': "?st' = on_cancel reason st" using assms(2) by (simp add: onDown_def)
  have "rt_reachable opts ?st'"
    using rt_reachable_step[OF orderly_reachable[OF assms(1)], of "Down m"] by (simp add: rt_step_def)
  then have inv: "promise_inv ?st'" by (rule promise_inv_reachable)
  have none: "outstanding ?st' = []" by (simp add: st' outstanding_def on_cancel_effect)
  have "promises_kept ?st'"
    using promises_kept_onDown(1) promises_kept_reach[OF assms(1)] by blast
  then have "set (map fst (rt_settled ?st')) = {..<rt_promises ?st'}"
    using inv none by (auto simp: promises_kept_def promise_inv_def settled_ids_def)
  moreover have "distinct (map fst (rt_settled ?st'))"
    using inv by (simp add: promise_inv_def settled_ids_def)
  moreover have "\<forall>p \<in> set (outstanding st).
      (p, CancelledError (coalesce reason ''agent run cancelled'')) \<in> set (rt_settled ?st')"
    by (simp add: st' on_cancel_effect cancelled_message_def)
  ultimately show ?thesis by blast
qed

fun orderly_exec :: "RunAgentOptions \<Rightarrow> 'v runtime \<Rightarrow> 'v rt_event list \<Rightarrow> 'v runtime option" where
  "orderly_exec opts st [] = Some st"
| "orderly_exec opts st (ev # evs) =
     (if orderly st ev
      then case rt_step opts ev st of None \<Rightarrow> None | Some st' \<Rightarrow> orderly_exec opts st' evs
      else None)"

lemma orderly_exec_reach:
  "orderly_reach opts st \<Longrightarrow> orderly_exec opts st evs = Some st' \<Longrightarrow> orderly_reach opts st'"
  by (induction evs arbitrary: st) (auto split: if_splits option.splits intro: orderly_step)

definition rt_busy_events_ex :: "unit rt_event list" where
  "rt_busy_events_ex =
     [ReadySettled True, DoCallTool (clock_ex 0) ''c1'' ''web'' ''x'',
      DoCallTool (clock_ex 1) ''c2'' ''web'' ''y'', DoAsk (clock_ex 2) ''q'',
      Down (down_ex (Tool_result ''c1'' True (Some ()) None))]"

definition rt_busy_ex :: "unit runtime" where
  "rt_busy_ex = the (orderly_exec rt_opts_ex (rt_start rt_opts_ex (clock_ex 0)) rt_busy_events_ex)"

theorem cancel_settles_every_promise_witness:
  "outstanding rt_busy_ex = [2, 1] \<and>
   set (map fst (rt_settled (onDown (down_ex (Cancel (Some ''bye''))) rt_busy_ex))) =
     {..<rt_promises (onDown (down_ex (Cancel (Some ''bye''))) rt_busy_ex)} \<and>
   (1, CancelledError ''bye'') \<in> set (rt_settled (onDown (down_ex (Cancel (Some ''bye''))) rt_busy_ex))"
proof -
  have "orderly_exec rt_opts_ex (rt_start rt_opts_ex (clock_ex 0)) rt_busy_events_ex \<noteq> None"
    by code_simp
  then have reach: "orderly_reach rt_opts_ex rt_busy_ex"
    using orderly_exec_reach[OF orderly_start] by (auto simp: rt_busy_ex_def)
  have "down_body (down_ex (Cancel (Some ''bye''))) = Cancel (Some ''bye'')"
    by (simp add: down_ex_def)
  from cancel_settles_every_promise[OF reach this, unfolded coalesce_simps] have result: "set (map fst (rt_settled (onDown (down_ex (Cancel (Some ''bye''))) rt_busy_ex))) =
      {..<rt_promises (onDown (down_ex (Cancel (Some ''bye''))) rt_busy_ex)} \<and>
    (\<forall>p \<in> set (outstanding rt_busy_ex). (p, CancelledError ''bye'') \<in>
      set (rt_settled (onDown (down_ex (Cancel (Some ''bye''))) rt_busy_ex)))"
    by (rule conjunct2)
  have out: "outstanding rt_busy_ex = [2, 1]" by code_simp
  then have "1 \<in> set (outstanding rt_busy_ex)" by simp
  with out show ?thesis by (intro conjI conjunct1[OF result] bspec[OF conjunct2[OF result]])
qed

end
