(* ===== verification/Agent_Runtime_Ends.thy ===== *)
theory Agent_Runtime_Ends
  imports Agent_Runtime_Promises
begin

text \<open>
  How a run ends and how long its messages are held: the terminal message of a run, the
  number of offers of a held message, and that every hold ends.
\<close>

section \<open>How a run ends\<close>

definition terminals :: "'v runtime \<Rightarrow> 'v AgentUpMessage set" where
  "terminals st = {m \<in> set (rt_published st). terminal (up_body m)}"

text \<open>What the log holds at each point of \<open>runAgent\<close>, when messages are held.\<close>

definition ending_ok :: "'v runtime \<Rightarrow> bool" where
  "ending_ok st \<longleftrightarrow>
     (case rt_point st of
        AwaitReady \<Rightarrow> terminals st = {}
      | InHandler \<Rightarrow> terminals st = {}
      | HoldingReply n \<Rightarrow> \<exists>m. terminals st = {m} \<and> seq m = n
      | HoldingFailed n \<Rightarrow> \<exists>m. terminals st = {m} \<and> seq m = n
      | SendingReply \<Rightarrow> False
      | SendingFailed \<Rightarrow> False
      | Closing _ \<Rightarrow> (\<exists>m. terminals st = {m}) \<or> (terminals st = {} \<and> rt_aborted st \<noteq> None)
      | Ended failed \<Rightarrow> (\<exists>m. terminals st = {m}) \<or>
          (terminals st = {} \<and> (rt_aborted st \<noteq> None \<or> failed)))"

lemma terminals_publish:
  "rt_published st' = rt_published st @ [m] \<Longrightarrow>
   terminals st' = (if terminal (up_body m) then insert m (terminals st) else terminals st)"
  by (auto simp: terminals_def)

lemma terminals_same: "rt_published st' = rt_published st \<Longrightarrow> terminals st' = terminals st"
  by (simp add: terminals_def)

text \<open>Steps that leave the point and the terminal messages alone.\<close>

definition ending_frame :: "'v runtime \<Rightarrow> 'v runtime \<Rightarrow> bool" where
  "ending_frame st st' \<longleftrightarrow> rt_point st' = rt_point st \<and> terminals st' = terminals st \<and>
     (rt_aborted st \<noteq> None \<longrightarrow> rt_aborted st' \<noteq> None)"

lemma ending_frame_ok: "ending_frame st st' \<Longrightarrow> ending_ok st \<Longrightarrow> ending_ok st'"
  by (cases "rt_point st") (auto simp: ending_frame_def ending_ok_def)

lemma ending_frame_calm: "calm st st' \<Longrightarrow> rt_point st' = rt_point st \<Longrightarrow> ending_frame st st'"
  using terminals_same[of st' st] by (simp add: ending_frame_def calm_def)

lemma releaseHold_point [simp]: "rt_point (releaseHold n st) = rt_point st"
  by (simp add: releaseHold_def split: option.split)

lemma onDown_point: "rt_point (onDown m st) = rt_point st"
proof (cases "down_body m")
  case (Prompt q)
  then show ?thesis by (cases "rt_pendingAsk st") (simp_all add: onDown_def on_prompt_def settle_promise_def)
next
  case (Tool_result c ok r e)
  then show ?thesis
    by (cases "map_of (rt_pendingToolCalls st) c") (simp_all add: onDown_def on_tool_result_def settle_promise_def)
next
  case (Reply_ack n)
  then show ?thesis
    by (cases "map_of (rt_holds st) n") (simp_all add: onDown_def on_reply_ack_def)
qed (simp_all add: onDown_def on_cancel_effect)

lemma ending_frame_session:
  "ending_frame st (session_progress opts clk m s p st)"
  "ending_frame st (session_warn opts clk m st)"
  "ending_frame st (session_ask opts clk q st)"
  "ending_frame st (session_callTool opts clk c t i st)"
  by (auto simp: ending_frame_def terminals_def session_progress_def session_warn_def session_ask_def
      session_callTool_def publishUp_def publishHeld_def channel_publishUp_def take_seq_def
      new_promise_def settle_promise_def envelope_def Let_def)

lemma ending_end_hold: "ending_ok st \<Longrightarrow> ending_ok (end_hold n st)"
  by (auto simp: ending_ok_def end_hold_def terminals_def Let_def split: run_point.splits)

lemma ending_offer_settled:
  "ending_ok st \<Longrightarrow> offer_settled opts clk n st = Some st' \<Longrightarrow> ending_ok st'"
  by (auto simp: offer_settled_def ending_end_hold ending_frame_def terminals_def
      split: option.splits if_splits intro: ending_frame_ok[rotated])

lemma ending_timer_fired:
  "ending_ok st \<Longrightarrow> timer_fired clk n st = Some st' \<Longrightarrow> ending_ok st'"
  by (auto simp: timer_fired_def ending_frame_def terminals_def
      split: option.splits if_splits hold_point.splits intro: ending_frame_ok[rotated])

lemma ending_hold_resumed:
  assumes "log_inv st" "ending_ok st" "hold_resumed clk n st = Some st'"
  shows "ending_ok st'"
proof -
  obtain h where h: "map_of (rt_holds st) n = Some h" "hold_at h = Woken"
    using assms(3) by (auto simp: hold_resumed_def split: option.splits if_splits)
  then have "hold_envelope h \<in> set (rt_published st)" using assms(1) by (auto simp: log_inv_def)
  then show ?thesis
    using assms(2,3) h
    by (auto simp: hold_resumed_def ending_end_hold ending_frame_def terminals_def channel_publishUp_def
        split: if_splits intro: ending_frame_ok[rotated])
qed

lemma ending_concludes:
  assumes "terminals st = {}" "timeoutMs opts \<noteq> 0" "terminal b"
  shows "terminals (publishHeld opts clk b n (take_seq st)) = {envelope opts clk n b}"
  using assms by (simp add: terminals_def publishHeld_def channel_publishUp_def take_seq_def Let_def
      envelope_def) auto

lemma ending_catch_block:
  assumes "terminals st = {}" "timeoutMs opts \<noteq> 0" "th_isCancelled err \<longrightarrow> rt_aborted st \<noteq> None"
  shows "ending_ok (catch_block opts clk err st)"
  using assms ending_concludes[OF assms(1,2)]
  by (auto simp: catch_block_def ending_ok_def terminals_def Let_def envelope_def)

lemma ending_handler_returned:
  assumes "terminals st = {}" "timeoutMs opts \<noteq> 0"
  shows "ending_ok (handler_returned opts clk r st)"
  using assms ending_concludes[OF assms]
  by (auto simp: handler_returned_def ending_ok_def terminals_def Let_def envelope_def)

lemma ending_step:
  assumes "timeoutMs opts \<noteq> 0" "log_inv st" "ending_ok st" "rt_step opts ev st = Some st'"
  shows "ending_ok st'"
proof (cases ev)
  case (Down m)
  then show ?thesis
    using assms(3,4) ending_frame_ok[OF ending_frame_calm[OF calm_onDown onDown_point]]
    by (auto simp: rt_step_def)
next
  case (HandlerReturned clk r)
  then show ?thesis using assms ending_handler_returned[of st opts clk r]
    by (auto simp: rt_step_def ending_ok_def[of st] split: if_splits)
next
  case (HandlerThrew clk err)
  then show ?thesis using assms ending_catch_block[of st opts err clk]
    by (auto simp: rt_step_def ending_ok_def[of st] split: if_splits)
next
  case (SendSettled clk failure)
  then show ?thesis using assms(3,4)
    by (auto simp: rt_step_def ending_ok_def split: run_point.splits option.splits)
next
  case (ReadySettled ok)
  then show ?thesis using assms(3,4)
    by (auto simp: rt_step_def ending_ok_def terminals_def split: run_point.splits if_splits)
next
  case (CloseSettled ok)
  then show ?thesis using assms(3,4)
    by (auto simp: rt_step_def ending_ok_def terminals_def split: run_point.splits)
qed (use assms ending_frame_ok[OF ending_frame_session(1)] ending_frame_ok[OF ending_frame_session(2)]
      ending_frame_ok[OF ending_frame_session(3)] ending_frame_ok[OF ending_frame_session(4)]
      ending_offer_settled ending_timer_fired ending_hold_resumed in
     \<open>auto simp: rt_step_def\<close>)

lemma ending_reachable:
  assumes "rt_reachable opts st" "timeoutMs opts \<noteq> 0"
  shows "ending_ok st"
  using assms(1)
proof (induction rule: rt_reachable_induct)
  case (start clk)
  then show ?case
    by (simp add: rt_start_def ending_ok_def terminals_def publishUp_def channel_publishUp_def
        take_seq_def envelope_def)
next
  case (step st ev st')
  then show ?case using ending_step assms(2) log_inv_reachable by blast
qed


section \<open>How often a message is offered\<close>

fun event_clock :: "'v rt_event \<Rightarrow> clock option" where
  "event_clock (DoProgress clk _ _ _) = Some clk"
| "event_clock (DoWarn clk _) = Some clk"
| "event_clock (DoAsk clk _) = Some clk"
| "event_clock (DoCallTool clk _ _ _) = Some clk"
| "event_clock (OfferSettled clk _) = Some clk"
| "event_clock (TimerFired clk _) = Some clk"
| "event_clock (HoldResumed clk _) = Some clk"
| "event_clock (HandlerReturned clk _) = Some clk"
| "event_clock (HandlerThrew clk _) = Some clk"
| "event_clock (SendSettled clk _) = Some clk"
| "event_clock _ = None"

text \<open>States reached at a time, by events whose clock readings never go back.\<close>

inductive timed_reach :: "RunAgentOptions \<Rightarrow> int \<Rightarrow> 'v runtime \<Rightarrow> bool" for opts where
  timed_start: "timed_reach opts (clk_now clk) (rt_start opts clk)"
| timed_step: "timed_reach opts t st \<Longrightarrow> rt_step opts ev st = Some st' \<Longrightarrow>
    t' = (case event_clock ev of None \<Rightarrow> t | Some clk \<Rightarrow> clk_now clk) \<Longrightarrow> t \<le> t' \<Longrightarrow>
    timed_reach opts t' st'"

definition offered :: "nat \<Rightarrow> 'v runtime \<Rightarrow> int" where
  "offered n st = int (length (offers n st))"

text \<open>
  A hold that has offered its message \<open>c\<close> times is, when it parks, at least \<open>c\<close> retry
  intervals away from its first offer.
\<close>

definition hold_time_ok :: "RunAgentOptions \<Rightarrow> int \<Rightarrow> int \<Rightarrow> 'v hold \<Rightarrow> bool" where
  "hold_time_ok opts t c h \<longleftrightarrow>
     (let r = timer_delay (retryMs opts); t0 = deadline h - timeoutMs opts in
      case hold_at h of
        Offering \<Rightarrow> t0 + (c - 1) * r \<le> t
      | Parked due \<Rightarrow> t0 + c * r \<le> due \<and> due < deadline h + r
      | Woken \<Rightarrow> acked h \<or> hold_done h \<or> t0 + c * r \<le> t)"

definition time_inv :: "RunAgentOptions \<Rightarrow> int \<Rightarrow> 'v runtime \<Rightarrow> bool" where
  "time_inv opts t st \<longleftrightarrow>
     (\<forall>n h. map_of (rt_holds st) n = Some h \<longrightarrow> hold_time_ok opts t (offered n st) h) \<and>
     (\<forall>n. offered n st \<le> 1 \<or> (offered n st - 1) * timer_delay (retryMs opts) < timeoutMs opts)"

text \<open>Messages from the orchestrator wake a hold only together with a reason to stop.\<close>

definition hold_woken :: "'v hold \<Rightarrow> 'v hold \<Rightarrow> bool" where
  "hold_woken h h' \<longleftrightarrow> deadline h' = deadline h \<and> (acked h \<longrightarrow> acked h') \<and> (hold_done h \<longrightarrow> hold_done h') \<and>
     (hold_at h' = hold_at h \<or> hold_at h' = Woken \<and> (acked h' \<or> hold_done h'))"

definition woken_only :: "'v runtime \<Rightarrow> 'v runtime \<Rightarrow> bool" where
  "woken_only st st' \<longleftrightarrow>
     (\<forall>n h'. map_of (rt_holds st') n = Some h' \<longrightarrow>
        (\<exists>h. map_of (rt_holds st) n = Some h \<and> hold_woken h h'))"

lemma hold_woken_refl [simp]: "hold_woken h h"
  by (simp add: hold_woken_def)

lemma hold_woken_trans: "hold_woken a b \<Longrightarrow> hold_woken b c \<Longrightarrow> hold_woken a c"
  by (auto simp: hold_woken_def)

lemma woken_only_refl [simp]: "woken_only st st"
  by (simp add: woken_only_def)

lemma woken_only_same: "rt_holds st' = rt_holds st \<Longrightarrow> woken_only st st'"
  by (simp add: woken_only_def)

lemma woken_only_trans: "woken_only a b \<Longrightarrow> woken_only b c \<Longrightarrow> woken_only a c"
  unfolding woken_only_def by (meson hold_woken_trans)

lemma wake_at: "hold_at (wake h) = hold_at h \<or> hold_at (wake h) = Woken"
  by (simp add: wake_def split: hold_point.split)

lemma woken_only_update:
  assumes "map_of (rt_holds st) n = Some h" "hold_at h' = hold_at h \<or> hold_at h' = Woken"
    and "acked h' \<or> hold_done h'" "deadline h' = deadline h" "acked h \<longrightarrow> acked h'"
    and "hold_done h \<longrightarrow> hold_done h'"
  shows "woken_only st (st\<lparr>rt_holds := AList.update n h' (rt_holds st)\<rparr>)"
  using assms by (auto simp: woken_only_def hold_woken_def js_map.get_set)

lemma woken_only_releaseHold: "woken_only st (releaseHold n st)"
proof (cases "map_of (rt_holds st) n")
  case (Some h)
  then show ?thesis using wake_at[of "h\<lparr>hold_done := True\<rparr>"]
    by (simp add: releaseHold_def woken_only_update)
qed (simp add: releaseHold_def)

lemma woken_only_fold: "woken_only st (fold releaseHold ns st)"
  by (induction ns arbitrary: st) (auto intro: woken_only_trans woken_only_releaseHold)

lemma woken_only_onDown: "woken_only st (onDown m st)"
proof (cases "down_body m")
  case (Prompt q)
  show ?thesis
  proof (cases "rt_pendingAsk st")
    case (Some a)
    have "woken_only st (releaseHold (ask_seq a) (st\<lparr>rt_pendingAsk := None\<rparr>))"
      by (rule woken_only_trans[OF woken_only_same woken_only_releaseHold]) simp
    then show ?thesis
      using Prompt Some by (simp add: onDown_def on_prompt_def settle_promise_def woken_only_def)
  qed (use Prompt in \<open>simp add: onDown_def on_prompt_def\<close>)
next
  case (Cancel reason)
  have "rt_holds (cancel_tools w (cancel_ask w (cancel_abort w st))) = rt_holds st" for w
    by (simp add: cancel_tools_def reject_tool_calls_eq cancel_ask_def cancel_abort_def
        settle_promise_def split: option.split)
  then have "woken_only st (cancel_tools w (cancel_ask w (cancel_abort w st)))" for w
    by (rule woken_only_same)
  from woken_only_trans[OF this woken_only_fold] show ?thesis
    using Cancel by (simp add: onDown_def on_cancel_steps cancel_holds_def)
next
  case (Reply_ack n)
  show ?thesis
  proof (cases "map_of (rt_holds st) n")
    case (Some h)
    then show ?thesis using wake_at[of "h\<lparr>acked := True\<rparr>"] Reply_ack
      by (simp add: onDown_def on_reply_ack_def woken_only_update)
  qed (use Reply_ack in \<open>simp add: onDown_def on_reply_ack_def\<close>)
qed (auto simp: onDown_def on_tool_result_def settle_promise_def split: option.split
      intro: woken_only_same)

lemma hold_time_later:
  "hold_time_ok opts t c h \<Longrightarrow> t \<le> t' \<Longrightarrow> hold_time_ok opts t' c h"
  by (auto simp: hold_time_ok_def Let_def split: hold_point.splits)

lemma time_inv_woken:
  assumes "time_inv opts t st" "woken_only st st'" "rt_published st' = rt_published st" "t \<le> t'"
  shows "time_inv opts t' st'"
proof -
  have same: "offered n st' = offered n st" for n using assms(3) by (simp add: offered_def offers_def)
  have "hold_time_ok opts t' (offered n st') h'" if h': "map_of (rt_holds st') n = Some h'" for n h'
  proof -
    obtain h where h: "map_of (rt_holds st) n = Some h" "hold_woken h h'"
      using h' assms(2) unfolding woken_only_def by blast
    then have "hold_time_ok opts t (offered n st) h"
      using assms(1) by (simp add: time_inv_def)
    from hold_time_later[OF this assms(4)] show ?thesis
      using h(2) same by (auto simp: hold_woken_def hold_time_ok_def Let_def split: hold_point.splits)
  qed
  then show ?thesis using assms(1) same by (simp add: time_inv_def)
qed

lemma woken_only_end_hold: "woken_only st (end_hold n st)"
  by (auto simp: woken_only_def end_hold_def Let_def js_map.get_delete split: if_splits)

text \<open>A fresh sequence number has no offers yet.\<close>

lemma offered_fresh: "log_inv st \<Longrightarrow> offered (rt_seq st) st = 0"
  by (auto simp: offered_def offers_def log_inv_def filter_empty_conv)

lemma offered_publish:
  "rt_published st' = rt_published st @ [m] \<Longrightarrow>
   offered n st' = (if seq m = n then offered n st + 1 else offered n st)"
  by (simp add: offered_def offers_def)

lemma time_inv_fresh:
  assumes "log_inv st" "time_inv opts t st" "t \<le> t'"
    and "rt_published st' = rt_published st @ [m]" "seq m = rt_seq st"
    and holds: "\<And>n h. map_of (rt_holds st') n = Some h \<Longrightarrow>
       map_of (rt_holds st) n = Some h \<and> n \<noteq> rt_seq st \<or>
       n = rt_seq st \<and> deadline h = t' + timeoutMs opts \<and> hold_at h = Offering"
  shows "time_inv opts t' st'"
proof -
  have off: "offered n st' = (if n = rt_seq st then 1 else offered n st)" for n
    using offered_publish[OF assms(4), of n] offered_fresh[OF assms(1)] assms(5) by auto
  have "hold_time_ok opts t' (offered n st') h" if "map_of (rt_holds st') n = Some h" for n h
    using holds[OF that]
  proof
    assume *: "map_of (rt_holds st) n = Some h \<and> n \<noteq> rt_seq st"
    then have "hold_time_ok opts t (offered n st) h" using assms(2) by (simp add: time_inv_def)
    then show ?thesis using hold_time_later[OF _ assms(3)] * off by simp
  next
    assume "n = rt_seq st \<and> deadline h = t' + timeoutMs opts \<and> hold_at h = Offering"
    then show ?thesis using off by (simp add: hold_time_ok_def)
  qed
  then show ?thesis using assms(2) off by (simp add: time_inv_def)
qed

lemma hold_seq_below: "log_inv st \<Longrightarrow> map_of (rt_holds st) n = Some h \<Longrightarrow> n < rt_seq st"
  unfolding log_inv_def by metis

lemma time_inv_publishUp:
  assumes "log_inv st" "time_inv opts t st" "t \<le> t'"
  shows "time_inv opts t' (publishUp opts clk b st)"
  by (rule time_inv_fresh[OF assms, of _ "envelope opts clk (rt_seq st) b"])
    (use hold_seq_below[OF assms(1)] in
      \<open>auto simp: publishUp_def channel_publishUp_def take_seq_def envelope_def\<close>)

lemma time_inv_publishHeld:
  assumes "log_inv st" "time_inv opts t st" "t \<le> clk_now clk"
  shows "time_inv opts (clk_now clk) (publishHeld opts clk b (rt_seq st) (take_seq st))"
  by (rule time_inv_fresh[OF assms, of _ "envelope opts clk (rt_seq st) b"])
    (use hold_seq_below[OF assms(1)] in
      \<open>auto simp: publishHeld_def channel_publishUp_def take_seq_def envelope_def Let_def js_map.get_set
        split: if_splits\<close>)

text \<open>One hold moves on, nothing is published.\<close>

lemma time_inv_move:
  assumes "time_inv opts t st" "t \<le> t'" "hold_time_ok opts t' (offered n st) h'"
  shows "time_inv opts t' (st\<lparr>rt_holds := AList.update n h' (rt_holds st)\<rparr>)"
proof -
  let ?st' = "st\<lparr>rt_holds := AList.update n h' (rt_holds st)\<rparr>"
  have same: "offered k ?st' = offered k st" for k by (simp add: offered_def offers_def)
  have "hold_time_ok opts t' (offered k st) h" if "map_of (rt_holds ?st') k = Some h" for k h
  proof (cases "k = n")
    case False
    then have "hold_time_ok opts t (offered k st) h"
      using that assms(1) by (simp add: time_inv_def js_map.get_set)
    then show ?thesis using assms(2) by (rule hold_time_later)
  qed (use that assms(3) in \<open>simp add: js_map.get_set\<close>)
  then show ?thesis using assms(1) by (simp add: time_inv_def same)
qed

lemma time_inv_offer_settled:
  assumes "time_inv opts t st" "t \<le> clk_now clk" "offer_settled opts clk n st = Some st'"
  shows "time_inv opts (clk_now clk) st'"
proof -
  obtain h where h: "map_of (rt_holds st) n = Some h" "hold_at h = Offering"
    using assms(3) by (auto simp: offer_settled_def split: option.splits if_splits)
  show ?thesis
  proof (cases "keep_offering clk st h")
    case True
    define h' where "h' = h\<lparr>hold_at := Parked (clk_now clk + timer_delay (retryMs opts))\<rparr>"
    have st': "st' = st\<lparr>rt_holds := AList.update n h' (rt_holds st)\<rparr>"
      using assms(3) h True by (simp add: offer_settled_def h'_def)
    have "hold_time_ok opts t (offered n st) h" using assms(1) h by (simp add: time_inv_def)
    then have "hold_time_ok opts (clk_now clk) (offered n st) h'"
      using h(2) assms(2) True by (simp add: hold_time_ok_def h'_def keep_offering_def Let_def algebra_simps)
    from time_inv_move[OF assms(1,2) this] show ?thesis by (simp add: st')
  next
    case False
    then have "st' = end_hold n st" using assms(3) h by (simp add: offer_settled_def)
    then show ?thesis
      using time_inv_woken[OF assms(1) woken_only_end_hold _ assms(2), of n]
      by (simp add: end_hold_def Let_def)
  qed
qed


lemma time_inv_timer_fired:
  assumes "time_inv opts t st" "t \<le> clk_now clk" "timer_fired clk n st = Some st'"
  shows "time_inv opts (clk_now clk) st'"
proof -
  obtain h due where h: "map_of (rt_holds st) n = Some h" "hold_at h = Parked due" "due \<le> clk_now clk"
    and st': "st' = st\<lparr>rt_holds := AList.update n (h\<lparr>hold_at := Woken\<rparr>) (rt_holds st)\<rparr>"
    using assms(3) by (auto simp: timer_fired_def split: option.splits hold_point.splits if_splits)
  have "hold_time_ok opts t (offered n st) h" using assms(1) h(1) by (simp add: time_inv_def)
  then have "hold_time_ok opts (clk_now clk) (offered n st) (h\<lparr>hold_at := Woken\<rparr>)"
    using h(2,3) by (simp add: hold_time_ok_def Let_def)
  from time_inv_move[OF assms(1,2) this] show ?thesis by (simp add: st')
qed

lemma time_inv_hold_resumed:
  assumes "log_inv st" "time_inv opts t st" "t \<le> clk_now clk" "hold_resumed clk n st = Some st'"
  shows "time_inv opts (clk_now clk) st'"
proof -
  obtain h where h: "map_of (rt_holds st) n = Some h" "hold_at h = Woken"
    using assms(4) by (auto simp: hold_resumed_def split: option.splits if_splits)
  show ?thesis
  proof (cases "keep_offering clk st h")
    case True
    let ?r = "timer_delay (retryMs opts)" and ?T = "timeoutMs opts" and ?now = "clk_now clk"
    define h' where "h' = h\<lparr>hold_at := Offering\<rparr>"
    have st': "rt_holds st' = AList.update n h' (rt_holds st)"
      "rt_published st' = rt_published st @ [hold_envelope h]"
      using assms(4) h True by (auto simp: hold_resumed_def channel_publishUp_def h'_def)
    have env: "seq (hold_envelope h) = n" using assms(1) h(1) by (auto simp: log_inv_def)
    have off: "offered k st' = (if k = n then offered n st + 1 else offered k st)" for k
      using offered_publish[OF st'(2), of k] env by auto
    have "hold_time_ok opts t (offered n st) h" using assms(2) h(1) by (simp add: time_inv_def)
    then have now: "deadline h - ?T + offered n st * ?r \<le> ?now" "?now < deadline h"
      using True h(2) assms(3) by (auto simp: hold_time_ok_def keep_offering_def Let_def)
    have "hold_time_ok opts ?now (offered k st') g" if g: "map_of (rt_holds st') k = Some g" for k g
    proof (cases "k = n")
      case True
      then have "g = h'" using g by (simp add: st' js_map.get_set)
      then show ?thesis using True now off by (simp add: hold_time_ok_def h'_def Let_def)
    next
      case False
      then have "hold_time_ok opts t (offered k st) g"
        using g assms(2) by (simp add: st' js_map.get_set time_inv_def)
      then show ?thesis using hold_time_later[OF _ assms(3)] False off by simp
    qed
    moreover have "offered n st * ?r < ?T" using now by simp
    ultimately show ?thesis using assms(2) off by (simp add: time_inv_def)
  next
    case False
    then have "st' = end_hold n st" using assms(4) h by (simp add: hold_resumed_def)
    then show ?thesis
      using time_inv_woken[OF assms(2) woken_only_end_hold _ assms(3), of n]
      by (simp add: end_hold_def Let_def)
  qed
qed


lemma time_inv_session_ask:
  assumes "log_inv st" "time_inv opts t st" "t \<le> clk_now clk"
  shows "time_inv opts (clk_now clk) (session_ask opts clk q st)"
proof (cases "rt_aborted st")
  case None
  define st1 where "st1 = (new_promise st)\<lparr>rt_pendingAsk :=
    Some \<lparr>ask_promise = rt_promises st, ask_seq = rt_seq st\<rparr>\<rparr>"
  have "log_inv st1" "time_inv opts t st1"
    using assms(1,2) by (simp_all add: st1_def new_promise_def log_inv_def time_inv_def offered_def
        offers_def)
  from time_inv_publishHeld[OF this assms(3)]
  have "time_inv opts (clk_now clk)
      (publishHeld opts clk (Reply q False None) (rt_seq st1) (take_seq st1))" .
  moreover have "session_ask opts clk q st =
      publishHeld opts clk (Reply q False None) (rt_seq st1) (take_seq st1)"
    using None by (cases st) (simp add: session_ask_def st1_def new_promise_def take_seq_def Let_def)
  ultimately show ?thesis by simp
next
  case (Some why)
  then show ?thesis
    by (intro time_inv_woken[OF assms(2) woken_only_same _ assms(3)])
      (simp_all add: session_ask_def settle_promise_def new_promise_def Let_def)
qed

lemma time_inv_session_callTool:
  assumes "log_inv st" "time_inv opts t st" "t \<le> t'"
  shows "time_inv opts t' (session_callTool opts clk c tool i st)"
proof (cases "rt_aborted st")
  case None
  define st1 where "st1 = (new_promise st)\<lparr>rt_pendingToolCalls :=
    AList.update c (rt_promises st) (rt_pendingToolCalls st)\<rparr>"
  have "log_inv st1" "time_inv opts t st1"
    using assms(1,2) by (simp_all add: st1_def new_promise_def log_inv_def time_inv_def offered_def
        offers_def)
  from time_inv_publishUp[OF this assms(3)] show ?thesis
    using None by (simp add: session_callTool_def st1_def new_promise_def Let_def)
next
  case (Some why)
  then show ?thesis
    by (intro time_inv_woken[OF assms(2) woken_only_same _ assms(3)])
      (simp_all add: session_callTool_def settle_promise_def new_promise_def Let_def)
qed

lemma time_inv_point: "time_inv opts t (st\<lparr>rt_point := p\<rparr>) = time_inv opts t st"
  by (simp add: time_inv_def offered_def offers_def)

lemma time_inv_later: "time_inv opts t st \<Longrightarrow> t \<le> t' \<Longrightarrow> time_inv opts t' st"
  by (rule time_inv_woken[OF _ woken_only_refl]) simp_all

lemma time_inv_catch_block:
  assumes "log_inv st" "time_inv opts t st" "t \<le> clk_now clk"
  shows "time_inv opts (clk_now clk) (catch_block opts clk err st)"
  using time_inv_publishHeld[OF assms] time_inv_later[OF assms(2,3)]
  by (simp add: catch_block_def Let_def time_inv_point)

lemma time_inv_handler_returned:
  assumes "log_inv st" "time_inv opts t st" "t \<le> clk_now clk"
  shows "time_inv opts (clk_now clk) (handler_returned opts clk r st)"
  using time_inv_publishHeld[OF assms] by (simp add: handler_returned_def Let_def time_inv_point)

lemma time_inv_step:
  assumes "log_inv st" "time_inv opts t st" "rt_step opts ev st = Some st'"
    and "t' = (case event_clock ev of None \<Rightarrow> t | Some clk \<Rightarrow> clk_now clk)" "t \<le> t'"
  shows "time_inv opts t' st'"
proof (cases ev)
  case (Down m)
  then have "st' = onDown m st" "t' = t" using assms(3,4) by (simp_all add: rt_step_def)
  then show ?thesis
    using time_inv_woken[OF assms(2) woken_only_onDown, of m t] calm_onDown[of st m]
    by (simp add: calm_def)
next
  case (SendSettled clk failure)
  then show ?thesis
    using assms time_inv_catch_block[OF assms(1,2)] time_inv_later[OF assms(2)]
    by (auto simp: rt_step_def time_inv_point split: run_point.splits option.splits if_splits)
next
  case (CloseSettled ok)
  then show ?thesis using assms by (auto simp: rt_step_def time_inv_point split: run_point.splits)
next
  case (ReadySettled ok)
  then show ?thesis using assms by (auto simp: rt_step_def time_inv_point split: if_splits)
qed (use assms time_inv_publishUp[OF assms(1,2)] time_inv_session_ask[OF assms(1,2)]
      time_inv_session_callTool[OF assms(1,2)] time_inv_offer_settled[OF assms(2)]
      time_inv_timer_fired[OF assms(2)] time_inv_hold_resumed[OF assms(1,2)]
      time_inv_handler_returned[OF assms(1,2)] time_inv_catch_block[OF assms(1,2)] in
     \<open>auto simp: rt_step_def session_progress_def session_warn_def split: if_splits\<close>)

lemma time_inv_reach: "timed_reach opts t st \<Longrightarrow> log_inv st \<and> time_inv opts t st"
proof (induction rule: timed_reach.induct)
  case (timed_start clk)
  have "time_inv opts (clk_now clk) (rt_start opts clk)"
    by (auto simp: time_inv_def rt_start_def publishUp_def channel_publishUp_def take_seq_def
        offered_def offers_def)
  then show ?case using log_inv_start by blast
next
  case (timed_step t st ev st' t')
  then show ?case using log_inv_step time_inv_step by blast
qed

lemma end_hold_gone: "map_of (rt_holds (end_hold n st)) n = None" "rt_published (end_hold n st) = rt_published st"
  by (simp_all add: end_hold_def Let_def js_map.get_delete)


section \<open>Properties\<close>


definition rt_done_events_ex :: "unit rt_event list" where
  "rt_done_events_ex =
     [ReadySettled True, HandlerThrew (clock_ex 3)
        \<lparr>th_isCancelled = False, th_isAgentFailure = False, th_isConfigError = False,
         th_name = Some ''Error'', th_code = Some ''ENOENT'', th_message = ''no file''\<rparr>,
      OfferSettled (clock_ex 4) 1, TimerFired (clock_ex 14) 1, HoldResumed (clock_ex 14) 1,
      OfferSettled (clock_ex 15) 1, Down (down_ex (Reply_ack 1)), HoldResumed (clock_ex 16) 1,
      CloseSettled True]"

definition rt_done_ex :: "unit runtime" where
  "rt_done_ex = the (rt_exec rt_opts_ex (rt_start rt_opts_ex (clock_ex 0)) rt_done_events_ex)"


text \<open>
  The offers of a message are bounded: as long as the clock does not go back, a message
  offered \<open>k > 1\<close> times satisfies \<open>(k - 1) * retryMs < timeoutMs\<close>, because re-offers are at least
  one interval apart and stop at the deadline.
\<close>

theorem offers_are_bounded:
  assumes "timed_reach opts t st" "1 \<le> retryMs opts" "retryMs opts \<le> 2147483647"
    and "1 < length (offers n st)"
  shows "(int (length (offers n st)) - 1) * retryMs opts < timeoutMs opts"
  using time_inv_reach[OF assms(1)] assms(2-4)
  by (auto simp: time_inv_def offered_def timer_delay_def dest: spec[of _ n])

fun timed_exec :: "RunAgentOptions \<Rightarrow> int \<Rightarrow> 'v runtime \<Rightarrow> 'v rt_event list \<Rightarrow> (int \<times> 'v runtime) option" where
  "timed_exec opts t st [] = Some (t, st)"
| "timed_exec opts t st (ev # evs) =
     (let t' = (case event_clock ev of None \<Rightarrow> t | Some clk \<Rightarrow> clk_now clk) in
      if t \<le> t' then
        (case rt_step opts ev st of None \<Rightarrow> None | Some st' \<Rightarrow> timed_exec opts t' st' evs)
      else None)"

lemma timed_exec_reach:
  "timed_reach opts t st \<Longrightarrow> timed_exec opts t st evs = Some (t', st') \<Longrightarrow> timed_reach opts t' st'"
proof (induction evs arbitrary: t st)
  case (Cons ev evs)
  let ?t = "case event_clock ev of None \<Rightarrow> t | Some clk \<Rightarrow> clk_now clk"
  obtain st1 where "t \<le> ?t" "rt_step opts ev st = Some st1" "timed_exec opts ?t st1 evs = Some (t', st')"
    using Cons.prems(2) by (auto simp: Let_def split: if_splits option.splits)
  then show ?case using Cons.IH timed_step[OF Cons.prems(1)] by blast
qed simp

lemma timed_exec_start:
  "timed_exec opts (clk_now clk) (rt_start opts clk) evs = Some (t, st) \<Longrightarrow> timed_reach opts t st"
  by (rule timed_exec_reach[OF timed_start])

lemma rt_asking_timed: "timed_reach rt_opts_ex 10 rt_asking_ex"
proof (rule timed_exec_start)
  show "timed_exec rt_opts_ex (clk_now (clock_ex 0)) (rt_start rt_opts_ex (clock_ex 0)) rt_events_ex =
      Some (10, rt_asking_ex)"
    by code_simp
qed

theorem offers_are_bounded_witness:
  "length (offers 1 rt_asking_ex) = 2 \<and>
   (int (length (offers 1 rt_asking_ex)) - 1) * retryMs rt_opts_ex < timeoutMs rt_opts_ex"
proof -
  have "length (offers 1 rt_asking_ex) = 2 \<and> 1 \<le> retryMs rt_opts_ex \<and> retryMs rt_opts_ex \<le> 2147483647"
    by code_simp
  then show ?thesis using offers_are_bounded[OF rt_asking_timed, of 1] by auto
qed

text \<open>
  C39. No hold lasts forever: one retry interval past its deadline, a held message has at
  most two steps left, both steps of its own loop that are enabled there; they remove the
  hold and publish nothing.
\<close>

theorem overdue_hold_ends:
  assumes "timed_reach opts t st" "map_of (rt_holds st) n = Some h"
    and "deadline h + timer_delay (retryMs opts) \<le> clk_now clk"
  shows "\<exists>evs st'. set evs \<subseteq> {OfferSettled clk n, TimerFired clk n, HoldResumed clk n} \<and>
    length evs \<le> 2 \<and> rt_run opts st evs st' \<and> map_of (rt_holds st') n = None \<and>
    rt_published st' = rt_published st"
proof -
  have r: "0 < timer_delay (retryMs opts)" by (simp add: timer_delay_def)
  then have late: "\<not> keep_offering clk st' g" if "deadline g = deadline h" for g :: "'a hold" and st'
    using that assms(3) by (simp add: keep_offering_def)
  have ok: "hold_time_ok opts t (offered n st) h"
    using time_inv_reach[OF assms(1)] assms(2) by (simp add: time_inv_def)
  show ?thesis
  proof (cases "hold_at h")
    case Offering
    then have "rt_step opts (OfferSettled clk n) st = Some (end_hold n st)"
      using assms(2) late by (simp add: rt_step_def offer_settled_def)
    then show ?thesis
      using rt_run_snoc[OF rt_run_nil] end_hold_gone[of n st]
      by (intro exI[of _ "[OfferSettled clk n]"] exI[of _ "end_hold n st"]) fastforce
  next
    case (Parked due)
    let ?st1 = "st\<lparr>rt_holds := AList.update n (h\<lparr>hold_at := Woken\<rparr>) (rt_holds st)\<rparr>"
    have "due \<le> clk_now clk" using ok Parked assms(3) by (simp add: hold_time_ok_def Let_def)
    then have 1: "rt_step opts (TimerFired clk n) st = Some ?st1"
      using assms(2) Parked by (simp add: rt_step_def timer_fired_def)
    have 2: "rt_step opts (HoldResumed clk n) ?st1 = Some (end_hold n ?st1)"
      using late by (simp add: rt_step_def hold_resumed_def js_map.get_set)
    have "rt_run opts st ([] @ [TimerFired clk n] @ [HoldResumed clk n]) (end_hold n ?st1)"
      using rt_run_snoc[OF rt_run_snoc[OF rt_run_nil 1] 2] by simp
    then show ?thesis
      using end_hold_gone[of n ?st1]
      by (intro exI[of _ "[TimerFired clk n, HoldResumed clk n]"] exI[of _ "end_hold n ?st1"]) simp
  next
    case Woken
    then have "rt_step opts (HoldResumed clk n) st = Some (end_hold n st)"
      using assms(2) late by (simp add: rt_step_def hold_resumed_def)
    then show ?thesis
      using rt_run_snoc[OF rt_run_nil] end_hold_gone[of n st]
      by (intro exI[of _ "[HoldResumed clk n]"] exI[of _ "end_hold n st"]) fastforce
  qed
qed

theorem overdue_hold_ends_witness:
  "\<exists>evs st'. length evs \<le> 2 \<and> rt_run rt_opts_ex rt_asking_ex evs st' \<and> map_of (rt_holds st') 1 = None"
proof -
  have "\<exists>h. map_of (rt_holds rt_asking_ex) 1 = Some h \<and>
      deadline h + timer_delay (retryMs rt_opts_ex) \<le> clk_now (clock_ex 40)"
  proof (intro exI conjI)
    show "map_of (rt_holds rt_asking_ex) 1 = Some (the (map_of (rt_holds rt_asking_ex) 1))"
      by code_simp
    show "deadline (the (map_of (rt_holds rt_asking_ex) 1)) + timer_delay (retryMs rt_opts_ex) \<le>
        clk_now (clock_ex 40)" by code_simp
  qed
  then show ?thesis using overdue_hold_ends[OF rt_asking_timed] by blast
qed

text \<open>
  What a failing handler reports: outside cancellation the failure is published with a
  non-empty code and the message of the error; the code is the one the error declares only
  for an \<open>AgentFailure\<close> (by class or by name), so that the codes of other errors do not reach
  the orchestrator; a cancelled run publishes nothing.
\<close>

theorem handler_failure_report:
  assumes "rt_step opts (HandlerThrew clk err) st = Some st'"
  shows "if rt_aborted st = None then
      (\<exists>code. rt_published st' =
          rt_published st @ [envelope opts clk (rt_seq st) (Failed code (th_message err))] \<and>
        code \<noteq> [] \<and>
        (code \<in> {''config_error'', ''agent_error''} \<or>
         (th_isAgentFailure err \<or> th_name err = Some ''AgentFailure'') \<and> th_code err = Some code))
    else rt_published st' = rt_published st \<and> rt_point st' = Closing False"
proof -
  have st': "st' = catch_block opts clk err st" "th_isCancelled err \<Longrightarrow> rt_aborted st \<noteq> None"
    using assms by (simp_all add: rt_step_def split: if_splits)
  have code: "failure_code err \<noteq> []"
    "failure_code err \<in> {''config_error'', ''agent_error''} \<or>
     (th_isAgentFailure err \<or> th_name err = Some ''AgentFailure'') \<and> th_code err = Some (failure_code err)"
    by (auto simp: failure_code_def Let_def truthy_str_def split: option.splits)
  show ?thesis
  proof (cases "rt_aborted st")
    case None
    then have "rt_published st' =
        rt_published st @ [envelope opts clk (rt_seq st) (Failed (failure_code err) (th_message err))]"
      using st' by (auto simp: catch_block_def publishHeld_def channel_publishUp_def take_seq_def
          Let_def)
    then show ?thesis using None code by auto
  next
    case (Some why)
    then show ?thesis by (simp add: st'(1) catch_block_def)
  qed
qed

definition rt_started_ex :: "unit runtime" where
  "rt_started_ex = the (rt_exec rt_opts_ex (rt_start rt_opts_ex (clock_ex 0)) [ReadySettled True])"

definition thrown_ex :: thrown where
  "thrown_ex = \<lparr>th_isCancelled = False, th_isAgentFailure = False, th_isConfigError = False,
     th_name = Some ''AgentFailure'', th_code = Some ''auth_expired'', th_message = ''expired''\<rparr>"

theorem handler_failure_report_witness:
  "\<exists>code st'. rt_step rt_opts_ex (HandlerThrew (clock_ex 1) thrown_ex) rt_started_ex = Some st' \<and>
     rt_published st' = rt_published rt_started_ex @
       [envelope rt_opts_ex (clock_ex 1) (rt_seq rt_started_ex) (Failed code ''expired'')]"
proof -
  have "rt_step rt_opts_ex (HandlerThrew (clock_ex 1) thrown_ex) rt_started_ex \<noteq> None \<and>
      rt_aborted rt_started_ex = None \<and> th_message thrown_ex = ''expired''" by code_simp
  then obtain st' where "rt_step rt_opts_ex (HandlerThrew (clock_ex 1) thrown_ex) rt_started_ex = Some st'"
    "rt_aborted rt_started_ex = None" "th_message thrown_ex = ''expired''" by auto
  then show ?thesis using handler_failure_report[of rt_opts_ex "clock_ex 1" thrown_ex rt_started_ex st']
    by fastforce
qed

end
