(* ===== verification/Agent_Reply_Store.thy ===== *)
theory Agent_Reply_Store
  imports Agent_Protocol
begin

text \<open>
  The store of concluding replies (\<open>apps/agent-orchestrator/src/agents/reply-store.ts\<close>) and the
  values the orchestrator's channel exchanges with its callers
  (\<open>agents/nats-agent-channel.ts\<close>). The in-memory store interprets the locale \<open>keyed_store\<close>,
  whose laws are what the channel relies on; a write that fails is an event of the channel.
\<close>

section \<open>Results of a turn\<close>

record 'v AgentTurnResult =
  tr_message :: string
  tr_final :: bool
  tr_result :: "'v option"
  tr_narration :: "string list"

record SubAgentApprovalCall =
  ac_callId :: string
  ac_tool :: string
  ac_input :: string
  ac_expiresAt :: int

datatype turn_error =
    AgentTurnTimeoutError string
  | AgentTurnTransportError string
  | AgentTurnFailedError string string
  | AgentTurnApprovalPendingError SubAgentApprovalCall

record 'v OpencodeProxyResult =
  px_status :: int
  px_body :: "'v option"


section \<open>The in-memory reply store\<close>

record 'v InMemoryAgentReplyStore =
  replies :: "(string \<times> 'v AgentTurnResult) list"

definition new_reply_store :: "'v InMemoryAgentReplyStore" where
  "new_reply_store = \<lparr>replies = []\<rparr>"

definition reply_get :: "'v InMemoryAgentReplyStore \<Rightarrow> string \<Rightarrow> 'v AgentTurnResult option" where
  "reply_get s agentRunId = map_of (replies s) agentRunId"

definition reply_set ::
  "string \<Rightarrow> 'v AgentTurnResult \<Rightarrow> 'v InMemoryAgentReplyStore \<Rightarrow> 'v InMemoryAgentReplyStore" where
  "reply_set agentRunId reply s = s\<lparr>replies := AList.update agentRunId reply (replies s)\<rparr>"

definition reply_delete ::
  "string \<Rightarrow> 'v InMemoryAgentReplyStore \<Rightarrow> 'v InMemoryAgentReplyStore" where
  "reply_delete agentRunId s = s\<lparr>replies := AList.delete agentRunId (replies s)\<rparr>"

interpretation replies: keyed_store reply_get reply_set reply_delete new_reply_store
  by unfold_locales
    (auto simp: reply_get_def reply_set_def reply_delete_def new_reply_store_def
      js_map.get_set js_map.get_delete)

end
