(* ===== verification/Agent_Channel.thy ===== *)
theory Agent_Channel
  imports Agent_Reply_Store Agent_Runtime
begin

text \<open>
  The orchestrator's side of the protocol
  (\<open>apps/agent-orchestrator/src/agents/nats-agent-channel.ts\<close>): \<open>NatsAgentChannel\<close> waits for the
  reply of a run, persists it before acknowledging it, pauses its idle clock while the agent
  waits for a tool result, and forwards calls to the agent's local server.

  As for the runtime, the model is a state and one function per stretch of code between two
  suspension points. Several calls of \<open>awaitReply\<close> and \<open>forwardOpencodeRequest\<close> may be in flight;
  each is a record with the variables of its call, under a number of its own. The
  environment decides what is delivered, when timers fire, which store writes and publishes
  fail (with the error's message) and whether a callback throws. \<open>ch_log\<close> lists the effects
  in order. The subscription and the connection are not modelled beyond that: a read loop may
  be ended at any time, with or without an error.
\<close>

section \<open>State\<close>

definition DEFAULT_IDLE_TIMEOUT_MS :: int where
  "DEFAULT_IDLE_TIMEOUT_MS = 10 * 60 * 1000"

definition DEFAULT_OPENCODE_PROXY_TIMEOUT_MS :: int where
  "DEFAULT_OPENCODE_PROXY_TIMEOUT_MS = 10 * 60 * 1000"

datatype 'v await_point =
    Reading
  | Storing "'v AgentTurnResult" nat     \<comment> \<open>awaiting \<open>replyStore.set\<close>; the seq to acknowledge\<close>

record 'v await =
  aw_run :: string
  aw_idleTimeoutMs :: int
  aw_narration :: "string list"
  aw_timer :: "int option"
  aw_timedOut :: bool
  aw_runFailed :: "string option"
  aw_approval :: "SubAgentApprovalCall option"
  aw_owed :: "string list"
  aw_at :: "'v await_point"

record 'v forward =
  fw_run :: string
  fw_requestId :: string
  fw_timeoutMs :: int
  fw_awaited :: bool    \<comment> \<open>false once the publish threw: nobody awaits the response any more\<close>

datatype 'v ch_effect =
    Published string "'v AgentDownMessage"
  | Received nat string "'v AgentUpMessage"
  | StoreSet string "'v AgentTurnResult"
  | StoreDeleted string
  | OnProgress nat "string option" string
  | OnToolCall nat string string string
  | Settled nat "turn_error + 'v AgentTurnResult"
  | ForwardSettled nat "turn_error + 'v OpencodeProxyResult"
  | ForwardThrew nat string
  | UnhandledRejection nat "turn_error + string"   \<comment> \<open>its own error, or one of the subscription\<close>

record 'v channel =
  ch_subjectPrefix :: string
  ch_replyStore :: "'v InMemoryAgentReplyStore option"
  ch_seq :: nat
  ch_idleClocks :: "(string \<times> nat) list"
  ch_awaits :: "(nat \<times> 'v await) list"
  ch_forwards :: "(nat \<times> 'v forward) list"
  ch_next :: nat
  ch_log :: "'v ch_effect list"

definition ch_new :: "string \<Rightarrow> bool \<Rightarrow> 'v channel" where
  "ch_new prefix withStore =
     \<lparr>ch_subjectPrefix = prefix, ch_replyStore = (if withStore then Some new_reply_store else None),
      ch_seq = 0, ch_idleClocks = [], ch_awaits = [], ch_forwards = [], ch_next = 0, ch_log = []\<rparr>"

definition ch_emit :: "'v ch_effect \<Rightarrow> 'v channel \<Rightarrow> 'v channel" where
  "ch_emit e st = st\<lparr>ch_log := ch_log st @ [e]\<rparr>"

definition put_await :: "nat \<Rightarrow> 'v await \<Rightarrow> 'v channel \<Rightarrow> 'v channel" where
  "put_await i a st = st\<lparr>ch_awaits := AList.update i a (ch_awaits st)\<rparr>"

text \<open>
  One message on the down subject of a run: the sequence number is taken whether or not the
  publish throws.
\<close>

definition down_message :: "clock \<Rightarrow> string \<Rightarrow> nat \<Rightarrow> 'v down_body \<Rightarrow> 'v AgentDownMessage" where
  "down_message clk run n b =
     \<lparr>agent_run_id = run, seq = n, ts = clk_iso clk, down_body = b\<rparr>"

definition publish_down ::
  "clock \<Rightarrow> string \<Rightarrow> 'v down_body \<Rightarrow> string option \<Rightarrow> 'v channel \<Rightarrow> 'v channel" where
  "publish_down clk run b failure st =
     (let st' = st\<lparr>ch_seq := ch_seq st + 1\<rparr> in
      if failure \<noteq> None then st'
      else ch_emit (Published (subj_down (agentSubjects run (ch_subjectPrefix st)))
                      (down_message clk run (ch_seq st) b)) st')"


section \<open>The idle clock\<close>

definition armIdleTimer :: "clock \<Rightarrow> 'v await \<Rightarrow> 'v await" where
  "armIdleTimer clk a =
     a\<lparr>aw_timer := if aw_owed a \<noteq> [] then None
                   else Some (clk_now clk + timer_delay (aw_idleTimeoutMs a))\<rparr>"

definition owe :: "string \<Rightarrow> 'v await \<Rightarrow> 'v await" where
  "owe callId a = a\<lparr>aw_owed := if callId \<in> set (aw_owed a) then aw_owed a else aw_owed a @ [callId]\<rparr>"

definition settle_owed :: "string \<Rightarrow> 'v await \<Rightarrow> 'v await" where
  "settle_owed callId a = a\<lparr>aw_owed := filter (\<lambda>c. c \<noteq> callId) (aw_owed a)\<rparr>"

definition idle_fired :: "clock \<Rightarrow> nat \<Rightarrow> 'v channel \<Rightarrow> 'v channel option" where
  "idle_fired clk i st =
     (case map_of (ch_awaits st) i of
        None \<Rightarrow> None
      | Some a \<Rightarrow>
          (case aw_timer a of
             Some due \<Rightarrow>
               if due \<le> clk_now clk
               then Some (put_await i (a\<lparr>aw_timedOut := True, aw_timer := None\<rparr>) st) else None
           | None \<Rightarrow> None))"


section \<open>Awaiting a reply\<close>

definition awaitReply :: "clock \<Rightarrow> string \<Rightarrow> int option \<Rightarrow> 'v channel \<Rightarrow> 'v channel" where
  "awaitReply clk agentRunId idleTimeoutMs st =
     (let i = ch_next st;
          a = armIdleTimer clk
                \<lparr>aw_run = agentRunId, aw_idleTimeoutMs = coalesce idleTimeoutMs DEFAULT_IDLE_TIMEOUT_MS,
                 aw_narration = [], aw_timer = None, aw_timedOut = False, aw_runFailed = None,
                 aw_approval = None, aw_owed = [], aw_at = Reading\<rparr>
      in put_await i a
           (st\<lparr>ch_next := i + 1, ch_idleClocks := AList.update agentRunId i (ch_idleClocks st)\<rparr>))"

text \<open>
  The end of an \<open>awaitReply\<close>: its timer and variables go with it, and its idle clock is
  retracted unless a later call on the same run has replaced it.
\<close>

definition finish_await ::
  "nat \<Rightarrow> turn_error + 'v AgentTurnResult \<Rightarrow> 'v channel \<Rightarrow> 'v channel" where
  "finish_await i res st =
     (case map_of (ch_awaits st) i of
        None \<Rightarrow> st
      | Some a \<Rightarrow>
          ch_emit (Settled i res)
            (st\<lparr>ch_awaits := AList.delete i (ch_awaits st),
                ch_idleClocks :=
                  (if map_of (ch_idleClocks st) (aw_run a) = Some i
                   then AList.delete (aw_run a) (ch_idleClocks st) else ch_idleClocks st)\<rparr>))"

definition transport_error :: "string \<Rightarrow> string option \<Rightarrow> turn_error" where
  "transport_error run err =
     AgentTurnTransportError
       (''lost the NATS subscription for agent run '' @ run @ '' before it replied'' @
        (case err of None \<Rightarrow> '''' | Some e \<Rightarrow> '' ('' @ e @ '')'') @
        ''; the run may still be in progress'')"

definition js_int_string :: "int \<Rightarrow> string" where
  "js_int_string n = (if n < 0 then ''-'' @ js_nat_string (nat (- n)) else js_nat_string (nat n))"

definition timeout_error :: "'v await \<Rightarrow> turn_error" where
  "timeout_error a =
     AgentTurnTimeoutError
       (''agent run '' @ aw_run a @ '' went silent for '' @ js_int_string (aw_idleTimeoutMs a) @
        ''ms after '' @ js_nat_string (length (aw_narration a)) @ '' progress message(s)'')"

text \<open>Why a read loop ended: approval, then failure of the run, then silence, then loss.\<close>

definition end_reason :: "'v await \<Rightarrow> turn_error" where
  "end_reason a =
     (case aw_approval a of
        Some call \<Rightarrow> AgentTurnApprovalPendingError call
      | None \<Rightarrow>
          (case aw_runFailed a of
             Some reason \<Rightarrow> AgentTurnFailedError ''run_failed'' reason
           | None \<Rightarrow> if aw_timedOut a then timeout_error a else transport_error (aw_run a) None))"

definition iterator_ended :: "nat \<Rightarrow> string option \<Rightarrow> 'v channel \<Rightarrow> 'v channel option" where
  "iterator_ended i err st =
     (case map_of (ch_awaits st) i of
        None \<Rightarrow> None
      | Some a \<Rightarrow>
          if aw_at a \<noteq> Reading then None
          else Some (finish_await i
            (Inl (case err of None \<Rightarrow> end_reason a | Some _ \<Rightarrow> transport_error (aw_run a) err)) st))"

text \<open>A callback of the caller returns, or throws into the read loop.\<close>

definition after_callback :: "nat \<Rightarrow> string \<Rightarrow> string option \<Rightarrow> 'v channel \<Rightarrow> 'v channel" where
  "after_callback i run thrown st =
     (case thrown of
        None \<Rightarrow> st
      | Some e \<Rightarrow> finish_await i (Inl (transport_error run (Some e))) st)"

definition ackConcluding :: "clock \<Rightarrow> string \<Rightarrow> nat \<Rightarrow> string option \<Rightarrow> 'v channel \<Rightarrow> 'v channel" where
  "ackConcluding clk agentRunId ackSeq failure st =
     publish_down clk agentRunId (Reply_ack ackSeq) failure st"

text \<open>One decoded message in the read loop; the arguments say what a callback threw, if anything,
  and what the publish of an acknowledgement threw.\<close>

definition handle_up ::
  "clock \<Rightarrow> nat \<Rightarrow> 'v AgentUpMessage \<Rightarrow> string option \<Rightarrow> string option \<Rightarrow> 'v await \<Rightarrow> 'v channel \<Rightarrow> 'v channel" where
  "handle_up clk i m thrown failure a st =
     (case up_body m of
        Progress_up stage message _ \<Rightarrow>
          after_callback i (aw_run a) thrown
            (ch_emit (OnProgress i stage message)
              (put_await i (a\<lparr>aw_narration := aw_narration a @ [message]\<rparr>) st))
      | Warning message \<Rightarrow>
          after_callback i (aw_run a) thrown
            (ch_emit (OnProgress i (Some ''warning'') message)
              (put_await i (a\<lparr>aw_narration := aw_narration a @ [''Warning: '' @ message]\<rparr>) st))
      | Reply message final result \<Rightarrow>
          put_await i
            (a\<lparr>aw_at := Storing \<lparr>tr_message = message, tr_final = final, tr_result = result,
                               tr_narration = aw_narration a\<rparr> (seq m)\<rparr>) st
      | Failed code message \<Rightarrow>
          finish_await i
            (Inl (case failure of
                    None \<Rightarrow> AgentTurnFailedError code message
                  | Some e \<Rightarrow> transport_error (aw_run a) (Some e)))
            (ackConcluding clk (aw_run a) (seq m) failure st)
      | Tool_call callId tool input \<Rightarrow>
          after_callback i (aw_run a) thrown
            (ch_emit (OnToolCall i callId tool input)
              (put_await i (armIdleTimer clk (owe callId a)) st))
      | _ \<Rightarrow> st)"

text \<open>One message of the subscription: the clock is rearmed whether or not it decodes.\<close>

definition deliver ::
  "clock \<Rightarrow> nat \<Rightarrow> 'v AgentUpMessage option \<Rightarrow> string option \<Rightarrow> string option \<Rightarrow> 'v channel \<Rightarrow> 'v channel option" where
  "deliver clk i msg thrown failure st =
     (case map_of (ch_awaits st) i of
        None \<Rightarrow> None
      | Some a0 \<Rightarrow>
          if aw_at a0 \<noteq> Reading then None
          else
            (let a = armIdleTimer clk a0; st1 = put_await i a st in
             case msg of
               None \<Rightarrow> Some st1
             | Some m \<Rightarrow>
                 Some (handle_up clk i m thrown failure a (ch_emit (Received i (aw_run a) m) st1))))"

text \<open>
  The rest of the reply case: the write settled, then the acknowledgement, then the return.
  Without a store there is nothing to write.
\<close>

definition store_settled ::
  "clock \<Rightarrow> nat \<Rightarrow> string option \<Rightarrow> string option \<Rightarrow> 'v channel \<Rightarrow> 'v channel option" where
  "store_settled clk i store_failure failure st =
     (case map_of (ch_awaits st) i of
        None \<Rightarrow> None
      | Some a \<Rightarrow>
          (case aw_at a of
             Reading \<Rightarrow> None
           | Storing reply ackSeq \<Rightarrow>
               (case (ch_replyStore st, store_failure) of
                  (Some _, Some e) \<Rightarrow>
                    Some (finish_await i (Inl (transport_error (aw_run a) (Some e))) st)
                | (None, Some _) \<Rightarrow> None
                | (store, None) \<Rightarrow>
                    (let st1 = (case store of
                                  None \<Rightarrow> st
                                | Some s \<Rightarrow>
                                    ch_emit (StoreSet (aw_run a) reply)
                                      (st\<lparr>ch_replyStore := Some (reply_set (aw_run a) reply s)\<rparr>))
                     in Some (finish_await i
                          (case failure of
                             None \<Rightarrow> Inr reply
                           | Some e \<Rightarrow> Inl (transport_error (aw_run a) (Some e)))
                          (ackConcluding clk (aw_run a) ackSeq failure st1))))))"

text \<open>The two promises the caller may give to \<open>awaitReply\<close>.\<close>

definition run_failed :: "nat \<Rightarrow> string \<Rightarrow> 'v channel \<Rightarrow> 'v channel option" where
  "run_failed i reason st =
     map_option (\<lambda>a. put_await i (a\<lparr>aw_runFailed := Some reason\<rparr>) st) (map_of (ch_awaits st) i)"

definition approval_needed :: "nat \<Rightarrow> SubAgentApprovalCall \<Rightarrow> 'v channel \<Rightarrow> 'v channel option" where
  "approval_needed i call st =
     map_option (\<lambda>a. put_await i (a\<lparr>aw_approval := Some call\<rparr>) st) (map_of (ch_awaits st) i)"


section \<open>Recorded replies, prompts and tool results\<close>

text \<open>A read of the Redis store that fails is a miss.\<close>

definition recordedReply :: "string \<Rightarrow> bool \<Rightarrow> 'v channel \<Rightarrow> 'v AgentTurnResult option" where
  "recordedReply agentRunId missed st =
     (case ch_replyStore st of
        None \<Rightarrow> None
      | Some s \<Rightarrow> if missed then None else reply_get s agentRunId)"

definition forgetRecordedReply :: "string \<Rightarrow> 'v channel \<Rightarrow> 'v channel" where
  "forgetRecordedReply agentRunId st =
     (case ch_replyStore st of
        None \<Rightarrow> st
      | Some s \<Rightarrow> ch_emit (StoreDeleted agentRunId)
                    (st\<lparr>ch_replyStore := Some (reply_delete agentRunId s)\<rparr>))"

definition sendPrompt :: "clock \<Rightarrow> string \<Rightarrow> string \<Rightarrow> string option \<Rightarrow> 'v channel \<Rightarrow> 'v channel" where
  "sendPrompt clk agentRunId message failure st =
     publish_down clk agentRunId (Prompt message) failure st"

datatype 'v tool_outcome = ToolOk "'v option" | ToolFailed string

definition tool_result_body :: "string \<Rightarrow> 'v tool_outcome \<Rightarrow> 'v down_body" where
  "tool_result_body callId outcome =
     (case outcome of
        ToolOk result \<Rightarrow> Tool_result callId True result None
      | ToolFailed error \<Rightarrow> Tool_result callId False None (Some error))"

definition resolveToolCall ::
  "clock \<Rightarrow> string \<Rightarrow> string \<Rightarrow> 'v tool_outcome \<Rightarrow> string option \<Rightarrow> 'v channel \<Rightarrow> 'v channel" where
  "resolveToolCall clk agentRunId callId outcome failure st =
     (let st1 = publish_down clk agentRunId (tool_result_body callId outcome) failure st in
      if failure \<noteq> None then st1
      else
        (case map_of (ch_idleClocks st1) agentRunId of
           None \<Rightarrow> st1
         | Some i \<Rightarrow>
             (case map_of (ch_awaits st1) i of
                None \<Rightarrow> st1
              | Some a \<Rightarrow> put_await i (armIdleTimer clk (settle_owed callId a)) st1)))"


section \<open>Forwarding a call to the agent's local server\<close>

text \<open>
  The request is published outside the \<open>try\<close>: when that throws, the call rejects at once and
  the response promise is left with nobody to handle it.
\<close>

definition forwardOpencodeRequest ::
  "clock \<Rightarrow> string \<Rightarrow> string \<Rightarrow> string \<Rightarrow> string \<Rightarrow> 'v option \<Rightarrow> int option \<Rightarrow> string option \<Rightarrow> 'v channel \<Rightarrow> 'v channel" where
  "forwardOpencodeRequest clk agentRunId requestId method_name path body limit failure st =
     (let i = ch_next st;
          f = \<lparr>fw_run = agentRunId, fw_requestId = requestId,
               fw_timeoutMs = coalesce limit DEFAULT_OPENCODE_PROXY_TIMEOUT_MS,
               fw_awaited = (failure = None)\<rparr>;
          st1 = publish_down clk agentRunId (Opencode_request requestId method_name path body) failure
                  (st\<lparr>ch_next := i + 1, ch_forwards := AList.update i f (ch_forwards st)\<rparr>)
      in case failure of None \<Rightarrow> st1 | Some e \<Rightarrow> ch_emit (ForwardThrew i e) st1)"

definition finish_forward :: "nat \<Rightarrow> 'v ch_effect list \<Rightarrow> 'v channel \<Rightarrow> 'v channel" where
  "finish_forward i effects st =
     st\<lparr>ch_forwards := AList.delete i (ch_forwards st), ch_log := ch_log st @ effects\<rparr>"

definition forward_deliver :: "nat \<Rightarrow> 'v AgentUpMessage option \<Rightarrow> 'v channel \<Rightarrow> 'v channel option" where
  "forward_deliver i msg st =
     (case map_of (ch_forwards st) i of
        None \<Rightarrow> None
      | Some f \<Rightarrow>
          (case map_option up_body msg of
             Some (Opencode_response requestId status body) \<Rightarrow>
               if requestId = fw_requestId f
               then Some (finish_forward i
                 (if fw_awaited f
                  then [ForwardSettled i (Inr \<lparr>px_status = status, px_body = body\<rparr>)] else []) st)
               else Some st
           | _ \<Rightarrow> Some st))"

text \<open>
  The subscription of a forwarded call ended: at its deadline (or otherwise without an error)
  or with one.
\<close>

definition forward_timeout :: "'v forward \<Rightarrow> turn_error" where
  "forward_timeout f =
     AgentTurnTimeoutError
       (''agent run '' @ fw_run f @ '' did not respond to opencode_request '' @
        fw_requestId f @ '' within '' @ js_int_string (fw_timeoutMs f) @ ''ms'')"

definition forward_lost :: "'v forward \<Rightarrow> string \<Rightarrow> turn_error" where
  "forward_lost f e =
     AgentTurnTransportError
       (''lost the NATS subscription while forwarding opencode_request '' @
        fw_requestId f @ '' to agent run '' @ fw_run f @ '' ('' @ e @ '')'')"

definition forward_ended :: "nat \<Rightarrow> string option \<Rightarrow> 'v channel \<Rightarrow> 'v channel option" where
  "forward_ended i err st =
     (case map_of (ch_forwards st) i of
        None \<Rightarrow> None
      | Some f \<Rightarrow>
          Some (finish_forward i
            [if fw_awaited f
             then ForwardSettled i
                    (Inl (case err of None \<Rightarrow> forward_timeout f | Some e \<Rightarrow> forward_lost f e))
             else UnhandledRejection i
                    (case err of None \<Rightarrow> Inl (forward_timeout f) | Some e \<Rightarrow> Inr e)] st))"


section \<open>Steps\<close>

datatype 'v ch_event =
    AwaitReply clock string "int option"
  | Deliver clock nat "'v AgentUpMessage option" "string option" "string option"
  | StoreSettled clock nat "string option" "string option"
  | IdleFired clock nat
  | IteratorEnded nat "string option"
  | RunFailed nat string
  | ApprovalNeeded nat SubAgentApprovalCall
  | SendPrompt clock string string "string option"
  | ResolveToolCall clock string string "'v tool_outcome" "string option"
  | ForgetRecordedReply string
  | ForwardRequest clock string string string string "'v option" "int option" "string option"
  | ForwardDeliver nat "'v AgentUpMessage option"
  | ForwardEnded nat "string option"

definition ch_step :: "'v ch_event \<Rightarrow> 'v channel \<Rightarrow> 'v channel option" where
  "ch_step ev st =
     (case ev of
        AwaitReply clk run idle \<Rightarrow> Some (awaitReply clk run idle st)
      | Deliver clk i msg thrown failure \<Rightarrow> deliver clk i msg thrown failure st
      | StoreSettled clk i store_failure failure \<Rightarrow> store_settled clk i store_failure failure st
      | IdleFired clk i \<Rightarrow> idle_fired clk i st
      | IteratorEnded i err \<Rightarrow> iterator_ended i err st
      | RunFailed i reason \<Rightarrow> run_failed i reason st
      | ApprovalNeeded i call \<Rightarrow> approval_needed i call st
      | SendPrompt clk run message failure \<Rightarrow> Some (sendPrompt clk run message failure st)
      | ResolveToolCall clk run callId outcome failure \<Rightarrow>
          Some (resolveToolCall clk run callId outcome failure st)
      | ForgetRecordedReply run \<Rightarrow> Some (forgetRecordedReply run st)
      | ForwardRequest clk run requestId method_name path body limit failure \<Rightarrow>
          Some (forwardOpencodeRequest clk run requestId method_name path body limit failure st)
      | ForwardDeliver i msg \<Rightarrow> forward_deliver i msg st
      | ForwardEnded i err \<Rightarrow> forward_ended i err st)"

inductive ch_reach :: "string \<Rightarrow> bool \<Rightarrow> 'v channel \<Rightarrow> bool" for prefix withStore where
  ch_start: "ch_reach prefix withStore (ch_new prefix withStore)"
| ch_next: "ch_reach prefix withStore st \<Longrightarrow> ch_step ev st = Some st' \<Longrightarrow> ch_reach prefix withStore st'"

fun ch_exec :: "'v channel \<Rightarrow> 'v ch_event list \<Rightarrow> 'v channel option" where
  "ch_exec st [] = Some st"
| "ch_exec st (ev # evs) = (case ch_step ev st of None \<Rightarrow> None | Some st' \<Rightarrow> ch_exec st' evs)"

lemma ch_exec_reach:
  "ch_reach prefix ws st \<Longrightarrow> ch_exec st evs = Some st' \<Longrightarrow> ch_reach prefix ws st'"
  by (induction evs arbitrary: st) (auto split: option.splits intro: ch_next)

end
