(* ===== verification/Agent_Channel_Log.thy ===== *)
theory Agent_Channel_Log
  imports Agent_Channel Agent_Runtime_Log
begin

text \<open>
  The log of the orchestrator's channel: what must have happened before an acknowledgement is
  sent and before a turn is given its result, as an invariant of every reachable state.
\<close>

section \<open>Logs whose entries are justified by what precedes them\<close>

definition log_ok :: "('e list \<Rightarrow> 'e \<Rightarrow> bool) \<Rightarrow> 'e list \<Rightarrow> bool" where
  "log_ok P trail \<longleftrightarrow> (\<forall>k < length trail. P (take k trail) (trail ! k))"

lemma log_ok_Nil [simp]: "log_ok P []"
  by (simp add: log_ok_def)

lemma log_ok_snoc [simp]: "log_ok P (trail @ [e]) \<longleftrightarrow> log_ok P trail \<and> P trail e"
  by (auto simp: log_ok_def nth_append less_Suc_eq)

lemma log_okD: "log_ok P trail \<Longrightarrow> trail = xs @ e # ys \<Longrightarrow> P xs e"
  by (auto simp: log_ok_def dest!: spec[of _ "length xs"])


section \<open>The invariant\<close>

text \<open>What the caller of one \<open>awaitReply\<close> hears as narration: the messages that call received.\<close>

fun narrate :: "'v up_body \<Rightarrow> string list" where
  "narrate (Progress_up _ message _) = [message]"
| "narrate (Warning message) = [''Warning: '' @ message]"
| "narrate _ = []"

fun heard :: "nat \<Rightarrow> 'v ch_effect \<Rightarrow> string list" where
  "heard i (Received j _ m) = (if j = i then narrate (up_body m) else [])"
| "heard i _ = []"

definition narration_of :: "nat \<Rightarrow> 'v ch_effect list \<Rightarrow> string list" where
  "narration_of i trail = concat (map (heard i) trail)"

lemma narration_of_append [simp]:
  "narration_of i [] = []" "narration_of i (xs @ ys) = narration_of i xs @ narration_of i ys"
  "narration_of i (e # ys) = heard i e @ narration_of i ys"
  by (simp_all add: narration_of_def)

fun effect_id :: "'v ch_effect \<Rightarrow> nat option" where
  "effect_id (Received i _ _) = Some i"
| "effect_id (Settled i _) = Some i"
| "effect_id _ = None"

lemma heard_other: "effect_id e \<noteq> Some i \<Longrightarrow> heard i e = []"
  by (cases e) auto

lemma narration_of_other: "\<forall>e \<in> set es. effect_id e \<noteq> Some i \<Longrightarrow> narration_of i es = []"
  by (induction es) (auto simp: heard_other)

definition settled_in :: "nat \<Rightarrow> 'v ch_effect list \<Rightarrow> bool" where
  "settled_in i trail \<longleftrightarrow> (\<exists>res. Settled i res \<in> set trail)"

lemma settled_in_simps [simp]:
  "\<not> settled_in i []" "settled_in i (xs @ ys) \<longleftrightarrow> settled_in i xs \<or> settled_in i ys"
  "settled_in i (e # ys) \<longleftrightarrow> (\<exists>res. e = Settled i res) \<or> settled_in i ys"
  by (auto simp: settled_in_def)

text \<open>The reply a message carries.\<close>

definition carries :: "'v AgentUpMessage \<Rightarrow> 'v AgentTurnResult \<Rightarrow> bool" where
  "carries u r \<longleftrightarrow> up_body u = Reply (tr_message r) (tr_final r) (tr_result r)"

text \<open>
  An acknowledgement of \<open>n\<close> to a run is justified by a concluding message with that number
  received from the run; a reply must have been persisted, when there is a store.
\<close>

definition ack_justified :: "bool \<Rightarrow> string \<Rightarrow> 'v ch_effect list \<Rightarrow> string \<Rightarrow> nat \<Rightarrow> bool" where
  "ack_justified withStore prefix trail subject n \<longleftrightarrow>
     (\<exists>i run u. subject = subj_down (agentSubjects run prefix) \<and> Received i run u \<in> set trail \<and>
        seq u = n \<and> concluding (up_body u) \<and>
        ((\<exists>code message. up_body u = Failed code message) \<or>
         (\<exists>r. carries u r \<and> (withStore \<longrightarrow> StoreSet run r \<in> set trail))))"

text \<open>
  A result handed to the caller is a reply received by that very call, with the narration it
  heard, persisted and acknowledged.
\<close>

definition result_justified :: "bool \<Rightarrow> string \<Rightarrow> 'v ch_effect list \<Rightarrow> nat \<Rightarrow> 'v AgentTurnResult \<Rightarrow> bool" where
  "result_justified withStore prefix trail i r \<longleftrightarrow>
     (\<exists>run u m. Received i run u \<in> set trail \<and> carries u r \<and> tr_narration r = narration_of i trail \<and>
        (withStore \<longrightarrow> StoreSet run r \<in> set trail) \<and>
        Published (subj_down (agentSubjects run prefix)) m \<in> set trail \<and> down_body m = Reply_ack (seq u))"

definition effect_ok :: "bool \<Rightarrow> string \<Rightarrow> 'v ch_effect list \<Rightarrow> 'v ch_effect \<Rightarrow> bool" where
  "effect_ok withStore prefix trail e \<longleftrightarrow>
     (case e of
        Published subject m \<Rightarrow> (\<forall>n. down_body m = Reply_ack n \<longrightarrow> ack_justified withStore prefix trail subject n)
      | Settled i res \<Rightarrow> \<not> settled_in i trail \<and> (\<forall>r. res = Inr r \<longrightarrow> result_justified withStore prefix trail i r)
      | _ \<Rightarrow> True)"

definition await_ok :: "'v ch_effect list \<Rightarrow> nat \<Rightarrow> 'v await \<Rightarrow> bool" where
  "await_ok trail i a \<longleftrightarrow>
     \<not> settled_in i trail \<and> aw_narration a = narration_of i trail \<and>
     (case aw_at a of
        Reading \<Rightarrow> True
      | Storing r n \<Rightarrow>
          tr_narration r = aw_narration a \<and>
          (\<exists>u. Received i (aw_run a) u \<in> set trail \<and> seq u = n \<and> carries u r))"

definition channel_inv :: "bool \<Rightarrow> string \<Rightarrow> 'v channel \<Rightarrow> bool" where
  "channel_inv withStore prefix st \<longleftrightarrow>
     ch_subjectPrefix st = prefix \<and> (ch_replyStore st \<noteq> None \<longleftrightarrow> withStore) \<and>
     log_ok (effect_ok withStore prefix) (ch_log st) \<and>
     (\<forall>e \<in> set (ch_log st). \<forall>j. effect_id e = Some j \<longrightarrow> j < ch_next st) \<and>
     (\<forall>j a. map_of (ch_awaits st) j = Some a \<longrightarrow> j < ch_next st \<and> await_ok (ch_log st) j a)"

lemma await_ok_extend:
  assumes "await_ok trail j a" "\<forall>e \<in> set es. effect_id e \<noteq> Some j"
  shows "await_ok (trail @ es) j a"
proof -
  have "\<not> settled_in j es" using assms(2) by (force simp: settled_in_def)
  then show ?thesis
    using assms narration_of_other[OF assms(2)]
    by (auto simp: await_ok_def split: await_point.splits)
qed

text \<open>A step that concerns at most the call \<open>i\<close>.\<close>

lemma channel_inv_step_one:
  assumes inv: "channel_inv ws p st"
    and same: "ch_subjectPrefix st' = ch_subjectPrefix st"
      "ch_replyStore st' = None \<longleftrightarrow> ch_replyStore st = None" "ch_next st \<le> ch_next st'"
    and trail: "ch_log st' = ch_log st @ es" "log_ok (effect_ok ws p) (ch_log st @ es)"
    and ids: "\<forall>e \<in> set es. effect_id e = None \<or> effect_id e = Some i" "i < ch_next st'"
    and awaits: "\<And>j a. map_of (ch_awaits st') j = Some a \<Longrightarrow>
      (if j = i then await_ok (ch_log st @ es) i a else map_of (ch_awaits st) j = Some a)"
  shows "channel_inv ws p st'"
proof -
  have "j < ch_next st' \<and> await_ok (ch_log st') j a" if "map_of (ch_awaits st') j = Some a" for j a
  proof (cases "j = i")
    case False
    then have "j < ch_next st \<and> await_ok (ch_log st) j a"
      using awaits[OF that] inv by (simp add: channel_inv_def)
    moreover have "\<forall>e \<in> set es. effect_id e \<noteq> Some j" using ids(1) False by auto
    ultimately show ?thesis using await_ok_extend trail(1) same(3) by fastforce
  qed (use awaits[OF that] trail(1) ids(2) in simp)
  moreover have "\<forall>e \<in> set (ch_log st'). \<forall>j. effect_id e = Some j \<longrightarrow> j < ch_next st'"
    using inv ids same(3) trail(1) by (fastforce simp: channel_inv_def)
  ultimately show ?thesis using inv same trail by (simp add: channel_inv_def)
qed

lemma channel_inv_await:
  "channel_inv ws p st \<Longrightarrow> map_of (ch_awaits st) i = Some a \<Longrightarrow>
   i < ch_next st \<and> await_ok (ch_log st) i a"
  by (simp add: channel_inv_def)

lemma channel_inv_log: "channel_inv ws p st \<Longrightarrow> log_ok (effect_ok ws p) (ch_log st)"
  by (simp add: channel_inv_def)

text \<open>A call whose variables change without a new entry in the log.\<close>

lemma channel_inv_put:
  assumes inv: "channel_inv ws p st" and a: "map_of (ch_awaits st) i = Some a"
    and same: "aw_narration b = aw_narration a" "aw_at b = aw_at a" "aw_run b = aw_run a"
  shows "channel_inv ws p (put_await i b st)"
proof -
  have "await_ok (ch_log st) i b" "i < ch_next st"
    using channel_inv_await[OF inv a] same
    by (auto simp: await_ok_def split: await_point.splits)
  then show ?thesis
    by (intro channel_inv_step_one[OF inv, of _ "[]" i])
      (use channel_inv_log[OF inv] in \<open>auto simp: put_await_def js_map.get_set split: if_splits\<close>)
qed

text \<open>An entry that is justified and belongs to no call.\<close>

lemma channel_inv_entry:
  assumes inv: "channel_inv ws p st" and ok: "effect_ok ws p (ch_log st) e" "effect_id e = None"
    and same: "ch_subjectPrefix st' = ch_subjectPrefix st" "ch_replyStore st' = None \<longleftrightarrow> ch_replyStore st = None"
      "ch_next st \<le> ch_next st'" "ch_awaits st' = ch_awaits st" "ch_log st' = ch_log st @ [e]"
  shows "channel_inv ws p st'"
proof -
  have "\<forall>j. effect_id e \<noteq> Some j" using ok(2) by simp
  then have "j < ch_next st' \<and> await_ok (ch_log st') j a" if "map_of (ch_awaits st') j = Some a" for j a
    using channel_inv_await[OF inv, of j a] await_ok_extend[of "ch_log st" j a "[e]"] that same by auto
  then show ?thesis
    using inv ok same unfolding channel_inv_def by fastforce
qed

lemma channel_inv_same:
  assumes inv: "channel_inv ws p st"
    and same: "ch_subjectPrefix st' = ch_subjectPrefix st" "ch_replyStore st' = None \<longleftrightarrow> ch_replyStore st = None"
      "ch_next st \<le> ch_next st'" "ch_awaits st' = ch_awaits st" "ch_log st' = ch_log st"
  shows "channel_inv ws p st'"
  using assms unfolding channel_inv_def by fastforce

lemma channel_inv_publish:
  assumes inv: "channel_inv ws p st"
    and ok: "\<And>n. b = Reply_ack n \<Longrightarrow> ack_justified ws p (ch_log st) (subj_down (agentSubjects run p)) n"
  shows "channel_inv ws p (publish_down clk run b failure st)"
proof (cases failure)
  case None
  have "ch_subjectPrefix st = p" using inv by (simp add: channel_inv_def)
  then show ?thesis
    by (intro channel_inv_entry[OF inv, of "Published (subj_down (agentSubjects run p))
          (down_message clk run (ch_seq st) b)"])
      (use ok None in \<open>auto simp: publish_down_def ch_emit_def Let_def effect_ok_def down_message_def\<close>)
next
  case (Some e)
  then show ?thesis by (intro channel_inv_same[OF inv]) (simp_all add: publish_down_def Let_def)
qed

lemma channel_inv_finish:
  assumes inv: "channel_inv ws p st" and a: "map_of (ch_awaits st) i = Some a"
    and ok: "\<And>r. res = Inr r \<Longrightarrow> result_justified ws p (ch_log st) i r"
  shows "channel_inv ws p (finish_await i res st)"
proof -
  have "i < ch_next st" "\<not> settled_in i (ch_log st)"
    using channel_inv_await[OF inv a] by (simp_all add: await_ok_def)
  then show ?thesis
    by (intro channel_inv_step_one[OF inv, of _ "[Settled i res]" i])
      (use channel_inv_log[OF inv] ok a in \<open>auto simp: finish_await_def ch_emit_def effect_ok_def
         js_map.get_delete split: if_splits\<close>)
qed

lemma channel_inv_after_callback:
  assumes "channel_inv ws p st" "map_of (ch_awaits st) i = Some a"
  shows "channel_inv ws p (after_callback i run thrown st)"
  using assms channel_inv_finish[OF assms] by (auto simp: after_callback_def split: option.split)


lemma arm_same [simp]:
  "aw_narration (armIdleTimer clk a) = aw_narration a" "aw_at (armIdleTimer clk a) = aw_at a"
  "aw_run (armIdleTimer clk a) = aw_run a" "aw_owed (armIdleTimer clk a) = aw_owed a"
  "aw_idleTimeoutMs (armIdleTimer clk a) = aw_idleTimeoutMs a"
  by (simp_all add: armIdleTimer_def)

lemma owe_same [simp]:
  "aw_narration (owe c a) = aw_narration a" "aw_at (owe c a) = aw_at a" "aw_run (owe c a) = aw_run a"
  "aw_narration (settle_owed c a) = aw_narration a" "aw_at (settle_owed c a) = aw_at a"
  "aw_run (settle_owed c a) = aw_run a"
  by (simp_all add: owe_def settle_owed_def)

lemma map_of_put_await [simp]:
  "map_of (ch_awaits (put_await i a st)) j = (if j = i then Some a else map_of (ch_awaits st) j)"
  by (simp add: put_await_def js_map.get_set)

lemma ch_simps [simp]:
  "ch_log (ch_emit e st) = ch_log st @ [e]" "ch_awaits (ch_emit e st) = ch_awaits st"
  "ch_next (ch_emit e st) = ch_next st" "ch_replyStore (ch_emit e st) = ch_replyStore st"
  "ch_subjectPrefix (ch_emit e st) = ch_subjectPrefix st"
  "ch_log (put_await i a st) = ch_log st" "ch_next (put_await i a st) = ch_next st"
  "ch_replyStore (put_await i a st) = ch_replyStore st"
  "ch_subjectPrefix (put_await i a st) = ch_subjectPrefix st"
  by (simp_all add: ch_emit_def put_await_def)

text \<open>A received message that the call narrates (or ignores), and the entries its callback adds.\<close>

lemma channel_inv_received:
  assumes inv: "channel_inv ws p st" and a: "map_of (ch_awaits st) i = Some a" "aw_at a = Reading"
    and b: "aw_narration b = aw_narration a @ narrate (up_body m)" "aw_run b = aw_run a"
      "aw_at b = Reading \<or> (\<exists>r. aw_at b = Storing r (seq m) \<and> carries m r \<and> tr_narration r = aw_narration b)"
    and es: "set es \<subseteq> {e. effect_id e = None \<and> (\<forall>s d. e \<noteq> Published s d)}"
    and st': "ch_log st' = ch_log st @ Received i (aw_run a) m # es"
      "\<And>j. map_of (ch_awaits st') j = (if j = i then Some b else map_of (ch_awaits st) j)"
      "ch_subjectPrefix st' = ch_subjectPrefix st" "ch_replyStore st' = ch_replyStore st"
      "ch_next st' = ch_next st"
  shows "channel_inv ws p st'"
proof -
  have ok: "i < ch_next st" "\<not> settled_in i (ch_log st)" "aw_narration a = narration_of i (ch_log st)"
    using channel_inv_await[OF inv a(1)] by (simp_all add: await_ok_def)
  have es': "narration_of i es = []" "\<not> settled_in i es"
    using es by (auto intro!: narration_of_other simp: settled_in_def)
  have "log_ok (effect_ok ws p) (ch_log st @ Received i (aw_run a) m # fs)" if "set fs \<subseteq> set es" for fs
    using that
  proof (induction fs rule: rev_induct)
    case Nil
    have "effect_ok ws p (ch_log st) (Received i (aw_run a) m)" by (simp add: effect_ok_def)
    then show ?case using channel_inv_log[OF inv] by simp
  next
    case (snoc e fs)
    have "effect_ok ws p x e" for x
      using snoc.prems es by (cases e) (auto simp: effect_ok_def)
    then show ?case
      using snoc log_ok_snoc[of "effect_ok ws p" "ch_log st @ Received i (aw_run a) m # fs" e] by simp
  qed
  moreover have "await_ok (ch_log st @ Received i (aw_run a) m # es) i b"
    using ok es' b by (auto simp: await_ok_def)
  ultimately show ?thesis
    by (intro channel_inv_step_one[OF inv, of _ "Received i (aw_run a) m # es" i])
      (use st' ok(1) es in \<open>auto split: if_splits\<close>)
qed

lemma channel_inv_deliver:
  assumes inv: "channel_inv ws p st" and step: "deliver clk i msg thrown failure st = Some st'"
  shows "channel_inv ws p st'"
proof -
  obtain a0 where a0: "map_of (ch_awaits st) i = Some a0" "aw_at a0 = Reading"
    using step by (auto simp: deliver_def split: option.splits if_splits)
  define a where "a = armIdleTimer clk a0"
  define st1 where "st1 = put_await i a st"
  have inv1: "channel_inv ws p st1" and a: "map_of (ch_awaits st1) i = Some a" "aw_at a = Reading"
    using channel_inv_put[OF inv a0(1)] a0(2) by (simp_all add: st1_def a_def)
  show ?thesis
  proof (cases msg)
    case None
    then show ?thesis using step a0 inv1 by (simp add: deliver_def st1_def a_def Let_def)
  next
    case (Some m)
    let ?st2 = "ch_emit (Received i (aw_run a) m) st1"
    have st': "st' = handle_up clk i m thrown failure a ?st2"
      using step a0 Some by (simp add: deliver_def st1_def a_def Let_def)
    note received = channel_inv_received[OF inv1 a]
    show ?thesis
    proof (cases "up_body m")
      case (Progress_up stage text1 pct)
      let ?b = "a\<lparr>aw_narration := aw_narration a @ [text1]\<rparr>"
      have "channel_inv ws p (ch_emit (OnProgress i stage text1) (put_await i ?b ?st2))"
        by (rule received[where b = ?b and es = "[OnProgress i stage text1]"])
          (use a Progress_up in simp_all)
      then show ?thesis
        using channel_inv_after_callback[of ws p _ i ?b] by (simp add: st' handle_up_def Progress_up)
    next
      case (Warning text1)
      let ?b = "a\<lparr>aw_narration := aw_narration a @ [''Warning: '' @ text1]\<rparr>"
      have "channel_inv ws p (ch_emit (OnProgress i (Some ''warning'') text1) (put_await i ?b ?st2))"
        by (rule received[where b = ?b and es = "[OnProgress i (Some ''warning'') text1]"])
          (use a Warning in simp_all)
      then show ?thesis
        using channel_inv_after_callback[of ws p _ i ?b] by (simp add: st' handle_up_def Warning)
    next
      case (Reply text1 final result)
      let ?r = "\<lparr>tr_message = text1, tr_final = final, tr_result = result, tr_narration = aw_narration a\<rparr>"
      show ?thesis
        by (rule received[where b = "a\<lparr>aw_at := Storing ?r (seq m)\<rparr>" and es = "[]"])
          (use a Reply in \<open>simp_all add: st' handle_up_def carries_def\<close>)
    next
      case (Failed code text1)
      have inv2: "channel_inv ws p ?st2"
        by (rule received[where b = a and es = "[]"]) (use a Failed in simp_all)
      have "ack_justified ws p (ch_log ?st2) (subj_down (agentSubjects (aw_run a) p)) (seq m)"
        unfolding ack_justified_def using Failed
        by (intro exI[of _ i] exI[of _ "aw_run a"] exI[of _ m]) auto
      then have inv3: "channel_inv ws p (ackConcluding clk (aw_run a) (seq m) failure ?st2)"
        unfolding ackConcluding_def by (intro channel_inv_publish[OF inv2]) simp
      have "map_of (ch_awaits (ackConcluding clk (aw_run a) (seq m) failure ?st2)) i = Some a"
        using a by (simp add: ackConcluding_def publish_down_def Let_def)
      then show ?thesis
        unfolding st' handle_up_def Failed by (simp, intro channel_inv_finish[OF inv3]) simp_all
    next
      case (Tool_call c tool input)
      let ?b = "armIdleTimer clk (owe c a)"
      have "channel_inv ws p (ch_emit (OnToolCall i c tool input) (put_await i ?b ?st2))"
        by (rule received[where b = ?b and es = "[OnToolCall i c tool input]"])
          (use a Tool_call in simp_all)
      then show ?thesis
        using channel_inv_after_callback[of ws p _ i ?b] by (simp add: st' handle_up_def Tool_call)
    qed (rule received[where b = a and es = "[]"], use a in \<open>simp_all add: st' handle_up_def\<close>)+
  qed
qed


lemma channel_inv_store_settled:
  assumes inv: "channel_inv ws p st" and step: "store_settled clk i sf failure st = Some st'"
  shows "channel_inv ws p st'"
proof -
  obtain a r n where a: "map_of (ch_awaits st) i = Some a" "aw_at a = Storing r n"
    using step by (auto simp: store_settled_def split: option.splits await_point.splits)
  have ok: "await_ok (ch_log st) i a" using channel_inv_await[OF inv a(1)] by simp
  then obtain u where u: "Received i (aw_run a) u \<in> set (ch_log st)" "seq u = n" "carries u r"
    "tr_narration r = narration_of i (ch_log st)"
    using a(2) by (auto simp: await_ok_def)
  show ?thesis
  proof (cases "ch_replyStore st \<noteq> None \<and> sf \<noteq> None")
    case True
    then show ?thesis
      using step a channel_inv_finish[OF inv a(1), of "Inl _"]
      by (auto simp: store_settled_def split: option.splits)
  next
    case False
    define st1 where "st1 = (case ch_replyStore st of None \<Rightarrow> st
      | Some s \<Rightarrow> ch_emit (StoreSet (aw_run a) r)
                    (st\<lparr>ch_replyStore := Some (reply_set (aw_run a) r s)\<rparr>))"
    let ?st2 = "ackConcluding clk (aw_run a) n failure st1"
    let ?res = "case failure of None \<Rightarrow> Inr r | Some e \<Rightarrow> Inl (transport_error (aw_run a) (Some e))"
    have st': "st' = finish_await i ?res ?st2"
      using step a False by (auto simp: store_settled_def st1_def Let_def split: option.splits)
    have ws: "ch_replyStore st = None \<longleftrightarrow> \<not> ws" "ch_subjectPrefix st = p"
      using inv by (auto simp: channel_inv_def)
    have stored: "ch_awaits st1 = ch_awaits st" "set (ch_log st) \<subseteq> set (ch_log st1)"
      "ws \<longrightarrow> StoreSet (aw_run a) r \<in> set (ch_log st1)"
      "narration_of i (ch_log st1) = narration_of i (ch_log st)" "ch_subjectPrefix st1 = p"
      using ws by (auto simp: st1_def split: option.splits)
    have inv1: "channel_inv ws p st1"
    proof (cases "ch_replyStore st")
      case (Some s)
      then show ?thesis
        by (intro channel_inv_entry[OF inv, of "StoreSet (aw_run a) r"])
          (simp_all add: st1_def effect_ok_def)
    qed (use inv in \<open>simp add: st1_def\<close>)
    have "concluding (up_body u)" using u(3) by (simp add: carries_def)
    then have "ack_justified ws p (ch_log st1) (subj_down (agentSubjects (aw_run a) p)) n"
      unfolding ack_justified_def using u stored by blast
    then have inv2: "channel_inv ws p ?st2"
      unfolding ackConcluding_def by (intro channel_inv_publish[OF inv1]) simp
    have a2: "map_of (ch_awaits ?st2) i = Some a"
      using a(1) stored(1) by (simp add: ackConcluding_def publish_down_def Let_def)
    have "result_justified ws p (ch_log ?st2) i r" if "failure = None"
    proof -
      let ?m = "down_message clk (aw_run a) (ch_seq st1) (Reply_ack n)"
      have "ch_log ?st2 = ch_log st1 @ [Published (subj_down (agentSubjects (aw_run a) p)) ?m]"
        using that stored(5) by (simp add: ackConcluding_def publish_down_def Let_def)
      then show ?thesis
        unfolding result_justified_def using u stored
        by (intro exI[of _ "aw_run a"] exI[of _ u] exI[of _ ?m]) (auto simp: down_message_def)
    qed
    then show ?thesis
      unfolding st' by (intro channel_inv_finish[OF inv2 a2]) (auto split: option.splits)
  qed
qed

lemma channel_inv_awaitReply:
  assumes inv: "channel_inv ws p st"
  shows "channel_inv ws p (awaitReply clk run idle st)"
proof -
  have "\<forall>e \<in> set (ch_log st). effect_id e \<noteq> Some (ch_next st)"
    using inv by (fastforce simp: channel_inv_def)
  then have "narration_of (ch_next st) (ch_log st) = []" "\<not> settled_in (ch_next st) (ch_log st)"
    using narration_of_other by (blast, force simp: settled_in_def)
  then show ?thesis
    by (intro channel_inv_step_one[OF inv, of _ "[]" "ch_next st"])
      (use channel_inv_log[OF inv] in
        \<open>auto simp: awaitReply_def Let_def await_ok_def put_await_def js_map.get_set split: if_splits\<close>)
qed

lemma channel_inv_resolveToolCall:
  assumes inv: "channel_inv ws p st"
  shows "channel_inv ws p (resolveToolCall clk run c outcome failure st)"
proof -
  let ?st1 = "publish_down clk run (tool_result_body c outcome) failure st"
  have inv1: "channel_inv ws p ?st1"
    by (intro channel_inv_publish[OF inv]) (simp add: tool_result_body_def split: tool_outcome.splits)
  have "channel_inv ws p (put_await i (armIdleTimer clk (settle_owed c a)) ?st1)"
    if "map_of (ch_awaits ?st1) i = Some a" for i a
    by (rule channel_inv_put[OF inv1 that]) simp_all
  then show ?thesis using inv1 by (auto simp: resolveToolCall_def Let_def split: option.split)
qed

text \<open>The entries a forwarded call may leave.\<close>

fun forward_entries :: "'v ch_effect list \<Rightarrow> bool" where
  "forward_entries [] = True"
| "forward_entries [ForwardSettled _ _] = True"
| "forward_entries [UnhandledRejection _ _] = True"
| "forward_entries _ = False"

lemma channel_inv_finish_forward:
  assumes "channel_inv ws p st" "forward_entries es"
  shows "channel_inv ws p (finish_forward i es st)"
  using assms(2)
proof (induction es rule: forward_entries.induct)
  case 1
  then show ?case by (intro channel_inv_same[OF assms(1)]) (simp_all add: finish_forward_def)
qed (auto intro!: channel_inv_entry[OF assms(1)] simp: finish_forward_def effect_ok_def)

lemma channel_inv_forwardOpencodeRequest:
  assumes inv: "channel_inv ws p st"
  shows "channel_inv ws p (forwardOpencodeRequest clk run rid meth path body limit failure st)"
proof -
  define st1 where "st1 = publish_down clk run (Opencode_request rid meth path body) failure
    (st\<lparr>ch_next := ch_next st + 1, ch_forwards := AList.update (ch_next st)
       \<lparr>fw_run = run, fw_requestId = rid, fw_timeoutMs = coalesce limit DEFAULT_OPENCODE_PROXY_TIMEOUT_MS,
        fw_awaited = (failure = None)\<rparr> (ch_forwards st)\<rparr>)"
  have inv1: "channel_inv ws p st1"
    unfolding st1_def by (intro channel_inv_publish channel_inv_same[OF inv]) simp_all
  have "channel_inv ws p (ch_emit (ForwardThrew (ch_next st) e) st1)" for e
    by (rule channel_inv_entry[OF inv1, of "ForwardThrew (ch_next st) e"]) (simp_all add: effect_ok_def)
  with inv1 show ?thesis
    unfolding forwardOpencodeRequest_def Let_def st1_def[symmetric] by (cases failure) simp_all
qed

lemma channel_inv_step:
  assumes inv: "channel_inv ws p st" and step: "ch_step ev st = Some st'"
  shows "channel_inv ws p st'"
proof (cases ev)
  case (IdleFired clk i)
  then show ?thesis using step
    by (auto simp: ch_step_def idle_fired_def split: option.splits if_splits intro: channel_inv_put[OF inv])
next
  case (IteratorEnded i err)
  then show ?thesis using step
    by (auto simp: ch_step_def iterator_ended_def split: option.splits if_splits
        intro!: channel_inv_finish[OF inv])
next
  case (RunFailed i reason)
  then show ?thesis using step
    by (auto simp: ch_step_def run_failed_def intro: channel_inv_put[OF inv])
next
  case (ApprovalNeeded i call)
  then show ?thesis using step
    by (auto simp: ch_step_def approval_needed_def intro: channel_inv_put[OF inv])
next
  case (ForgetRecordedReply run)
  have "channel_inv ws p (forgetRecordedReply run st)"
  proof (cases "ch_replyStore st")
    case (Some s)
    then show ?thesis
      by (intro channel_inv_entry[OF inv, of "StoreDeleted run"])
        (simp_all add: forgetRecordedReply_def effect_ok_def)
  qed (use inv in \<open>simp add: forgetRecordedReply_def\<close>)
  then show ?thesis using step ForgetRecordedReply by (simp add: ch_step_def)
next
  case (ForwardDeliver i msg)
  then show ?thesis using step inv
    by (auto simp: ch_step_def forward_deliver_def channel_inv_finish_forward[OF inv]
        split: option.splits up_body.splits if_splits)
next
  case (ForwardEnded i err)
  then show ?thesis using step
    by (auto simp: ch_step_def forward_ended_def channel_inv_finish_forward[OF inv] split: option.splits)
next
  case (SendPrompt clk run text1 failure)
  then show ?thesis using step channel_inv_publish[OF inv, of "Prompt text1"]
    by (auto simp: ch_step_def sendPrompt_def)
qed (use step channel_inv_awaitReply[OF inv] channel_inv_deliver[OF inv] channel_inv_store_settled[OF inv]
      channel_inv_resolveToolCall[OF inv] channel_inv_forwardOpencodeRequest[OF inv] in
     \<open>auto simp: ch_step_def\<close>)

lemma channel_inv_reach: "ch_reach prefix ws st \<Longrightarrow> channel_inv ws prefix st"
proof (induction rule: ch_reach.induct)
  case ch_start
  then show ?case by (simp add: channel_inv_def ch_new_def)
qed (rule channel_inv_step)


section \<open>Properties\<close>

text \<open>
  Persist before acknowledge: in every reachable state of a channel with a reply store, each
  acknowledgement of sequence number \<open>n\<close> that was sent to a run was preceded by the receipt of a
  concluding message of that run with that number, and, for a reply, by a completed write of
  exactly that reply to the store. The agent's hold is released only for an answer that
  outlives the process.
\<close>

theorem acknowledged_replies_are_persisted:
  assumes "ch_reach prefix True st"
    and "ch_log st = before @ Published subject m # rest" "down_body m = Reply_ack n"
  shows "\<exists>i run u. subject = subj_down (agentSubjects run prefix) \<and> Received i run u \<in> set before \<and>
    seq u = n \<and>
    ((\<exists>code message. up_body u = Failed code message) \<or>
     (\<exists>r. up_body u = Reply (tr_message r) (tr_final r) (tr_result r) \<and> StoreSet run r \<in> set before))"
proof -
  have "effect_ok True prefix before (Published subject m)"
    using log_okD[OF channel_inv_log[OF channel_inv_reach[OF assms(1)]] assms(2)] .
  then show ?thesis using assms(3) by (simp add: effect_ok_def ack_justified_def carries_def) blast
qed

definition up_ex :: "nat \<Rightarrow> unit up_body \<Rightarrow> unit AgentUpMessage" where
  "up_ex n b = \<lparr>agent_run_id = ''run-1'', seq = n, ts = ''T'', up_body = b\<rparr>"

text \<open>A turn that hears one progress message and the final reply, and sends a late prompt.\<close>

definition ch_events_ex :: "unit ch_event list" where
  "ch_events_ex =
     [AwaitReply (clock_ex 0) ''run-1'' (Some 1000),
      Deliver (clock_ex 5) 0 (Some (up_ex 1 (Progress_up None ''cloning'' None))) None None,
      Deliver (clock_ex 9) 0 (Some (up_ex 2 (Reply ''done'' True None))) None None,
      StoreSettled (clock_ex 11) 0 None None]"

definition ch_done_ex :: "unit channel" where
  "ch_done_ex = the (ch_exec (ch_new ''agent'' True) ch_events_ex)"

definition reply_ex :: "unit AgentTurnResult" where
  "reply_ex = \<lparr>tr_message = ''done'', tr_final = True, tr_result = None, tr_narration = [''cloning'']\<rparr>"

definition ack_ex :: "unit AgentDownMessage" where
  "ack_ex = \<lparr>agent_run_id = ''run-1'', seq = 0, ts = ''T'', down_body = Reply_ack 2\<rparr>"

definition before_ex :: "unit ch_effect list" where
  "before_ex =
     [Received 0 ''run-1'' (up_ex 1 (Progress_up None ''cloning'' None)), OnProgress 0 None ''cloning'',
      Received 0 ''run-1'' (up_ex 2 (Reply ''done'' True None)), StoreSet ''run-1'' reply_ex]"

lemma ch_done_reach: "ch_reach ''agent'' True ch_done_ex"
proof -
  have "ch_exec (ch_new ''agent'' True :: unit channel) ch_events_ex \<noteq> None" by code_simp
  then show ?thesis using ch_exec_reach[OF ch_start, of "''agent''" True ch_events_ex]
    by (auto simp: ch_done_ex_def)
qed

lemma ch_done_log:
  "ch_log ch_done_ex = before_ex @ Published ''agent.run-1.down'' ack_ex # [Settled 0 (Inr reply_ex)]"
  by code_simp

theorem acknowledged_replies_are_persisted_witness:
  "ch_log ch_done_ex = before_ex @ Published ''agent.run-1.down'' ack_ex # [Settled 0 (Inr reply_ex)] \<and>
   (\<exists>i run u. ''agent.run-1.down'' = subj_down (agentSubjects run ''agent'') \<and>
      Received i run u \<in> set before_ex \<and> seq u = 2 \<and>
      ((\<exists>code message. up_body u = Failed code message) \<or>
       (\<exists>r. up_body u = Reply (tr_message r) (tr_final r) (tr_result r) \<and> StoreSet run r \<in> set before_ex)))"
proof (intro conjI ch_done_log)
  have "down_body ack_ex = Reply_ack 2" by (simp add: ack_ex_def)
  then show "\<exists>i run u. ''agent.run-1.down'' = subj_down (agentSubjects run ''agent'') \<and>
      Received i run u \<in> set before_ex \<and> seq u = 2 \<and>
      ((\<exists>code message. up_body u = Failed code message) \<or>
       (\<exists>r. up_body u = Reply (tr_message r) (tr_final r) (tr_result r) \<and> StoreSet run r \<in> set before_ex))"
    by (rule acknowledged_replies_are_persisted[OF ch_done_reach ch_done_log])
qed

text \<open>
  The result of a turn: when an \<open>awaitReply\<close> resolves, it resolves once, with the text,
  finality and payload of a reply it received on its own subscription, with as narration exactly
  the progress and warning messages it received, in order, after that reply was persisted and
  acknowledged.
\<close>

theorem turn_result_is_the_received_reply:
  assumes "ch_reach prefix True st" "ch_log st = before @ Settled i (Inr r) # rest"
  shows "(\<exists>run u m. Received i run u \<in> set before \<and>
      up_body u = Reply (tr_message r) (tr_final r) (tr_result r) \<and>
      tr_narration r = narration_of i before \<and> StoreSet run r \<in> set before \<and>
      Published (subj_down (agentSubjects run prefix)) m \<in> set before \<and> down_body m = Reply_ack (seq u)) \<and>
    \<not> settled_in i before \<and> \<not> settled_in i rest"
proof -
  have ok: "log_ok (effect_ok True prefix) (ch_log st)"
    by (rule channel_inv_log[OF channel_inv_reach[OF assms(1)]])
  have "\<not> settled_in i rest"
  proof
    assume "settled_in i rest"
    then obtain res xs ys where "rest = xs @ Settled i res # ys"
      by (auto simp: settled_in_def dest: split_list)
    then have "ch_log st = (before @ Settled i (Inr r) # xs) @ Settled i res # ys"
      using assms(2) by simp
    from log_okD[OF ok this] show False by (simp add: effect_ok_def)
  qed
  moreover have "effect_ok True prefix before (Settled i (Inr r))" by (rule log_okD[OF ok assms(2)])
  ultimately show ?thesis by (simp add: effect_ok_def result_justified_def carries_def)
qed

theorem turn_result_is_the_received_reply_witness:
  "(\<exists>u. Received 0 ''run-1'' u \<in> set before_ex \<and>
      up_body u = Reply (tr_message reply_ex) (tr_final reply_ex) (tr_result reply_ex)) \<and>
   tr_narration reply_ex = narration_of 0 (before_ex @ [Published ''agent.run-1.down'' ack_ex])"
proof -
  have "ch_log ch_done_ex =
      (before_ex @ [Published ''agent.run-1.down'' ack_ex]) @ Settled 0 (Inr reply_ex) # []"
    using ch_done_log by simp
  from turn_result_is_the_received_reply[OF ch_done_reach this] obtain run u where
    u: "Received 0 run u \<in> set (before_ex @ [Published ''agent.run-1.down'' ack_ex])"
    "up_body u = Reply (tr_message reply_ex) (tr_final reply_ex) (tr_result reply_ex)"
    "tr_narration reply_ex = narration_of 0 (before_ex @ [Published ''agent.run-1.down'' ack_ex])"
    by blast
  then have "Received 0 run u \<in> set before_ex" "run = ''run-1''" by (auto simp: before_ex_def)
  with u show ?thesis by blast
qed

end
