(* ===== verification/Agent_Channel_Clock.thy ===== *)
theory Agent_Channel_Clock
  imports Agent_Channel_Log
begin

text \<open>
  The idle clock of \<open>awaitReply\<close>: how each step may change the timer of a call, that an owed
  tool result keeps it stopped, and that it fires only after a whole window of silence; and
  what a forwarded call leaves behind when its request cannot be published.
\<close>

section \<open>The idle clock\<close>

text \<open>How one step may change the clock of the call \<open>i\<close>.\<close>

definition armed :: "clock \<Rightarrow> 'v await \<Rightarrow> int option" where
  "armed clk a = (if aw_owed a \<noteq> [] then None else Some (clk_now clk + timer_delay (aw_idleTimeoutMs a)))"

definition clock_rel :: "'v ch_event \<Rightarrow> nat \<Rightarrow> 'v await \<Rightarrow> 'v await \<Rightarrow> bool" where
  "clock_rel ev i a a' \<longleftrightarrow> aw_idleTimeoutMs a' = aw_idleTimeoutMs a \<and>
     (aw_owed a' = aw_owed a \<and> (aw_timer a' = aw_timer a \<or> aw_timer a' = None) \<or>
      (\<exists>clk msg thrown failure. ev = Deliver clk i msg thrown failure \<and>
         set (aw_owed a) \<subseteq> set (aw_owed a') \<and> aw_timer a' = armed clk a') \<or>
      (\<exists>clk run c outcome failure. ev = ResolveToolCall clk run c outcome failure \<and>
         aw_owed a' = filter (\<lambda>d. d \<noteq> c) (aw_owed a) \<and> aw_timer a' = armed clk a'))"

lemma clock_rel_same: "clock_rel ev i a a"
  by (simp add: clock_rel_def)

lemma clock_rel_deliver:
  "aw_idleTimeoutMs a' = aw_idleTimeoutMs a \<Longrightarrow> set (aw_owed a) \<subseteq> set (aw_owed a') \<Longrightarrow>
   aw_timer a' = armed clk a' \<Longrightarrow> clock_rel (Deliver clk i msg thrown failure) i a a'"
  by (auto simp: clock_rel_def)

lemma armIdleTimer_armed: "aw_timer (armIdleTimer clk a) = armed clk (armIdleTimer clk a)"
  by (simp add: armIdleTimer_def armed_def)

lemma finish_await_other:
  "map_of (ch_awaits (finish_await j res st)) i = Some a \<Longrightarrow> map_of (ch_awaits st) i = Some a"
  by (auto simp: finish_await_def js_map.get_delete split: option.splits if_splits)

lemma after_callback_other:
  "map_of (ch_awaits (after_callback j run thrown st)) i = Some a \<Longrightarrow> map_of (ch_awaits st) i = Some a"
  by (auto simp: after_callback_def dest: finish_await_other split: option.splits)

lemma publish_down_awaits [simp]:
  "ch_awaits (publish_down clk run b failure st) = ch_awaits st"
  "ch_next (publish_down clk run b failure st) = ch_next st"
  by (simp_all add: publish_down_def Let_def)

lemma handle_up_clock:
  assumes "map_of (ch_awaits (handle_up clk j m thrown failure a st)) i = Some a'"
    and "map_of (ch_awaits st) j = Some a" "aw_timer a = armed clk a"
  shows "if i = j then aw_idleTimeoutMs a' = aw_idleTimeoutMs a \<and> set (aw_owed a) \<subseteq> set (aw_owed a') \<and>
           aw_timer a' = armed clk a'
         else map_of (ch_awaits st) i = Some a'"
proof -
  have owe: "set (aw_owed a) \<subseteq> set (aw_owed (owe c a))" "aw_idleTimeoutMs (owe c a) = aw_idleTimeoutMs a" for c
    by (auto simp: owe_def)
  have same: "aw_timer (a\<lparr>aw_narration := ns\<rparr>) = armed clk (a\<lparr>aw_narration := ns\<rparr>)"
    "aw_timer (a\<lparr>aw_at := pt\<rparr>) = armed clk (a\<lparr>aw_at := pt\<rparr>)" for ns pt
    using assms(3) by (simp_all add: armed_def)
  show ?thesis
  proof (cases "up_body m")
    case (Tool_call c tool input)
    then have "map_of (ch_awaits (after_callback j (aw_run a) thrown (ch_emit (OnToolCall j c tool input)
        (put_await j (armIdleTimer clk (owe c a)) st)))) i = Some a'"
      using assms(1) by (simp only: handle_up_def up_body.case)
    from after_callback_other[OF this] show ?thesis using owe[of c] by (auto simp: armIdleTimer_armed split: if_splits)
  qed (use assms same in \<open>auto simp: handle_up_def ackConcluding_def split: if_splits
        dest!: after_callback_other finish_await_other\<close>)
qed

lemma clock_step:
  assumes step: "ch_step ev st = Some st'" and i: "i < ch_next st"
    and a': "map_of (ch_awaits st') i = Some a'"
  shows "\<exists>a. map_of (ch_awaits st) i = Some a \<and> clock_rel ev i a a'"
proof (cases ev)
  case (AwaitReply clk run idle)
  then show ?thesis using step i a'
    by (auto simp: ch_step_def awaitReply_def Let_def put_await_def js_map.get_set split: if_splits
        intro: clock_rel_same)
next
  case (Deliver clk j msg thrown failure)
  then obtain a0 where a0: "map_of (ch_awaits st) j = Some a0"
    using step by (auto simp: ch_step_def deliver_def split: option.splits)
  show ?thesis
  proof (cases msg)
    case None
    then have st': "st' = put_await j (armIdleTimer clk a0) st"
      using step a0 Deliver by (auto simp: ch_step_def deliver_def Let_def split: if_splits)
    have "clock_rel (Deliver clk j msg thrown failure) j a0 (armIdleTimer clk a0)"
      by (rule clock_rel_deliver[OF _ _ armIdleTimer_armed]) simp_all
    then show ?thesis using a0 a' Deliver by (auto simp: st' clock_rel_same split: if_splits)
  next
    case (Some m)
    let ?a = "armIdleTimer clk a0"
    have st': "st' = handle_up clk j m thrown failure ?a
        (ch_emit (Received j (aw_run ?a) m) (put_await j ?a st))"
      using step Deliver a0 Some by (simp add: ch_step_def deliver_def Let_def split: if_splits)
    from handle_up_clock[OF a'[unfolded st']] show ?thesis
      using a0 Deliver armIdleTimer_armed[of clk a0]
      by (cases "i = j") (auto intro: clock_rel_deliver clock_rel_same)
  qed
next
  case (ResolveToolCall clk run c outcome failure)
  then show ?thesis using step a'
    by (auto simp: ch_step_def resolveToolCall_def Let_def clock_rel_def settle_owed_def
        armIdleTimer_def armed_def split: option.splits if_splits)
next
  case (ForwardRequest clk run rid meth path body limit failure)
  then show ?thesis using step a'
    by (auto simp: ch_step_def forwardOpencodeRequest_def Let_def clock_rel_same split: option.splits)
next
  case (ForwardDeliver j msg)
  then show ?thesis using step a'
    by (auto simp: ch_step_def forward_deliver_def finish_forward_def Let_def clock_rel_same
        split: option.splits up_body.splits if_splits sum.splits)
next
  case (ForwardEnded j err)
  then show ?thesis using step a'
    by (auto simp: ch_step_def forward_ended_def finish_forward_def Let_def clock_rel_same
        split: option.splits if_splits sum.splits)
next
  case (StoreSettled clk j sf failure)
  then show ?thesis using step a'
    by (auto simp: ch_step_def store_settled_def ackConcluding_def Let_def clock_rel_same
        split: option.splits await_point.splits dest!: finish_await_other)
next
  case (IdleFired clk j)
  then show ?thesis using step a'
    by (auto simp: ch_step_def idle_fired_def clock_rel_def split: option.splits if_splits)
next
  case (IteratorEnded j err)
  then show ?thesis using step a'
    by (auto simp: ch_step_def iterator_ended_def clock_rel_same split: option.splits if_splits
        dest!: finish_await_other)
next
  case (RunFailed j reason)
  then show ?thesis using step a'
    by (auto simp: ch_step_def run_failed_def clock_rel_def split: if_splits)
next
  case (ApprovalNeeded j call)
  then show ?thesis using step a'
    by (auto simp: ch_step_def approval_needed_def clock_rel_def split: if_splits)
next
  case (SendPrompt clk run text1 failure)
  then show ?thesis using step a' by (auto simp: ch_step_def sendPrompt_def clock_rel_same)
next
  case (ForgetRecordedReply run)
  then show ?thesis using step a'
    by (auto simp: ch_step_def forgetRecordedReply_def clock_rel_same split: option.splits)
qed


lemma ch_next_step: "ch_step ev st = Some st' \<Longrightarrow> ch_next st \<le> ch_next st'"
  by (cases ev)
    (auto simp: ch_step_def awaitReply_def deliver_def handle_up_def ackConcluding_def after_callback_def
      finish_await_def store_settled_def idle_fired_def iterator_ended_def run_failed_def
      approval_needed_def sendPrompt_def resolveToolCall_def forgetRecordedReply_def
      forwardOpencodeRequest_def forward_deliver_def forward_ended_def finish_forward_def Let_def
      split: option.splits if_splits up_body.splits await_point.splits sum.splits)

text \<open>A call that owes the result of \<open>c\<close> has no timer, until that result is sent.\<close>

definition paused_for :: "string \<Rightarrow> nat \<Rightarrow> 'v channel \<Rightarrow> bool" where
  "paused_for c i st \<longleftrightarrow> i < ch_next st \<and>
     (\<forall>a. map_of (ch_awaits st) i = Some a \<longrightarrow> c \<in> set (aw_owed a) \<and> aw_timer a = None)"

fun answers :: "string \<Rightarrow> 'v ch_event \<Rightarrow> bool" where
  "answers c (ResolveToolCall _ _ d _ _) \<longleftrightarrow> d = c"
| "answers c _ \<longleftrightarrow> False"

lemma paused_step:
  assumes "paused_for c i st" "ch_step ev st = Some st'" "\<not> answers c ev"
  shows "paused_for c i st'"
proof -
  have "c \<in> set (aw_owed a') \<and> aw_timer a' = None" if a': "map_of (ch_awaits st') i = Some a'" for a'
  proof -
    obtain a where a: "map_of (ch_awaits st) i = Some a" "clock_rel ev i a a'"
      using clock_step[OF assms(2), of i a'] a' assms(1) by (auto simp: paused_for_def)
    then have "c \<in> set (aw_owed a)" "aw_timer a = None" using assms(1) by (auto simp: paused_for_def)
    then have c: "c \<in> set (aw_owed a')" using a(2) assms(3) by (auto simp: clock_rel_def)
    then have "armed clk a' = None" for clk by (auto simp: armed_def)
    then show ?thesis using c a(2) \<open>aw_timer a = None\<close> by (auto simp: clock_rel_def)
  qed
  then show ?thesis using assms(1) ch_next_step[OF assms(2)] by (simp add: paused_for_def)
qed

lemma paused_exec:
  "paused_for c i st \<Longrightarrow> ch_exec st evs = Some st' \<Longrightarrow> list_all (\<lambda>ev. \<not> answers c ev) evs \<Longrightarrow>
   paused_for c i st'"
  by (induction evs arbitrary: st) (auto split: option.splits intro: paused_step)

text \<open>A call that nothing reaches keeps the timer it had.\<close>

fun reaches :: "nat \<Rightarrow> 'v ch_event \<Rightarrow> bool" where
  "reaches i (Deliver _ j _ _ _) \<longleftrightarrow> j = i"
| "reaches i (ResolveToolCall _ _ _ _ _) \<longleftrightarrow> True"
| "reaches i _ \<longleftrightarrow> False"

definition silent_since :: "clock \<Rightarrow> nat \<Rightarrow> 'v channel \<Rightarrow> bool" where
  "silent_since clk i st \<longleftrightarrow> i < ch_next st \<and>
     (\<forall>a. map_of (ch_awaits st) i = Some a \<longrightarrow> aw_timer a = None \<or> aw_timer a = armed clk a)"

lemma silent_step:
  assumes "silent_since clk i st" "ch_step ev st = Some st'" "\<not> reaches i ev"
  shows "silent_since clk i st'"
proof -
  have "aw_timer a' = None \<or> aw_timer a' = armed clk a'" if a': "map_of (ch_awaits st') i = Some a'" for a'
  proof -
    obtain a where a: "map_of (ch_awaits st) i = Some a" "clock_rel ev i a a'"
      using clock_step[OF assms(2), of i a'] a' assms(1) by (auto simp: silent_since_def)
    then have "aw_timer a = None \<or> aw_timer a = armed clk a" using assms(1) by (auto simp: silent_since_def)
    then show ?thesis using a(2) assms(3) by (auto simp: clock_rel_def armed_def)
  qed
  then show ?thesis using assms(1) ch_next_step[OF assms(2)] by (simp add: silent_since_def)
qed

lemma silent_exec:
  "silent_since clk i st \<Longrightarrow> ch_exec st evs = Some st' \<Longrightarrow> list_all (\<lambda>ev. \<not> reaches i ev) evs \<Longrightarrow>
   silent_since clk i st'"
  by (induction evs arbitrary: st) (auto split: option.splits intro: silent_step)

lemma deliver_silent:
  assumes "channel_inv ws p st" "deliver clk i msg thrown failure st = Some st'"
  shows "silent_since clk i st'"
proof -
  obtain a0 where a0: "map_of (ch_awaits st) i = Some a0"
    using assms(2) by (auto simp: deliver_def split: option.splits)
  have step: "ch_step (Deliver clk i msg thrown failure) st = Some st'"
    using assms(2) by (simp add: ch_step_def)
  have i: "i < ch_next st" using channel_inv_await[OF assms(1) a0] by simp
  have "aw_timer a' = armed clk a'" if a': "map_of (ch_awaits st') i = Some a'" for a'
  proof (cases msg)
    case None
    then show ?thesis using assms(2) a0 a' armIdleTimer_armed[of clk a0]
      by (auto simp: deliver_def Let_def split: if_splits)
  next
    case (Some m)
    let ?a = "armIdleTimer clk a0"
    have st': "st' = handle_up clk i m thrown failure ?a
        (ch_emit (Received i (aw_run ?a) m) (put_await i ?a st))"
      using assms(2) a0 Some by (simp add: deliver_def Let_def split: if_splits)
    from handle_up_clock[OF a'[unfolded st']] show ?thesis using armIdleTimer_armed[of clk a0] by simp
  qed
  then show ?thesis using i ch_next_step[OF step] by (simp add: silent_since_def)
qed


section \<open>Properties of the clock and of forwarded calls\<close>

text \<open>
  C21. Tool calls pause the idle clock: once a call's read loop has received a \<open>tool_call\<close>, no
  continuation in which that call id is not answered lets its idle timer fire, however long it
  takes and whatever else happens.
\<close>

theorem tool_call_pauses_the_idle_clock:
  assumes "ch_reach prefix ws st" "up_body m = Tool_call callId tool input"
    and "deliver clk i (Some m) thrown failure st = Some st1"
    and "ch_exec st1 evs = Some st2" "list_all (\<lambda>ev. \<not> answers callId ev) evs"
  shows "idle_fired clk' i st2 = None"
proof -
  obtain a0 where a0: "map_of (ch_awaits st) i = Some a0"
    using assms(3) by (auto simp: deliver_def split: option.splits)
  let ?a = "armIdleTimer clk a0"
  have i: "i < ch_next st" using channel_inv_await[OF channel_inv_reach[OF assms(1)] a0] by simp
  have "st1 = after_callback i (aw_run ?a) thrown (ch_emit (OnToolCall i callId tool input)
      (put_await i (armIdleTimer clk (owe callId ?a))
        (ch_emit (Received i (aw_run ?a) m) (put_await i ?a st))))"
    using assms(2,3) a0 by (auto simp: deliver_def handle_up_def Let_def split: if_splits)
  then have "a = armIdleTimer clk (owe callId ?a)" if "map_of (ch_awaits st1) i = Some a" for a
    using after_callback_other that by fastforce
  moreover have "i < ch_next st1"
    using i ch_next_step[of "Deliver clk i (Some m) thrown failure" st st1] assms(3)
    by (simp add: ch_step_def)
  ultimately have "paused_for callId i st1"
    by (auto simp: paused_for_def armIdleTimer_def owe_def)
  from paused_exec[OF this assms(4,5)] show ?thesis
    by (auto simp: paused_for_def idle_fired_def split: option.splits)
qed

definition ch_waiting_ex :: "unit channel" where
  "ch_waiting_ex = awaitReply (clock_ex 0) ''run-1'' (Some 1000) (ch_new ''agent'' True)"

lemma ch_waiting_reach: "ch_reach ''agent'' True ch_waiting_ex"
  by (rule ch_exec_reach[OF ch_start, of _ _ "[AwaitReply (clock_ex 0) ''run-1'' (Some 1000)]"])
    (simp add: ch_waiting_ex_def ch_step_def)

theorem tool_call_pauses_the_idle_clock_witness:
  "idle_fired (clock_ex 999999) 0
     (the (deliver (clock_ex 5) 0 (Some (up_ex 1 (Tool_call ''c1'' ''web'' ''x''))) None None ch_waiting_ex)) = None"
proof -
  let ?m = "up_ex 1 (Tool_call ''c1'' ''web'' ''x'')"
  have "deliver (clock_ex 5) 0 (Some ?m) None None ch_waiting_ex \<noteq> None" by code_simp
  then have "deliver (clock_ex 5) 0 (Some ?m) None None ch_waiting_ex =
      Some (the (deliver (clock_ex 5) 0 (Some ?m) None None ch_waiting_ex))" by simp
  moreover have "up_body ?m = Tool_call ''c1'' ''web'' ''x''" by (simp add: up_ex_def)
  ultimately show ?thesis
    using tool_call_pauses_the_idle_clock[OF ch_waiting_reach, of ?m "''c1''" _ _ _ _ _ _ _ "[]"] by simp
qed

text \<open>
  A timeout means silence: if the idle timer of a call fires, then since its last message
  at least the whole idle window has passed, unless a tool result was sent in between (which
  restarts the window), and no tool result is owed.
\<close>

theorem idle_timeout_means_silence:
  assumes "ch_reach prefix ws st" "deliver clk i msg thrown failure st = Some st1"
    and "ch_exec st1 evs = Some st2" "list_all (\<lambda>ev. \<not> reaches i ev) evs"
    and "idle_fired clk' i st2 = Some st3"
  shows "\<exists>a. map_of (ch_awaits st2) i = Some a \<and> aw_owed a = [] \<and>
    clk_now clk + timer_delay (aw_idleTimeoutMs a) \<le> clk_now clk'"
proof -
  obtain a due where a: "map_of (ch_awaits st2) i = Some a" "aw_timer a = Some due" "due \<le> clk_now clk'"
    using assms(5) by (auto simp: idle_fired_def split: option.splits if_splits)
  have "silent_since clk i st2"
    by (rule silent_exec[OF deliver_silent[OF channel_inv_reach[OF assms(1)] assms(2)] assms(3,4)])
  then have "aw_timer a = armed clk a" using a by (auto simp: silent_since_def)
  then show ?thesis using a by (auto simp: armed_def split: if_splits)
qed

theorem idle_timeout_means_silence_witness:
  "\<exists>st1 a. deliver (clock_ex 5) 0 None None None ch_waiting_ex = Some st1 \<and>
     idle_fired (clock_ex 1005) 0 st1 \<noteq> None \<and> map_of (ch_awaits st1) 0 = Some a \<and>
     5 + timer_delay (aw_idleTimeoutMs a) \<le> 1005"
proof -
  let ?st1 = "the (deliver (clock_ex 5) 0 None None None ch_waiting_ex)"
  have "deliver (clock_ex 5) 0 None None None ch_waiting_ex \<noteq> None \<and>
      idle_fired (clock_ex 1005) 0 ?st1 \<noteq> None" by code_simp
  then obtain st3 where step: "deliver (clock_ex 5) 0 None None None ch_waiting_ex = Some ?st1"
    "idle_fired (clock_ex 1005) 0 ?st1 = Some st3" by auto
  from idle_timeout_means_silence[OF ch_waiting_reach step(1), of "[]" ?st1 _ st3] step(2)
  obtain a where "map_of (ch_awaits ?st1) 0 = Some a"
    "clk_now (clock_ex 5) + timer_delay (aw_idleTimeoutMs a) \<le> clk_now (clock_ex 1005)" by auto
  then show ?thesis using step by (auto simp: clock_ex_def)
qed

text \<open>
  A forwarded call whose request cannot be published leaves a promise behind that nobody
  handles: when its subscription ends at the deadline, that promise rejects unhandled.
\<close>

theorem forward_publish_failure_is_unhandled:
  "\<exists>st2. forward_ended (ch_next st) None
       (forwardOpencodeRequest clk run requestId method_name path body limit (Some e) st) = Some st2 \<and>
     ch_log st2 = ch_log st @ [ForwardThrew (ch_next st) e, UnhandledRejection (ch_next st)
       (Inl (AgentTurnTimeoutError (''agent run '' @ run @ '' did not respond to opencode_request '' @
          requestId @ '' within '' @
          js_int_string (coalesce limit DEFAULT_OPENCODE_PROXY_TIMEOUT_MS) @ ''ms'')))]"
  by (simp add: forward_ended_def forwardOpencodeRequest_def publish_down_def finish_forward_def
      forward_timeout_def ch_emit_def Let_def js_map.get_set del: append_Cons append.simps)

end
