(* ===== verification/Agent_System.thy ===== *)
theory Agent_System
  imports Agent_Runtime_Ends Agent_Channel_Clock
begin

text \<open>
  An agent run and the orchestrator together, over a network that may lose, delay, reorder
  and duplicate messages but does not invent them, with an orchestrator that may be
  replaced at any moment: the new process keeps the reply store and nothing else.
\<close>

section \<open>The store follows the log\<close>

text \<open>The abstract contents of the reply store: the last write of each run, unless forgotten.\<close>

definition apply_effect ::
  "'v ch_effect \<Rightarrow> (string \<Rightarrow> 'v AgentTurnResult option) \<Rightarrow> string \<Rightarrow> 'v AgentTurnResult option" where
  "apply_effect e contents =
     (case e of
        StoreSet run r \<Rightarrow> contents(run := Some r)
      | StoreDeleted run \<Rightarrow> contents(run := None)
      | _ \<Rightarrow> contents)"

definition replay :: "'v ch_effect list \<Rightarrow> string \<Rightarrow> 'v AgentTurnResult option" where
  "replay es = fold apply_effect es (\<lambda>_. None)"

lemma replay_simps [simp]: "replay [] = (\<lambda>_. None)" "replay (es @ [e]) = apply_effect e (replay es)"
  by (simp_all add: replay_def)

lemma apply_effect_simps [simp]:
  "apply_effect (StoreSet run r) c = c(run := Some r)" "apply_effect (StoreDeleted run) c = c(run := None)"
  "apply_effect (Published s m) c = c" "apply_effect (Received i run u) c = c"
  "apply_effect (OnProgress i st t) c = c" "apply_effect (OnToolCall i a b d) c = c"
  "apply_effect (Settled i res) c = c" "apply_effect (ForwardSettled i fres) c = c"
  "apply_effect (ForwardThrew i x) c = c" "apply_effect (UnhandledRejection i e) c = c"
  by (simp_all add: apply_effect_def)

definition store_follows :: "'v channel \<Rightarrow> bool" where
  "store_follows st \<longleftrightarrow> (\<forall>s. ch_replyStore st = Some s \<longrightarrow> reply_get s = replay (ch_log st))"

lemma store_follows_put [simp]: "store_follows (put_await i a st) = store_follows st"
  by (simp add: store_follows_def)

lemma store_follows_emit [simp]:
  "apply_effect e (replay (ch_log st)) = replay (ch_log st) \<Longrightarrow> store_follows (ch_emit e st) = store_follows st"
  by (simp add: store_follows_def)

lemma store_follows_frame [simp]:
  "store_follows (st\<lparr>ch_seq := n\<rparr>) = store_follows st" "store_follows (st\<lparr>ch_next := n\<rparr>) = store_follows st"
  "store_follows (st\<lparr>ch_awaits := as\<rparr>) = store_follows st"
  "store_follows (st\<lparr>ch_idleClocks := cs\<rparr>) = store_follows st"
  "store_follows (st\<lparr>ch_forwards := fs\<rparr>) = store_follows st"
  by (simp_all add: store_follows_def)

lemma store_follows_publish [simp]: "store_follows (publish_down clk run b failure st) = store_follows st"
  by (simp add: publish_down_def Let_def)

lemma store_follows_finish [simp]: "store_follows (finish_await i res st) = store_follows st"
  by (simp add: finish_await_def split: option.split)

lemma store_follows_callback [simp]: "store_follows (after_callback i run thrown st) = store_follows st"
  by (simp add: after_callback_def split: option.split)

lemma store_follows_handle_up [simp]: "store_follows (handle_up clk i m thrown failure a st) = store_follows st"
  by (simp add: handle_up_def ackConcluding_def split: up_body.split)

lemma store_follows_finish_forward [simp]:
  "forward_entries es \<Longrightarrow> store_follows (finish_forward i es st) = store_follows st"
  by (induction es rule: forward_entries.induct) (simp_all add: finish_forward_def store_follows_def)

lemma store_follows_store_settled:
  assumes "store_follows st" "store_settled clk i sf failure st = Some st'"
  shows "store_follows st'"
proof (cases "ch_replyStore st")
  case None
  then show ?thesis using assms
    by (auto simp: store_settled_def ackConcluding_def split: option.splits await_point.splits)
next
  case (Some s)
  have "reply_get (reply_set run r s) = (reply_get s)(run := Some r)" for run r
    by (auto simp: fun_eq_iff replies.get_set)
  then have "store_follows (ch_emit (StoreSet run r) (st\<lparr>ch_replyStore := Some (reply_set run r s)\<rparr>))" for run r
    using assms(1) Some by (simp add: store_follows_def)
  then show ?thesis using assms Some
    by (auto simp: store_settled_def ackConcluding_def Let_def split: option.splits await_point.splits)
qed

lemma store_follows_forget:
  assumes "store_follows st"
  shows "store_follows (forgetRecordedReply run st)"
proof (cases "ch_replyStore st")
  case (Some s)
  have "reply_get (reply_delete run s) = (reply_get s)(run := None)"
    by (auto simp: fun_eq_iff replies.get_delete)
  then show ?thesis using assms Some by (simp add: forgetRecordedReply_def store_follows_def)
qed (use assms in \<open>simp add: forgetRecordedReply_def\<close>)

lemma store_follows_step:
  assumes ok: "store_follows st" and step: "ch_step ev st = Some st'"
  shows "store_follows st'"
proof (cases ev)
  case (AwaitReply clk run idle)
  then show ?thesis using ok step by (auto simp: ch_step_def awaitReply_def Let_def)
next
  case (Deliver clk i msg thrown failure)
  then show ?thesis using ok step
    by (auto simp: ch_step_def deliver_def Let_def split: option.splits if_splits)
next
  case (ForwardRequest clk run rid meth path body limit failure)
  then show ?thesis using ok step
    by (auto simp: ch_step_def forwardOpencodeRequest_def Let_def split: option.splits)
next
  case (ForwardDeliver i msg)
  then show ?thesis using ok step
    by (auto simp: ch_step_def forward_deliver_def split: option.splits up_body.splits if_splits)
next
  case (ResolveToolCall clk run c outcome failure)
  then show ?thesis using ok step
    by (auto simp: ch_step_def resolveToolCall_def Let_def split: option.splits if_splits)
qed (use assms store_follows_store_settled store_follows_forget in
     \<open>auto simp: ch_step_def idle_fired_def iterator_ended_def run_failed_def approval_needed_def
        sendPrompt_def forward_ended_def split: option.splits if_splits\<close>)

lemma store_follows_reach: "ch_reach prefix ws st \<Longrightarrow> store_follows st"
proof (induction rule: ch_reach.induct)
  case ch_start
  then show ?case by (simp add: ch_new_def store_follows_def replies.get_empty fun_eq_iff)
qed (rule store_follows_step)


section \<open>Where an acknowledged hold comes from\<close>

definition acks_kept :: "'v runtime \<Rightarrow> 'v runtime \<Rightarrow> bool" where
  "acks_kept st st' \<longleftrightarrow>
     (\<forall>n h'. map_of (rt_holds st') n = Some h' \<longrightarrow> acked h' \<longrightarrow>
        (\<exists>h. map_of (rt_holds st) n = Some h \<and> acked h))"

lemma acks_kept_same: "rt_holds st' = rt_holds st \<Longrightarrow> acks_kept st st'"
  by (auto simp: acks_kept_def)

lemma acks_kept_trans: "acks_kept a b \<Longrightarrow> acks_kept b c \<Longrightarrow> acks_kept a c"
  unfolding acks_kept_def by meson

lemma acks_kept_releaseHold: "acks_kept st (releaseHold n st)"
  by (auto simp: acks_kept_def releaseHold_def js_map.get_set split: option.splits if_splits)

lemma acks_kept_fold: "acks_kept st (fold releaseHold ns st)"
  by (induction ns arbitrary: st) (auto intro: acks_kept_trans acks_kept_releaseHold acks_kept_same)

lemma acks_kept_on_cancel: "acks_kept st (on_cancel reason st)"
proof -
  let ?w = "cancelled_message reason"
  let ?st3 = "cancel_tools ?w (cancel_ask ?w (cancel_abort ?w st))"
  have "rt_holds ?st3 = rt_holds st"
    by (simp add: cancel_tools_def reject_tool_calls_eq cancel_ask_def cancel_abort_def
        settle_promise_def split: option.split)
  then show ?thesis
    unfolding on_cancel_steps cancel_holds_def
    by (rule acks_kept_trans[OF acks_kept_same acks_kept_fold])
qed

lemma acks_kept_on_prompt: "acks_kept st (on_prompt q st)"
proof (cases "rt_pendingAsk st")
  case (Some a)
  have "acks_kept st (releaseHold (ask_seq a) (st\<lparr>rt_pendingAsk := None\<rparr>))"
    by (rule acks_kept_trans[OF acks_kept_same acks_kept_releaseHold]) simp
  then show ?thesis by (simp add: on_prompt_def Some settle_promise_def acks_kept_def)
qed (simp add: on_prompt_def acks_kept_same)

lemma acks_kept_onDown:
  "(\<And>n. down_body m \<noteq> Reply_ack n) \<Longrightarrow> acks_kept st (onDown m st)"
  by (cases "down_body m")
    (auto simp: onDown_def acks_kept_on_prompt acks_kept_on_cancel on_tool_result_def settle_promise_def
      acks_kept_same split: option.split)

lemma acks_kept_publish:
  "acks_kept st (publishUp opts clk b st)" "acks_kept st (publishHeld opts clk b n (take_seq st))"
  "acks_kept st (catch_block opts clk err st)" "acks_kept st (handler_returned opts clk r st)"
  "acks_kept st (session_ask opts clk q st)" "acks_kept st (session_callTool opts clk c t i st)"
  by (auto simp: acks_kept_def publishUp_def publishHeld_def catch_block_def handler_returned_def
      session_ask_def session_callTool_def channel_publishUp_def take_seq_def new_promise_def
      settle_promise_def Let_def js_map.get_set split: if_splits)

lemma acks_kept_hold_steps:
  "offer_settled opts clk n st = Some st' \<Longrightarrow> acks_kept st st'"
  "timer_fired clk n st = Some st' \<Longrightarrow> acks_kept st st'"
  "hold_resumed clk n st = Some st' \<Longrightarrow> acks_kept st st'"
  by (auto simp: acks_kept_def offer_settled_def timer_fired_def hold_resumed_def end_hold_def Let_def
      channel_publishUp_def js_map.get_set js_map.get_delete
      split: option.splits if_splits hold_point.splits)

lemma acked_origin:
  assumes step: "rt_step opts ev st = Some st'" and h': "map_of (rt_holds st') n = Some h'" "acked h'"
  shows "(\<exists>h. map_of (rt_holds st) n = Some h \<and> acked h) \<or> (\<exists>m. ev = Down m \<and> down_body m = Reply_ack n)"
proof (cases "\<exists>m k. ev = Down m \<and> down_body m = Reply_ack k")
  case True
  then show ?thesis using step h'
    by (auto simp: rt_step_def onDown_def on_reply_ack_def js_map.get_set split: option.splits if_splits)
next
  case False
  have "acks_kept st st'"
  proof (cases ev)
    case (Down m)
    then show ?thesis using False step acks_kept_onDown[of m st] by (auto simp: rt_step_def)
  qed (use step acks_kept_publish acks_kept_hold_steps in
       \<open>auto simp: rt_step_def session_progress_def session_warn_def acks_kept_same
          split: if_splits run_point.splits option.splits\<close>)
  then show ?thesis using h' by (auto simp: acks_kept_def)
qed



section \<open>The agent and the orchestrator\<close>

record 'v agent_system =
  sys_agent :: "'v runtime"
  sys_channel :: "'v channel"

text \<open>The names one run is known by.\<close>

abbreviation run_of :: "RunAgentOptions \<Rightarrow> string" where
  "run_of opts \<equiv> cf_runId (op_config opts)"

abbreviation prefix_of :: "RunAgentOptions \<Rightarrow> string" where
  "prefix_of opts \<equiv> cf_subjectPrefix (op_config opts)"

text \<open>
  A replaced orchestrator: a new channel over the same durable store. The log and the
  numbering of calls are the history of the system and go on.
\<close>

definition replace_orchestrator :: "'v channel \<Rightarrow> 'v channel" where
  "replace_orchestrator st =
     st\<lparr>ch_seq := 0, ch_idleClocks := [], ch_awaits := [], ch_forwards := []\<rparr>"

text \<open>The agent hears only what was published on its down subject.\<close>

definition heard_by_agent :: "RunAgentOptions \<Rightarrow> 'v channel \<Rightarrow> 'v rt_event \<Rightarrow> bool" where
  "heard_by_agent opts c ev \<longleftrightarrow>
     (case ev of
        Down m \<Rightarrow> Published (subj_down (agentSubjects (run_of opts) (prefix_of opts))) m \<in> set (ch_log c)
      | _ \<Rightarrow> True)"

text \<open>A call that waits for this run hears only what its agent published.\<close>

definition heard_by_channel :: "RunAgentOptions \<Rightarrow> 'v runtime \<Rightarrow> 'v channel \<Rightarrow> 'v ch_event \<Rightarrow> bool" where
  "heard_by_channel opts a c ev \<longleftrightarrow>
     (case ev of
        Deliver clk i (Some m) thrown failure \<Rightarrow>
          (case map_of (ch_awaits c) i of
             Some w \<Rightarrow> if aw_run w = run_of opts then m \<in> set (rt_published a) else True
           | None \<Rightarrow> True)
      | _ \<Rightarrow> True)"

inductive sys_reach :: "RunAgentOptions \<Rightarrow> bool \<Rightarrow> 'v agent_system \<Rightarrow> bool" for opts withStore where
  sys_start: "sys_reach opts withStore
    \<lparr>sys_agent = rt_start opts clk, sys_channel = ch_new (prefix_of opts) withStore\<rparr>"
| sys_agent_step: "sys_reach opts withStore s \<Longrightarrow> heard_by_agent opts (sys_channel s) ev \<Longrightarrow>
    rt_step opts ev (sys_agent s) = Some a' \<Longrightarrow> sys_reach opts withStore (s\<lparr>sys_agent := a'\<rparr>)"
| sys_channel_step: "sys_reach opts withStore s \<Longrightarrow> heard_by_channel opts (sys_agent s) (sys_channel s) ev \<Longrightarrow>
    ch_step ev (sys_channel s) = Some c' \<Longrightarrow> sys_reach opts withStore (s\<lparr>sys_channel := c'\<rparr>)"
| sys_replace: "sys_reach opts withStore s \<Longrightarrow>
    sys_reach opts withStore (s\<lparr>sys_channel := replace_orchestrator (sys_channel s)\<rparr>)"

text \<open>What the channel received from this run, the agent published.\<close>

definition receipts_ok :: "RunAgentOptions \<Rightarrow> 'v agent_system \<Rightarrow> bool" where
  "receipts_ok opts s \<longleftrightarrow>
     (\<forall>i u. Received i (run_of opts) u \<in> set (ch_log (sys_channel s)) \<longrightarrow>
        u \<in> set (rt_published (sys_agent s)))"

text \<open>An acknowledged hold was acknowledged by a message of the channel.\<close>

definition acks_ok :: "RunAgentOptions \<Rightarrow> 'v agent_system \<Rightarrow> bool" where
  "acks_ok opts s \<longleftrightarrow>
     (\<forall>n h. map_of (rt_holds (sys_agent s)) n = Some h \<longrightarrow> acked h \<longrightarrow>
        (\<exists>m. Published (subj_down (agentSubjects (run_of opts) (prefix_of opts))) m
               \<in> set (ch_log (sys_channel s)) \<and> down_body m = Reply_ack n))"

definition sys_inv :: "RunAgentOptions \<Rightarrow> bool \<Rightarrow> 'v agent_system \<Rightarrow> bool" where
  "sys_inv opts ws s \<longleftrightarrow>
     rt_reachable opts (sys_agent s) \<and> channel_inv ws (prefix_of opts) (sys_channel s) \<and>
     store_follows (sys_channel s) \<and> receipts_ok opts s \<and> acks_ok opts s"

lemma published_grows:
  "rt_step opts ev st = Some st' \<Longrightarrow> set (rt_published st) \<subseteq> set (rt_published st')"
  using rt_step_kinds[of opts ev st st']
  by (auto simp: calm_def publishes_fresh_def offers_again_def)

text \<open>What one step of the channel adds to its log.\<close>

definition receives_only :: "'v ch_event \<Rightarrow> 'v channel \<Rightarrow> 'v channel \<Rightarrow> bool" where
  "receives_only ev st st' \<longleftrightarrow>
     (\<forall>i run u. Received i run u \<in> set (ch_log st') \<longrightarrow> Received i run u \<in> set (ch_log st) \<or>
        (\<exists>clk thrown failure w. ev = Deliver clk i (Some u) thrown failure \<and>
           map_of (ch_awaits st) i = Some w \<and> aw_run w = run))"

text \<open>Steps that add entries, but no receipt.\<close>

definition no_receipt :: "'v channel \<Rightarrow> 'v channel \<Rightarrow> bool" where
  "no_receipt st st' \<longleftrightarrow> set (ch_log st) \<subseteq> set (ch_log st') \<and>
     (\<forall>i run u. Received i run u \<in> set (ch_log st') \<longrightarrow> Received i run u \<in> set (ch_log st))"

lemma no_receipt_trans: "no_receipt a b \<Longrightarrow> no_receipt b c \<Longrightarrow> no_receipt a c"
  by (auto simp: no_receipt_def)

lemma no_receipt_same: "ch_log st' = ch_log st \<Longrightarrow> no_receipt st st'"
  by (simp add: no_receipt_def)

lemma no_receipt_emit: "effect_id e = None \<Longrightarrow> ch_log st' = ch_log st @ [e] \<Longrightarrow> no_receipt st st'"
  by (auto simp: no_receipt_def)

lemma no_receipt_receives: "no_receipt st st' \<Longrightarrow> set (ch_log st) \<subseteq> set (ch_log st') \<and> receives_only ev st st'"
  by (auto simp: no_receipt_def receives_only_def)

lemma no_receipt_publish: "no_receipt st (publish_down clk run b failure st)"
  by (auto simp: no_receipt_def publish_down_def Let_def)

lemma no_receipt_finish: "no_receipt st (finish_await j res st)"
  by (auto simp: no_receipt_def finish_await_def split: option.splits)

lemma no_receipt_callback: "no_receipt st (after_callback j run thrown st)"
  by (simp add: after_callback_def no_receipt_finish no_receipt_same split: option.split)

lemma no_receipt_forward:
  "forward_entries es \<Longrightarrow> no_receipt st (finish_forward j es st)"
  by (induction es rule: forward_entries.induct) (auto simp: no_receipt_def finish_forward_def)

lemma no_receipt_ack: "no_receipt st (finish_await j res (publish_down clk run b failure st))"
  by (rule no_receipt_trans[OF no_receipt_publish no_receipt_finish])

lemma no_receipt_narrated:
  "effect_id e = None \<Longrightarrow> no_receipt st (after_callback j run thrown (ch_emit e (put_await j w st)))"
  by (rule no_receipt_trans[OF no_receipt_emit no_receipt_callback]) simp_all

lemma no_receipt_handle_up: "no_receipt st (handle_up clk j m thrown failure a st)"
  by (simp add: handle_up_def ackConcluding_def no_receipt_ack no_receipt_narrated no_receipt_same
      split: up_body.split)

lemma no_receipt_store_settled:
  assumes "store_settled clk j sf failure st = Some st'"
  shows "no_receipt st st'"
proof -
  have "no_receipt st (finish_await j res (publish_down clk run b failure
      (ch_emit (StoreSet run r) (st\<lparr>ch_replyStore := sto\<rparr>))))" for res run b r sto
    by (rule no_receipt_trans[OF no_receipt_emit no_receipt_ack]) simp_all
  then show ?thesis
    using assms no_receipt_finish no_receipt_ack
    by (auto simp: store_settled_def ackConcluding_def Let_def split: option.splits await_point.splits)
qed

lemma deliver_log:
  assumes "deliver clk i msg thrown failure st = Some st'"
  shows "set (ch_log st) \<subseteq> set (ch_log st')" "receives_only (Deliver clk i msg thrown failure) st st'"
proof -
  obtain w where w: "map_of (ch_awaits st) i = Some w"
    using assms by (auto simp: deliver_def split: option.splits)
  let ?a = "armIdleTimer clk w"
  have st': "st' = (case msg of None \<Rightarrow> put_await i ?a st
    | Some m \<Rightarrow> handle_up clk i m thrown failure ?a (ch_emit (Received i (aw_run w) m) (put_await i ?a st)))"
    using assms w by (auto simp: deliver_def Let_def split: option.splits if_splits)
  have up: "no_receipt (ch_emit (Received i (aw_run w) m) (put_await i ?a st))
      (handle_up clk i m thrown failure ?a (ch_emit (Received i (aw_run w) m) (put_await i ?a st)))" for m
    by (rule no_receipt_handle_up)
  show "set (ch_log st) \<subseteq> set (ch_log st')"
    using up by (auto simp: st' no_receipt_def split: option.splits)
  show "receives_only (Deliver clk i msg thrown failure) st st'"
  proof (cases msg)
    case (Some m)
    let ?st2 = "ch_emit (Received i (aw_run w) m) (put_await i ?a st)"
    have "Received j run u \<in> set (ch_log st) \<or> j = i \<and> u = m \<and> run = aw_run w"
      if "Received j run u \<in> set (ch_log st')" for j run u
    proof -
      have "no_receipt ?st2 st'" using up[of m] by (simp add: st' Some)
      then have "Received j run u \<in> set (ch_log ?st2)" using that by (simp only: no_receipt_def)
      then show ?thesis by auto
    qed
    then show ?thesis using w Some by (auto simp: receives_only_def)
  qed (simp add: receives_only_def st')
qed

lemma ch_step_log:
  assumes step: "ch_step ev st = Some st'"
  shows "set (ch_log st) \<subseteq> set (ch_log st') \<and> receives_only ev st st'"
proof (cases "\<exists>clk i msg thrown failure. ev = Deliver clk i msg thrown failure")
  case True
  then show ?thesis using step deliver_log by (fastforce simp: ch_step_def)
next
  case False
  have "no_receipt st st'"
  proof (cases ev)
    case (StoreSettled clk i sf failure)
    then show ?thesis using step no_receipt_store_settled by (simp add: ch_step_def)
  next
    case (ResolveToolCall clk run c outcome failure)
    let ?st1 = "publish_down clk run (tool_result_body c outcome) failure st"
    have "no_receipt st ?st1" "no_receipt st (put_await i a ?st1)" for i a
      using no_receipt_publish[of st clk run "tool_result_body c outcome" failure]
      by (simp_all add: no_receipt_def)
    then show ?thesis using step ResolveToolCall
      by (auto simp: ch_step_def resolveToolCall_def Let_def split: option.splits if_splits)
  next
    case (ForwardRequest clk run rid meth path body limit failure)
    then show ?thesis using step
      by (auto simp: ch_step_def forwardOpencodeRequest_def publish_down_def Let_def no_receipt_def
          split: option.splits)
  next
    case (ForwardDeliver i msg)
    then show ?thesis using step
      by (auto simp: ch_step_def forward_deliver_def no_receipt_forward no_receipt_same
          split: option.splits up_body.splits if_splits)
  qed (use step False in \<open>auto simp: ch_step_def awaitReply_def Let_def idle_fired_def run_failed_def
        approval_needed_def forgetRecordedReply_def sendPrompt_def iterator_ended_def forward_ended_def
        no_receipt_same no_receipt_publish no_receipt_finish no_receipt_forward
        split: option.splits if_splits intro: no_receipt_emit[of "StoreDeleted run" for run]\<close>)
  then show ?thesis by (rule no_receipt_receives)
qed

lemma sys_inv_agent:
  assumes inv: "sys_inv opts ws s" and ev: "heard_by_agent opts (sys_channel s) ev"
    and step: "rt_step opts ev (sys_agent s) = Some a'"
  shows "sys_inv opts ws (s\<lparr>sys_agent := a'\<rparr>)"
proof -
  have "rt_reachable opts a'" using inv rt_reachable_step[OF _ step] by (simp add: sys_inv_def)
  moreover have "receipts_ok opts (s\<lparr>sys_agent := a'\<rparr>)"
    using inv published_grows[OF step] by (auto simp: sys_inv_def receipts_ok_def)
  moreover have "acks_ok opts (s\<lparr>sys_agent := a'\<rparr>)"
    unfolding acks_ok_def
  proof (intro allI impI)
    fix n h assume "map_of (rt_holds (sys_agent (s\<lparr>sys_agent := a'\<rparr>))) n = Some h" "acked h"
    then have "map_of (rt_holds a') n = Some h" by simp
    from acked_origin[OF step this \<open>acked h\<close>]
    consider h0 where "map_of (rt_holds (sys_agent s)) n = Some h0" "acked h0"
      | m where "ev = Down m" "down_body m = Reply_ack n"
      by blast
    then show "\<exists>m. Published (subj_down (agentSubjects (run_of opts) (prefix_of opts))) m
        \<in> set (ch_log (sys_channel (s\<lparr>sys_agent := a'\<rparr>))) \<and> down_body m = Reply_ack n"
      by cases (use inv ev in \<open>auto simp: sys_inv_def acks_ok_def heard_by_agent_def\<close>)
  qed
  ultimately show ?thesis using inv by (simp add: sys_inv_def)
qed

lemma sys_inv_channel:
  assumes inv: "sys_inv opts ws s" and ev: "heard_by_channel opts (sys_agent s) (sys_channel s) ev"
    and step: "ch_step ev (sys_channel s) = Some c'"
  shows "sys_inv opts ws (s\<lparr>sys_channel := c'\<rparr>)"
proof -
  have "channel_inv ws (prefix_of opts) c'" "store_follows c'"
    using inv channel_inv_step[OF _ step] store_follows_step[OF _ step] by (simp_all add: sys_inv_def)
  moreover have "receipts_ok opts (s\<lparr>sys_channel := c'\<rparr>)"
    unfolding receipts_ok_def
  proof (intro allI impI)
    fix i u assume "Received i (run_of opts) u \<in> set (ch_log (sys_channel (s\<lparr>sys_channel := c'\<rparr>)))"
    then have "Received i (run_of opts) u \<in> set (ch_log c')" by simp
    then consider "Received i (run_of opts) u \<in> set (ch_log (sys_channel s))"
      | clk thrown failure w where "ev = Deliver clk i (Some u) thrown failure"
        "map_of (ch_awaits (sys_channel s)) i = Some w" "aw_run w = run_of opts"
      using conjunct2[OF ch_step_log[OF step]] unfolding receives_only_def by blast
    then show "u \<in> set (rt_published (sys_agent (s\<lparr>sys_channel := c'\<rparr>)))"
      by cases (use inv ev in \<open>auto simp: sys_inv_def receipts_ok_def heard_by_channel_def\<close>)
  qed
  moreover have "acks_ok opts (s\<lparr>sys_channel := c'\<rparr>)"
    using inv conjunct1[OF ch_step_log[OF step]] unfolding sys_inv_def acks_ok_def
    by (simp add: subset_iff) blast
  ultimately show ?thesis using inv by (simp add: sys_inv_def)
qed

lemma sys_inv_reach:
  fixes s :: "'v agent_system"
  assumes "sys_reach opts ws s"
  shows "sys_inv opts ws s"
  using assms
proof (induction rule: sys_reach.induct)
  case (sys_start clk)
  have "rt_reachable opts (rt_start opts clk :: 'v runtime)"
    by (auto simp: rt_reachable_def intro: rt_run_nil)
  moreover have "rt_holds (rt_start opts clk :: 'v runtime) = []"
    "ch_log (ch_new (prefix_of opts) ws :: 'v channel) = []"
    by (simp_all add: rt_start_def publishUp_def channel_publishUp_def take_seq_def ch_new_def)
  moreover have "channel_inv ws (prefix_of opts) (ch_new (prefix_of opts) ws :: 'v channel)"
    "store_follows (ch_new (prefix_of opts) ws :: 'v channel)"
    by (rule channel_inv_reach[OF ch_start], rule store_follows_reach[OF ch_start])
  ultimately show ?case by (simp add: sys_inv_def receipts_ok_def acks_ok_def)
next
  case (sys_replace s)
  then show ?case
    by (auto simp: sys_inv_def replace_orchestrator_def channel_inv_def receipts_ok_def acks_ok_def
        store_follows_def)
qed (rule sys_inv_agent, assumption+, rule sys_inv_channel, assumption+)

lemma acked_reply_persisted:
  assumes "sys_reach opts True s" and h: "map_of (rt_holds (sys_agent s)) n = Some h" "acked h"
    and body: "up_body (hold_envelope h) = Reply msg final result"
  shows "\<exists>r. StoreSet (run_of opts) r \<in> set (ch_log (sys_channel s)) \<and>
    tr_message r = msg \<and> tr_final r = final \<and> tr_result r = result"
proof -
  let ?c = "sys_channel s" and ?a = "sys_agent s" and ?p = "prefix_of opts"
  have inv: "sys_inv opts True s" by (rule sys_inv_reach[OF assms(1)])
  then obtain m before rest where m: "down_body m = Reply_ack n"
    "ch_log ?c = before @ Published (subj_down (agentSubjects (run_of opts) ?p)) m # rest"
    using h by (fastforce simp: sys_inv_def acks_ok_def dest: split_list)
  have "log_ok (effect_ok True ?p) (ch_log ?c)" using inv by (simp add: sys_inv_def channel_inv_def)
  from log_okD[OF this m(2)] have "ack_justified True ?p before (subj_down (agentSubjects (run_of opts) ?p)) n"
    using m(1) by (simp add: effect_ok_def)
  then obtain i run u where u: "subj_down (agentSubjects (run_of opts) ?p) = subj_down (agentSubjects run ?p)"
    "Received i run u \<in> set before" "seq u = n"
    "(\<exists>code t. up_body u = Failed code t) \<or> (\<exists>r. carries u r \<and> StoreSet run r \<in> set before)"
    unfolding ack_justified_def by blast
  have run: "run = run_of opts" using u(1) by (simp add: agentSubjects_def)
  have "u \<in> set (rt_published ?a)"
    using inv u(2) m(2) run by (auto simp: sys_inv_def receipts_ok_def)
  moreover have "log_inv ?a" using inv log_inv_reachable by (auto simp: sys_inv_def)
  ultimately have "u = hold_envelope h" using h(1) u(3) by (auto simp: log_inv_def)
  then show ?thesis using u(4) body m(2) run by (auto simp: carries_def)
qed


lemma replay_defined:
  "StoreSet run r \<in> set es \<Longrightarrow> StoreDeleted run \<notin> set es \<Longrightarrow> replay es run \<noteq> None"
proof (induction es rule: rev_induct)
  case (snoc e es)
  then show ?case by (cases e) (auto simp: fun_upd_def)
qed simp

lemma recordedReply_replay:
  assumes "channel_inv True p c" "store_follows c"
  shows "recordedReply run False c = replay (ch_log c) run"
  using assms by (auto simp: channel_inv_def store_follows_def recordedReply_def)


section \<open>Runs of the system, computed\<close>

datatype 'v sys_event = AgentDoes "'v rt_event" | ChannelDoes "'v ch_event" | Replace

definition sys_step :: "RunAgentOptions \<Rightarrow> 'v sys_event \<Rightarrow> 'v agent_system \<Rightarrow> 'v agent_system option" where
  "sys_step opts ev s =
     (case ev of
        AgentDoes e \<Rightarrow>
          if heard_by_agent opts (sys_channel s) e
          then map_option (\<lambda>a. s\<lparr>sys_agent := a\<rparr>) (rt_step opts e (sys_agent s)) else None
      | ChannelDoes e \<Rightarrow>
          if heard_by_channel opts (sys_agent s) (sys_channel s) e
          then map_option (\<lambda>c. s\<lparr>sys_channel := c\<rparr>) (ch_step e (sys_channel s)) else None
      | Replace \<Rightarrow> Some (s\<lparr>sys_channel := replace_orchestrator (sys_channel s)\<rparr>))"

fun sys_exec :: "RunAgentOptions \<Rightarrow> 'v agent_system \<Rightarrow> 'v sys_event list \<Rightarrow> 'v agent_system option" where
  "sys_exec opts s [] = Some s"
| "sys_exec opts s (ev # evs) =
     (case sys_step opts ev s of None \<Rightarrow> None | Some s' \<Rightarrow> sys_exec opts s' evs)"

lemma sys_step_reach: "sys_reach opts ws s \<Longrightarrow> sys_step opts ev s = Some s' \<Longrightarrow> sys_reach opts ws s'"
  by (auto simp: sys_step_def split: sys_event.splits if_splits
      intro: sys_agent_step sys_channel_step sys_replace)

lemma sys_exec_reach:
  "sys_reach opts ws s \<Longrightarrow> sys_exec opts s evs = Some s' \<Longrightarrow> sys_reach opts ws s'"
  by (induction evs arbitrary: s) (auto split: option.splits intro: sys_step_reach)


section \<open>Properties\<close>

text \<open>
  What a re-attaching turn reads is what was written: in every reachable state of a channel
  with a store, \<open>recordedReply\<close> of a run (when the read succeeds) is the last reply written for
  that run, or nothing when none was written since it was last forgotten. The in-memory map
  refines the history of writes.
\<close>

theorem recorded_reply_is_the_last_write:
  assumes "ch_reach prefix True st"
  shows "recordedReply run False st = fold apply_effect (ch_log st) (\<lambda>_. None) run"
  using recordedReply_replay[OF channel_inv_reach[OF assms] store_follows_reach[OF assms]]
  by (simp add: replay_def)

theorem recorded_reply_is_the_last_write_witness:
  "recordedReply ''run-1'' False ch_done_ex = Some reply_ex \<and>
   fold apply_effect (ch_log ch_done_ex) (\<lambda>_. None) ''run-1'' = Some reply_ex"
proof -
  have "recordedReply ''run-1'' False ch_done_ex = Some reply_ex" by code_simp
  then show ?thesis using recorded_reply_is_the_last_write[OF ch_done_reach, of "''run-1''"] by simp
qed

end
