(* ===== verification/Js_Value.thy ===== *)
theory Js_Value
  imports Complex_Main Js_Prelude
begin

text \<open>
  JSON values as the program holds them after \<open>JSON.parse\<close>, and the parts of the URL library
  that several clients use.

  A finite number is a rational (every finite double is one; the two zeros are identified and
  JSON has no other number). The members of an object are an association list in insertion
  order. The parser and the printer of the JSON text are parameters where they are used.
\<close>

section \<open>JSON values\<close>

datatype json =
    JNull
  | JBool bool
  | JNumber rat
  | JString string
  | JArray "json list"
  | JObject "(string \<times> json) list"

text \<open>
  Reading a member: \<open>null\<close> throws, an object gives the member or \<open>undefined\<close>, any other value
  has no such member. The names the program reads this way are not names of the prototypes.
\<close>

definition json_member :: "json \<Rightarrow> string \<Rightarrow> string + json option" where
  "json_member v key =
     (case v of
        JNull \<Rightarrow> Inl (''Cannot read properties of null (reading '' @ [CHR 0x27] @ key @ [CHR 0x27] @ '')'')
      | JObject ms \<Rightarrow> Inr (map_of ms key)
      | _ \<Rightarrow> Inr None)"

text \<open>\<open>a ?? b\<close> on values: \<open>null\<close> counts as missing.\<close>

definition js_nullish :: "json option \<Rightarrow> json option" where
  "js_nullish v = (if v = Some JNull then None else v)"

lemma js_nullish_simps [simp]:
  "js_nullish None = None" "js_nullish (Some JNull) = None" "v \<noteq> JNull \<Longrightarrow> js_nullish (Some v) = Some v"
  by (simp_all add: js_nullish_def)


text \<open>The decimal text of an integer.\<close>

definition int_string :: "int \<Rightarrow> string" where
  "int_string n = (if n < 0 then ''-'' @ js_nat_string (nat (- n)) else js_nat_string (nat n))"


section \<open>Percent encoding\<close>

text \<open>
  \<open>encodeURIComponent\<close> on code units below 256: letters, digits and \<open>-_.!~*'()\<close> stay, the
  others become the percent-encoded bytes of their UTF-8 form, one byte below 128 and two
  above.
\<close>

definition uri_unreserved :: "char \<Rightarrow> bool" where
  "uri_unreserved c \<longleftrightarrow>
     ascii_lower_letter c \<or> ascii_upper_letter c \<or> ascii_digit c \<or>
     c \<in> set [CHR ''-'', CHR ''_'', CHR ''.'', CHR ''!'', CHR ''~'', CHR ''*'', CHR 0x27, CHR ''('', CHR '')'']"

definition hex_digit :: "nat \<Rightarrow> char" where
  "hex_digit n = (if n < 10 then char_of (48 + n) else char_of (55 + n))"

definition percent_byte :: "nat \<Rightarrow> string" where
  "percent_byte b = [CHR ''%'', hex_digit (b div 16), hex_digit (b mod 16)]"

definition encode_char :: "char \<Rightarrow> string" where
  "encode_char c =
     (let n = (of_char c :: nat) in
      if uri_unreserved c then [c]
      else if n < 128 then percent_byte n
      else percent_byte (192 + n div 64) @ percent_byte (128 + n mod 64))"

definition encodeURIComponent :: "string \<Rightarrow> string" where
  "encodeURIComponent s = concat (map encode_char s)"

text \<open>\<open>.replace(/\/+$/, "")\<close>.\<close>

definition strip_trailing_slashes :: "string \<Rightarrow> string" where
  "strip_trailing_slashes s = rev (dropWhile (\<lambda>c. c = CHR ''/'') (rev s))"

lemma hex_digit_safe: "n < 16 \<Longrightarrow> hex_digit n \<noteq> CHR ''/'' \<and> hex_digit n \<noteq> CHR ''?'' \<and> hex_digit n \<noteq> CHR ''#''"
proof -
  assume "n < 16"
  then have "n \<in> set [0 ..< 16]" by simp
  moreover have "list_all (\<lambda>n. hex_digit n \<noteq> CHR ''/'' \<and> hex_digit n \<noteq> CHR ''?'' \<and> hex_digit n \<noteq> CHR ''#'') [0 ..< 16]"
    by code_simp
  ultimately show ?thesis unfolding list_all_iff by blast
qed

lemma of_char_less_256: "(of_char c :: nat) < 256"
  using of_char_mod_256[of c] by (metis mod_less_divisor zero_less_numeral)

text \<open>An encoded component holds no delimiter of a URL path.\<close>

lemma encodeURIComponent_no_slash: "CHR ''/'' \<notin> set (encodeURIComponent s)"
proof -
  have "CHR ''/'' \<notin> set (encode_char c)" for c
  proof -
    have n: "(of_char c :: nat) div 16 < 16" "192 + (of_char c :: nat) div 64 < 256" for c
      using of_char_less_256[of c] by linarith+
    have "CHR ''/'' \<notin> set (percent_byte b)" if "b < 256" for b
    proof -
      have "b div 16 < 16" using that by linarith
      then show ?thesis
        using hex_digit_safe[of "b div 16"] hex_digit_safe[of "b mod 16"] by (auto simp: percent_byte_def)
    qed
    then show ?thesis
      using n[of c] by (auto simp: encode_char_def uri_unreserved_def ascii_lower_letter_def
          ascii_upper_letter_def ascii_digit_def Let_def)
  qed
  then show ?thesis by (simp add: encodeURIComponent_def)
qed

end
