(* ===== verification/Tool_Launch.thy ===== *)
theory Tool_Launch
  imports Js_Value Effect_Monad
begin

text \<open>
  How the orchestrator runs one tool or agent, from \<open>apps/agent-orchestrator/src\<close>: the launchers
  that create \<open>ToolRun\<close> and \<open>AgentRun\<close> resources (\<open>k8s/toolrun-launcher.ts\<close>,
  \<open>k8s/agentrun-launcher.ts\<close>), the client of the executor sidecars
  (\<open>local/local-tool-executor.ts\<close>), the client of the MCP broker
  (\<open>mcp/mcp-broker-client.ts\<close>), the descriptors they take (\<open>tool-descriptor.ts\<close>,
  \<open>agents/types.ts\<close>) and the events a tool reports (\<open>packages/messaging/src/event.ts\<close>).

  Each call of the Kubernetes API, a sidecar, the credential gateway or the broker is an event
  of the log with its answer; the answers are strategies over the log. The lemmas at the end
  say what every such computation may send out.
\<close>

section \<open>Descriptors\<close>

record JobTemplate =
  jt_image :: string
  jt_namespace :: string
  jt_serviceAccountName :: string
  jt_args :: "string list option"
  jt_toolRef :: "string option"

record LocalSecretEnvVar =
  ls_name :: string
  ls_secret :: string
  ls_key :: string

datatype local_runtime = Node | Python | Go | Shell

record LocalToolSpec =
  lt_runtime :: local_runtime
  lt_package :: "string option"
  lt_version :: "string option"
  lt_entry :: "string option"
  lt_sourceUrl :: "string option"
  lt_checksum :: "string option"
  lt_env :: "(string \<times> string) list option"
  lt_secretEnv :: "LocalSecretEnvVar list option"
  lt_network :: bool
  lt_timeoutSeconds :: "rat option"

record MCPExecSpec =
  mx_serverRef :: string
  mx_remoteToolName :: string

record AgentRunTemplate =
  at_namespace :: string
  at_agentRef :: string

record ToolDescriptor =
  td_id :: string
  td_allowedRoles :: "string list"
  td_hidden :: bool
  td_jobTemplate :: "JobTemplate option"
  td_localExec :: "LocalToolSpec option"
  td_mcpExec :: "MCPExecSpec option"
  td_agentRunTemplate :: "AgentRunTemplate option"
  td_identityProviders :: "string list option"
  td_approval :: "string option"

record AgentDescriptor =
  ad_id :: string
  ad_allowedRoles :: "string list"
  ad_approvalDefault :: "string option"
  ad_approvalTimeoutSeconds :: "rat option"
  ad_identityProviders :: "string list option"
  ad_toolRefs :: "string list option"
  ad_agentRunTemplate :: AgentRunTemplate

text \<open>The events a tool reports; the result of a success may be missing.\<close>

datatype job_event =
    Accepted string
  | ProgressEvent string "rat option" "string option"
  | WarningEvent string
  | Succeeded "json option"
  | FailedEvent string string

definition terminal_event :: "job_event \<Rightarrow> bool" where
  "terminal_event e \<longleftrightarrow> (case e of Succeeded _ \<Rightarrow> True | FailedEvent _ _ \<Rightarrow> True | _ \<Rightarrow> False)"


section \<open>What goes out\<close>

record SecretKeySelector =
  sk_name :: string
  sk_key :: string

datatype run_callback =
    NatsCallback string "string option"
  | HttpCallback "string option" SecretKeySelector

text \<open>An entry of \<open>spec.secretEnv\<close>: the variable and the key of a Secret, never a value.\<close>

record secret_env_ref =
  se_name :: string
  se_ref :: SecretKeySelector

record ToolRun =
  tr_runName :: string
  tr_runNamespace :: string
  tr_sessionId :: "string option"
  tr_toolRef :: string
  tr_args :: "string list option"
  tr_callback :: run_callback
  tr_secretEnv :: "secret_env_ref list option"
  tr_readOnly :: bool

record AgentRun =
  ar_runName :: string
  ar_runNamespace :: string
  ar_sessionId :: "string option"
  ar_agentRef :: string
  ar_goal :: string
  ar_callback :: run_callback
  ar_timeoutSeconds :: "int option"
  ar_secretEnv :: "secret_env_ref list option"
  ar_readOnly :: bool
  ar_params :: "(string \<times> string) list option"

record LocalToolRunRequest =
  lr_spec :: LocalToolSpec
  lr_env :: "(string \<times> string) list"
  lr_input :: string
  lr_timeoutSeconds :: rat

record broker_response =
  br_ok :: bool
  br_status :: int
  br_text :: string

datatype tool_event =
    SecretCreated string string "(string \<times> string) list" "string + unit"
  | ToolRunCreated ToolRun "string + string option"
  | AgentRunCreated AgentRun "string + string option"
  | SecretOwned string string string string string "string + unit"
  | SecretRead string string "string + string option"
  | SidecarPosted string LocalToolRunRequest int "string + int option \<times> string"
  | DelegatedToken string "string list" "string + string option"
  | BrokerPosted string string "string option" json "string + broker_response"
  | JobAwaited string
  | JobTaken string "string + job_event"
  | ApprovalAsked string string string int "string + unit"
  | ToolCallResolved string string "string + json option" "string + unit"

type_synonym 'a tool_eff = "(tool_event, string, 'a) eff"

text \<open>
  The services. The creation of a resource answers its uid, if it reports one; a sidecar answers
  a status, if any, and a body. \<open>te_parse\<close> is \<open>JSON.parse\<close> with its error message and
  \<open>te_string\<close> is \<open>String\<close>. An em dash of a message is written as two hyphens.
\<close>

record tool_env =
  te_uuid :: "tool_event list \<Rightarrow> string"
  te_now :: "tool_event list \<Rightarrow> int"
  te_secretCreate :: "tool_event list \<Rightarrow> string + unit"
  te_runCreate :: "tool_event list \<Rightarrow> string + string option"
  te_secretOwn :: "tool_event list \<Rightarrow> string + unit"
  te_secretRead :: "tool_event list \<Rightarrow> string \<Rightarrow> string \<Rightarrow> string + string option"
  te_sidecar :: "tool_event list \<Rightarrow> string \<Rightarrow> LocalToolRunRequest \<Rightarrow> string + int option \<times> string"
  te_delegated :: "tool_event list \<Rightarrow> string \<Rightarrow> string list \<Rightarrow> string + string option"
  te_broker :: "tool_event list \<Rightarrow> string \<Rightarrow> json \<Rightarrow> string + broker_response"
  te_parse :: "string \<Rightarrow> string + json"
  te_string :: "json \<Rightarrow> string"
  te_jobResult :: "tool_event list \<Rightarrow> string \<Rightarrow> string + job_event"
  te_askApproval :: "tool_event list \<Rightarrow> string + unit"
  te_resolve :: "tool_event list \<Rightarrow> string \<Rightarrow> string + unit"


section \<open>ToolRun launcher\<close>

record LaunchOptions =
  lo_args :: "string list option"
  lo_callbackUrl :: "string option"
  lo_callbackSecret :: "string option"
  lo_natsSubject :: "string option"
  lo_natsUrl :: "string option"
  lo_sessionId :: "string option"
  lo_secretEnv :: "(string \<times> string) list option"
  lo_readOnly :: bool

definition secret_pairs :: "(string \<times> string) list \<Rightarrow> (string \<times> string) list" where
  "secret_pairs entries = foldl (\<lambda>d (name, value). AList.update name value d) [] entries"

definition env_refs :: "string \<Rightarrow> (string \<times> string) list \<Rightarrow> secret_env_ref list" where
  "env_refs secretName entries =
     map (\<lambda>(name, value). \<lparr>se_name = name, se_ref = \<lparr>sk_name = secretName, sk_key = name\<rparr>\<rparr>) entries"

definition run_callback_of ::
  "string option \<Rightarrow> string option \<Rightarrow> string option \<Rightarrow> SecretKeySelector \<Rightarrow> run_callback" where
  "run_callback_of natsSubject natsUrl url secretRef =
     (case natsSubject of
        Some subject \<Rightarrow> if subject \<noteq> [] then NatsCallback subject natsUrl else HttpCallback url secretRef
      | None \<Rightarrow> HttpCallback url secretRef)"

definition only_truthy :: "string option \<Rightarrow> string option" where
  "only_truthy s = (if truthy_str s then s else None)"

definition no_secret_api :: "string \<Rightarrow> string" where
  "no_secret_api launcher =
     launcher @ ''.launch() was given options.secretEnv but no SecretApiLike was configured -- '' @
     ''construct via fromKubeConfig (which wires a CoreV1Api client) to use per-invocation identity secretEnv''"

text \<open>The Secret of one launch, and the references to it; nothing without entries.\<close>

definition create_identity_secret ::
  "tool_env \<Rightarrow> string \<Rightarrow> bool \<Rightarrow> string \<Rightarrow> string \<Rightarrow> (string \<times> string) list option \<Rightarrow>
   (string \<times> secret_env_ref list) option tool_eff" where
  "create_identity_secret env launcher hasSecretApi name ns secretEnv =
     (case secretEnv of
        None \<Rightarrow> return_e None
      | Some entries \<Rightarrow>
          if entries = [] then return_e None
          else if \<not> hasSecretApi then throw_e (no_secret_api launcher)
          else
            (let secretName = name @ ''-identity'' in
             bind_e (call_e (te_secretCreate env) (SecretCreated ns secretName (secret_pairs entries)))
               (\<lambda>_. return_e (Some (secretName, env_refs secretName entries)))))"

definition toolrun_launch ::
  "tool_env \<Rightarrow> SecretKeySelector \<Rightarrow> bool \<Rightarrow> JobTemplate \<Rightarrow> LaunchOptions \<Rightarrow> (string \<times> string) tool_eff" where
  "toolrun_launch env callbackSecretRef hasSecretApi template options =
     (if \<not> truthy_str (jt_toolRef template) then
        throw_e (''ToolRunLauncher requires JobTemplate.toolRef (set by CrdToolRegistry) -- '' @
          ''this template came from a registry that doesn'' @ [CHR 0x27] @ ''t populate it'')
      else
        bind_e (read_e (te_uuid env)) (\<lambda>name.
        bind_e (create_identity_secret env ''ToolRunLauncher'' hasSecretApi name (jt_namespace template)
                  (lo_secretEnv options)) (\<lambda>secret.
        bind_e (call_e (te_runCreate env)
                  (ToolRunCreated \<lparr>tr_runName = name, tr_runNamespace = jt_namespace template,
                     tr_sessionId = only_truthy (lo_sessionId options),
                     tr_toolRef = the (jt_toolRef template),
                     tr_args = (case lo_args options of None \<Rightarrow> jt_args template | Some xs \<Rightarrow> Some xs),
                     tr_callback = run_callback_of (lo_natsSubject options) (lo_natsUrl options)
                       (lo_callbackUrl options) callbackSecretRef,
                     tr_secretEnv = map_option snd secret, tr_readOnly = lo_readOnly options\<rparr>)) (\<lambda>uid.
        bind_e (case secret of
                  None \<Rightarrow> return_e ()
                | Some (secretName, _) \<Rightarrow>
                    (if \<not> truthy_str uid then return_e ()
                     else call_e (te_secretOwn env)
                            (SecretOwned secretName (jt_namespace template) ''ToolRun'' name (the uid)))) (\<lambda>_.
        return_e (name, jt_namespace template))))))"


section \<open>AgentRun launcher\<close>

record AgentLaunchOptions =
  al_goal :: string
  al_callbackUrl :: string
  al_callbackSecretRef :: SecretKeySelector
  al_natsUrl :: "string option"
  al_natsSubject :: "string option"
  al_timeoutSeconds :: "int option"
  al_secretEnv :: "(string \<times> string) list option"
  al_ownedSecretNames :: "string list option"
  al_sessionId :: "string option"
  al_readOnly :: bool
  al_params :: "(string \<times> string) list option"

text \<open>
  Making the run the owner of a Secret never throws. Without a client for Secrets the optional
  call does nothing.
\<close>

definition adoptSecret :: "tool_env \<Rightarrow> bool \<Rightarrow> string \<Rightarrow> string \<Rightarrow> string \<Rightarrow> string \<Rightarrow> unit tool_eff" where
  "adoptSecret env hasSecretApi secretName ns runName uid =
     (if hasSecretApi then
        bind_e (try_e (call_e (te_secretOwn env) (SecretOwned secretName ns ''AgentRun'' runName uid)))
          (\<lambda>_. return_e ())
      else return_e ())"

fun adopt_all :: "tool_env \<Rightarrow> bool \<Rightarrow> string list \<Rightarrow> string \<Rightarrow> string \<Rightarrow> string \<Rightarrow> unit tool_eff" where
  "adopt_all env hasSecretApi [] ns runName uid = return_e ()"
| "adopt_all env hasSecretApi (s # rest) ns runName uid =
     bind_e (adoptSecret env hasSecretApi s ns runName uid)
       (\<lambda>_. adopt_all env hasSecretApi rest ns runName uid)"

definition agentrun_launch ::
  "tool_env \<Rightarrow> bool \<Rightarrow> AgentRunTemplate \<Rightarrow> string \<Rightarrow> AgentLaunchOptions \<Rightarrow> (string \<times> string) tool_eff" where
  "agentrun_launch env hasSecretApi template name options =
     bind_e (create_identity_secret env ''AgentRunLauncher'' hasSecretApi name (at_namespace template)
               (al_secretEnv options)) (\<lambda>secret.
     bind_e (call_e (te_runCreate env)
               (AgentRunCreated \<lparr>ar_runName = name, ar_runNamespace = at_namespace template,
                  ar_sessionId = only_truthy (al_sessionId options),
                  ar_agentRef = at_agentRef template, ar_goal = al_goal options,
                  ar_callback = run_callback_of (al_natsSubject options) (al_natsUrl options)
                    (Some (al_callbackUrl options)) (al_callbackSecretRef options),
                  ar_timeoutSeconds = (if al_timeoutSeconds options = Some 0 then None else al_timeoutSeconds options),
                  ar_secretEnv = map_option snd secret, ar_readOnly = al_readOnly options,
                  ar_params = (if al_params options = Some [] then None else al_params options)\<rparr>)) (\<lambda>uid.
     bind_e (if \<not> truthy_str uid then return_e ()
             else adopt_all env hasSecretApi
                    ((case secret of None \<Rightarrow> [] | Some (secretName, _) \<Rightarrow> [secretName]) @
                     coalesce (al_ownedSecretNames options) [])
                    (at_namespace template) name (the uid)) (\<lambda>_.
     return_e (name, at_namespace template))))"


section \<open>Executor sidecars\<close>

definition runtime_name :: "local_runtime \<Rightarrow> string" where
  "runtime_name r = (case r of Node \<Rightarrow> ''node'' | Python \<Rightarrow> ''python'' | Go \<Rightarrow> ''go'' | Shell \<Rightarrow> ''shell'')"

text \<open>\<open>Math.round\<close>: to the nearest integer, halves up.\<close>

definition js_round :: "rat \<Rightarrow> int" where
  "js_round x = \<lfloor>x + 1 / 2\<rfloor>"

text \<open>A string member, its default when it is missing or \<open>null\<close>, other values printed.\<close>

definition text_member :: "tool_env \<Rightarrow> json \<Rightarrow> string \<Rightarrow> string \<Rightarrow> string" where
  "text_member env v key fallback =
     (case json_member v key of
        Inl _ \<Rightarrow> fallback
      | Inr m \<Rightarrow> (case js_nullish m of None \<Rightarrow> fallback | Some (JString s) \<Rightarrow> s | Some w \<Rightarrow> te_string env w))"

definition toEvent :: "tool_env \<Rightarrow> json \<Rightarrow> job_event" where
  "toEvent env envelope =
     (case json_member envelope ''type'' of
        Inl _ \<Rightarrow> FailedEvent ''bad_envelope'' ''sidecar returned an unrecognized envelope''
      | Inr t \<Rightarrow>
          if t = Some (JString ''succeeded'') then
            Succeeded (case json_member envelope ''result'' of Inl _ \<Rightarrow> None | Inr r \<Rightarrow> r)
          else if t = Some (JString ''failed'') then
            FailedEvent (text_member env envelope ''code'' ''failed'')
              (text_member env envelope ''message'' ''tool failed'')
          else FailedEvent ''bad_envelope'' ''sidecar returned an unrecognized envelope'')"

definition postToSidecar ::
  "tool_env \<Rightarrow> string \<Rightarrow> LocalToolRunRequest \<Rightarrow> int \<Rightarrow> json tool_eff" where
  "postToSidecar env socket request timeoutMs =
     bind_e (call_e (\<lambda>trail. te_sidecar env trail socket request) (SidecarPosted socket request timeoutMs))
       (\<lambda>(status, body).
          if 300 \<le> coalesce status 500 then
            throw_e (''sidecar returned '' @ (case status of None \<Rightarrow> ''undefined'' | Some n \<Rightarrow> int_string n) @
              '': '' @ take 500 body)
          else
            (case te_parse env body of
               Inl _ \<Rightarrow> throw_e (''sidecar returned non-JSON body: '' @ take 200 body)
             | Inr v \<Rightarrow> return_e v))"

text \<open>The Secret-backed variables, in order; the first that cannot be read ends the run.\<close>

fun read_secret_env ::
  "tool_env \<Rightarrow> LocalSecretEnvVar list \<Rightarrow> (string \<times> string) list \<Rightarrow> (job_event + (string \<times> string) list) tool_eff" where
  "read_secret_env env [] acc = return_e (Inr acc)"
| "read_secret_env env (v # rest) acc =
     bind_e (try_e (call_e (\<lambda>trail. te_secretRead env trail (ls_secret v) (ls_key v))
                      (SecretRead (ls_secret v) (ls_key v))))
       (\<lambda>r. case r of
          Inl e \<Rightarrow> return_e (Inl (FailedEvent ''secret_error''
                     (''failed to read secret '' @ ls_secret v @ '': '' @ e)))
        | Inr None \<Rightarrow> return_e (Inl (FailedEvent ''secret_missing''
                     (''secret '' @ ls_secret v @ ''/'' @ ls_key v @ '' not found'')))
        | Inr (Some value) \<Rightarrow> read_secret_env env rest (AList.update (ls_name v) value acc))"

record LocalToolExecutorOptions =
  le_defaultTimeoutSeconds :: rat
  le_backstopBufferSeconds :: "rat option"

definition local_request ::
  "LocalToolExecutorOptions \<Rightarrow> LocalToolSpec \<Rightarrow> (string \<times> string) list \<Rightarrow> string \<Rightarrow> LocalToolRunRequest" where
  "local_request opts spec vars input =
     \<lparr>lr_spec = spec, lr_env = vars, lr_input = input,
      lr_timeoutSeconds = coalesce (lt_timeoutSeconds spec) (le_defaultTimeoutSeconds opts)\<rparr>"

definition backstop_ms :: "LocalToolExecutorOptions \<Rightarrow> LocalToolRunRequest \<Rightarrow> int" where
  "backstop_ms opts request =
     max 1 (js_round ((lr_timeoutSeconds request + coalesce (le_backstopBufferSeconds opts) 5) * 1000))"

definition local_run ::
  "tool_env \<Rightarrow> LocalToolExecutorOptions \<Rightarrow> ToolDescriptor \<Rightarrow> string \<Rightarrow> string option \<Rightarrow> job_event tool_eff" where
  "local_run env opts descriptor input sessionId =
     (case td_localExec descriptor of
        None \<Rightarrow> return_e (FailedEvent ''not_local'' (''tool '' @ td_id descriptor @ '' has no localExec spec''))
      | Some spec \<Rightarrow>
          bind_e (read_secret_env env (coalesce (lt_secretEnv spec) [])
                    (case only_truthy sessionId of
                       None \<Rightarrow> coalesce (lt_env spec) []
                     | Some s \<Rightarrow> AList.update ''SESSION_ID'' s (coalesce (lt_env spec) []))) (\<lambda>r.
          case r of
            Inl failed \<Rightarrow> return_e failed
          | Inr vars \<Rightarrow>
              (let request = local_request opts spec vars input in
               bind_e (try_e (postToSidecar env (runtime_name (lt_runtime spec) @ ''.sock'') request
                         (backstop_ms opts request))) (\<lambda>answer.
               return_e (case answer of
                  Inl e \<Rightarrow> FailedEvent ''executor_error'' (''local tool '' @ td_id descriptor @ '': '' @ e)
                | Inr envelope \<Rightarrow> toEvent env envelope)))))"


section \<open>MCP broker client\<close>

record MCPBrokerClientOptions =
  mb_brokerUrl :: string
  mb_brokerToken :: string

record MCPCallResult =
  mr_result :: json
  mr_needsLink :: bool

definition mcp_endpoint :: "MCPBrokerClientOptions \<Rightarrow> MCPExecSpec \<Rightarrow> string" where
  "mcp_endpoint opts exec =
     strip_trailing_slashes (mb_brokerUrl opts) @ ''/servers/'' @ encodeURIComponent (mx_serverRef exec) @
     ''/tools/'' @ encodeURIComponent (mx_remoteToolName exec) @ ''/call''"

text \<open>The caller's own token, \<open>None\<close> for a server without identity providers.\<close>

definition mcp_credential ::
  "tool_env \<Rightarrow> ToolDescriptor \<Rightarrow> string \<Rightarrow> (unit + string option) tool_eff" where
  "mcp_credential env tool subject =
     (case td_identityProviders tool of
        None \<Rightarrow> return_e (Inr None)
      | Some providers \<Rightarrow>
          if providers = [] then return_e (Inr None)
          else
            bind_e (call_e (\<lambda>trail. te_delegated env trail subject providers) (DelegatedToken subject providers))
              (\<lambda>token. if truthy_str token then return_e (Inr token) else return_e (Inl ())))"

definition mcp_arguments :: "tool_env \<Rightarrow> string \<Rightarrow> string + json" where
  "mcp_arguments env args =
     te_parse env (if js_trim args = [] then ''{}'' else js_trim args)"

definition mcp_answer :: "tool_env \<Rightarrow> broker_response \<Rightarrow> json tool_eff" where
  "mcp_answer env response =
     bind_e (if br_text response = [] then return_e (JObject [])
             else case te_parse env (br_text response) of
                    Inl _ \<Rightarrow> throw_e (''mcp-broker returned non-JSON body: '' @ take 200 (br_text response))
                  | Inr v \<Rightarrow> return_e v) (\<lambda>parsed.
     if \<not> br_ok response then
       bind_e (lift_e (json_member parsed ''message'')) (\<lambda>m.
       (case js_nullish m of
          None \<Rightarrow> return_e (JString (js_trim (''The MCP server refused that call ('' @
             int_string (br_status response) @ ''). '' @ js_trim (br_text response))))
        | Some (JString detail) \<Rightarrow> return_e (JString (js_trim (''The MCP server refused that call ('' @
             int_string (br_status response) @ ''). '' @ js_trim detail)))
        | Some _ \<Rightarrow> throw_e ''(parsed.message ?? text).trim is not a function''))
     else
       bind_e (lift_e (json_member parsed ''result'')) (\<lambda>m.
       return_e (coalesce (js_nullish m) (JString []))))"

definition mcp_post ::
  "tool_env \<Rightarrow> MCPBrokerClientOptions \<Rightarrow> MCPExecSpec \<Rightarrow> string option \<Rightarrow> string \<Rightarrow> MCPCallResult tool_eff" where
  "mcp_post env opts exec delegated args =
     (case mcp_arguments env args of
        Inl e \<Rightarrow>
          return_e \<lparr>mr_result = JString (''The arguments were not valid JSON for '' @ mx_serverRef exec @
              ''/'' @ mx_remoteToolName exec @ '': '' @ e), mr_needsLink = False\<rparr>
      | Inr arguments \<Rightarrow>
          bind_e (try_e (call_e (\<lambda>trail. te_broker env trail (mcp_endpoint opts exec) arguments)
                    (BrokerPosted (mcp_endpoint opts exec) (mb_brokerToken opts) delegated arguments))) (\<lambda>answer.
          case answer of
            Inl cause \<Rightarrow> throw_e (''mcp-broker unreachable: '' @ cause)
          | Inr response \<Rightarrow>
              bind_e (mcp_answer env response) (\<lambda>result.
              return_e \<lparr>mr_result = result, mr_needsLink = False\<rparr>)))"

definition link_text :: "MCPExecSpec \<Rightarrow> string" where
  "link_text exec =
     ''I need you to link the account behind '' @ mx_serverRef exec @
     '' before I can call it -- an MCP tool call has to run as you, not as a shared credential.''"

definition mcp_call ::
  "tool_env \<Rightarrow> MCPBrokerClientOptions \<Rightarrow> ToolDescriptor \<Rightarrow> string \<Rightarrow> string \<Rightarrow> MCPCallResult tool_eff" where
  "mcp_call env opts tool args subject =
     (case td_mcpExec tool of
        None \<Rightarrow> throw_e (''tool '' @ td_id tool @ '' is not an MCP tool'')
      | Some exec \<Rightarrow>
          bind_e (mcp_credential env tool subject) (\<lambda>credential.
          case credential of
            Inl _ \<Rightarrow> return_e \<lparr>mr_result = JString (link_text exec), mr_needsLink = True\<rparr>
          | Inr delegated \<Rightarrow> mcp_post env opts exec delegated args))"


section \<open>What the computations send out\<close>

lemma create_identity_secret_emits [emits_rules]:
  assumes "\<And>n ps r. A (SecretCreated ns n ps r)"
  shows "emits A (create_identity_secret env launcher hasApi name ns secretEnv)"
  unfolding create_identity_secret_def Let_def by (intro emits_rules assms)

definition run_of_launch :: "SecretKeySelector \<Rightarrow> JobTemplate \<Rightarrow> LaunchOptions \<Rightarrow> ToolRun \<Rightarrow> bool" where
  "run_of_launch ref template options run \<longleftrightarrow>
     tr_runNamespace run = jt_namespace template \<and> Some (tr_toolRef run) = jt_toolRef template \<and>
     tr_args run = (case lo_args options of None \<Rightarrow> jt_args template | Some xs \<Rightarrow> Some xs) \<and>
     tr_callback run = run_callback_of (lo_natsSubject options) (lo_natsUrl options) (lo_callbackUrl options) ref \<and>
     tr_readOnly run = lo_readOnly options \<and> tr_secretEnv run = None"

lemma read_secret_env_emits [emits_rules]:
  assumes "\<And>s k r. A (SecretRead s k r)"
  shows "emits A (read_secret_env env vs acc)"
  by (induction vs arbitrary: acc) (auto intro!: emits_rules assms)

lemma local_run_emits:
  assumes "\<And>s k r. A (SecretRead s k r)" "\<And>s q t r. lr_input q = input \<Longrightarrow> A (SidecarPosted s q t r)"
  shows "emits A (local_run env opts tool input sessionId)"
  unfolding local_run_def postToSidecar_def Let_def
  by (intro emits_rules assms) (simp_all add: local_request_def)

lemma emits_json [emits_rules]:
  "emits A n \<Longrightarrow> (\<And>b. emits A (f1 b)) \<Longrightarrow> (\<And>b. emits A (f2 b)) \<Longrightarrow> (\<And>b. emits A (f3 b)) \<Longrightarrow>
   (\<And>b. emits A (f4 b)) \<Longrightarrow> (\<And>b. emits A (f5 b)) \<Longrightarrow>
   emits A (case v of JNull \<Rightarrow> n | JBool b \<Rightarrow> f1 b | JNumber b \<Rightarrow> f2 b | JString b \<Rightarrow> f3 b
            | JArray b \<Rightarrow> f4 b | JObject b \<Rightarrow> f5 b)"
  by (cases v) simp_all

lemma mcp_answer_emits [emits_rules]: "emits A (mcp_answer env response)"
  unfolding mcp_answer_def by (intro emits_rules)

lemma mcp_credential_emits:
  assumes "\<And>ps r. td_identityProviders tool = Some ps \<Longrightarrow> A (DelegatedToken subject ps r)"
  shows "emits A (mcp_credential env tool subject)"
  unfolding mcp_credential_def by (intro emits_rules assms)

definition delegated_ok :: "ToolDescriptor \<Rightarrow> string option \<Rightarrow> bool" where
  "delegated_ok tool d \<longleftrightarrow>
     (if td_identityProviders tool \<in> {None, Some []} then d = None else truthy_str d)"

lemma mcp_credential_ok: "wp (mcp_credential env tool subject) (\<lambda>c _. \<forall>d. c = Inr d \<longrightarrow> delegated_ok tool d) trail"
  by (auto simp: mcp_credential_def wp_simps delegated_ok_def split: option.splits)

lemma mcp_post_emits:
  assumes "\<And>url tok v r. A (BrokerPosted url tok d v r)"
  shows "emits A (mcp_post env opts exec d args)"
  unfolding mcp_post_def by (intro emits_rules assms)

lemma mcp_call_emits:
  assumes "\<And>ps r. td_identityProviders tool = Some ps \<Longrightarrow> A (DelegatedToken subject ps r)"
    and "\<And>url tok d v r. delegated_ok tool d \<Longrightarrow> A (BrokerPosted url tok d v r)"
  shows "emits A (mcp_call env opts tool args subject)"
proof (cases "td_mcpExec tool")
  case None
  then show ?thesis by (simp add: mcp_call_def emits_rules)
next
  case (Some exec)
  show ?thesis
    unfolding mcp_call_def Some option.case
  proof (rule emits_bind_wp[OF mcp_credential_emits mcp_credential_ok])
    fix c :: "unit + string option"
    assume c: "\<forall>d. c = Inr d \<longrightarrow> delegated_ok tool d"
    show "emits A (case c of
        Inl _ \<Rightarrow> return_e \<lparr>mr_result = JString (link_text exec), mr_needsLink = True\<rparr>
      | Inr delegated \<Rightarrow> mcp_post env opts exec delegated args)"
      using c by (cases c) (simp_all add: emits_return mcp_post_emits assms(2))
  qed (rule assms(1))
qed


lemma toolrun_launch_plain_emits:
  assumes "lo_secretEnv options = None"
    and "\<And>run r. run_of_launch ref template options run \<Longrightarrow> A (ToolRunCreated run r)"
  shows "emits A (toolrun_launch env ref hasApi template options)"
proof -
  have none: "create_identity_secret env l hasApi name ns (lo_secretEnv options) = return_e None" for l name ns
    by (simp add: create_identity_secret_def assms(1))
  have "truthy_str (jt_toolRef template) \<Longrightarrow> Some (the (jt_toolRef template)) = jt_toolRef template"
    by (cases "jt_toolRef template") auto
  then show ?thesis
    unfolding toolrun_launch_def none
    by (intro emits_rules emits_bind_wp[where R = "\<lambda>x. x = None"])
      (auto simp: wp_simps run_of_launch_def intro!: emits_rules assms(2))
qed

text \<open>
  A launch that creates the run and then fails to make it the owner of the Secret is reported
  as a failed launch, although the run exists. The launcher of agents swallows that failure.
\<close>

lemma toolrun_launch_throws_after_create:
  assumes "truthy_str (jt_toolRef template)" "lo_secretEnv options = Some (x # xs)"
    and "\<And>t. te_secretCreate env t = Inr ()" "\<And>t. te_runCreate env t = Inr (Some (u # us))"
    and "\<And>t. te_secretOwn env t = Inl err"
  shows "\<exists>run. fst (toolrun_launch env ref True template options trail) = Inl err \<and>
     ToolRunCreated run (Inr (Some (u # us))) \<in> set (snd (toolrun_launch env ref True template options trail))"
  by (auto simp: toolrun_launch_def create_identity_secret_def eff_defs Let_def assms)

lemma adopt_all_returns: "fst (adopt_all env hasApi names ns runName uid trail) = Inr ()"
  by (induction names arbitrary: trail) (auto simp: adoptSecret_def eff_defs)

text \<open>
  The local executor always answers: whatever the Secrets and the sidecar do, a local run
  returns a terminal event and throws nothing.
\<close>

lemma terminal_event_simps [simp]:
  "terminal_event (FailedEvent c m)" "terminal_event (Succeeded r)" "\<not> terminal_event (Accepted u)"
  "\<not> terminal_event (ProgressEvent s p d)" "\<not> terminal_event (WarningEvent m)"
  by (simp_all add: terminal_event_def)

lemma toEvent_terminal: "terminal_event (toEvent env v)"
  by (auto simp: toEvent_def split: sum.splits)

lemma read_secret_env_returns:
  "\<exists>r. fst (read_secret_env env vs acc trail) = Inr r \<and> (\<forall>e. r = Inl e \<longrightarrow> terminal_event e)"
  by (induction vs arbitrary: acc trail)
    (auto simp: eff_defs split: sum.splits option.splits)

theorem local_run_always_answers:
  "\<exists>e. fst (local_run env opts tool input sessionId trail) = Inr e \<and> terminal_event e"
proof (cases "td_localExec tool")
  case None
  then show ?thesis by (simp add: local_run_def return_e_def)
next
  case (Some spec)
  have tail: "\<exists>e. fst (bind_e (try_e m) (\<lambda>a. return_e (case a of Inl x \<Rightarrow> FailedEvent c (msg x) | Inr v \<Rightarrow> toEvent env v)) t)
      = Inr e \<and> terminal_event e" for m :: "json tool_eff" and c msg t
    by (cases "m t") (auto simp: bind_e_def try_e_def return_e_def toEvent_terminal split: sum.splits)
  have first: "\<exists>e. fst (bind_e m f trail) = Inr e \<and> terminal_event e"
    if r: "\<exists>r. fst (m trail) = Inr r \<and> (\<forall>e. r = Inl e \<longrightarrow> terminal_event e)"
      and f: "\<And>e t. f (Inl e) t = (Inr e, t)" "\<And>v t. \<exists>e. fst (f (Inr v) t) = Inr e \<and> terminal_event e"
    for m :: "(job_event + (string \<times> string) list) tool_eff" and f
  proof -
    obtain r t where m: "m trail = (Inr r, t)" "\<forall>e. r = Inl e \<longrightarrow> terminal_event e"
      using r by (metis prod.exhaust_sel)
    then show ?thesis using f by (cases r) (auto simp: bind_e_def)
  qed
  show ?thesis
    unfolding local_run_def Some option.case
    by (rule first[OF read_secret_env_returns]) (simp_all add: return_e_def Let_def tail[unfolded return_e_def])
qed

lemma mcp_credential_run:
  "mcp_credential env tool subject trail =
     (let ps = coalesce (td_identityProviders tool) []; r = te_delegated env trail subject ps in
      if ps = [] then (Inr (Inr None), trail)
      else ((case r of Inl e \<Rightarrow> Inl e | Inr t \<Rightarrow> Inr (if truthy_str t then Inr t else Inl ())),
            trail @ [DelegatedToken subject ps r]))"
  by (auto simp: mcp_credential_def eff_defs Let_def split: option.splits sum.splits)

text \<open>
  C15. MCP calls run as the caller, never as a shared identity: every request to the broker is
  addressed to the tool's own server and carries the orchestrator's own token beside, when the
  tool declares identity providers, a non-empty token that the credential gateway returned for
  this caller and these providers in this very call; a tool without providers sends none.
\<close>

theorem mcp_call_runs_as_the_caller:
  assumes "BrokerPosted url token delegated arguments answer
      \<in> set (snd (mcp_call env opts tool args subject []))"
  shows "token = mb_brokerToken opts \<and>
     (\<exists>exec. td_mcpExec tool = Some exec \<and> url = mcp_endpoint opts exec) \<and>
     (if coalesce (td_identityProviders tool) [] = [] then delegated = None
      else \<exists>t. delegated = Some t \<and> t \<noteq> [] \<and>
        DelegatedToken subject (coalesce (td_identityProviders tool) []) (Inr (Some t))
          \<in> set (snd (mcp_call env opts tool args subject [])))"
proof -
  obtain exec where exec: "td_mcpExec tool = Some exec"
    using assms by (cases "td_mcpExec tool") (auto simp: mcp_call_def throw_e_def)
  let ?posted = "BrokerPosted url token delegated arguments answer"
  let ?ps = "coalesce (td_identityProviders tool) []"
  have post: "token = mb_brokerToken opts \<and> url = mcp_endpoint opts exec \<and> delegated = d"
    if "?posted \<in> set (snd (mcp_post env opts exec d args trail))" "?posted \<notin> set trail" for d trail
  proof -
    have "emits (\<lambda>e. \<forall>u t g v r. e = BrokerPosted u t g v r \<longrightarrow>
        t = mb_brokerToken opts \<and> u = mcp_endpoint opts exec \<and> g = d) (mcp_post env opts exec d args)"
      unfolding mcp_post_def by (intro emits_rules) simp
    from emits_new[OF this that] show ?thesis by simp
  qed
  have grows: "set trail \<subseteq> set (snd (mcp_post env opts exec d args trail))" for d trail
    by (rule emits_grows[of "\<lambda>_. True"]) (rule mcp_post_emits, simp)
  show ?thesis
  proof (cases "?ps = []")
    case True
    then have run: "mcp_call env opts tool args subject [] = mcp_post env opts exec None args []"
      by (simp add: mcp_call_def exec bind_e_def mcp_credential_run)
    then show ?thesis using post[of None "[]"] assms exec True by simp
  next
    case False
    let ?r = "te_delegated env [] subject ?ps"
    let ?asked = "[DelegatedToken subject ?ps ?r]"
    have run: "mcp_call env opts tool args subject [] =
        (case ?r of Inl e \<Rightarrow> (Inl e, ?asked)
         | Inr t \<Rightarrow> if truthy_str t then mcp_post env opts exec t args ?asked
             else (Inr \<lparr>mr_result = JString (link_text exec), mr_needsLink = True\<rparr>, ?asked))"
      using False by (simp add: mcp_call_def exec bind_e_def mcp_credential_run return_e_def split: sum.splits)
    then obtain t where t: "?r = Inr (Some t)" "t \<noteq> []"
      using assms by (cases ?r) (auto split: if_splits simp: truthy_str_def split: option.splits)
    then have run': "mcp_call env opts tool args subject [] = mcp_post env opts exec (Some t) args ?asked"
      using run by simp
    then show ?thesis using post[of "Some t" ?asked] grows[of ?asked "Some t"] assms exec t False by auto
  qed
qed

definition tool_env_ex :: tool_env where
  "tool_env_ex = \<lparr>te_uuid = (\<lambda>t. ''id'' @ js_nat_string (length t)), te_now = (\<lambda>_. 1000),
     te_secretCreate = (\<lambda>_. Inr ()), te_runCreate = (\<lambda>_. Inr (Some ''uid'')), te_secretOwn = (\<lambda>_. Inr ()),
     te_secretRead = (\<lambda>_ _ _. Inr (Some ''v'')), te_sidecar = (\<lambda>_ _ _. Inr (Some 200, ''{}'')),
     te_delegated = (\<lambda>_ _ _. Inr (Some ''tok'')),
     te_broker = (\<lambda>_ _ _. Inr \<lparr>br_ok = True, br_status = 200, br_text = []\<rparr>),
     te_parse = (\<lambda>s. Inr (JString s)), te_string = (\<lambda>_. []),
     te_jobResult = (\<lambda>_ _. Inr (Succeeded (Some (JString ''out'')))), te_askApproval = (\<lambda>_. Inr ()),
     te_resolve = (\<lambda>_ _. Inr ())\<rparr>"

definition tool_ex :: ToolDescriptor where
  "tool_ex = \<lparr>td_id = ''lint'', td_allowedRoles = [], td_hidden = False,
     td_jobTemplate = Some \<lparr>jt_image = ''img'', jt_namespace = ''ns'', jt_serviceAccountName = ''sa'',
       jt_args = None, jt_toolRef = Some ''lint''\<rparr>,
     td_localExec = None, td_mcpExec = None, td_agentRunTemplate = None, td_identityProviders = None,
     td_approval = None\<rparr>"

definition mcp_tool_ex :: ToolDescriptor where
  "mcp_tool_ex = tool_ex\<lparr>td_jobTemplate := None, td_identityProviders := Some [''jira''],
     td_mcpExec := Some \<lparr>mx_serverRef = ''a/b'', mx_remoteToolName = ''t''\<rparr>\<rparr>"

definition mcp_opts_ex :: MCPBrokerClientOptions where
  "mcp_opts_ex = \<lparr>mb_brokerUrl = ''http://b/'', mb_brokerToken = ''own''\<rparr>"

theorem mcp_call_runs_as_the_caller_witness:
  "\<exists>t. Some ''tok'' = Some t \<and> t \<noteq> [] \<and>
     DelegatedToken ''u'' [''jira''] (Inr (Some t))
       \<in> set (snd (mcp_call tool_env_ex mcp_opts_ex mcp_tool_ex ''1'' ''u'' []))"
proof -
  have "BrokerPosted ''http://b/servers/a%2Fb/tools/t/call'' ''own'' (Some ''tok'') (JString ''1'')
      (Inr \<lparr>br_ok = True, br_status = 200, br_text = []\<rparr>)
      \<in> set (snd (mcp_call tool_env_ex mcp_opts_ex mcp_tool_ex ''1'' ''u'' []))" by code_simp
  from mcp_call_runs_as_the_caller[OF this] show ?thesis by (simp add: mcp_tool_ex_def)
qed

end
