(* ===== verification/Tool_Dispatch.thy ===== *)
theory Tool_Dispatch
  imports Tool_Launch Approval Authorization
begin

text \<open>
  \<open>apps/agent-orchestrator/src/agent/dispatch-tool.ts\<close>: running one resolved tool for a
  sub-agent, and the handler of a sub-agent's \<open>tool_call\<close> messages, over the launchers and
  clients of \<open>Tool_Launch\<close>. The handler is a computation whose thrown error is a rejection
  nobody handles; the reply to the sub-agent is the event \<open>ToolCallResolved\<close>, the request for
  approval the event \<open>ApprovalAsked\<close>.
\<close>

section \<open>Running one tool\<close>

definition readOnlyMCPRefusal :: "string \<Rightarrow> string" where
  "readOnlyMCPRefusal toolId =
     ''read_only: '' @ toolId @ '' acts with your delegated credentials and cannot run in a read-only request''"

definition readOnlyGitHubRefusal :: "string \<Rightarrow> string" where
  "readOnlyGitHubRefusal toolId =
     toolId @ '' acts on GitHub as you, which this read-only request does not allow, so I didn'' @
     [CHR 0x27] @ ''t run it.''"

text \<open>\<open>Inr\<close> is \<open>{ok: true, result}\<close>, \<open>Inl\<close> is \<open>{ok: false, error}\<close>.\<close>

type_synonym ToolCallOutcome = "string + json option"

record ToolDispatchDeps =
  dd_callbackSecretRef :: SecretKeySelector
  dd_hasSecretApi :: bool
  dd_localToolExecutor :: "LocalToolExecutorOptions option"
  dd_mcpBrokerClient :: "MCPBrokerClientOptions option"
  dd_natsUrl :: "string option"
  dd_callbackBaseUrl :: "string option"
  dd_callbackSecret :: "string option"

record dispatch_opts =
  do_sessionId :: "string option"
  do_callerSubject :: "string option"
  do_agentApprovalDefault :: "string option"
  do_suppressApprovalGate :: bool
  do_readOnly :: bool

definition write_capable :: "ToolDescriptor \<Rightarrow> bool" where
  "write_capable tool \<longleftrightarrow>
     list_ex (\<lambda>p. p \<in> set WRITE_CAPABLE_PROVIDERS) (coalesce (td_identityProviders tool) [])"

definition approval_gated :: "ToolDescriptor \<Rightarrow> string option \<Rightarrow> bool" where
  "approval_gated tool agentDefault \<longleftrightarrow> requiresApproval (resolveApproval (td_approval tool) agentDefault)"

definition base_launch :: "string \<Rightarrow> dispatch_opts \<Rightarrow> LaunchOptions" where
  "base_launch input opts =
     \<lparr>lo_args = Some [input], lo_callbackUrl = None, lo_callbackSecret = None, lo_natsSubject = None,
      lo_natsUrl = None, lo_sessionId = only_truthy (do_sessionId opts), lo_secretEnv = None,
      lo_readOnly = do_readOnly opts\<rparr>"

text \<open>The launch over either transport; \<open>Inl\<close> is the early return without HTTP settings.\<close>

definition launch_job ::
  "tool_env \<Rightarrow> ToolDispatchDeps \<Rightarrow> ToolDescriptor \<Rightarrow> JobTemplate \<Rightarrow> string \<Rightarrow> string \<Rightarrow> dispatch_opts \<Rightarrow>
   (string + unit) tool_eff" where
  "launch_job env deps tool template jobId input opts =
     (if truthy_str (dd_natsUrl deps) then
        bind_e (toolrun_launch env (dd_callbackSecretRef deps) (dd_hasSecretApi deps) template
                  ((base_launch input opts)\<lparr>lo_natsUrl := dd_natsUrl deps,
                     lo_natsSubject := Some (''callbacks.'' @ jobId)\<rparr>))
          (\<lambda>_. return_e (Inr ()))
      else if \<not> truthy_str (dd_callbackBaseUrl deps) \<or> \<not> truthy_str (dd_callbackSecret deps) then
        return_e (Inl (''tool '' @ td_id tool @
          '' requires callbackBaseUrl/callbackSecret (HTTP callback mode) but neither is configured''))
      else
        bind_e (toolrun_launch env (dd_callbackSecretRef deps) (dd_hasSecretApi deps) template
                  ((base_launch input opts)\<lparr>
                     lo_callbackUrl := Some (the (dd_callbackBaseUrl deps) @ ''/callback/'' @ jobId),
                     lo_callbackSecret := dd_callbackSecret deps\<rparr>))
          (\<lambda>_. return_e (Inr ())))"

definition event_outcome :: "job_event \<Rightarrow> ToolCallOutcome" where
  "event_outcome e =
     (case e of
        FailedEvent code message \<Rightarrow> Inl (''tool failed ('' @ code @ ''): '' @ message)
      | Succeeded result \<Rightarrow> Inr result
      | _ \<Rightarrow> Inr None)"

definition run_mcp ::
  "tool_env \<Rightarrow> ToolDispatchDeps \<Rightarrow> ToolDescriptor \<Rightarrow> string \<Rightarrow> dispatch_opts \<Rightarrow> ToolCallOutcome tool_eff" where
  "run_mcp env deps tool input opts =
     (case dd_mcpBrokerClient deps of
        None \<Rightarrow> return_e (Inl (''tool '' @ td_id tool @ '' is an MCP tool but the mcp-broker is not configured''))
      | Some client \<Rightarrow>
          if \<not> truthy_str (do_callerSubject opts) then
            return_e (Inl (''tool '' @ td_id tool @ '' requires a resolved caller identity''))
          else if do_readOnly opts then return_e (Inl (readOnlyMCPRefusal (td_id tool)))
          else
            bind_e (mcp_call env client tool input (the (do_callerSubject opts)))
              (\<lambda>called. return_e (Inr (Some (mr_result called)))))"

definition run_local ::
  "tool_env \<Rightarrow> ToolDispatchDeps \<Rightarrow> ToolDescriptor \<Rightarrow> string \<Rightarrow> dispatch_opts \<Rightarrow> ToolCallOutcome tool_eff" where
  "run_local env deps tool input opts =
     (case dd_localToolExecutor deps of
        None \<Rightarrow> return_e (Inl (''tool '' @ td_id tool @ '' is a LocalTool but local execution is not configured''))
      | Some executor \<Rightarrow>
          bind_e (local_run env executor tool input (do_sessionId opts)) (\<lambda>e. return_e (event_outcome e)))"

text \<open>
  The promise for the result is made before the launch and taken after it: between them the
  launch may return early or throw.
\<close>

definition run_job ::
  "tool_env \<Rightarrow> ToolDispatchDeps \<Rightarrow> ToolDescriptor \<Rightarrow> JobTemplate \<Rightarrow> string \<Rightarrow> dispatch_opts \<Rightarrow> ToolCallOutcome tool_eff" where
  "run_job env deps tool template input opts =
     bind_e (read_e (te_uuid env)) (\<lambda>jobId.
     bind_e (emit_e (JobAwaited jobId)) (\<lambda>_.
     bind_e (launch_job env deps tool template jobId input opts) (\<lambda>launched.
     case launched of
       Inl e \<Rightarrow> return_e (Inl e)
     | Inr _ \<Rightarrow>
         bind_e (call_e (\<lambda>trail. te_jobResult env trail jobId) (JobTaken jobId))
           (\<lambda>e. return_e (event_outcome e)))))"

definition dispatchResolvedTool ::
  "tool_env \<Rightarrow> ToolDescriptor \<Rightarrow> string \<Rightarrow> ToolDispatchDeps \<Rightarrow> dispatch_opts \<Rightarrow> ToolCallOutcome tool_eff" where
  "dispatchResolvedTool env tool input deps opts =
     (if \<not> do_suppressApprovalGate opts \<and> approval_gated tool (do_agentApprovalDefault opts) then
        return_e (Inl (approvalPrompt (td_id tool)))
      else if do_readOnly opts \<and> write_capable tool then
        return_e (Inl (readOnlyGitHubRefusal (td_id tool)))
      else if td_agentRunTemplate tool \<noteq> None then
        return_e (Inl (''tool '' @ td_id tool @ '' is agent-backed -- calling an agent-backed tool from a sub-agent'' @
          [CHR 0x27] @ ''s own toolRefs is not supported yet''))
      else if td_mcpExec tool \<noteq> None then run_mcp env deps tool input opts
      else if td_localExec tool \<noteq> None then run_local env deps tool input opts
      else
        (case td_jobTemplate tool of
           Some template \<Rightarrow> run_job env deps tool template input opts
         | None \<Rightarrow> return_e (Inl (''tool '' @ td_id tool @
             '' has neither a jobTemplate, localExec, nor agentRunTemplate spec''))))"


section \<open>The handler of a sub-agent's tool calls\<close>

record subagent_call =
  sc_callId :: string
  sc_tool :: string
  sc_input :: string

record handler_opts =
  ho_sessionId :: "string option"
  ho_callerSubject :: "string option"
  ho_onApprovalNeeded :: bool
  ho_approvalTimeoutMs :: "int option"
  ho_readOnly :: bool

definition resolve_call :: "tool_env \<Rightarrow> string \<Rightarrow> string \<Rightarrow> ToolCallOutcome \<Rightarrow> unit tool_eff" where
  "resolve_call env runId callId outcome =
     call_e (\<lambda>trail. te_resolve env trail callId) (ToolCallResolved runId callId outcome)"

definition handler_dispatch_opts :: "AgentDescriptor \<Rightarrow> handler_opts \<Rightarrow> dispatch_opts" where
  "handler_dispatch_opts agent opts =
     \<lparr>do_sessionId = ho_sessionId opts, do_callerSubject = ho_callerSubject opts,
      do_agentApprovalDefault = ad_approvalDefault agent, do_suppressApprovalGate = False,
      do_readOnly = ho_readOnly opts\<rparr>"

definition defer_approval ::
  "tool_env \<Rightarrow> handler_opts \<Rightarrow> subagent_call \<Rightarrow> unit tool_eff" where
  "defer_approval env opts call =
     bind_e (read_e (te_now env)) (\<lambda>now.
       call_e (te_askApproval env)
         (ApprovalAsked (sc_callId call) (sc_tool call) (sc_input call) (now + coalesce (ho_approvalTimeoutMs opts) 0)))"

definition subAgentToolCall ::
  "tool_env \<Rightarrow> string \<Rightarrow> AgentDescriptor \<Rightarrow> bool \<Rightarrow> (string \<Rightarrow> ToolDescriptor option) option \<Rightarrow>
   ToolDispatchDeps \<Rightarrow> handler_opts \<Rightarrow> subagent_call \<Rightarrow> unit tool_eff" where
  "subAgentToolCall env runId agent canResolve toolCatalog deps opts call =
     (if \<not> canResolve then return_e ()
      else if sc_tool call \<notin> set (coalesce (ad_toolRefs agent) []) then
        resolve_call env runId (sc_callId call)
          (Inl (''tool \"'' @ sc_tool call @ ''\" is not declared in this agent'' @ [CHR 0x27] @ ''s toolRefs''))
      else
        (case Option.bind toolCatalog (\<lambda>c. c (sc_tool call)) of
           None \<Rightarrow>
             resolve_call env runId (sc_callId call)
               (Inl (''tool \"'' @ sc_tool call @ ''\" not found in the catalog''))
         | Some tool \<Rightarrow>
             if ho_onApprovalNeeded opts \<and> approval_gated tool (ad_approvalDefault agent) then
               defer_approval env opts call
             else
               bind_e (try_e (bind_e (dispatchResolvedTool env tool (sc_input call) deps (handler_dispatch_opts agent opts))
                                (resolve_call env runId (sc_callId call))))
                 (\<lambda>r. case r of
                    Inl err \<Rightarrow> resolve_call env runId (sc_callId call) (Inl err)
                  | Inr _ \<Rightarrow> return_e ())))"


section \<open>What a call may do\<close>

text \<open>The events that reach outside: everything but the bookkeeping of promises and the reply.\<close>

definition acts :: "tool_event \<Rightarrow> bool" where
  "acts e \<longleftrightarrow>
     (case e of JobAwaited _ \<Rightarrow> False | JobTaken _ _ \<Rightarrow> False | ApprovalAsked _ _ _ _ _ \<Rightarrow> False
      | ToolCallResolved _ _ _ _ \<Rightarrow> False | _ \<Rightarrow> True)"

lemma launch_job_emits:
  assumes "\<And>run r options. run_of_launch (dd_callbackSecretRef deps) template options run \<Longrightarrow>
      lo_args options = Some [input] \<Longrightarrow> lo_readOnly options = do_readOnly opts \<Longrightarrow> A (ToolRunCreated run r)"
  shows "emits A (launch_job env deps tool template jobId input opts)"
  unfolding launch_job_def
  by (intro emits_rules toolrun_launch_plain_emits) (auto simp: base_launch_def intro: assms)

text \<open>
  What an event of running a tool says: the call of a sub-agent reached outside only through
  the one execution the descriptor names, with the caller's input.
\<close>

definition acts_for :: "ToolDescriptor \<Rightarrow> string \<Rightarrow> string option \<Rightarrow> bool \<Rightarrow> tool_event \<Rightarrow> bool" where
  "acts_for tool input subject readOnly e \<longleftrightarrow>
     (case e of
        ToolRunCreated run _ \<Rightarrow>
          tr_readOnly run = readOnly \<and> tr_args run = Some [input] \<and> tr_secretEnv run = None \<and>
          (\<exists>template. td_jobTemplate tool = Some template \<and>
             jt_toolRef template = Some (tr_toolRef run) \<and> jt_namespace template = tr_runNamespace run)
      | SidecarPosted _ request _ _ \<Rightarrow> td_localExec tool \<noteq> None \<and> lr_input request = input
      | SecretRead _ _ _ \<Rightarrow> td_localExec tool \<noteq> None
      | BrokerPosted _ _ delegated _ _ \<Rightarrow> \<not> readOnly \<and> td_mcpExec tool \<noteq> None \<and> delegated_ok tool delegated
      | DelegatedToken who _ _ \<Rightarrow> \<not> readOnly \<and> subject = Some who
      | _ \<Rightarrow> \<not> acts e)"


lemma dispatch_acts_for:
  assumes "do_suppressApprovalGate opts \<or> \<not> approval_gated tool (do_agentApprovalDefault opts)"
    and "\<not> (do_readOnly opts \<and> write_capable tool)" "td_agentRunTemplate tool = None"
  shows "emits (acts_for tool input (do_callerSubject opts) (do_readOnly opts))
           (dispatchResolvedTool env tool input deps opts)"
proof -
  let ?A = "acts_for tool input (do_callerSubject opts) (do_readOnly opts)"
  have mcp: "emits ?A (run_mcp env deps tool input opts)" if "td_mcpExec tool \<noteq> None"
    unfolding run_mcp_def using that
    by (intro emits_rules mcp_call_emits) (auto simp: acts_for_def truthy_str_def split: option.splits)
  have loc: "emits ?A (run_local env deps tool input opts)" if "td_localExec tool \<noteq> None"
    unfolding run_local_def using that by (intro emits_rules local_run_emits) (simp_all add: acts_for_def)
  have job: "emits ?A (run_job env deps tool template input opts)" if "td_jobTemplate tool = Some template" for template
    unfolding run_job_def using that
    by (intro emits_rules launch_job_emits) (auto simp: acts_for_def acts_def run_of_launch_def)
  show ?thesis
    unfolding dispatchResolvedTool_def
    by (intro emits_rules mcp loc job) auto
qed

lemma dispatch_refused:
  assumes "(\<not> do_suppressApprovalGate opts \<and> approval_gated tool (do_agentApprovalDefault opts)) \<or>
      (do_readOnly opts \<and> write_capable tool) \<or> td_agentRunTemplate tool \<noteq> None"
  shows "\<exists>e. dispatchResolvedTool env tool input deps opts = return_e (Inl e)"
  using assms unfolding dispatchResolvedTool_def by auto

lemma emits_resolve [emits_rules]:
  "(\<And>r. A (ToolCallResolved runId callId outcome r)) \<Longrightarrow> emits A (resolve_call env runId callId outcome)"
  unfolding resolve_call_def by (rule emits_call)

lemma resolve_acts_for: "acts_for tool input subject readOnly (ToolCallResolved runId callId outcome r)"
  by (simp add: acts_for_def acts_def)

lemma defer_acts_for: "emits (\<lambda>e. \<not> acts e) (defer_approval env opts call)"
  unfolding defer_approval_def by (intro emits_rules) (simp add: acts_def)

definition may_run :: "AgentDescriptor \<Rightarrow> (string \<Rightarrow> ToolDescriptor option) option \<Rightarrow> bool \<Rightarrow> string \<Rightarrow> ToolDescriptor \<Rightarrow> bool" where
  "may_run agent toolCatalog readOnly name tool \<longleftrightarrow>
     name \<in> set (coalesce (ad_toolRefs agent) []) \<and> Option.bind toolCatalog (\<lambda>c. c name) = Some tool \<and>
     \<not> approval_gated tool (ad_approvalDefault agent) \<and> \<not> (readOnly \<and> write_capable tool) \<and>
     td_agentRunTemplate tool = None"

lemma subAgentToolCall_emits:
  "emits (\<lambda>e. acts e \<longrightarrow>
       (\<exists>tool. may_run agent toolCatalog (ho_readOnly opts) (sc_tool call) tool \<and>
          acts_for tool (sc_input call) (ho_callerSubject opts) (ho_readOnly opts) e))
     (subAgentToolCall env runId agent canResolve toolCatalog deps opts call)" (is "emits ?P _")
proof (cases "sc_tool call \<in> set (coalesce (ad_toolRefs agent) []) \<and> Option.bind toolCatalog (\<lambda>c. c (sc_tool call)) \<noteq> None")
  case False
  then show ?thesis
    unfolding subAgentToolCall_def by (auto intro!: emits_rules simp: acts_def)
next
  case True
  then obtain tool where tool: "Option.bind toolCatalog (\<lambda>c. c (sc_tool call)) = Some tool" by blast
  let ?o = "handler_dispatch_opts agent opts"
  have o: "do_suppressApprovalGate ?o = False" "do_agentApprovalDefault ?o = ad_approvalDefault agent"
    "do_readOnly ?o = ho_readOnly opts" "do_callerSubject ?o = ho_callerSubject opts"
    by (simp_all add: handler_dispatch_opts_def)
  have resolve: "emits ?P (resolve_call env runId callId outcome)" for callId outcome
    by (intro emits_rules) (simp add: acts_def)
  have dispatch: "emits ?P (dispatchResolvedTool env tool (sc_input call) deps ?o)"
  proof (cases "may_run agent toolCatalog (ho_readOnly opts) (sc_tool call) tool")
    case True
    then show ?thesis
      using dispatch_acts_for[of ?o tool "sc_input call" env deps]
      by (auto simp: may_run_def o elim!: emits_mono)
  next
    case False
    then obtain e where "dispatchResolvedTool env tool (sc_input call) deps ?o = return_e (Inl e)"
      using dispatch_refused[of ?o tool env "sc_input call" deps] True tool by (auto simp: may_run_def o)
    then show ?thesis by (simp add: emits_return)
  qed
  have asks: "emits ?P (defer_approval env opts call)"
    by (rule emits_mono[OF defer_acts_for]) simp
  show ?thesis
    unfolding subAgentToolCall_def tool option.case
    by (intro emits_rules resolve dispatch asks)
qed



text \<open>The replies of the handler: a result sent, or approval asked for, without an error.\<close>

definition reply_to :: "string \<Rightarrow> string \<Rightarrow> tool_event \<Rightarrow> bool" where
  "reply_to runId callId e \<longleftrightarrow>
     (case e of ToolCallResolved r c _ (Inr _) \<Rightarrow> r = runId \<and> c = callId
      | ApprovalAsked c _ _ _ (Inr _) \<Rightarrow> c = callId | _ \<Rightarrow> False)"

definition reply_attempt :: "tool_event \<Rightarrow> bool" where
  "reply_attempt e \<longleftrightarrow> (case e of ToolCallResolved _ _ _ _ \<Rightarrow> True | ApprovalAsked _ _ _ _ _ \<Rightarrow> True | _ \<Rightarrow> False)"

lemma reply_to_attempt: "reply_to runId callId e \<Longrightarrow> reply_attempt e"
  by (auto simp: reply_to_def reply_attempt_def split: tool_event.splits)

lemma dispatch_no_reply: "emits (\<lambda>e. \<not> reply_attempt e) (dispatchResolvedTool env tool input deps opts)"
  unfolding dispatchResolvedTool_def run_mcp_def run_local_def run_job_def
  by (intro emits_rules mcp_call_emits local_run_emits launch_job_emits) (simp_all add: reply_attempt_def)

lemma emits_filter:
  assumes "emits (\<lambda>e. \<not> A e) m" "m trail = (r, trail')"
  shows "filter A trail' = filter A trail"
proof -
  obtain new where "trail' = trail @ new" "list_all (\<lambda>e. \<not> A e) new"
    using assms unfolding emits_def by (metis snd_conv)
  then show ?thesis by (simp add: list_all_iff)
qed

lemma resolve_call_run:
  "resolve_call env runId callId outcome trail =
     (te_resolve env trail callId, trail @ [ToolCallResolved runId callId outcome (te_resolve env trail callId)])"
  by (simp add: resolve_call_def call_e_def)

lemma replied_run:
  assumes "filter reply_attempt trail = []"
  shows "reply_to runId callId e \<longrightarrow> filter (reply_to runId callId) (trail @ [e]) = [e]"
    "\<not> reply_to runId callId e \<longrightarrow> filter (reply_to runId callId) (trail @ [e]) = []"
  using assms reply_to_attempt by (auto simp: filter_empty_conv)

text \<open>The outcome of one call, from a log without replies: one reply, or a rejection and none.\<close>

definition replied_once :: "string \<Rightarrow> string \<Rightarrow> (string + unit) \<times> tool_event list \<Rightarrow> bool" where
  "replied_once runId callId out \<longleftrightarrow>
     (case out of (Inr _, trail) \<Rightarrow> (\<exists>e. filter (reply_to runId callId) trail = [e])
      | (Inl _, trail) \<Rightarrow> filter (reply_to runId callId) trail = [] \<and> trail \<noteq> [] \<and> reply_attempt (last trail))"

lemma resolve_replied_once:
  "filter reply_attempt trail = [] \<or>
     (\<exists>t o' e. trail = t @ [ToolCallResolved runId callId o' (Inl e)] \<and> filter reply_attempt t = []) \<Longrightarrow>
   replied_once runId callId (resolve_call env runId callId outcome trail)"
  by (auto simp: replied_once_def resolve_call_run reply_to_def reply_attempt_def filter_empty_conv
      split: sum.splits tool_event.splits)


lemma dispatch_and_reply:
  fixes m :: "ToolCallOutcome tool_eff"
  assumes "emits (\<lambda>e. \<not> reply_attempt e) m" "filter reply_attempt trail = []"
  shows "replied_once runId callId
     (bind_e (try_e (bind_e m (resolve_call env runId callId)))
        (\<lambda>r. case r of Inl err \<Rightarrow> resolve_call env runId callId (Inl err) | Inr _ \<Rightarrow> return_e ()) trail)"
proof -
  obtain r t where m: "m trail = (r, t)" by (cases "m trail")
  have t: "filter reply_attempt t = []" using emits_filter[OF assms(1) m] assms(2) by simp
  show ?thesis
  proof (cases r)
    case (Inl err)
    then show ?thesis using resolve_replied_once[of t runId callId env] t m by (simp add: eff_defs)
  next
    case (Inr outcome)
    show ?thesis
    proof (cases "te_resolve env t callId")
      case (Inr u)
      then show ?thesis
        using \<open>r = Inr outcome\<close> m resolve_replied_once[of t runId callId env outcome] t
        by (simp add: bind_e_def try_e_def return_e_def resolve_call_run)
    next
      case (Inl err)
      then show ?thesis
        using \<open>r = Inr outcome\<close> m t
          resolve_replied_once[of "t @ [ToolCallResolved runId callId outcome (Inl err)]" runId callId env "Inl err"]
        by (simp add: bind_e_def try_e_def return_e_def resolve_call_run)
    qed
  qed
qed

lemma defer_replied_once: "replied_once runId (sc_callId call) (defer_approval env opts call [])"
  by (auto simp: replied_once_def defer_approval_def eff_defs reply_to_def reply_attempt_def split: sum.splits)

lemma if_apply: "(if b then m else n) x = (if b then m x else n x)"
  by simp

text \<open>
  C10. Every tool call of a sub-agent is answered once: whatever the tool, the catalog, the
  launchers and the broker do, the handler either sends exactly one result or asks exactly once
  for approval, or it ends in a rejection after a failed attempt to reply. A failing tool, an
  unreachable broker or a launch that throws is an answer, not silence.
\<close>

theorem tool_call_answered_once:
  "case subAgentToolCall env runId agent True toolCatalog deps opts call [] of
     (Inr _, trail) \<Rightarrow> \<exists>e. filter (reply_to runId (sc_callId call)) trail = [e]
   | (Inl _, trail) \<Rightarrow> filter (reply_to runId (sc_callId call)) trail = [] \<and> trail \<noteq> [] \<and>
       reply_attempt (last trail)"
proof -
  let ?out = "subAgentToolCall env runId agent True toolCatalog deps opts call []"
  have "replied_once runId (sc_callId call) ?out"
  proof (cases "Option.bind toolCatalog (\<lambda>c. c (sc_tool call))")
    case None
    then show ?thesis
      by (simp add: subAgentToolCall_def resolve_replied_once)
  next
    case (Some tool)
    have reply: "replied_once runId (sc_callId call) (if b then m [] else n [])"
      if "replied_once runId (sc_callId call) (m [])" "replied_once runId (sc_callId call) (n [])"
      for b and m n :: "unit tool_eff" using that by simp
    show ?thesis
      unfolding subAgentToolCall_def Some option.case if_apply
      by (simp only: not_True_eq_False if_False)
        (intro reply resolve_replied_once defer_replied_once dispatch_and_reply dispatch_no_reply disjI1; simp)
  qed
  then show ?thesis by (simp add: replied_once_def)
qed


definition agent_ex :: AgentDescriptor where
  "agent_ex = \<lparr>ad_id = ''a'', ad_allowedRoles = [], ad_approvalDefault = None, ad_approvalTimeoutSeconds = None,
     ad_identityProviders = None, ad_toolRefs = Some [''lint''],
     ad_agentRunTemplate = \<lparr>at_namespace = ''ns'', at_agentRef = ''a''\<rparr>\<rparr>"

definition deps_ex :: ToolDispatchDeps where
  "deps_ex = \<lparr>dd_callbackSecretRef = \<lparr>sk_name = ''cb'', sk_key = ''k''\<rparr>, dd_hasSecretApi = True,
     dd_localToolExecutor = None, dd_mcpBrokerClient = None, dd_natsUrl = Some ''nats://n'',
     dd_callbackBaseUrl = None, dd_callbackSecret = None\<rparr>"

definition handler_opts_ex :: handler_opts where
  "handler_opts_ex = \<lparr>ho_sessionId = None, ho_callerSubject = Some ''u'', ho_onApprovalNeeded = True,
     ho_approvalTimeoutMs = None, ho_readOnly = True\<rparr>"

definition call_ex :: subagent_call where
  "call_ex = \<lparr>sc_callId = ''c'', sc_tool = ''lint'', sc_input = ''x''\<rparr>"

definition run_ex :: ToolRun where
  "run_ex = \<lparr>tr_runName = ''id1'', tr_runNamespace = ''ns'', tr_sessionId = None, tr_toolRef = ''lint'',
     tr_args = Some [''x''], tr_callback = NatsCallback ''callbacks.id0'' (Some ''nats://n''),
     tr_secretEnv = None, tr_readOnly = True\<rparr>"


text \<open>
  A failed launch forgets the promise it made: when the launch of a container tool throws,
  or returns early for want of the callback settings, the promise for the result of the job has
  been made and is never awaited. It rejects when its timer fires, with nobody to handle it.
\<close>

theorem failed_launch_leaves_the_promise:
  assumes "launch_job env deps tool template (te_uuid env []) input opts [JobAwaited (te_uuid env [])] = (r, trail)"
    and "\<not> (\<exists>u. r = Inr (Inr u))"
  shows "snd (run_job env deps tool template input opts []) = trail \<and>
     JobAwaited (te_uuid env []) \<in> set trail \<and> (\<forall>job result. JobTaken job result \<notin> set trail)"
proof -
  have run: "snd (run_job env deps tool template input opts []) = trail"
    using assms by (auto simp: run_job_def bind_e_def read_e_def emit_e_def return_e_def split: sum.splits)
  have no: "emits (\<lambda>e. \<forall>job result. e \<noteq> JobTaken job result)
      (launch_job env deps tool template (te_uuid env []) input opts)"
    by (rule launch_job_emits) simp
  have "JobAwaited (te_uuid env []) \<in> set trail"
    using emits_grows[OF no, of "[JobAwaited (te_uuid env [])]"] assms(1) by simp
  moreover have "JobTaken job result \<notin> set trail" for job result
    using emits_new[OF no, of "JobTaken job result" "[JobAwaited (te_uuid env [])]"] assms(1) by auto
  ultimately show ?thesis using run by blast
qed

theorem failed_launch_leaves_the_promise_witness:
  "JobAwaited ''id0'' \<in> set [JobAwaited ''id0'', ToolRunCreated run_ex (Inl ''fetch failed'')] \<and>
   (\<forall>job result. JobTaken job result \<notin> set [JobAwaited ''id0'', ToolRunCreated run_ex (Inl ''fetch failed'')])"
proof -
  let ?env = "tool_env_ex\<lparr>te_runCreate := (\<lambda>_. Inl ''fetch failed'')\<rparr>"
  let ?opts = "handler_dispatch_opts agent_ex handler_opts_ex"
  have "launch_job ?env deps_ex tool_ex (the (td_jobTemplate tool_ex)) (te_uuid ?env []) ''x'' ?opts
      [JobAwaited (te_uuid ?env [])] =
      (Inl ''fetch failed'', [JobAwaited ''id0'', ToolRunCreated run_ex (Inl ''fetch failed'')])"
    by code_simp
  from failed_launch_leaves_the_promise[OF this] show ?thesis
    by (simp add: tool_env_ex_def js_nat_string.simps)
qed

end
