(* ===== verification/Tool_Launch_Secrecy.thy ===== *)
theory Tool_Launch_Secrecy
  imports Tool_Launch
begin

text \<open>
  What the launchers reveal of the values they put into Secrets: nothing but the Secret itself. The
  relation \<open>same_view\<close> compares two computations up to those values, with one rule per
  combinator.
\<close>

text \<open>
  The values of the variables of one launch, blanked where they may appear; a service that does
  not look at them; the answers of such services.
\<close>

fun hide_values :: "tool_event \<Rightarrow> tool_event" where
  "hide_values (SecretCreated ns name pairs r) = SecretCreated ns name (map (\<lambda>k. (k, [])) (map fst pairs)) r"
| "hide_values e = e"

definition value_blind :: "tool_env \<Rightarrow> bool" where
  "value_blind env \<longleftrightarrow>
     (\<forall>t t'. map hide_values t = map hide_values t' \<longrightarrow>
        te_uuid env t = te_uuid env t' \<and> te_secretCreate env t = te_secretCreate env t' \<and>
        te_runCreate env t = te_runCreate env t' \<and> te_secretOwn env t = te_secretOwn env t')"

lemma blindD:
  assumes "value_blind env" "map hide_values t = map hide_values t'"
  shows "te_uuid env t = te_uuid env t'" "te_secretCreate env t = te_secretCreate env t'"
    "te_runCreate env t = te_runCreate env t'" "te_secretOwn env t = te_secretOwn env t'"
  using assms unfolding value_blind_def by blast+

definition same_view :: "'a tool_eff \<Rightarrow> 'a tool_eff \<Rightarrow> bool" where
  "same_view m m' \<longleftrightarrow>
     (\<forall>t t'. map hide_values t = map hide_values t' \<longrightarrow>
        fst (m t) = fst (m' t') \<and> map hide_values (snd (m t)) = map hide_values (snd (m' t')))"

named_theorems view_rules \<open>introduction rules for \<open>same_view\<close>\<close>

lemma same_view_bind [view_rules]:
  assumes m: "same_view m m'" and f: "\<And>x. same_view (f x) (f' x)"
  shows "same_view (bind_e m f) (bind_e m' f')"
  unfolding same_view_def
proof (intro allI impI)
  fix t t' assume t: "map hide_values t = map hide_values t'"
  obtain r u r' u' where run: "m t = (r, u)" "m' t' = (r', u')" by fastforce
  with m t have "r = r'" "map hide_values u = map hide_values u'" unfolding same_view_def by (metis fst_conv, metis snd_conv)
  then show "fst (bind_e m f t) = fst (bind_e m' f' t') \<and>
      map hide_values (snd (bind_e m f t)) = map hide_values (snd (bind_e m' f' t'))"
    using f run unfolding same_view_def by (cases r) (auto simp: bind_e_def)
qed

lemma same_view_return [view_rules]: "same_view (return_e x) (return_e x)"
  by (simp add: same_view_def return_e_def)

lemma same_view_throw [view_rules]: "same_view (throw_e x) (throw_e x)"
  by (simp add: same_view_def throw_e_def)

lemma same_view_call [view_rules]:
  "(\<And>t t'. map hide_values t = map hide_values t' \<Longrightarrow> f t = f' t') \<Longrightarrow> (\<And>r. hide_values (ev r) = hide_values (ev' r)) \<Longrightarrow>
   same_view (call_e f ev) (call_e f' ev')"
  unfolding same_view_def call_e_def by (auto simp del: map_eq_conv)

lemma same_view_try [view_rules]: "same_view m m' \<Longrightarrow> same_view (try_e m) (try_e m')"
  by (auto simp: same_view_def try_e_def split: prod.splits) (metis fst_conv, metis snd_conv)

lemma same_view_if [view_rules]:
  "same_view m m' \<Longrightarrow> same_view n n' \<Longrightarrow> same_view (if b then m else n) (if b then m' else n')"
  by simp

lemma secret_pairs_keys:
  "map fst (secret_pairs es) = foldl (\<lambda>ks k. if k \<in> set ks then ks else ks @ [k]) [] (map fst es)"
proof -
  have "map fst (foldl (\<lambda>d (name, value). AList.update name value d) d es) =
      foldl (\<lambda>ks k. if k \<in> set ks then ks else ks @ [k]) (map fst d) (map fst es)" for d
    by (induction es arbitrary: d) (auto simp: AList.update_keys simp del: set_map)
  then show ?thesis by (simp add: secret_pairs_def)
qed

lemma env_refs_keys:
  "env_refs s es = map (\<lambda>name. \<lparr>se_name = name, se_ref = \<lparr>sk_name = s, sk_key = name\<rparr>\<rparr>) (map fst es)"
  by (simp add: env_refs_def split_def)

lemma create_identity_secret_view:
  assumes "value_blind env" "map fst es = map fst es'"
  shows "same_view (create_identity_secret env l api name ns (Some es))
                   (create_identity_secret env l api name ns (Some es'))"
proof -
  have nil: "(es' = []) = (es = [])" using assms(2) by (metis map_is_Nil_conv)
  have refs: "env_refs s es' = env_refs s es" for s by (simp only: env_refs_keys assms(2))
  have pairs: "map fst (secret_pairs es') = map fst (secret_pairs es)" by (simp only: secret_pairs_keys assms(2))
  show ?thesis
    unfolding create_identity_secret_def option.case Let_def nil refs
    by (intro view_rules blindD[OF assms(1)]; (assumption | simp only: hide_values.simps pairs))
qed

lemma adopt_all_view:
  assumes "value_blind env"
  shows "same_view (adopt_all env api names ns run uid) (adopt_all env api names ns run uid)"
proof (induction names)
  case (Cons n names)
  show ?case
    unfolding adopt_all.simps adoptSecret_def
    by (intro view_rules blindD[OF assms] Cons; (assumption | rule refl))
qed (simp only: adopt_all.simps view_rules)

text \<open>
  C16. Secret values stay in Secrets: two launches of an agent that differ only in the values of
  the variables it is given (the caller's own tokens) return the same, create the same AgentRun
  and make the same calls in the same order, up to the data of the Secret itself, for every
  cluster whose answers do not depend on those data.
\<close>

theorem agent_launch_hides_secret_values:
  assumes "value_blind env" "map fst es = map fst es'"
  shows "fst (agentrun_launch env api template name (options\<lparr>al_secretEnv := Some es\<rparr>) []) =
         fst (agentrun_launch env api template name (options\<lparr>al_secretEnv := Some es'\<rparr>) []) \<and>
     map hide_values (snd (agentrun_launch env api template name (options\<lparr>al_secretEnv := Some es\<rparr>) [])) =
     map hide_values (snd (agentrun_launch env api template name (options\<lparr>al_secretEnv := Some es'\<rparr>) []))"
proof -
  have sel: "al_secretEnv (options\<lparr>al_secretEnv := x\<rparr>) = x" "al_goal (options\<lparr>al_secretEnv := x\<rparr>) = al_goal options"
    "al_sessionId (options\<lparr>al_secretEnv := x\<rparr>) = al_sessionId options"
    "al_natsSubject (options\<lparr>al_secretEnv := x\<rparr>) = al_natsSubject options"
    "al_natsUrl (options\<lparr>al_secretEnv := x\<rparr>) = al_natsUrl options"
    "al_callbackUrl (options\<lparr>al_secretEnv := x\<rparr>) = al_callbackUrl options"
    "al_callbackSecretRef (options\<lparr>al_secretEnv := x\<rparr>) = al_callbackSecretRef options"
    "al_timeoutSeconds (options\<lparr>al_secretEnv := x\<rparr>) = al_timeoutSeconds options"
    "al_readOnly (options\<lparr>al_secretEnv := x\<rparr>) = al_readOnly options"
    "al_params (options\<lparr>al_secretEnv := x\<rparr>) = al_params options"
    "al_ownedSecretNames (options\<lparr>al_secretEnv := x\<rparr>) = al_ownedSecretNames options" for x
    by simp_all
  have "same_view (agentrun_launch env api template name (options\<lparr>al_secretEnv := Some es\<rparr>))
      (agentrun_launch env api template name (options\<lparr>al_secretEnv := Some es'\<rparr>))"
    unfolding agentrun_launch_def
    by (simp only: sel)
      (intro view_rules create_identity_secret_view adopt_all_view blindD[OF assms(1)] assms refl; assumption)
  then show ?thesis unfolding same_view_def by blast
qed


definition launch_options_ex :: AgentLaunchOptions where
  "launch_options_ex = \<lparr>al_goal = ''fix'', al_callbackUrl = [], al_callbackSecretRef = \<lparr>sk_name = [], sk_key = []\<rparr>,
     al_natsUrl = Some ''nats://n'', al_natsSubject = Some ''agent'', al_timeoutSeconds = None, al_secretEnv = None,
     al_ownedSecretNames = Some [''grant''], al_sessionId = Some ''s'', al_readOnly = False, al_params = None\<rparr>"

theorem agent_launch_hides_secret_values_witness:
  "map hide_values (snd (agentrun_launch tool_env_ex True \<lparr>at_namespace = ''ns'', at_agentRef = ''a''\<rparr> ''run''
       (launch_options_ex\<lparr>al_secretEnv := Some [(''GITHUB_TOKEN'', ''t1'')]\<rparr>) [])) =
   map hide_values (snd (agentrun_launch tool_env_ex True \<lparr>at_namespace = ''ns'', at_agentRef = ''a''\<rparr> ''run''
       (launch_options_ex\<lparr>al_secretEnv := Some [(''GITHUB_TOKEN'', ''t2'')]\<rparr>) []))"
proof -
  have "value_blind tool_env_ex"
    unfolding value_blind_def tool_env_ex_def by (auto dest: arg_cong[where f = length])
  from agent_launch_hides_secret_values[OF this] show ?thesis by simp
qed

end
