(* ===== verification/Job_Results.thy ===== *)
theory Job_Results
  imports Tool_Launch
begin

text \<open>
  The result channel of container tools: \<open>CallbackReceiver\<close> (HTTP,
  \<open>apps/agent-orchestrator/src/callback/receiver.ts\<close>) and \<open>NatsJobReceiver\<close>
  (\<open>callback/nats-job-receiver.ts\<close>). Both keep a map of pending jobs and a map of progress
  handlers and differ in how a message names its job and is checked.

  A promise is a number; its timer is armed when it is made. The state records the promises that
  were settled and the calls of progress handlers. The locale \<open>result_channel\<close> says what a
  transport is; both receivers interpret it, and the properties of the promises are proved once
  in it.
\<close>

section \<open>State\<close>

definition DEFAULT_JOB_TIMEOUT_MS :: int where
  "DEFAULT_JOB_TIMEOUT_MS = 10 * 60 * 1000"

datatype settlement = ResolvedWith job_event | TimedOut string

record job_promise =
  jp_job :: string
  jp_due :: int

record receiver =
  rc_next :: nat
  rc_pending :: "(string \<times> nat) list"
  rc_timers :: "(nat \<times> job_promise) list"
  rc_handlers :: "(string \<times> nat) list"
  rc_settled :: "(nat \<times> settlement) list"
  rc_calls :: "(nat \<times> string \<times> string option) list"

definition rc_new :: receiver where
  "rc_new = \<lparr>rc_next = 0, rc_pending = [], rc_timers = [], rc_handlers = [], rc_settled = [], rc_calls = []\<rparr>"

definition awaitJob :: "int \<Rightarrow> string \<Rightarrow> int option \<Rightarrow> receiver \<Rightarrow> receiver" where
  "awaitJob now jobId timeoutMs st =
     st\<lparr>rc_next := Suc (rc_next st),
        rc_timers := (rc_next st, \<lparr>jp_job = jobId, jp_due = now + coalesce timeoutMs DEFAULT_JOB_TIMEOUT_MS\<rparr>) # rc_timers st,
        rc_pending := AList.update jobId (rc_next st) (rc_pending st)\<rparr>"

definition drop_job :: "string \<Rightarrow> receiver \<Rightarrow> receiver" where
  "drop_job jobId st =
     st\<lparr>rc_pending := AList.delete jobId (rc_pending st), rc_handlers := AList.delete jobId (rc_handlers st)\<rparr>"

text \<open>The timer of promise \<open>n\<close> fires, not before it is due.\<close>

definition timeout_fired :: "int \<Rightarrow> nat \<Rightarrow> receiver \<Rightarrow> receiver option" where
  "timeout_fired now n st =
     (case map_of (rc_timers st) n of
        None \<Rightarrow> None
      | Some p \<Rightarrow>
          if now < jp_due p then None
          else Some ((drop_job (jp_job p) st)\<lparr>rc_timers := AList.delete n (rc_timers st),
                 rc_settled := (n, TimedOut (jp_job p)) # rc_settled st\<rparr>))"

definition onJobProgress :: "string \<Rightarrow> nat \<Rightarrow> receiver \<Rightarrow> receiver" where
  "onJobProgress jobId handler st = st\<lparr>rc_handlers := AList.update jobId handler (rc_handlers st)\<rparr>"

definition unsubscribe :: "string \<Rightarrow> receiver \<Rightarrow> receiver" where
  "unsubscribe jobId st = st\<lparr>rc_handlers := AList.delete jobId (rc_handlers st)\<rparr>"

text \<open>One event for a job: the branches both receivers share.\<close>

definition call_handler :: "string \<Rightarrow> string \<Rightarrow> string option \<Rightarrow> receiver \<Rightarrow> receiver" where
  "call_handler jobId stage message st =
     (case map_of (rc_handlers st) jobId of
        None \<Rightarrow> st
      | Some h \<Rightarrow> st\<lparr>rc_calls := (h, stage, message) # rc_calls st\<rparr>)"

definition receive_event :: "string \<Rightarrow> job_event \<Rightarrow> receiver \<Rightarrow> receiver" where
  "receive_event jobId e st =
     (if terminal_event e then
        (case map_of (rc_pending st) jobId of
           None \<Rightarrow> st
         | Some n \<Rightarrow> (drop_job jobId st)\<lparr>rc_timers := AList.delete n (rc_timers st),
                       rc_settled := (n, ResolvedWith e) # rc_settled st\<rparr>)
      else
        (case e of
           ProgressEvent stage _ message \<Rightarrow> call_handler jobId stage message st
         | WarningEvent message \<Rightarrow> call_handler jobId ''warning'' (Some message) st
         | _ \<Rightarrow> st))"


section \<open>HTTP transport\<close>

text \<open>
  \<open>hmac\<close> is the digest, in hexadecimal, of a body under a secret; \<open>parse\<close> is \<open>JSON.parse\<close>
  followed by the event schema; \<open>pathname\<close> is the URL parser, which may throw. Two buffers of one
  length that are equal are equal strings.
\<close>

record http_env =
  he_hmac :: "string \<Rightarrow> string \<Rightarrow> string"
  he_parse :: "string \<Rightarrow> job_event option"
  he_pathname :: "string \<Rightarrow> string option"

record callback_request =
  cr_method :: string
  cr_url :: "string option"
  cr_body :: string
  cr_signature :: "string option"

datatype callback_error = CallbackAuthError | InvalidBody

definition verifyAndParseCallback ::
  "http_env \<Rightarrow> string \<Rightarrow> string option \<Rightarrow> string \<Rightarrow> callback_error + job_event" where
  "verifyAndParseCallback env rawBody signatureHeader secret =
     (let expected = ''sha256='' @ he_hmac env secret rawBody; provided = coalesce signatureHeader [] in
      if length expected \<noteq> length provided \<or> expected \<noteq> provided then Inl CallbackAuthError
      else (case he_parse env rawBody of None \<Rightarrow> Inl InvalidBody | Some e \<Rightarrow> Inr e))"

text \<open>\<open>.split("/").filter(Boolean).pop()\<close>.\<close>

definition last_segment :: "string \<Rightarrow> string option" where
  "last_segment path =
     (let segments = filter (\<lambda>s. s \<noteq> []) (js_split CHR ''/'' path) in
      if segments = [] then None else Some (last segments))"

definition handleRequest ::
  "http_env \<Rightarrow> string \<Rightarrow> callback_request \<Rightarrow> receiver \<Rightarrow> int \<times> receiver" where
  "handleRequest env secret req st =
     (if cr_method req \<noteq> ''POST'' then (405, st)
      else
        (case he_pathname env (coalesce (cr_url req) []) of
           None \<Rightarrow> (500, st)
         | Some path \<Rightarrow>
             (case verifyAndParseCallback env (cr_body req) (cr_signature req) secret of
                Inl _ \<Rightarrow> (401, st)
              | Inr e \<Rightarrow>
                  (case last_segment path of
                     None \<Rightarrow> (202, st)
                   | Some jobId \<Rightarrow> (202, receive_event jobId e st)))))"


section \<open>NATS transport\<close>

record nats_message =
  nm_subject :: string
  nm_data :: string

text \<open>\<open>decode\<close> is the JSON codec followed by the event schema.\<close>

definition nats_consume :: "(string \<Rightarrow> job_event option) \<Rightarrow> string \<Rightarrow> nats_message \<Rightarrow> receiver \<Rightarrow> receiver" where
  "nats_consume decode prefix m st =
     (let jobId = drop (length prefix + 1) (nm_subject m) in
      if jobId = [] then st
      else (case decode (nm_data m) of None \<Rightarrow> st | Some e \<Rightarrow> receive_event jobId e st))"


section \<open>Histories\<close>

datatype rc_event =
    AwaitJob int string "int option"
  | TimeoutFired int nat
  | Subscribe string nat
  | Unsubscribe string
  | Received string job_event

fun rc_step :: "rc_event \<Rightarrow> receiver \<Rightarrow> receiver option" where
  "rc_step (AwaitJob now jobId timeoutMs) st = Some (awaitJob now jobId timeoutMs st)"
| "rc_step (TimeoutFired now n) st = timeout_fired now n st"
| "rc_step (Subscribe jobId h) st = Some (onJobProgress jobId h st)"
| "rc_step (Unsubscribe jobId) st = Some (unsubscribe jobId st)"
| "rc_step (Received jobId e) st = Some (receive_event jobId e st)"

fun rc_run :: "rc_event list \<Rightarrow> receiver \<Rightarrow> receiver option" where
  "rc_run [] st = Some st"
| "rc_run (ev # evs) st = (case rc_step ev st of None \<Rightarrow> None | Some st' \<Rightarrow> rc_run evs st')"

text \<open>
  Every promise made is either armed or settled, never both and never settled twice; a pending
  entry points to an armed promise of its job.
\<close>

definition rc_inv :: "receiver \<Rightarrow> bool" where
  "rc_inv st \<longleftrightarrow>
     distinct (map fst (rc_timers st) @ map fst (rc_settled st)) \<and>
     set (map fst (rc_timers st) @ map fst (rc_settled st)) = {..< rc_next st} \<and>
     (\<forall>j n. map_of (rc_pending st) j = Some n \<longrightarrow> (\<exists>p. map_of (rc_timers st) n = Some p \<and> jp_job p = j))"

lemma rc_inv_new: "rc_inv rc_new"
  by (simp add: rc_inv_def rc_new_def)

lemma rc_inv_await: "rc_inv st \<Longrightarrow> rc_inv (awaitJob now j t st)"
proof -
  assume inv: "rc_inv st"
  then have fresh: "rc_next st \<notin> fst ` set (rc_timers st)" "rc_next st \<notin> fst ` set (rc_settled st)"
    and points: "\<And>j n. map_of (rc_pending st) j = Some n \<Longrightarrow> (\<exists>p. map_of (rc_timers st) n = Some p \<and> jp_job p = j) \<and> n \<noteq> rc_next st"
    unfolding rc_inv_def by (auto simp: dest: map_of_SomeD) (metis fst_conv image_eqI lessThan_iff less_irrefl map_of_SomeD UnI1)+
  show ?thesis
    using inv fresh points unfolding rc_inv_def awaitJob_def
    by (auto simp: AList.update_conv' lessThan_Suc)
qed

lemma rc_inv_points:
  "rc_inv st \<Longrightarrow> map_of (rc_pending st) j = Some n \<Longrightarrow> \<exists>p. map_of (rc_timers st) n = Some p \<and> jp_job p = j"
  unfolding rc_inv_def by blast

lemma rc_inv_settle:
  assumes inv: "rc_inv st" and n: "map_of (rc_timers st) n = Some p"
  shows "rc_inv ((drop_job (jp_job p) st)\<lparr>rc_timers := AList.delete n (rc_timers st),
           rc_settled := (n, x) # rc_settled st\<rparr>)"
proof -
  have mem: "n \<in> fst ` set (rc_timers st)" using map_of_SomeD[OF n] by force
  have keys: "fst ` set (AList.delete n (rc_timers st)) = fst ` set (rc_timers st) - {n}"
    by (simp add: AList.delete_keys flip: set_map) 
  have dist: "distinct (map fst (AList.delete n (rc_timers st)))"
    using inv by (simp add: rc_inv_def distinct_delete)
  have points: "\<exists>q. map_of (AList.delete n (rc_timers st)) m = Some q \<and> jp_job q = j"
    if "map_of (AList.delete (jp_job p) (rc_pending st)) j = Some m" for j m
  proof -
    have j: "j \<noteq> jp_job p" "map_of (rc_pending st) j = Some m" using that by (auto simp: AList.delete_conv' split: if_splits)
    then obtain q where "map_of (rc_timers st) m = Some q" "jp_job q = j" using rc_inv_points[OF inv] by blast
    moreover from this j n have "m \<noteq> n" by auto
    ultimately show ?thesis by (simp add: AList.delete_conv')
  qed
  show ?thesis
    using inv mem keys dist points unfolding rc_inv_def drop_job_def by auto
qed

lemma rc_inv_timeout: "rc_inv st \<Longrightarrow> timeout_fired now n st = Some st' \<Longrightarrow> rc_inv st'"
  unfolding timeout_fired_def by (auto split: option.splits if_splits intro: rc_inv_settle)

lemma rc_inv_calls: "rc_inv st \<Longrightarrow> rc_inv (call_handler j s m st)"
  by (auto simp: rc_inv_def call_handler_def split: option.splits)

lemma rc_inv_receive: "rc_inv st \<Longrightarrow> rc_inv (receive_event j e st)"
proof -
  assume inv: "rc_inv st"
  have "rc_inv ((drop_job j st)\<lparr>rc_timers := AList.delete n (rc_timers st), rc_settled := (n, x) # rc_settled st\<rparr>)"
    if n: "map_of (rc_pending st) j = Some n" for n x
  proof -
    obtain p where "map_of (rc_timers st) n = Some p" "jp_job p = j" using rc_inv_points[OF inv n] by blast
    then show ?thesis using rc_inv_settle[OF inv] by auto
  qed
  then show ?thesis
    using inv by (auto simp: receive_event_def rc_inv_calls split: option.splits job_event.splits)
qed

lemma rc_inv_handlers: "rc_inv (st\<lparr>rc_handlers := h\<rparr>) = rc_inv st"
  by (simp add: rc_inv_def)

lemma rc_inv_step: "rc_inv st \<Longrightarrow> rc_step ev st = Some st' \<Longrightarrow> rc_inv st'"
  by (cases ev)
    (auto simp: rc_inv_await rc_inv_receive rc_inv_timeout onJobProgress_def unsubscribe_def rc_inv_handlers)

lemma rc_run_inv: "rc_inv st \<Longrightarrow> rc_run evs st = Some st' \<Longrightarrow> rc_inv st'"
  by (induction evs arbitrary: st) (auto split: option.splits dest: rc_inv_step)

lemma rc_run_append:
  "rc_run (evs @ evs') st = (case rc_run evs st of None \<Rightarrow> None | Some st' \<Rightarrow> rc_run evs' st')"
  by (induction evs arbitrary: st) (auto split: option.splits)

text \<open>What was awaited and what was received, read off a history.\<close>

fun awaited :: "rc_event list \<Rightarrow> string list" where
  "awaited [] = []"
| "awaited (AwaitJob now jobId timeoutMs # evs) = jobId # awaited evs"
| "awaited (_ # evs) = awaited evs"

lemma awaited_append: "awaited (evs @ evs') = awaited evs @ awaited evs'"
  by (induction evs rule: awaited.induct) auto

text \<open>The promises of a state come from the history: their jobs, and the events that settled them.\<close>

definition timer_from :: "rc_event list \<Rightarrow> nat \<times> job_promise \<Rightarrow> bool" where
  "timer_from evs t \<longleftrightarrow> fst t < length (awaited evs) \<and> jp_job (snd t) = awaited evs ! fst t"

definition settled_from :: "rc_event list \<Rightarrow> nat \<times> settlement \<Rightarrow> bool" where
  "settled_from evs s \<longleftrightarrow> fst s < length (awaited evs) \<and>
     (case snd s of ResolvedWith e \<Rightarrow> terminal_event e \<and> Received (awaited evs ! fst s) e \<in> set evs
      | TimedOut j \<Rightarrow> j = awaited evs ! fst s)"

definition rc_from :: "rc_event list \<Rightarrow> receiver \<Rightarrow> bool" where
  "rc_from evs st \<longleftrightarrow>
     rc_next st = length (awaited evs) \<and> (\<forall>t \<in> set (rc_timers st). timer_from evs t) \<and>
     (\<forall>s \<in> set (rc_settled st). settled_from evs s)"

lemma timer_from_append: "timer_from evs t \<Longrightarrow> timer_from (evs @ evs') t"
  by (simp add: timer_from_def awaited_append nth_append)

lemma settled_from_append: "settled_from evs s \<Longrightarrow> settled_from (evs @ evs') s"
  by (auto simp: settled_from_def awaited_append nth_append split: settlement.splits)

lemma rc_from_append:
  "rc_from evs st \<Longrightarrow> awaited evs' = [] \<Longrightarrow> rc_next st' = rc_next st \<Longrightarrow>
   set (rc_timers st') \<subseteq> set (rc_timers st) \<Longrightarrow>
   (\<And>s. s \<in> set (rc_settled st') \<Longrightarrow> s \<in> set (rc_settled st) \<or> settled_from (evs @ evs') s) \<Longrightarrow>
   rc_from (evs @ evs') st'"
  unfolding rc_from_def
  by (simp add: awaited_append) (blast intro: timer_from_append settled_from_append)

lemma delete_subset: "x \<in> set (AList.delete k xs) \<Longrightarrow> x \<in> set xs"
  by (auto simp: AList.delete_eq)

lemma rc_from_step:
  assumes inv: "rc_inv st" and fr: "rc_from evs st" and step: "rc_step ev st = Some st'"
  shows "rc_from (evs @ [ev]) st'"
proof (cases ev)
  case (AwaitJob now j t)
  then have st': "st' = awaitJob now j t st" using step by simp
  have "timer_from (evs @ [ev]) (rc_next st, p)" if "jp_job p = j" for p
    using fr that AwaitJob by (simp add: rc_from_def timer_from_def awaited_append)
  then show ?thesis
    using fr AwaitJob by (auto simp: rc_from_def st' awaitJob_def awaited_append timer_from_append settled_from_append)
next
  case (TimeoutFired now n)
  then obtain p where p: "map_of (rc_timers st) n = Some p"
    "st' = (drop_job (jp_job p) st)\<lparr>rc_timers := AList.delete n (rc_timers st),
        rc_settled := (n, TimedOut (jp_job p)) # rc_settled st\<rparr>"
    using step by (auto simp: timeout_fired_def split: option.splits if_splits)
  have "timer_from evs (n, p)" using fr map_of_SomeD[OF p(1)] by (simp add: rc_from_def)
  then have "settled_from (evs @ [ev]) (n, TimedOut (jp_job p))"
    using TimeoutFired by (simp add: settled_from_def timer_from_def awaited_append)
  then show ?thesis
    using TimeoutFired by (intro rc_from_append[OF fr]) (auto simp: p(2) drop_job_def dest: delete_subset)
next
  case (Received j e)
  then have st': "st' = receive_event j e st" using step by simp
  show ?thesis
  proof (cases "terminal_event e \<and> map_of (rc_pending st) j \<noteq> None")
    case True
    then obtain n where n: "map_of (rc_pending st) j = Some n" by blast
    then obtain p where p: "map_of (rc_timers st) n = Some p" "jp_job p = j" using rc_inv_points[OF inv] by blast
    have "timer_from evs (n, p)" using fr map_of_SomeD[OF p(1)] by (simp add: rc_from_def)
    then have "settled_from (evs @ [ev]) (n, ResolvedWith e)"
      using Received p True by (simp add: settled_from_def timer_from_def awaited_append)
    then show ?thesis
      using Received True n
      by (intro rc_from_append[OF fr]) (auto simp: st' receive_event_def drop_job_def dest: delete_subset)
  next
    case False
    then show ?thesis
      using Received
      by (intro rc_from_append[OF fr])
        (auto simp: st' receive_event_def call_handler_def split: option.splits job_event.splits if_splits)
  qed
qed (use step in \<open>auto intro!: rc_from_append[OF fr] simp: onJobProgress_def unsubscribe_def\<close>)

lemma rc_run_from:
  "rc_inv st \<Longrightarrow> rc_from evs st \<Longrightarrow> rc_run evs' st = Some st' \<Longrightarrow> rc_from (evs @ evs') st'"
proof (induction evs' arbitrary: st evs)
  case (Cons ev evs')
  then obtain st1 where "rc_step ev st = Some st1" "rc_run evs' st1 = Some st'" by (auto split: option.splits)
  then show ?case using Cons.IH[of st1 "evs @ [ev]"] Cons.prems rc_inv_step rc_from_step by simp
qed simp

text \<open>
  C30. Job promises settle exactly once, with the job's own result: after any history of awaits,
  messages, subscriptions and timers, each promise is either settled by exactly one entry or has
  a timer armed, not both; one that was resolved was resolved by a terminal event received for
  the very job it awaits; and an unsettled one is settled by its timer as soon as that is due.
\<close>

theorem job_promises_settle_once:
  assumes "rc_run evs rc_new = Some st" "n < length (awaited evs)"
  shows "length (filter (\<lambda>(k, _). k = n) (rc_settled st)) + length (filter (\<lambda>(k, _). k = n) (rc_timers st)) = 1 \<and>
     (\<forall>e. (n, ResolvedWith e) \<in> set (rc_settled st) \<longrightarrow> terminal_event e \<and> Received (awaited evs ! n) e \<in> set evs) \<and>
     (\<forall>p now. (n, p) \<in> set (rc_timers st) \<and> jp_due p \<le> now \<longrightarrow>
        (\<exists>st'. timeout_fired now n st = Some st' \<and> (n, TimedOut (awaited evs ! n)) \<in> set (rc_settled st')))"
proof -
  have inv: "rc_inv st" by (rule rc_run_inv[OF rc_inv_new assms(1)])
  have fr: "rc_from evs st"
    using rc_run_from[OF rc_inv_new, of "[]"] assms(1) by (simp add: rc_from_def rc_new_def)
  have once: "length (filter (\<lambda>(k, _). k = n) xs) = (if n \<in> set (map fst xs) then 1 else 0)"
    if "distinct (map fst xs)" for xs :: "(nat \<times> 'z) list"
    using that by (induction xs) (auto simp: filter_empty_conv image_iff)
  have "n \<in> {..< rc_next st}" using fr assms(2) by (simp add: rc_from_def)
  then have "length (filter (\<lambda>(k, _). k = n) (rc_settled st)) + length (filter (\<lambda>(k, _). k = n) (rc_timers st)) = 1"
    using inv once[of "rc_settled st"] once[of "rc_timers st"] unfolding rc_inv_def distinct_append
    by (auto simp del: set_map)
  moreover have "terminal_event e \<and> Received (awaited evs ! n) e \<in> set evs" if "(n, ResolvedWith e) \<in> set (rc_settled st)" for e
    using fr that by (fastforce simp: rc_from_def settled_from_def)
  moreover have "\<exists>st'. timeout_fired now n st = Some st' \<and> (n, TimedOut (awaited evs ! n)) \<in> set (rc_settled st')"
    if "(n, p) \<in> set (rc_timers st)" "jp_due p \<le> now" for p now
  proof -
    have "map_of (rc_timers st) n = Some p" using inv that(1) by (simp add: rc_inv_def)
    moreover have "jp_job p = awaited evs ! n" using fr that(1) by (fastforce simp: rc_from_def timer_from_def)
    ultimately show ?thesis using that(2) by (simp add: timeout_fired_def)
  qed
  ultimately show ?thesis by blast
qed

definition job_history_ex :: "rc_event list" where
  "job_history_ex =
     [AwaitJob 0 ''a'' None, AwaitJob 5 ''b'' (Some 100), Subscribe ''a'' 7,
      Received ''a'' (ProgressEvent ''build'' None None), Received ''a'' (Succeeded None),
      Received ''a'' (FailedEvent ''late'' ''ignored''), TimeoutFired 105 1]"

theorem job_promises_settle_once_witness:
  "length (filter (\<lambda>(k, _). k = 0) (rc_settled (the (rc_run job_history_ex rc_new)))) +
   length (filter (\<lambda>(k, _). k = 0) (rc_timers (the (rc_run job_history_ex rc_new)))) = 1"
proof -
  have "rc_run job_history_ex rc_new \<noteq> None" by code_simp
  then have run: "rc_run job_history_ex rc_new = Some (the (rc_run job_history_ex rc_new))" by simp
  have "0 < length (awaited job_history_ex)" by code_simp
  from job_promises_settle_once[OF run this] show ?thesis by blast
qed


section \<open>What a transport is\<close>

text \<open>
  A transport does with a message what \<open>receive_event\<close> does for the job and the event the message
  names, and nothing when it names none.
\<close>

locale result_channel =
  fixes take_message :: "'m \<Rightarrow> receiver \<Rightarrow> receiver"
    and message_names :: "'m \<Rightarrow> (string \<times> job_event) option"
  assumes take_none: "message_names m = None \<Longrightarrow> take_message m st = st"
    and take_some: "message_names m = Some (jobId, e) \<Longrightarrow> take_message m st = receive_event jobId e st"
begin

lemma take_step:
  "take_message m st = st \<or> (\<exists>jobId e. message_names m = Some (jobId, e) \<and>
     rc_step (Received jobId e) st = Some (take_message m st))"
  using take_none take_some by (cases "message_names m") force+

lemma take_inv: "rc_inv st \<Longrightarrow> rc_inv (take_message m st)"
  using take_step rc_inv_step by metis

lemma settled_by_name:
  assumes "(n, x) \<in> set (rc_settled (take_message m st))" "(n, x) \<notin> set (rc_settled st)"
  shows "\<exists>jobId e. message_names m = Some (jobId, e) \<and> x = ResolvedWith e \<and> terminal_event e \<and>
    map_of (rc_pending st) jobId = Some n"
proof -
  obtain jobId e where "message_names m = Some (jobId, e)" "take_message m st = receive_event jobId e st"
    using assms take_none take_some by (cases "message_names m") auto
  then show ?thesis
    using assms by (auto simp: receive_event_def drop_job_def call_handler_def
        split: option.splits job_event.splits if_splits)
qed

end

definition http_names :: "http_env \<Rightarrow> string \<Rightarrow> callback_request \<Rightarrow> (string \<times> job_event) option" where
  "http_names env secret req =
     (if cr_method req \<noteq> ''POST'' then None
      else
        (case (Option.bind (he_pathname env (coalesce (cr_url req) [])) last_segment,
               verifyAndParseCallback env (cr_body req) (cr_signature req) secret) of
           (Some jobId, Inr e) \<Rightarrow> Some (jobId, e) | _ \<Rightarrow> None))"

interpretation http: result_channel "\<lambda>req st. snd (handleRequest env secret req st)" "http_names env secret"
  for env secret
  by unfold_locales (auto simp: http_names_def handleRequest_def split: option.splits sum.splits if_splits)

definition nats_names :: "(string \<Rightarrow> job_event option) \<Rightarrow> string \<Rightarrow> nats_message \<Rightarrow> (string \<times> job_event) option" where
  "nats_names decode prefix m =
     (let jobId = drop (length prefix + 1) (nm_subject m) in
      if jobId = [] then None else map_option (\<lambda>e. (jobId, e)) (decode (nm_data m)))"

interpretation nats: result_channel "nats_consume decode prefix" "nats_names decode prefix"
  for decode prefix
  by unfold_locales (auto simp: nats_names_def nats_consume_def Let_def split: option.splits if_splits)

text \<open>
  C31. Only the holder of the secret can settle a job over HTTP: when a request settles a promise,
  it is a POST signed with the digest of its body under the receiver's secret, the promise was
  pending for the job its path names, and the result is the terminal event of that body. A request
  with another signature is answered 401, 405 or 500 and changes nothing.
\<close>

theorem only_signed_callbacks_settle:
  "(\<forall>n x. (n, x) \<in> set (rc_settled (snd (handleRequest env secret req st))) \<and> (n, x) \<notin> set (rc_settled st) \<longrightarrow>
      cr_method req = ''POST'' \<and> cr_signature req = Some (''sha256='' @ he_hmac env secret (cr_body req)) \<and>
      (\<exists>path jobId e. he_pathname env (coalesce (cr_url req) []) = Some path \<and> last_segment path = Some jobId \<and>
         map_of (rc_pending st) jobId = Some n \<and> he_parse env (cr_body req) = Some e \<and> terminal_event e \<and>
         x = ResolvedWith e)) \<and>
   (cr_signature req \<noteq> Some (''sha256='' @ he_hmac env secret (cr_body req)) \<longrightarrow>
      fst (handleRequest env secret req st) \<in> {401, 405, 500} \<and> snd (handleRequest env secret req st) = st)"
proof (intro conjI allI impI)
  fix n x
  assume a: "(n, x) \<in> set (rc_settled (snd (handleRequest env secret req st))) \<and> (n, x) \<notin> set (rc_settled st)"
  then obtain jobId e where j: "http_names env secret req = Some (jobId, e)" "x = ResolvedWith e" "terminal_event e"
    "map_of (rc_pending st) jobId = Some n"
    using http.settled_by_name[of n x env secret req st] by blast
  then show "cr_method req = ''POST''"
    and "cr_signature req = Some (''sha256='' @ he_hmac env secret (cr_body req))"
    and "\<exists>path jobId e. he_pathname env (coalesce (cr_url req) []) = Some path \<and> last_segment path = Some jobId \<and>
         map_of (rc_pending st) jobId = Some n \<and> he_parse env (cr_body req) = Some e \<and> terminal_event e \<and>
         x = ResolvedWith e"
    by (auto simp: http_names_def verifyAndParseCallback_def Let_def bind_eq_Some_conv
        split: option.splits sum.splits if_splits; cases "cr_signature req"; force)+
next
  assume "cr_signature req \<noteq> Some (''sha256='' @ he_hmac env secret (cr_body req))"
  then have "verifyAndParseCallback env (cr_body req) (cr_signature req) secret = Inl CallbackAuthError"
    by (cases "cr_signature req") (auto simp: verifyAndParseCallback_def Let_def)
  then show "fst (handleRequest env secret req st) \<in> {401, 405, 500}" "snd (handleRequest env secret req st) = st"
    by (auto simp: handleRequest_def split: option.splits)
qed

definition http_env_ex :: http_env where
  "http_env_ex = \<lparr>he_hmac = (\<lambda>secret body. secret @ body), he_parse = (\<lambda>_. Some (Succeeded None)),
     he_pathname = Some\<rparr>"

definition signed_request_ex :: callback_request where
  "signed_request_ex = \<lparr>cr_method = ''POST'', cr_url = Some ''/callback/a'', cr_body = ''b'',
     cr_signature = Some ''sha256=kb''\<rparr>"

theorem only_signed_callbacks_settle_witness:
  "(0, ResolvedWith (Succeeded None)) \<in>
     set (rc_settled (snd (handleRequest http_env_ex ''k'' signed_request_ex (awaitJob 0 ''a'' None rc_new)))) \<and>
   (\<exists>path jobId e. he_pathname http_env_ex (coalesce (cr_url signed_request_ex) []) = Some path \<and>
      last_segment path = Some jobId \<and> map_of (rc_pending (awaitJob 0 ''a'' None rc_new)) jobId = Some 0 \<and>
      he_parse http_env_ex (cr_body signed_request_ex) = Some e \<and> terminal_event e \<and>
      ResolvedWith (Succeeded None) = ResolvedWith e)"
proof -
  have "(0, ResolvedWith (Succeeded None)) \<in>
     set (rc_settled (snd (handleRequest http_env_ex ''k'' signed_request_ex (awaitJob 0 ''a'' None rc_new))))"
    "(0, ResolvedWith (Succeeded None)) \<notin> set (rc_settled (awaitJob 0 ''a'' None rc_new))"
    by code_simp+
  then show ?thesis
    using only_signed_callbacks_settle[of http_env_ex "''k''" signed_request_ex "awaitJob 0 ''a'' None rc_new"] by blast
qed

lemma js_split_append: "js_split c (s @ c # t) = js_split c s @ js_split c t"
  by (induction s) (auto split: list.splits)

lemma js_split_one: "c \<notin> set w \<Longrightarrow> js_split c w = [w]"
  by (induction w) auto

text \<open>
  The address given to a job leads back to it: for a job id that is not empty and has no
  slash, as a UUID has, the last segment of the callback path and the subject with its prefix
  removed are the id, so a message sent there names this job and no other.
\<close>

theorem job_address_round_trip:
  assumes "jobId \<noteq> []" "CHR ''/'' \<notin> set jobId"
  shows "last_segment (base @ ''/callback/'' @ jobId) = Some jobId \<and>
     nats_names decode ''callbacks'' \<lparr>nm_subject = ''callbacks.'' @ jobId, nm_data = d\<rparr> =
       map_option (\<lambda>e. (jobId, e)) (decode d)"
proof -
  have "js_split CHR ''/'' ((base @ ''/callback'') @ CHR ''/'' # jobId) = js_split CHR ''/'' (base @ ''/callback'') @ [jobId]"
    using js_split_append[of "CHR ''/''" "base @ ''/callback''" jobId] js_split_one[OF assms(2)] by metis
  then show ?thesis using assms(1) by (simp add: last_segment_def Let_def nats_names_def)
qed

theorem job_address_round_trip_witness:
  "last_segment (''/orch'' @ ''/callback/'' @ ''550e8400'') = Some ''550e8400''"
  using job_address_round_trip[of "''550e8400''" "''/orch''"] by simp

end
