(* ===== verification/Js_Number.thy ===== *)
theory Js_Number
  imports Js_Value "HOL-Library.List_Lexorder" "HOL-Library.Char_ord"
begin

text \<open>
  JavaScript numbers: the finite ones are rationals, rounded to 53 significant bits where a value
  is converted (\<open>Number(x)\<close> of a BigInt or of a digit string), and their decimal text
  (\<open>Number.prototype.toString\<close>: the shortest digits that convert back). The two zeros are
  identified. Strings are ordered by code unit, which is the order \<open>sort()\<close> uses.
\<close>

section \<open>Rounding to a double\<close>

datatype js_double = Fin rat | PosInf | NegInf | NaN

definition pow2 :: "int \<Rightarrow> rat" where
  "pow2 e = (if 0 \<le> e then 2 ^ nat e else 1 / 2 ^ nat (- e))"

definition pow10 :: "int \<Rightarrow> rat" where
  "pow10 e = (if 0 \<le> e then 10 ^ nat e else 1 / 10 ^ nat (- e))"

text \<open>The exponent of the last significant bit: the first \<open>e\<close> with \<open>x < 2 ^ (e + 53)\<close>.\<close>

fun ulp_search :: "nat \<Rightarrow> int \<Rightarrow> rat \<Rightarrow> int" where
  "ulp_search 0 e x = e"
| "ulp_search (Suc n) e x = (if x < pow2 (e + 53) then e else ulp_search n (e + 1) x)"

definition ulp_exponent :: "rat \<Rightarrow> int" where
  "ulp_exponent x = (if x < 1 then ulp_search 1022 (- 1074) x else ulp_search 1024 (- 52) x)"

definition round_half_even :: "rat \<Rightarrow> int" where
  "round_half_even y =
     (let f = \<lfloor>y\<rfloor>; d = y - of_int f in
      if d < 1 / 2 then f else if 1 / 2 < d then f + 1 else if even f then f else f + 1)"

definition round_positive :: "rat \<Rightarrow> rat" where
  "round_positive x = (let e = ulp_exponent x in of_int (round_half_even (x / pow2 e)) * pow2 e)"

definition js_Number :: "rat \<Rightarrow> js_double" where
  "js_Number x =
     (if x = 0 then Fin 0
      else
        (let r = round_positive \<bar>x\<bar> in
         if pow2 1024 \<le> r then (if 0 < x then PosInf else NegInf)
         else Fin (if 0 < x then r else - r)))"

definition is_integer :: "rat \<Rightarrow> bool" where
  "is_integer x \<longleftrightarrow> of_int \<lfloor>x\<rfloor> = x"

definition isSafeInteger :: "js_double \<Rightarrow> bool" where
  "isSafeInteger d \<longleftrightarrow> (case d of Fin x \<Rightarrow> is_integer x \<and> \<bar>x\<bar> \<le> 2 ^ 53 - 1 | _ \<Rightarrow> False)"


section \<open>Decimal text\<close>

fun dec_search :: "nat \<Rightarrow> int \<Rightarrow> rat \<Rightarrow> int" where
  "dec_search 0 n x = n"
| "dec_search (Suc k) n x = (if x < pow10 n then n else dec_search k (n + 1) x)"

text \<open>The \<open>n\<close> with \<open>10 ^ (n - 1) \<le> x < 10 ^ n\<close>.\<close>

definition dec_exponent :: "rat \<Rightarrow> int" where
  "dec_exponent x = (if x < 1 then dec_search 324 (- 323) x else dec_search 310 1 x)"

text \<open>With \<open>k\<close> digits: the digits and the exponent that convert back to \<open>x\<close>, the closer of two.\<close>

definition digits_with :: "rat \<Rightarrow> nat \<Rightarrow> (int \<times> int) option" where
  "digits_with x k =
     (let n = dec_exponent x; u = pow10 (n - int k); lo = \<lfloor>x / u\<rfloor>; hi = lo + 1;
          ok = (\<lambda>s. 0 < s \<and> round_positive (of_int s * u) = x);
          norm = (\<lambda>s. if s = 10 ^ k then (10 ^ (k - 1), n + 1) else (s, n)) in
      if ok lo \<and> (\<not> ok hi \<or> x - of_int lo * u \<le> of_int hi * u - x) then Some (norm lo)
      else if ok hi then Some (norm hi) else None)"

fun shortest_digits :: "rat \<Rightarrow> nat \<Rightarrow> nat \<Rightarrow> int \<times> int \<times> nat" where
  "shortest_digits x k 0 = (0, 0, 1)"
| "shortest_digits x k (Suc fuel) =
     (case digits_with x k of Some (s, n) \<Rightarrow> (s, n, k) | None \<Rightarrow> shortest_digits x (Suc k) fuel)"

definition positive_text :: "rat \<Rightarrow> string" where
  "positive_text x =
     (case shortest_digits x 1 17 of (s, n, k) \<Rightarrow>
        (let ds = js_nat_string (nat s); zeros = (\<lambda>m. replicate (nat m) CHR ''0'') in
         if int k \<le> n \<and> n \<le> 21 then ds @ zeros (n - int k)
         else if 0 < n \<and> n \<le> 21 then take (nat n) ds @ ''.'' @ drop (nat n) ds
         else if - 6 < n \<and> n \<le> 0 then ''0.'' @ zeros (- n) @ ds
         else
           (let e = n - 1; sign = (if e < 0 then ''-'' else ''+''); exp = js_nat_string (nat \<bar>e\<bar>) in
            if k = 1 then ds @ ''e'' @ sign @ exp
            else take 1 ds @ ''.'' @ drop 1 ds @ ''e'' @ sign @ exp)))"

definition js_number_text :: "rat \<Rightarrow> string" where
  "js_number_text x =
     (if x = 0 then ''0'' else if x < 0 then ''-'' @ positive_text (- x) else positive_text x)"

definition js_double_text :: "js_double \<Rightarrow> string" where
  "js_double_text d =
     (case d of Fin x \<Rightarrow> js_number_text x | PosInf \<Rightarrow> ''Infinity'' | NegInf \<Rightarrow> ''-Infinity'' | NaN \<Rightarrow> ''NaN'')"


section \<open>Exactness\<close>

lemma pow2_pos: "0 < pow2 e"
  by (simp add: pow2_def)

lemma pow2_add_nat: "0 \<le> e \<Longrightarrow> pow2 e = 2 ^ nat e"
  by (simp add: pow2_def)

lemma pow2_Suc: "pow2 (e + 1) = 2 * pow2 e"
proof (cases "0 \<le> e")
  case True
  then show ?thesis by (simp add: pow2_def nat_add_distrib)
next
  case False
  then have "nat (- e) = Suc (nat (- (e + 1)))" by simp
  then show ?thesis using False by (auto simp: pow2_def)
qed

lemma pow2_mono_Suc: "e \<le> e' \<Longrightarrow> pow2 e \<le> pow2 e'"
proof (induction "nat (e' - e)" arbitrary: e')
  case 0
  then show ?case by simp
next
  case (Suc n)
  then have "pow2 e \<le> pow2 (e' - 1)" by simp
  also have "\<dots> \<le> pow2 e'" using pow2_Suc[of "e' - 1"] pow2_pos[of "e' - 1"] by simp
  finally show ?case .
qed

lemma ulp_search_bounds:
  "e0 \<le> ulp_search n e0 x \<and> (e0 < ulp_search n e0 x \<longrightarrow> pow2 (ulp_search n e0 x - 1 + 53) \<le> x)"
proof (induction n arbitrary: e0)
  case (Suc n)
  have "pow2 (e0 + 53) \<le> x" if "\<not> x < pow2 (e0 + 53)" using that by simp
  then show ?case using Suc[of "e0 + 1"] by (cases "e0 + 1 < ulp_search n (e0 + 1) x") (auto simp: algebra_simps)
qed simp

lemma ulp_search_stop: "x < pow2 (e + 53) \<Longrightarrow> e0 \<le> e \<Longrightarrow> ulp_search n e0 x \<le> e"
proof (induction n arbitrary: e0)
  case (Suc n)
  show ?case
  proof (cases "x < pow2 (e0 + 53)")
    case False
    then have "e0 \<noteq> e" using Suc.prems(1) by auto
    then show ?thesis using Suc False by simp
  qed (use Suc.prems in simp)
qed simp

lemma ulp_search_hit: "x < pow2 (ulp_search n e0 x + 53) \<or> ulp_search n e0 x = e0 + int n"
proof (induction n arbitrary: e0)
  case (Suc n)
  show ?case using Suc.IH[of "e0 + 1"] by (auto simp: add.assoc)
qed simp

lemma pow2_add: "pow2 (e + int k) = 2 ^ k * pow2 e"
proof (induction k)
  case (Suc k)
  then show ?case using pow2_Suc[of "e + int k"] by (simp add: algebra_simps)
qed simp

lemma round_half_even_int: "round_half_even (of_int n) = n"
  by (simp add: round_half_even_def)

lemma round_half_even_ge: "of_int n \<le> y \<Longrightarrow> n \<le> round_half_even y"
  unfolding round_half_even_def Let_def using le_floor_iff[of n y] by auto

lemma round_positive_exact:
  assumes "0 < n" "n \<le> 2 ^ 53"
  shows "round_positive (of_int n) = of_int n"
proof -
  let ?e = "ulp_exponent (of_int n)"
  have n1: "\<not> (of_int n :: rat) < 1" using assms(1) by simp
  have up: "?e \<le> 1"
  proof -
    have "(of_int n :: rat) \<le> of_int (2 ^ 53)" using assms(2) by (simp only: of_int_le_iff)
    then have "(of_int n :: rat) < pow2 (1 + 53)" by (simp add: pow2_def)
    then show ?thesis using ulp_search_stop[of "of_int n" 1 "- 52" 1024] n1 by (simp add: ulp_exponent_def)
  qed
  have "\<exists>m. (of_int n :: rat) / pow2 ?e = of_int m"
  proof (cases "?e \<le> 0")
    case True
    then have "(of_int n :: rat) / pow2 ?e = of_int (n * 2 ^ nat (- ?e))" by (cases "?e = 0") (auto simp: pow2_def)
    then show ?thesis by blast
  next
    case False
    then have e1: "?e = 1" using up by simp
    have "- 52 < ulp_search 1024 (- 52) (of_int n)" using e1 n1 by (simp add: ulp_exponent_def)
    then have "pow2 (?e - 1 + 53) \<le> (of_int n :: rat)"
      using ulp_search_bounds[of "- 52" 1024 "of_int n"] n1 by (simp add: ulp_exponent_def)
    then have "(2 ^ 53 :: rat) \<le> of_int n" using e1 by (simp add: pow2_def)
    then have "n = 2 ^ 53" using assms(2) by (metis of_int_le_iff of_int_numeral of_int_power order_antisym)
    moreover have "of_int (2 ^ 53) / pow2 1 = (of_int (2 ^ 52) :: rat)" by (simp add: pow2_def)
    ultimately show ?thesis using e1 by metis
  qed
  then obtain m where m: "(of_int n :: rat) / pow2 ?e = of_int m" by blast
  then have "of_int m * pow2 ?e = (of_int n :: rat)" using pow2_pos[of ?e] by (simp add: field_simps)
  then show ?thesis by (simp only: round_positive_def Let_def m round_half_even_int)
qed

lemma round_positive_large:
  assumes "2 ^ 53 \<le> n"
  shows "2 ^ 53 \<le> round_positive (of_int n)"
proof -
  let ?x = "of_int n :: rat"
  let ?e = "ulp_search 1024 (- 52) ?x"
  have x: "(2 ^ 53 :: rat) \<le> ?x" using assms by (metis of_int_le_iff of_int_numeral of_int_power)
  then have ulp: "ulp_exponent ?x = ?e" by (simp add: ulp_exponent_def)
  have e: "1 \<le> ?e"
  proof (rule ccontr)
    assume low: "\<not> 1 \<le> ?e"
    then have "?x < pow2 (?e + 53)" using ulp_search_hit[of ?x 1024 "- 52"] by simp
    also have "\<dots> \<le> pow2 53" using low by (intro pow2_mono_Suc) simp
    finally show False using x by (simp add: pow2_def)
  qed
  then have "pow2 (?e - 1 + 53) \<le> ?x" using ulp_search_bounds[of "- 52" 1024 ?x] by simp
  then have "2 ^ 52 * pow2 ?e \<le> ?x" using pow2_add[of ?e 52] by (simp add: algebra_simps)
  then have "of_int (2 ^ 52) \<le> ?x / pow2 ?e" using pow2_pos[of ?e] by (simp add: field_simps)
  then have "2 ^ 52 \<le> round_half_even (?x / pow2 ?e)" by (rule round_half_even_ge)
  then have "(2 ^ 52 :: rat) \<le> of_int (round_half_even (?x / pow2 ?e))"
    by (metis of_int_le_iff of_int_numeral of_int_power)
  moreover have "(2 :: rat) \<le> pow2 ?e" using pow2_mono_Suc[OF e] by (simp add: pow2_def)
  ultimately have "2 ^ 52 * 2 \<le> of_int (round_half_even (?x / pow2 ?e)) * pow2 ?e"
    by (intro mult_mono) auto
  then show ?thesis by (simp add: round_positive_def ulp Let_def)
qed

text \<open>An integer converts exactly up to \<open>2 ^ 53\<close>, and a safe integer is one below that.\<close>

lemma js_Number_exact: "\<bar>n\<bar> \<le> 2 ^ 53 \<Longrightarrow> js_Number (of_int n) = Fin (of_int n)"
proof -
  assume n: "\<bar>n\<bar> \<le> 2 ^ 53"
  show ?thesis
  proof (cases "n = 0")
    case False
    have abs: "\<bar>of_int n :: rat\<bar> = of_int \<bar>n\<bar>" by simp
    have r: "round_positive \<bar>of_int n\<bar> = of_int \<bar>n\<bar>"
      unfolding abs using False n by (intro round_positive_exact) auto
    have "(of_int \<bar>n\<bar> :: rat) \<le> 2 ^ 53" using n by (metis of_int_le_iff of_int_numeral of_int_power)
    moreover have "(2 ^ 53 :: rat) < pow2 1024" by (simp add: pow2_def)
    ultimately have "\<not> pow2 1024 \<le> (of_int \<bar>n\<bar> :: rat)" by linarith
    then show ?thesis using False by (auto simp: js_Number_def Let_def r)
  qed (simp add: js_Number_def)
qed

lemma js_Number_safe: "0 \<le> n \<Longrightarrow> isSafeInteger (js_Number (of_int n)) \<longleftrightarrow> n < 2 ^ 53"
proof
  assume n: "0 \<le> n" "isSafeInteger (js_Number (of_int n))"
  show "n < 2 ^ 53"
  proof (rule ccontr)
    assume "\<not> n < 2 ^ 53"
    then have big: "2 ^ 53 \<le> n" by simp
    then have "(2 ^ 53 :: rat) \<le> round_positive \<bar>of_int n\<bar>" using n(1) round_positive_large[OF big] by simp
    then show False
      using n big by (auto simp: js_Number_def isSafeInteger_def Let_def split: if_splits)
  qed
next
  assume n: "0 \<le> n" "n < 2 ^ 53"
  then have "(of_int n :: rat) \<le> of_int (2 ^ 53 - 1)" by (simp only: of_int_le_iff)
  then show "isSafeInteger (js_Number (of_int n))"
    using n js_Number_exact[of n] by (simp add: isSafeInteger_def is_integer_def)
qed

end
