(* ===== verification/Event_Values.thy ===== *)
theory Event_Values
  imports Js_Number "HOL-Library.Multiset"
begin

text \<open>
  \<open>packages/event-triggers/src/values.ts\<close>: CEL values, their JSON form with the type pinned, their
  canonical text, and the string a template gets.

  A CEL value outside the supported types (uint, bytes, timestamps and so on) is
  \<open>CUnsupported\<close> with the name the error message gives it. An error is its message.
\<close>

section \<open>Values\<close>

datatype CelValue =
    CNull
  | CBool bool
  | CInt int
  | CDouble js_double
  | CString string
  | CList "CelValue list"
  | CMap "(string \<times> CelValue) list"
  | CUnsupported string

datatype CelTypeName = TInt | TDouble | TString | TBool | TList | TMap | TNull | TUnsupported

record TypedParam =
  tp_value :: json
  tp_type :: CelTypeName

definition INT64_MIN :: rat where "INT64_MIN = - (2 ^ 63)"

definition INT64_LIMIT :: rat where "INT64_LIMIT = 2 ^ 63"

definition setOwn :: "(string \<times> 'a) list \<Rightarrow> string \<Rightarrow> 'a \<Rightarrow> (string \<times> 'a) list" where
  "setOwn obj key value = AList.update key value obj"

fun normalizeJson :: "json \<Rightarrow> CelValue" where
  "normalizeJson JNull = CNull"
| "normalizeJson (JBool b) = CBool b"
| "normalizeJson (JString s) = CString s"
| "normalizeJson (JNumber x) =
     (if is_integer x \<and> INT64_MIN \<le> x \<and> x < INT64_LIMIT then CInt \<lfloor>x\<rfloor> else CDouble (Fin x))"
| "normalizeJson (JArray vs) = CList (map normalizeJson vs)"
| "normalizeJson (JObject ms) = CMap (map (\<lambda>(k, v). (k, normalizeJson v)) ms)"

definition celTypeOf :: "CelValue \<Rightarrow> CelTypeName" where
  "celTypeOf v =
     (case v of CNull \<Rightarrow> TNull | CBool _ \<Rightarrow> TBool | CInt _ \<Rightarrow> TInt | CDouble _ \<Rightarrow> TDouble | CString _ \<Rightarrow> TString
      | CList _ \<Rightarrow> TList | CMap _ \<Rightarrow> TMap | CUnsupported _ \<Rightarrow> TUnsupported)"

definition unsupported_type :: "string \<Rightarrow> string" where
  "unsupported_type d = ''unsupported CEL value type '' @ d"

text \<open>The first error of a list, or all results.\<close>

fun all_results :: "('e + 'a) list \<Rightarrow> 'e + 'a list" where
  "all_results [] = Inr []"
| "all_results (Inl e # rs) = Inl e"
| "all_results (Inr x # rs) = (case all_results rs of Inl e \<Rightarrow> Inl e | Inr xs \<Rightarrow> Inr (x # xs))"

text \<open>The number of a double that JSON can hold; a BigInt converts to the nearest double.\<close>

definition json_number :: "js_double \<Rightarrow> string + json" where
  "json_number d =
     (case d of Fin x \<Rightarrow> Inr (JNumber x)
      | _ \<Rightarrow> Inl (''non-finite double '' @ js_double_text d @ '' is not representable as JSON''))"

definition int_number :: "int \<Rightarrow> json" where
  "int_number n = (case js_Number (of_int n) of Fin x \<Rightarrow> JNumber x | _ \<Rightarrow> JNull)"

fun toJsonValue :: "CelValue \<Rightarrow> string + json" where
  "toJsonValue CNull = Inr JNull"
| "toJsonValue (CBool b) = Inr (JBool b)"
| "toJsonValue (CInt n) = Inr (int_number n)"
| "toJsonValue (CDouble d) = json_number d"
| "toJsonValue (CString s) = Inr (JString s)"
| "toJsonValue (CList vs) = map_sum id JArray (all_results (map toJsonValue vs))"
| "toJsonValue (CMap ms) =
     map_sum id JObject (all_results (map (\<lambda>(k, v). map_sum id (\<lambda>j. (k, j)) (toJsonValue v)) ms))"
| "toJsonValue (CUnsupported d) = Inl (unsupported_type d)"

definition toTypedParam :: "CelValue \<Rightarrow> string + TypedParam" where
  "toTypedParam v =
     (case v of CUnsupported d \<Rightarrow> Inl (unsupported_type d)
      | _ \<Rightarrow> map_sum id (\<lambda>j. \<lparr>tp_value = j, tp_type = celTypeOf v\<rparr>) (toJsonValue v))"

definition fromTypedParam :: "TypedParam \<Rightarrow> string + CelValue" where
  "fromTypedParam p =
     (case tp_type p of
        TInt \<Rightarrow>
          (case tp_value p of
             JNumber x \<Rightarrow> if is_integer x then Inr (CInt \<lfloor>x\<rfloor>)
                            else Inl ''fromTypedParam: int param must be an integral number''
           | _ \<Rightarrow> Inl ''fromTypedParam: int param must be an integral number'')
      | TDouble \<Rightarrow>
          (case tp_value p of
             JNumber x \<Rightarrow> Inr (CDouble (Fin x))
           | _ \<Rightarrow> Inl ''fromTypedParam: double param must be a number'')
      | _ \<Rightarrow> Inr (normalizeJson (tp_value p)))"


section \<open>Text\<close>

definition formatDouble :: "js_double \<Rightarrow> string + string" where
  "formatDouble d =
     (case d of Fin x \<Rightarrow> Inr (js_number_text x)
      | _ \<Rightarrow> Inl (''non-finite double '' @ js_double_text d @ '' is not representable''))"

text \<open>\<open>JSON.stringify\<close> of a string: the escapes of quotes, backslashes and control characters.\<close>

definition escape_char :: "char \<Rightarrow> string" where
  "escape_char c =
     (let n = (of_char c :: nat); lower = (\<lambda>d. if d < 10 then char_of (48 + d) else char_of (87 + d :: nat)) in
      if c = CHR 0x22 then [CHR 0x5C, CHR 0x22]
      else if c = CHR 0x5C then [CHR 0x5C, CHR 0x5C]
      else if n = 8 then CHR 0x5C # ''b''
      else if n = 9 then CHR 0x5C # ''t''
      else if n = 10 then CHR 0x5C # ''n''
      else if n = 12 then CHR 0x5C # ''f''
      else if n = 13 then CHR 0x5C # ''r''
      else if n < 32 then CHR 0x5C # ''u00'' @ [lower (n div 16), lower (n mod 16)]
      else [c])"

definition js_stringify :: "string \<Rightarrow> string" where
  "js_stringify s = CHR 0x22 # concat (map escape_char s) @ [CHR 0x22]"

fun canonicalJson :: "CelValue \<Rightarrow> string + string" where
  "canonicalJson CNull = Inr ''null''"
| "canonicalJson (CInt n) = Inr (int_string n)"
| "canonicalJson (CDouble d) = formatDouble d"
| "canonicalJson (CString s) = Inr (js_stringify s)"
| "canonicalJson (CBool b) = Inr (if b then ''true'' else ''false'')"
| "canonicalJson (CList vs) =
     map_sum id (\<lambda>ts. ''['' @ js_join '','' ts @ '']'') (all_results (map canonicalJson vs))"
| "canonicalJson (CMap ms) =
     map_sum id (\<lambda>ts. ''{'' @ js_join '','' ts @ ''}'')
       (all_results (map snd (sort_key fst
          (map (\<lambda>(k, v). (k, map_sum id (\<lambda>t. js_stringify k @ '':'' @ t) (canonicalJson v))) ms))))"
| "canonicalJson (CUnsupported d) = Inl (unsupported_type d)"

definition paramToString :: "CelValue \<Rightarrow> string + string" where
  "paramToString v =
     (case v of CNull \<Rightarrow> Inr [] | CString s \<Rightarrow> Inr s | CInt n \<Rightarrow> Inr (int_string n) | CDouble d \<Rightarrow> formatDouble d
      | CBool b \<Rightarrow> Inr (if b then ''true'' else ''false'') | _ \<Rightarrow> canonicalJson v)"


section \<open>Facts\<close>

lemma list_choice: "\<forall>x \<in> set xs. \<exists>y. P x y \<Longrightarrow> \<exists>ys. list_all2 P xs ys"
proof (induction xs)
  case (Cons x xs)
  then obtain y ys where "P x y" "list_all2 P xs ys" by auto
  then show ?case by (intro exI[of _ "y # ys"]) simp
qed (rule exI[of _ "[]"], simp)

text \<open>Values a param keeps through JSON: no integer above \<open>2 ^ 53\<close>, and inside a list or a map no
  double that JSON cannot tell from an integer.\<close>

fun survives_json :: "CelValue \<Rightarrow> bool" where
  "survives_json (CInt n) \<longleftrightarrow> \<bar>n\<bar> \<le> 2 ^ 53"
| "survives_json (CDouble d) \<longleftrightarrow>
     (case d of Fin x \<Rightarrow> \<not> (is_integer x \<and> INT64_MIN \<le> x \<and> x < INT64_LIMIT) | _ \<Rightarrow> False)"
| "survives_json (CList vs) \<longleftrightarrow> list_all survives_json vs"
| "survives_json (CMap ms) \<longleftrightarrow> list_all (\<lambda>(k, v). survives_json v) ms"
| "survives_json (CUnsupported d) \<longleftrightarrow> False"
| "survives_json _ \<longleftrightarrow> True"

lemma int_number_exact: "\<bar>n\<bar> \<le> 2 ^ 53 \<Longrightarrow> int_number n = JNumber (of_int n)"
  by (simp add: int_number_def js_Number_exact)

lemma int64_of_safe: "\<bar>n\<bar> \<le> 2 ^ 53 \<Longrightarrow> INT64_MIN \<le> of_int n \<and> of_int n < INT64_LIMIT"
proof -
  assume n: "\<bar>n\<bar> \<le> 2 ^ 53"
  then have "- (2 ^ 63) \<le> n" "n < 2 ^ 63" by auto
  then have "of_int (- (2 ^ 63)) \<le> (of_int n :: rat)" "(of_int n :: rat) < of_int (2 ^ 63)"
    by (simp_all only: of_int_le_iff of_int_less_iff)
  then show ?thesis by (simp add: INT64_MIN_def INT64_LIMIT_def)
qed

lemma json_round_trip: "survives_json v \<Longrightarrow> \<exists>j. toJsonValue v = Inr j \<and> normalizeJson j = v"
proof (induction v rule: survives_json.induct)
  case (1 n)
  then show ?case using int64_of_safe[of n] by (simp add: int_number_exact is_integer_def)
next
  case (2 d)
  then show ?case by (auto simp: json_number_def split: js_double.splits)
next
  case (3 vs)
  then have "\<forall>v \<in> set vs. \<exists>j. toJsonValue v = Inr j \<and> normalizeJson j = v" by (auto simp: list_all_iff)
  from list_choice[OF this] obtain js where
    "list_all2 (\<lambda>v j. toJsonValue v = Inr j \<and> normalizeJson j = v) vs js" ..
  then have "all_results (map toJsonValue vs) = Inr js" "map normalizeJson js = vs"
    by (induction rule: list_all2_induct) auto
  then show ?case by simp
next
  case (4 ms)
  then have "\<forall>m \<in> set ms. \<exists>j. toJsonValue (snd m) = Inr j \<and> normalizeJson j = snd m" by (fastforce simp: list_all_iff)
  from list_choice[OF this] obtain js where
    "list_all2 (\<lambda>m j. toJsonValue (snd m) = Inr j \<and> normalizeJson j = snd m) ms js" ..
  then have "all_results (map (\<lambda>(k, v). map_sum id (\<lambda>j. (k, j)) (toJsonValue v)) ms) = Inr (zip (map fst ms) js) \<and>
      map (\<lambda>(k, v). (k, normalizeJson v)) (zip (map fst ms) js) = ms"
    by (induction rule: list_all2_induct) (auto split: prod.splits)
  then show ?case by simp
qed auto


text \<open>
  C24. Typed params round trip: a param whose value survives JSON comes back from its JSON form
  with the same value and type, integers as integers and doubles as doubles; a top-level double
  comes back as a double whatever it is. Inside a list the pinned type is lost, and an integral
  double comes back as an integer.
\<close>

theorem typed_param_round_trip:
  "(survives_json v \<or> (\<exists>x. v = CDouble (Fin x)) \<longrightarrow>
      (\<exists>p. toTypedParam v = Inr p \<and> tp_type p = celTypeOf v \<and> fromTypedParam p = Inr v)) \<and>
   toTypedParam (CList [CDouble (Fin 1)]) = Inr \<lparr>tp_value = JArray [JNumber 1], tp_type = TList\<rparr> \<and>
   fromTypedParam \<lparr>tp_value = JArray [JNumber 1], tp_type = TList\<rparr> = Inr (CList [CInt 1])"
proof (intro conjI impI)
  assume v: "survives_json v \<or> (\<exists>x. v = CDouble (Fin x))"
  show "\<exists>p. toTypedParam v = Inr p \<and> tp_type p = celTypeOf v \<and> fromTypedParam p = Inr v"
  proof (cases "\<exists>x. v = CDouble (Fin x)")
    case True
    then show ?thesis by (auto simp: toTypedParam_def celTypeOf_def fromTypedParam_def json_number_def)
  next
    case False
    then obtain j where j: "toJsonValue v = Inr j" "normalizeJson j = v" "survives_json v"
      using v json_round_trip by blast
    show ?thesis
      using j False
      by (cases v)
        (auto simp: toTypedParam_def celTypeOf_def fromTypedParam_def int_number_exact is_integer_def
          split: js_double.splits)
  qed
next
  show "toTypedParam (CList [CDouble (Fin 1)]) = Inr \<lparr>tp_value = JArray [JNumber 1], tp_type = TList\<rparr>"
    by (simp add: toTypedParam_def celTypeOf_def json_number_def)
  show "fromTypedParam \<lparr>tp_value = JArray [JNumber 1], tp_type = TList\<rparr> = Inr (CList [CInt 1])"
    by (simp add: fromTypedParam_def is_integer_def INT64_MIN_def INT64_LIMIT_def)
qed

definition param_ex :: CelValue where
  "param_ex = CMap [(''n'', CInt 7), (''xs'', CList [CString ''a'', CDouble (Fin (1 / 2)), CNull])]"

theorem typed_param_round_trip_witness:
  "\<exists>p. toTypedParam param_ex = Inr p \<and> tp_type p = celTypeOf param_ex \<and> fromTypedParam p = Inr param_ex"
proof -
  have "survives_json param_ex" by code_simp
  then show ?thesis using typed_param_round_trip[of param_ex] by blast
qed

text \<open>Values that are equal up to the order of the members of their maps, at every level.\<close>

inductive same_members :: "CelValue \<Rightarrow> CelValue \<Rightarrow> bool" where
  same_refl: "same_members v v"
| same_list: "list_all2 same_members vs ws \<Longrightarrow> same_members (CList vs) (CList ws)"
| same_map: "list_all2 (rel_prod (=) same_members) ms ns \<Longrightarrow> mset ns = mset ns' \<Longrightarrow> distinct (map fst ns) \<Longrightarrow>
    same_members (CMap ms) (CMap ns')"

lemma sort_key_unique:
  "mset xs = mset ys \<Longrightarrow> distinct (map fst xs) \<Longrightarrow> sort_key fst xs = sort_key fst ys"
  by (rule sort_key_inj_key_eq) (auto simp: distinct_map)

lemma list_all2_map_eq: "list_all2 (\<lambda>x y. f x = g y) xs ys \<Longrightarrow> map f xs = map g ys"
  by (induction rule: list_all2_induct) auto

text \<open>
  The canonical text is canonical: two values that differ only in the order of the members of
  their maps, at any level, have the same text (or the same error).
\<close>

theorem canonical_json_ignores_member_order:
  assumes "same_members v w"
  shows "canonicalJson v = canonicalJson w"
  using assms
proof (induction rule: same_members.induct)
  case (same_list vs ws)
  then have "list_all2 (\<lambda>x y. canonicalJson x = canonicalJson y) vs ws"
    by (auto elim!: list_all2_mono)
  then show ?case using list_all2_map_eq by force
next
  case (same_map ms ns ns')
  let ?f = "\<lambda>(k, v). (k, map_sum id (\<lambda>t. js_stringify k @ '':'' @ t) (canonicalJson v))"
  have "list_all2 (\<lambda>x y. ?f x = ?f y) ms ns"
    using same_map(1) by (auto elim!: list_all2_mono)
  then have "map ?f ms = map ?f ns" by (rule list_all2_map_eq)
  moreover have "sort_key fst (map ?f ns) = sort_key fst (map ?f ns')"
    using same_map by (intro sort_key_unique) (auto simp: o_def case_prod_unfold)
  ultimately show ?case by simp
qed simp

theorem canonical_json_ignores_member_order_witness:
  "canonicalJson (CMap [(''b'', CInt 1), (''a'', CNull)]) = canonicalJson (CMap [(''a'', CNull), (''b'', CInt 1)])"
  by (rule canonical_json_ignores_member_order, rule same_map[where ns = "[(''b'', CInt 1), (''a'', CNull)]"])
    (auto intro: same_refl)

end
