(* ===== verification/Event_Template.thy ===== *)
theory Event_Template
  imports Event_Values
begin

text \<open>
  \<open>packages/event-triggers/src/template.ts\<close>: replacement of \<open>{{ name }}\<close> placeholders. The
  pattern is matched at each position from the left, as the regular expression is: its parts are
  disjoint classes, so a match at a position is unique. The result of a substitution is not
  scanned again, which the reference definition over segments makes explicit.
\<close>

definition tpl_space :: "char \<Rightarrow> bool" where
  "tpl_space c \<longleftrightarrow> of_char c \<in> {32, 9, 10, 12, 13 :: nat}"

definition tpl_name_char :: "char \<Rightarrow> bool" where
  "tpl_name_char c \<longleftrightarrow> \<not> tpl_space c \<and> c \<noteq> CHR ''{'' \<and> c \<noteq> CHR ''}''"

text \<open>A placeholder at the front of a string: its name, its own text and what follows.\<close>

definition match_placeholder :: "string \<Rightarrow> (string \<times> string \<times> string) option" where
  "match_placeholder s =
     (if take 2 s \<noteq> ''{{'' then None
      else
        (let afterSpace = dropWhile tpl_space (drop 2 s);
             name = takeWhile tpl_name_char afterSpace;
             rest = dropWhile tpl_space (dropWhile tpl_name_char afterSpace) in
         if name = [] \<or> take 2 rest \<noteq> ''}}'' then None
         else Some (name, take (length s - length (drop 2 rest)) s, drop 2 rest)))"

lemma match_placeholder_shorter: "match_placeholder s = Some (name, whole, rest) \<Longrightarrow> length rest < length s"
proof -
  assume a: "match_placeholder s = Some (name, whole, rest)"
  let ?a = "dropWhile tpl_space (drop 2 s)"
  let ?r = "dropWhile tpl_space (dropWhile tpl_name_char ?a)"
  have "rest = drop 2 ?r" "take 2 s = ''{{''"
    using a by (auto simp: match_placeholder_def Let_def split: if_splits)
  moreover have "length ?r \<le> length (drop 2 s)"
    using length_dropWhile_le[of tpl_space "drop 2 s"] length_dropWhile_le[of tpl_name_char ?a]
      length_dropWhile_le[of tpl_space "dropWhile tpl_name_char ?a"] by simp
  moreover have "2 \<le> length s" using \<open>take 2 s = ''{{''\<close> by (cases s; cases "tl s") auto
  ultimately show ?thesis by simp
qed

text \<open>A known placeholder becomes its text, an unknown one stays as it was written.\<close>

definition placeholder_text :: "(string \<times> CelValue) list \<Rightarrow> string \<Rightarrow> string \<Rightarrow> string + string" where
  "placeholder_text params name whole =
     (case map_of params name of Some v \<Rightarrow> paramToString v | None \<Rightarrow> Inr whole)"

function renderTemplate :: "string \<Rightarrow> (string \<times> CelValue) list \<Rightarrow> string + string" where
  "renderTemplate s params =
     (case s of
        [] \<Rightarrow> Inr []
      | c # cs \<Rightarrow>
          (case match_placeholder s of
             None \<Rightarrow> map_sum id (\<lambda>t. c # t) (renderTemplate cs params)
           | Some (name, whole, rest) \<Rightarrow>
               (case placeholder_text params name whole of
                  Inl e \<Rightarrow> Inl e
                | Inr t \<Rightarrow> map_sum id (\<lambda>u. t @ u) (renderTemplate rest params))))"
  by pat_completeness auto
termination
  by (relation "measure (\<lambda>(s, params). length s)") (auto dest: match_placeholder_shorter)

declare renderTemplate.simps [simp del]


section \<open>Segments\<close>

text \<open>The reference: the template cut once into characters and placeholders, without the params.\<close>

datatype segment = Plain char | Hole string string

function segments :: "string \<Rightarrow> segment list" where
  "segments s =
     (case s of
        [] \<Rightarrow> []
      | c # cs \<Rightarrow>
          (case match_placeholder s of
             None \<Rightarrow> Plain c # segments cs
           | Some (name, whole, rest) \<Rightarrow> Hole name whole # segments rest))"
  by pat_completeness auto
termination
  by (relation "measure length") (auto dest: match_placeholder_shorter)

declare segments.simps [simp del]

definition segment_source :: "segment \<Rightarrow> string" where
  "segment_source g = (case g of Plain c \<Rightarrow> [c] | Hole name whole \<Rightarrow> whole)"

definition segment_text :: "(string \<times> CelValue) list \<Rightarrow> segment \<Rightarrow> string + string" where
  "segment_text params g = (case g of Plain c \<Rightarrow> Inr [c] | Hole name whole \<Rightarrow> placeholder_text params name whole)"

lemma segment_simps [simp]:
  "segment_source (Plain c) = [c]" "segment_source (Hole name whole) = whole"
  "segment_text params (Plain c) = Inr [c]" "segment_text params (Hole name whole) = placeholder_text params name whole"
  by (simp_all add: segment_source_def segment_text_def)

lemma segments_plain: "match_placeholder (c # cs) = None \<Longrightarrow> segments (c # cs) = Plain c # segments cs"
  by (simp add: segments.simps[of "c # cs"])

lemma segments_hole:
  "match_placeholder s = Some (name, whole, rest) \<Longrightarrow> segments s = Hole name whole # segments rest"
  using match_placeholder_shorter[of s name whole rest] by (subst segments.simps) (cases s; simp)

lemma match_placeholder_whole: "match_placeholder s = Some (name, whole, rest) \<Longrightarrow> whole @ rest = s"
proof -
  assume a: "match_placeholder s = Some (name, whole, rest)"
  let ?a = "dropWhile tpl_space (drop 2 s)"
  let ?n = "dropWhile tpl_name_char ?a"
  have r: "rest = drop 2 (dropWhile tpl_space ?n)" "whole = take (length s - length rest) s"
    using a by (auto simp: match_placeholder_def Let_def split: if_splits)
  have "\<exists>p. s = p @ rest"
    unfolding r(1) by (metis append_take_drop_id takeWhile_dropWhile_id append.assoc)
  then obtain p where "s = p @ rest" by blast
  then show ?thesis using r(2) by simp
qed

lemma renderTemplate_segments:
  "renderTemplate template params = map_sum id concat (all_results (map (segment_text params) (segments template))) \<and>
   concat (map segment_source (segments template)) = template \<and>
   (\<forall>name whole. Hole name whole \<in> set (segments template) \<longrightarrow> name \<noteq> [] \<and> list_all tpl_name_char name)"
proof (induction template rule: segments.induct)
  case (1 s)
  show ?case
  proof (cases s)
    case Nil
    then show ?thesis by (simp add: renderTemplate.simps segments.simps)
  next
    case (Cons c cs)
    show ?thesis
    proof (cases "match_placeholder s")
      case None
      then show ?thesis
        using 1(1)[OF Cons None] Cons
        by (subst renderTemplate.simps) (auto simp: segments_plain split: sum.splits)
    next
      case (Some m)
      then obtain name whole rest where m: "match_placeholder s = Some (name, whole, rest)" by (cases m) auto
      have name: "name \<noteq> []" "list_all tpl_name_char name"
        using m by (auto simp: match_placeholder_def Let_def list_all_iff split: if_splits dest: set_takeWhileD)
      show ?thesis
        using 1(2)[OF Cons m refl refl] Cons m name match_placeholder_whole[OF m]
        by (subst renderTemplate.simps) (auto simp: segments_hole split: sum.splits)
    qed
  qed
qed

text \<open>
  Templates are rendered in one pass: rendering replaces each segment of the template on its
  own, where the segments depend on the template alone and their texts put together are the
  template again, so a substituted value is never scanned for placeholders and everything outside
  a known placeholder is kept as written.
\<close>

theorem template_is_rendered_in_one_pass:
  "renderTemplate template params = map_sum id concat (all_results (map (segment_text params) (segments template))) \<and>
   concat (map segment_source (segments template)) = template \<and>
   list_all (\<lambda>g. case g of Plain c \<Rightarrow> True | Hole name whole \<Rightarrow> name \<noteq> [] \<and> list_all tpl_name_char name)
     (segments template)"
  using renderTemplate_segments[of template params] unfolding list_all_iff by (fastforce split: segment.split)

end
