(* ===== verification/Event_Trigger.thy ===== *)
theory Event_Trigger
  imports Event_Template "HOL-Library.Product_Lexorder"
begin

text \<open>
  \<open>packages/event-triggers/src\<close>: the CEL environment (\<open>cel.ts\<close>) over the CEL library, which is a
  parameter, and the compilation and selection of EventTriggers (\<open>trigger.ts\<close>, \<open>types.ts\<close>).

  The library is a record of its operations: parsing, checking (the checked type, or the error
  it throws or reports) and running a program on an activation. Nothing is assumed of it. The
  errors handed to \<open>onMatchError\<close> are returned beside the result.
\<close>

section \<open>The CEL environment\<close>

record 'p cel_lib =
  cl_parse :: "string \<Rightarrow> string + 'p"
  cl_check :: "'p \<Rightarrow> string + string option"
  cl_run :: "'p \<Rightarrow> (string \<times> CelValue) list \<Rightarrow> string + CelValue"

record 'p CompiledExpression =
  ce_source :: string
  ce_resultType :: string
  ce_program :: 'p

definition errorMessage :: "string \<Rightarrow> string" where
  "errorMessage e = takeWhile (\<lambda>c. c \<noteq> CHR 0x0A) e"

definition compileExpression :: "'p cel_lib \<Rightarrow> string \<Rightarrow> string + 'p CompiledExpression" where
  "compileExpression cel expr =
     (case cl_parse cel expr of
        Inl e \<Rightarrow> Inl (errorMessage e)
      | Inr program \<Rightarrow>
          (case cl_check cel program of
             Inl e \<Rightarrow> Inl (errorMessage e)
           | Inr ty \<Rightarrow> Inr \<lparr>ce_source = expr, ce_resultType = coalesce ty ''dyn'', ce_program = program\<rparr>))"

datatype EnvelopeKind = Webhook | Cron

record Envelope =
  ev_source :: string
  ev_kind :: EnvelopeKind
  ev_id :: string
  ev_time :: string
  ev_headers :: "(string \<times> string) list"
  ev_body :: json
  ev_sender :: "(string \<times> json) list"
  ev_repository :: string

definition kind_text :: "EnvelopeKind \<Rightarrow> string" where
  "kind_text k = (case k of Webhook \<Rightarrow> ''webhook'' | Cron \<Rightarrow> ''cron'')"

definition envelopeActivation :: "Envelope \<Rightarrow> (string \<times> CelValue) list" where
  "envelopeActivation e =
     [(''source'', CString (ev_source e)), (''kind'', CString (kind_text (ev_kind e))),
      (''id'', CString (ev_id e)), (''time'', CString (ev_time e)),
      (''repository'', CString (ev_repository e)),
      (''headers'', normalizeJson (JObject (map (\<lambda>(k, v). (k, JString v)) (ev_headers e)))),
      (''body'', normalizeJson (if ev_body e = JNull then JObject [] else ev_body e)),
      (''sender'', normalizeJson (JObject (ev_sender e)))]"

definition evaluate :: "'p cel_lib \<Rightarrow> 'p CompiledExpression \<Rightarrow> (string \<times> CelValue) list \<Rightarrow> string + CelValue" where
  "evaluate cel compiled activation =
     (case cl_run cel (ce_program compiled) activation of Inl e \<Rightarrow> Inl (errorMessage e) | Inr v \<Rightarrow> Inr v)"


section \<open>Resources\<close>

record EventTriggerTargetSpec =
  ts_orchestrator :: bool
  ts_skillRef :: "string option"
  ts_agentRef :: "string option"
  ts_toolRef :: "string option"
  ts_promptTemplate :: "string option"
  ts_readOnly :: "bool option"

record GitHubReplySpec =
  gr_repository :: "string option"
  gr_issueNumber :: "string option"
  gr_ack :: "string option"
  gr_sessionPage :: bool
  gr_result :: bool
  gr_removeLabel :: "string option"

record HttpReplySpec =
  hr_url :: string
  hr_secretRef :: "(string \<times> string) option"

record EventTriggerReplySpec =
  rs_github :: "GitHubReplySpec option"
  rs_http :: "HttpReplySpec option"

record EventTriggerSpec =
  es_sourceRef :: "string option"
  es_priority :: "rat option"
  es_match :: "string option"
  es_params :: "(string \<times> string) list option"
  es_sessionKey :: "string option"
  es_target :: "EventTriggerTargetSpec option"
  es_reply :: "EventTriggerReplySpec option"

record EventTriggerResource =
  er_name :: "string option"
  er_spec :: "EventTriggerSpec option"

datatype TriggerTargetKind = OrchestratorKind | SkillKind | AgentKind | ToolKind

record TriggerTarget =
  tt_kind :: TriggerTargetKind
  tt_ref :: "string option"
  tt_readOnly :: bool
  tt_promptTemplate :: "string option"

record 'p CompiledParam =
  cp_name :: string
  cp_expression :: "'p CompiledExpression"

record 'p CompiledTrigger =
  ct_name :: string
  ct_sourceRef :: "string option"
  ct_priority :: rat
  ct_ready :: bool
  ct_error :: "string option"
  ct_match :: "'p CompiledExpression option"
  ct_params :: "'p CompiledParam list"
  ct_sessionKey :: "string option"
  ct_target :: "TriggerTarget option"
  ct_reply :: "EventTriggerReplySpec option"


section \<open>Compilation\<close>

definition only_nonempty :: "string option \<Rightarrow> string option" where
  "only_nonempty s = (if truthy_str s then s else None)"

definition target_kinds :: "EventTriggerTargetSpec \<Rightarrow> (TriggerTargetKind \<times> string option) list" where
  "target_kinds t =
     (if ts_orchestrator t then [(OrchestratorKind, None)] else []) @
     (if truthy_str (ts_skillRef t) then [(SkillKind, ts_skillRef t)] else []) @
     (if truthy_str (ts_agentRef t) then [(AgentKind, ts_agentRef t)] else []) @
     (if truthy_str (ts_toolRef t) then [(ToolKind, ts_toolRef t)] else [])"

definition resolveTarget :: "EventTriggerTargetSpec option \<Rightarrow> string + TriggerTarget" where
  "resolveTarget target =
     (case target of
        None \<Rightarrow> Inl ''spec.target is required''
      | Some t \<Rightarrow>
          (case target_kinds t of
             [(kind, ref)] \<Rightarrow>
               if kind \<noteq> ToolKind \<and> \<not> truthy_str (ts_promptTemplate t)
               then Inl ''spec.target.promptTemplate is required unless toolRef is set''
               else Inr \<lparr>tt_kind = kind, tt_ref = ref, tt_readOnly = (ts_readOnly t = Some True),
                     tt_promptTemplate = only_nonempty (ts_promptTemplate t)\<rparr>
           | _ \<Rightarrow> Inl ''spec.target must set exactly one of orchestrator, skillRef, agentRef, toolRef''))"

fun compile_params :: "'p cel_lib \<Rightarrow> (string \<times> string) list \<Rightarrow> string + 'p CompiledParam list" where
  "compile_params cel [] = Inr []"
| "compile_params cel ((name, src) # rest) =
     (case compileExpression cel src of
        Inl e \<Rightarrow> Inl (''params.'' @ name @ '': '' @ e)
      | Inr c \<Rightarrow> map_sum id (\<lambda>ps. \<lparr>cp_name = name, cp_expression = c\<rparr> # ps) (compile_params cel rest))"

definition compile_match :: "'p cel_lib \<Rightarrow> string option \<Rightarrow> string + 'p CompiledExpression option" where
  "compile_match cel src =
     (case src of
        None \<Rightarrow> Inr None
      | Some s \<Rightarrow>
          if js_trim s = [] then Inr None
          else
            (case compileExpression cel s of
               Inl e \<Rightarrow> Inl (''match.cel: '' @ e)
             | Inr c \<Rightarrow>
                 if ce_resultType c \<noteq> ''bool'' \<and> ce_resultType c \<noteq> ''dyn''
                 then Inl (''match.cel must yield bool, got '' @ ce_resultType c)
                 else Inr (Some c)))"

definition empty_spec :: EventTriggerSpec where
  "empty_spec = \<lparr>es_sourceRef = None, es_priority = None, es_match = None, es_params = None,
     es_sessionKey = None, es_target = None, es_reply = None\<rparr>"

definition compileTrigger :: "'p cel_lib \<Rightarrow> EventTriggerResource \<Rightarrow> 'p CompiledTrigger" where
  "compileTrigger cel resource =
     (let spec = coalesce (er_spec resource) empty_spec;
          compiled = \<lparr>ct_name = coalesce (er_name resource) [], ct_sourceRef = only_nonempty (es_sourceRef spec),
            ct_priority = coalesce (es_priority spec) 0, ct_ready = False, ct_error = None, ct_match = None,
            ct_params = [], ct_sessionKey = only_nonempty (es_sessionKey spec), ct_target = None,
            ct_reply = es_reply spec\<rparr> in
      if ct_name compiled = [] then compiled\<lparr>ct_error := Some ''metadata.name is required''\<rparr>
      else
        (case resolveTarget (es_target spec) of
           Inl e \<Rightarrow> compiled\<lparr>ct_error := Some e\<rparr>
         | Inr target \<Rightarrow>
             (let withTarget = compiled\<lparr>ct_target := Some target\<rparr> in
              case compile_match cel (es_match spec) of
                Inl e \<Rightarrow> withTarget\<lparr>ct_error := Some e\<rparr>
              | Inr m \<Rightarrow>
                  (let withMatch = withTarget\<lparr>ct_match := m\<rparr> in
                   case compile_params cel (sort_key fst (coalesce (es_params spec) [])) of
                     Inl e \<Rightarrow> withMatch\<lparr>ct_error := Some e\<rparr>
                   | Inr ps \<Rightarrow> withMatch\<lparr>ct_params := ps, ct_ready := True\<rparr>))))"


section \<open>Selection\<close>

text \<open>
  \<open>.sort(byPrecedence)\<close>: a stable sort by descending priority, then by name. The comparison is a
  total preorder, so the result is determined.
\<close>

definition precedence_key :: "'p CompiledTrigger \<Rightarrow> rat \<times> string" where
  "precedence_key t = (- ct_priority t, ct_name t)"

definition is_candidate :: "Envelope \<Rightarrow> 'p CompiledTrigger \<Rightarrow> bool" where
  "is_candidate envelope t \<longleftrightarrow>
     ct_ready t \<and> ct_target t \<noteq> None \<and> (\<not> truthy_str (ct_sourceRef t) \<or> ct_sourceRef t = Some (ev_source envelope))"

definition trigger_candidates :: "'p CompiledTrigger list \<Rightarrow> Envelope \<Rightarrow> 'p CompiledTrigger list" where
  "trigger_candidates triggers envelope = sort_key precedence_key (filter (is_candidate envelope) triggers)"

fun find_winner ::
  "'p cel_lib \<Rightarrow> (string \<times> CelValue) list \<Rightarrow> 'p CompiledTrigger list \<Rightarrow> 'p CompiledTrigger option \<times> (string \<times> string) list" where
  "find_winner cel activation [] = (None, [])"
| "find_winner cel activation (t # ts) =
     (case ct_match t of
        None \<Rightarrow> (Some t, [])
      | Some m \<Rightarrow>
          (case evaluate cel m activation of
             Inl e \<Rightarrow> (let (w, errors) = find_winner cel activation ts in (w, (ct_name t, e) # errors))
           | Inr (CBool True) \<Rightarrow> (Some t, [])
           | Inr (CBool False) \<Rightarrow> find_winner cel activation ts
           | Inr _ \<Rightarrow> (let (w, errors) = find_winner cel activation ts in
                        (w, (ct_name t, ''match.cel yielded a non-bool value'') # errors))))"

record resolved_params =
  rp_raw :: "(string \<times> CelValue) list"
  rp_params :: "(string \<times> TypedParam) list"
  rp_strings :: "(string \<times> string) list"
  rp_args :: "(string \<times> json) list"

fun resolve_params ::
  "'p cel_lib \<Rightarrow> (string \<times> CelValue) list \<Rightarrow> 'p CompiledParam list \<Rightarrow> resolved_params \<Rightarrow> string + resolved_params" where
  "resolve_params cel activation [] acc = Inr acc"
| "resolve_params cel activation (p # ps) acc =
     (case evaluate cel (cp_expression p) activation of
        Inl e \<Rightarrow> Inl (''params.'' @ cp_name p @ '': '' @ e)
      | Inr v \<Rightarrow>
          (case toTypedParam v of
             Inl e \<Rightarrow> Inl e
           | Inr typed \<Rightarrow>
               (case paramToString v of
                  Inl e \<Rightarrow> Inl e
                | Inr text_form \<Rightarrow>
                    (case toJsonValue v of
                       Inl e \<Rightarrow> Inl e
                     | Inr j \<Rightarrow>
                         resolve_params cel activation ps
                           (acc\<lparr>rp_raw := setOwn (rp_raw acc) (cp_name p) v,
                               rp_params := setOwn (rp_params acc) (cp_name p) typed,
                               rp_strings := setOwn (rp_strings acc) (cp_name p) text_form,
                               rp_args := setOwn (rp_args acc) (cp_name p) j\<rparr>)))))"

definition tool_input :: "(string \<times> CelValue) list \<Rightarrow> string + string" where
  "tool_input raw =
     (case raw of
        [(name, v)] \<Rightarrow> if name = ''input'' then paramToString v else canonicalJson (CMap raw)
      | _ \<Rightarrow> canonicalJson (CMap raw))"


section \<open>Replies\<close>

definition dec_value :: "string \<Rightarrow> nat" where
  "dec_value s = foldl (\<lambda>n c. 10 * n + (of_char c - 48)) 0 s"

text \<open>\<open>/^[0-9]+$/\<close>, a safe integer and not zero.\<close>

definition issue_number_ok :: "string \<Rightarrow> bool" where
  "issue_number_ok issue \<longleftrightarrow>
     issue \<noteq> [] \<and> list_all ascii_digit issue \<and> isSafeInteger (js_Number (of_nat (dec_value issue))) \<and>
     js_Number (of_nat (dec_value issue)) \<noteq> Fin 0"

record rendered_github =
  rg_repository :: string
  rg_issueNumber :: js_double
  rg_ack :: "string option"
  rg_sessionPage :: bool
  rg_result :: bool
  rg_removeLabel :: "string option"

record RenderedReply =
  rr_github :: "rendered_github option"
  rr_http :: "HttpReplySpec option"

definition render_optional :: "string option \<Rightarrow> (string \<times> CelValue) list \<Rightarrow> string + string option" where
  "render_optional template params =
     (if truthy_str template then map_sum id Some (renderTemplate (the template) params) else Inr None)"

definition render_github :: "GitHubReplySpec \<Rightarrow> (string \<times> CelValue) list \<Rightarrow> string + rendered_github" where
  "render_github g params =
     (case renderTemplate (coalesce (gr_issueNumber g) []) params of
        Inl e \<Rightarrow> Inl e
      | Inr issue \<Rightarrow>
          if \<not> issue_number_ok issue then
            Inl (''reply.github.issueNumber rendered to '' @ js_stringify issue @ '', not a positive integer'')
          else
            (case renderTemplate (coalesce (gr_repository g) []) params of
               Inl e \<Rightarrow> Inl e
             | Inr repository \<Rightarrow>
                 (case render_optional (gr_ack g) params of
                    Inl e \<Rightarrow> Inl e
                  | Inr ack \<Rightarrow>
                      (case render_optional (gr_removeLabel g) params of
                         Inl e \<Rightarrow> Inl e
                       | Inr label \<Rightarrow>
                           Inr \<lparr>rg_repository = repository, rg_issueNumber = js_Number (of_nat (dec_value issue)),
                             rg_ack = ack, rg_sessionPage = gr_sessionPage g, rg_result = gr_result g,
                             rg_removeLabel = label\<rparr>))))"

text \<open>The URL of an HTTP reply is literal.\<close>

definition renderReply ::
  "EventTriggerReplySpec option \<Rightarrow> (string \<times> CelValue) list \<Rightarrow> string + RenderedReply option" where
  "renderReply spec params =
     (case spec of
        None \<Rightarrow> Inr None
      | Some r \<Rightarrow>
          if rs_github r = None \<and> rs_http r = None then Inr None
          else
            (case rs_github r of
               None \<Rightarrow> Inr (Some \<lparr>rr_github = None, rr_http = rs_http r\<rparr>)
             | Some g \<Rightarrow>
                 map_sum id (\<lambda>github. Some \<lparr>rr_github = Some github, rr_http = rs_http r\<rparr>) (render_github g params)))"

record matched_trigger =
  mt_trigger :: string
  mt_target :: TriggerTarget
  mt_params :: "(string \<times> TypedParam) list"
  mt_stringParams :: "(string \<times> string) list"
  mt_toolArgs :: "(string \<times> json) list"
  mt_toolInput :: string
  mt_sessionId :: string
  mt_prompt :: string
  mt_reply :: "RenderedReply option"

datatype SelectResult = Ignored | SelectFailed string string | Matched matched_trigger

text \<open>
  After the params are resolved nothing of the rest throws in the program; a template error is
  kept as a value here so that this can be stated.
\<close>

definition default_session :: "Envelope \<Rightarrow> string option \<Rightarrow> string" where
  "default_session envelope callerSessionId =
     (if truthy_str callerSessionId then the callerSessionId
      else ''event:'' @ ev_source envelope @ '':'' @ ev_id envelope)"

definition render_matched ::
  "'p CompiledTrigger \<Rightarrow> Envelope \<Rightarrow> string option \<Rightarrow> resolved_params \<Rightarrow> string \<Rightarrow> string + matched_trigger" where
  "render_matched w envelope callerSessionId rp toolInput =
     (case render_optional (tt_promptTemplate (the (ct_target w))) (rp_raw rp) of
        Inl e \<Rightarrow> Inl e
      | Inr prompt \<Rightarrow>
          (case render_optional (ct_sessionKey w) (rp_raw rp) of
             Inl e \<Rightarrow> Inl e
           | Inr session \<Rightarrow>
               (case renderReply (ct_reply w) (rp_raw rp) of
                  Inl e \<Rightarrow> Inl e
                | Inr reply \<Rightarrow>
                    Inr \<lparr>mt_trigger = ct_name w, mt_target = the (ct_target w), mt_params = rp_params rp,
                      mt_stringParams = rp_strings rp, mt_toolArgs = rp_args rp, mt_toolInput = toolInput,
                      mt_sessionId = (if truthy_str session then the session else default_session envelope callerSessionId),
                      mt_prompt = coalesce prompt [], mt_reply = reply\<rparr>)))"

definition selectTrigger ::
  "'p cel_lib \<Rightarrow> 'p CompiledTrigger list \<Rightarrow> Envelope \<Rightarrow> string option \<Rightarrow> SelectResult \<times> (string \<times> string) list" where
  "selectTrigger cel triggers envelope callerSessionId =
     (let activation = envelopeActivation envelope in
      case find_winner cel activation (trigger_candidates triggers envelope) of
        (None, errors) \<Rightarrow> (Ignored, errors)
      | (Some w, errors) \<Rightarrow>
          (case resolve_params cel activation (ct_params w)
                  \<lparr>rp_raw = [], rp_params = [], rp_strings = [], rp_args = []\<rparr> of
             Inl e \<Rightarrow> (SelectFailed (ct_name w) e, errors)
           | Inr rp \<Rightarrow>
               (case tool_input (rp_raw rp) of
                  Inl e \<Rightarrow> (SelectFailed (ct_name w) e, errors)
                | Inr toolInput \<Rightarrow>
                    (case render_matched w envelope callerSessionId rp toolInput of
                       Inl e \<Rightarrow> (SelectFailed (ct_name w) e, errors)
                     | Inr m \<Rightarrow> (Matched m, errors)))))"

section \<open>Properties\<close>

lemma map_sum_Inr_conv: "map_sum f g x = Inr y \<longleftrightarrow> (\<exists>z. x = Inr z \<and> y = g z)"
  by (cases x) auto

lemma map_sum_Inl_conv: "map_sum f g x = Inl y \<longleftrightarrow> (\<exists>z. x = Inl z \<and> y = f z)"
  by (cases x) auto

text \<open>The trigger applies to the envelope: it is ready, for this source, and its condition is true.\<close>

definition applies :: "'p cel_lib \<Rightarrow> Envelope \<Rightarrow> 'p CompiledTrigger \<Rightarrow> bool" where
  "applies cel envelope t \<longleftrightarrow>
     is_candidate envelope t \<and>
     (case ct_match t of None \<Rightarrow> True
      | Some m \<Rightarrow> evaluate cel m (envelopeActivation envelope) = Inr (CBool True))"

lemma find_winner_find:
  "fst (find_winner cel activation ts) =
     List.find (\<lambda>t. case ct_match t of None \<Rightarrow> True | Some m \<Rightarrow> evaluate cel m activation = Inr (CBool True)) ts"
  by (induction ts) (auto simp: case_prod_unfold Let_def split: option.splits sum.splits CelValue.splits bool.splits)

lemma find_sorted_min:
  assumes "List.find P (sort_key f xs) = Some x"
  shows "x \<in> set xs \<and> P x \<and> (\<forall>y \<in> set xs. P y \<longrightarrow> f x \<le> f y)"
proof -
  have min: "List.find P ys = Some x \<Longrightarrow> sorted (map f ys) \<Longrightarrow> x \<in> set ys \<and> P x \<and> (\<forall>y \<in> set ys. P y \<longrightarrow> f x \<le> f y)" for ys
    by (induction ys) (auto split: if_splits)
  show ?thesis using min[OF assms] by simp
qed

lemma winner_Some:
  assumes "fst (find_winner cel (envelopeActivation e) (trigger_candidates ts e)) = Some w"
  shows "w \<in> set ts \<and> applies cel e w \<and> (\<forall>u \<in> set ts. applies cel e u \<longrightarrow> precedence_key w \<le> precedence_key u)"
  using find_sorted_min[OF assms[unfolded find_winner_find trigger_candidates_def]] by (auto simp: applies_def)

lemma winner_None:
  "fst (find_winner cel (envelopeActivation e) (trigger_candidates ts e)) = None \<longleftrightarrow> (\<forall>u \<in> set ts. \<not> applies cel e u)"
  unfolding find_winner_find find_None_iff trigger_candidates_def by (auto simp: applies_def)

text \<open>What the result of a selection is about.\<close>

definition selected_name :: "SelectResult \<Rightarrow> string option" where
  "selected_name r = (case r of Ignored \<Rightarrow> None | SelectFailed name _ \<Rightarrow> Some name | Matched m \<Rightarrow> Some (mt_trigger m))"

lemma renderReply_http:
  "renderReply spec params = Inr (Some r) \<Longrightarrow> \<exists>s. spec = Some s \<and> rr_http r = rs_http s"
  by (auto simp: renderReply_def map_sum_Inr_conv split: option.splits if_splits)

lemma selectTrigger_cases:
  assumes "fst (selectTrigger cel ts e caller) = r"
  obtains "r = Ignored" "fst (find_winner cel (envelopeActivation e) (trigger_candidates ts e)) = None"
  | w err where "r = SelectFailed (ct_name w) err"
      "fst (find_winner cel (envelopeActivation e) (trigger_candidates ts e)) = Some w"
  | w rp input m where "r = Matched m"
      "fst (find_winner cel (envelopeActivation e) (trigger_candidates ts e)) = Some w"
      "resolve_params cel (envelopeActivation e) (ct_params w)
         \<lparr>rp_raw = [], rp_params = [], rp_strings = [], rp_args = []\<rparr> = Inr rp"
      "tool_input (rp_raw rp) = Inr input" "render_matched w e caller rp input = Inr m"
  using assms unfolding selectTrigger_def Let_def
  by (cases "find_winner cel (envelopeActivation e) (trigger_candidates ts e)")
    (auto split: option.splits sum.splits)

lemma render_matched_fields:
  assumes "render_matched w e caller rp input = Inr m"
  shows "mt_trigger m = ct_name w \<and> mt_target m = the (ct_target w) \<and> mt_toolInput m = input \<and>
    (\<forall>r h. mt_reply m = Some r \<and> rr_http r = Some h \<longrightarrow> (\<exists>s. ct_reply w = Some s \<and> rs_http s = Some h))"
  using assms by (auto simp: render_matched_def split: sum.splits if_splits dest!: renderReply_http)

text \<open>
  Exactly one trigger takes an event: nothing is selected if and only if no trigger applies;
  otherwise the result is about a trigger that applies and that comes first, by priority and then
  by name, among all that do. A match hands on that trigger's own target, with its read-only
  flag, and its literal reply URL: nothing of the payload can change them.
\<close>

theorem trigger_selection:
  "(fst (selectTrigger cel ts e caller) = Ignored \<longleftrightarrow> (\<forall>t \<in> set ts. \<not> applies cel e t)) \<and>
   (\<forall>name. selected_name (fst (selectTrigger cel ts e caller)) = Some name \<longrightarrow>
      (\<exists>w \<in> set ts. ct_name w = name \<and> applies cel e w \<and>
         (\<forall>u \<in> set ts. applies cel e u \<longrightarrow> precedence_key w \<le> precedence_key u) \<and>
         (\<forall>m. fst (selectTrigger cel ts e caller) = Matched m \<longrightarrow>
            Some (mt_target m) = ct_target w \<and>
            (\<forall>r h. mt_reply m = Some r \<and> rr_http r = Some h \<longrightarrow> (\<exists>s. ct_reply w = Some s \<and> rs_http s = Some h)))))"
proof -
  let ?r = "fst (selectTrigger cel ts e caller)"
  show ?thesis
  proof (rule selectTrigger_cases[OF refl, of cel ts e caller])
    assume a: "?r = Ignored" "fst (find_winner cel (envelopeActivation e) (trigger_candidates ts e)) = None"
    then show ?thesis using winner_None[of cel e ts] by (simp add: selected_name_def)
  next
    fix w err
    assume a: "?r = SelectFailed (ct_name w) err"
      "fst (find_winner cel (envelopeActivation e) (trigger_candidates ts e)) = Some w"
    then show ?thesis using winner_Some[OF a(2)] by (auto simp: selected_name_def)
  next
    fix w rp input m
    assume a: "?r = Matched m" "fst (find_winner cel (envelopeActivation e) (trigger_candidates ts e)) = Some w"
      "render_matched w e caller rp input = Inr m"
    have "Some (the (ct_target w)) = ct_target w"
      using winner_Some[OF a(2)] by (auto simp: applies_def is_candidate_def)
    then show ?thesis
      using winner_Some[OF a(2)] render_matched_fields[OF a(3)] a(1) by (auto simp: selected_name_def)
  qed
qed

text \<open>What it takes to be ready.\<close>

lemma compile_params_ok:
  "(\<exists>ps. compile_params cel ps0 = Inr ps) \<longleftrightarrow> (\<forall>(name, src) \<in> set ps0. \<exists>c. compileExpression cel src = Inr c)"
  by (induction cel ps0 rule: compile_params.induct) (auto simp: map_sum_Inr_conv split: sum.splits)

definition well_formed_trigger :: "'p cel_lib \<Rightarrow> EventTriggerResource \<Rightarrow> bool" where
  "well_formed_trigger cel resource \<longleftrightarrow>
     (\<exists>name spec t. er_name resource = Some name \<and> name \<noteq> [] \<and> er_spec resource = Some spec \<and>
        es_target spec = Some t \<and>
        length (filter (\<lambda>b. b) [ts_orchestrator t, truthy_str (ts_skillRef t), truthy_str (ts_agentRef t), truthy_str (ts_toolRef t)]) = 1 \<and>
        (truthy_str (ts_toolRef t) \<or> truthy_str (ts_promptTemplate t)) \<and>
        (\<forall>m. es_match spec = Some m \<and> js_trim m \<noteq> [] \<longrightarrow>
           (\<exists>c. compileExpression cel m = Inr c \<and> ce_resultType c \<in> {''bool'', ''dyn''})) \<and>
        (\<forall>(name, src) \<in> set (coalesce (es_params spec) []). \<exists>c. compileExpression cel src = Inr c))"

lemma resolveTarget_ok:
  "(\<exists>t. resolveTarget target = Inr t) \<longleftrightarrow>
     (\<exists>t. target = Some t \<and>
        length (filter (\<lambda>b. b) [ts_orchestrator t, truthy_str (ts_skillRef t), truthy_str (ts_agentRef t), truthy_str (ts_toolRef t)]) = 1 \<and>
        (truthy_str (ts_toolRef t) \<or> truthy_str (ts_promptTemplate t)))"
  by (cases target) (auto simp: resolveTarget_def target_kinds_def)

lemma compile_match_ok:
  "(\<exists>m. compile_match cel src = Inr m) \<longleftrightarrow>
     (\<forall>m. src = Some m \<and> js_trim m \<noteq> [] \<longrightarrow>
        (\<exists>c. compileExpression cel m = Inr c \<and> ce_resultType c \<in> {''bool'', ''dyn''}))"
  by (auto simp: compile_match_def split: option.splits sum.splits if_splits)

text \<open>
  Triggers fail closed: a compiled trigger is ready if and only if the resource is well formed
  (a name, exactly one kind of target, a prompt unless it is a tool, a condition that compiles to
  a boolean or dynamic type, and params that all compile), and it carries an error if and only if
  it is not ready.
\<close>

theorem triggers_fail_closed:
  "(ct_ready (compileTrigger cel resource) \<longleftrightarrow> well_formed_trigger cel resource) \<and>
   (ct_error (compileTrigger cel resource) = None \<longleftrightarrow> ct_ready (compileTrigger cel resource))"
proof -
  let ?spec = "coalesce (er_spec resource) empty_spec"
  have none: "\<not> (\<exists>t. resolveTarget (es_target empty_spec) = Inr t)" by (simp add: empty_spec_def resolveTarget_def)
  have "ct_ready (compileTrigger cel resource) \<longleftrightarrow>
      coalesce (er_name resource) [] \<noteq> [] \<and> (\<exists>t. resolveTarget (es_target ?spec) = Inr t) \<and>
      (\<exists>m. compile_match cel (es_match ?spec) = Inr m) \<and>
      (\<exists>ps. compile_params cel (sort_key fst (coalesce (es_params ?spec) [])) = Inr ps)"
    by (auto simp: compileTrigger_def Let_def split: sum.splits)
  also have "\<dots> \<longleftrightarrow> well_formed_trigger cel resource"
    unfolding resolveTarget_ok compile_match_ok compile_params_ok well_formed_trigger_def set_sort
    using none resolveTarget_ok[of "es_target empty_spec"]
    by (cases "er_name resource"; cases "er_spec resource") auto
  finally have ready: "ct_ready (compileTrigger cel resource) \<longleftrightarrow> well_formed_trigger cel resource" .
  moreover have "ct_error (compileTrigger cel resource) = None \<longleftrightarrow> ct_ready (compileTrigger cel resource)"
    by (auto simp: compileTrigger_def Let_def split: sum.splits)
  ultimately show ?thesis by blast
qed


text \<open>
  The issue a reply goes to: when a GitHub reply renders, its issue number is the decimal
  value of the rendered text, which consists of digits only, and it is positive and below
  \<open>2 ^ 53\<close>, so exact as a number. Anything else is an error that names the rendered text.
\<close>

theorem reply_issue_number:
  assumes "renderTemplate (coalesce (gr_issueNumber g) []) params = Inr issue"
  shows "(\<forall>r. render_github g params = Inr r \<longrightarrow>
       rg_issueNumber r = Fin (of_nat (dec_value issue)) \<and> 0 < dec_value issue \<and> dec_value issue < 2 ^ 53) \<and>
     (\<not> (list_all ascii_digit issue \<and> 0 < dec_value issue \<and> dec_value issue < 2 ^ 53) \<longrightarrow>
       render_github g params =
         Inl (''reply.github.issueNumber rendered to '' @ js_stringify issue @ '', not a positive integer''))"
proof -
  have safe: "isSafeInteger (js_Number (of_nat (dec_value issue))) \<longleftrightarrow> dec_value issue < 2 ^ 53"
  proof -
    have "(int (dec_value issue) < 2 ^ 53) = (dec_value issue < 2 ^ 53)"
      by simp
    then show ?thesis using js_Number_safe[of "int (dec_value issue)"] by simp
  qed
  have exact: "js_Number (of_nat (dec_value issue)) = Fin (of_nat (dec_value issue))" if "dec_value issue < 2 ^ 53"
  proof -
    have "int (dec_value issue) < 2 ^ 53" using that by simp
    then show ?thesis using js_Number_exact[of "int (dec_value issue)"] by simp
  qed
  have ok: "issue_number_ok issue \<longleftrightarrow>
      list_all ascii_digit issue \<and> 0 < dec_value issue \<and> dec_value issue < 2 ^ 53"
    using exact unfolding issue_number_ok_def safe by (auto simp: dec_value_def)
  show ?thesis
    using assms ok exact by (auto simp: render_github_def split: sum.splits if_splits)
qed

theorem reply_issue_number_witness:
  "dec_value ''007'' < 2 ^ 53 \<and> rg_issueNumber \<lparr>rg_repository = [], rg_issueNumber = Fin 7, rg_ack = None,
     rg_sessionPage = False, rg_result = True, rg_removeLabel = None\<rparr> = Fin (of_nat (dec_value ''007''))"
proof -
  let ?g = "\<lparr>gr_repository = None, gr_issueNumber = Some ''{{ n }}'', gr_ack = None, gr_sessionPage = False,
     gr_result = True, gr_removeLabel = None\<rparr>"
  let ?r = "\<lparr>rg_repository = [], rg_issueNumber = Fin 7, rg_ack = None, rg_sessionPage = False, rg_result = True,
     rg_removeLabel = None\<rparr>"
  have t: "renderTemplate (coalesce (gr_issueNumber ?g) []) [(''n'', CString ''007'')] = Inr ''007''" by code_simp
  have n: "js_Number (of_nat (dec_value ''007'')) = Fin 7"
    using js_Number_exact[of 7] by (simp add: dec_value_def)
  have "issue_number_ok ''007''"
    using n by (simp add: issue_number_ok_def isSafeInteger_def is_integer_def ascii_digit_def)
  moreover have "renderTemplate [] [(''n'', CString ''007'')] = Inr []" by code_simp
  ultimately have "render_github ?g [(''n'', CString ''007'')] = Inr ?r"
    using t n by (simp add: render_github_def render_optional_def)
  then show ?thesis using reply_issue_number[OF t] by blast
qed

text \<open>After the params resolve, no template of the trigger can fail.\<close>

definition printable :: "(string \<times> CelValue) list \<Rightarrow> bool" where
  "printable params \<longleftrightarrow> (\<forall>(k, v) \<in> set params. \<exists>t. paramToString v = Inr t)"

lemma set_update_subset: "set (AList.update k v al) \<subseteq> insert (k, v) (set al)"
  by (induction al) auto

lemma resolve_params_printable:
  "resolve_params cel act ps acc = Inr rp \<Longrightarrow> printable (rp_raw acc) \<Longrightarrow> printable (rp_raw rp)"
proof (induction cel act ps acc rule: resolve_params.induct)
  case (2 cel act p ps acc)
  have own: "printable (setOwn (rp_raw acc) (cp_name p) v)" if "paramToString v = Inr t" for v t
  proof -
    have "set (setOwn (rp_raw acc) (cp_name p) v) \<subseteq> insert (cp_name p, v) (set (rp_raw acc))"
      unfolding setOwn_def by (rule set_update_subset)
    then show ?thesis using 2(3) that unfolding printable_def by auto
  qed
  obtain v typed t j where "evaluate cel (cp_expression p) act = Inr v" "toTypedParam v = Inr typed"
    "paramToString v = Inr t" "toJsonValue v = Inr j"
    using 2(2) by (auto split: sum.splits)
  then show ?case using 2(1)[of v typed t j] 2(2) own by simp
qed simp

lemma all_results_Inr_ex: "(\<forall>x \<in> set xs. \<exists>y. x = Inr y) \<Longrightarrow> \<exists>ys. all_results xs = Inr ys"
  by (induction xs) auto

lemma renderTemplate_total: "printable params \<Longrightarrow> \<exists>t. renderTemplate s params = Inr t"
proof -
  assume "printable params"
  then have "\<exists>y. segment_text params g = Inr y" for g
    by (cases g) (auto simp: printable_def placeholder_text_def split: option.splits dest!: map_of_SomeD)
  then obtain ys where "all_results (map (segment_text params) (segments s)) = Inr ys"
    using all_results_Inr_ex[of "map (segment_text params) (segments s)"] by auto
  then show ?thesis using renderTemplate_segments by simp
qed


lemma render_optional_total: "printable params \<Longrightarrow> \<exists>t. render_optional s params = Inr t"
  using renderTemplate_total[of params "the s"] by (auto simp: render_optional_def)

text \<open>
  Selection never throws: once the params have resolved, the only way left to fail is an issue
  number that does not render to a positive integer, which is reported as a value.
\<close>

theorem only_the_issue_number_can_fail:
  assumes "resolve_params cel act ps \<lparr>rp_raw = [], rp_params = [], rp_strings = [], rp_args = []\<rparr> = Inr rp"
    and "render_matched w e caller rp input = Inl err"
  shows "\<exists>s g issue. ct_reply w = Some s \<and> rs_github s = Some g \<and>
     renderTemplate (coalesce (gr_issueNumber g) []) (rp_raw rp) = Inr issue \<and> \<not> issue_number_ok issue \<and>
     err = ''reply.github.issueNumber rendered to '' @ js_stringify issue @ '', not a positive integer''"
proof -
  have pr: "printable (rp_raw rp)" by (rule resolve_params_printable[OF assms(1)]) (simp add: printable_def)
  have opt: "render_optional s (rp_raw rp) \<noteq> Inl x" for s x using render_optional_total[OF pr, of s] by auto
  have "renderReply (ct_reply w) (rp_raw rp) = Inl err"
    using assms(2) opt by (auto simp: render_matched_def split: sum.splits)
  then obtain s g where g: "ct_reply w = Some s" "rs_github s = Some g" "render_github g (rp_raw rp) = Inl err"
    by (auto simp: renderReply_def map_sum_Inl_conv split: option.splits if_splits)
  obtain issue repo where "renderTemplate (coalesce (gr_issueNumber g) []) (rp_raw rp) = Inr issue"
    "renderTemplate (coalesce (gr_repository g) []) (rp_raw rp) = Inr repo"
    using renderTemplate_total[OF pr] by metis
  then show ?thesis using g opt by (auto simp: render_github_def split: sum.splits if_splits)
qed

definition cel_ex :: "string cel_lib" where
  "cel_ex = \<lparr>cl_parse = Inr, cl_check = (\<lambda>_. Inr (Some ''bool'')),
     cl_run = (\<lambda>program act. if program = ''bad'' then Inl ''no such key'' else Inr (CBool (program = ''true'')))\<rparr>"

definition trigger_ex :: "string \<Rightarrow> rat \<Rightarrow> string \<Rightarrow> string CompiledTrigger" where
  "trigger_ex name priority condition =
     compileTrigger cel_ex \<lparr>er_name = Some name,
       er_spec = Some \<lparr>es_sourceRef = Some ''gh'', es_priority = Some priority, es_match = Some condition,
         es_params = None, es_sessionKey = None,
         es_target = Some \<lparr>ts_orchestrator = False, ts_skillRef = None, ts_agentRef = Some ''swe'', ts_toolRef = None,
           ts_promptTemplate = Some ''go'', ts_readOnly = Some True\<rparr>,
         es_reply = None\<rparr>\<rparr>"

definition envelope_ex :: Envelope where
  "envelope_ex = \<lparr>ev_source = ''gh'', ev_kind = Webhook, ev_id = ''1'', ev_time = ''t'', ev_headers = [],
     ev_body = JObject [], ev_sender = [], ev_repository = []\<rparr>"

definition triggers_ex :: "string CompiledTrigger list" where
  "triggers_ex = [trigger_ex ''low'' 0 ''true'', trigger_ex ''zz'' 5 ''true'', trigger_ex ''high'' 9 ''bad'',
     trigger_ex ''aa'' 5 ''true'']"

theorem trigger_selection_witness:
  "\<exists>w \<in> set triggers_ex. ct_name w = ''aa'' \<and> applies cel_ex envelope_ex w \<and>
     (\<forall>u \<in> set triggers_ex. applies cel_ex envelope_ex u \<longrightarrow> precedence_key w \<le> precedence_key u)"
proof -
  have "selected_name (fst (selectTrigger cel_ex triggers_ex envelope_ex None)) = Some ''aa''" by code_simp
  then show ?thesis using trigger_selection[of cel_ex triggers_ex envelope_ex None] by blast
qed

end
