(* ===== verification/Event_Envelope.thy ===== *)
theory Event_Envelope
  imports Event_Trigger
begin

text \<open>
  \<open>packages/event-triggers/src/envelope.ts\<close>: the envelope of an event. A request body is its text
  after UTF-8 decoding; \<open>JSON.parse\<close> and the parser of form bodies are parameters, and so are the
  ISO form of the time and the random UUIDs.
\<close>

section \<open>Headers\<close>

definition ALWAYS_DROPPED_HEADERS :: "string list" where
  "ALWAYS_DROPPED_HEADERS = [''authorization'', ''cookie'']"

text \<open>A raw header value: missing, one text (a number printed), or several.\<close>

datatype raw_header = Undefined | One string | Many "string list"

definition dropped_names :: "string list \<Rightarrow> string list" where
  "dropped_names dropNames =
     ALWAYS_DROPPED_HEADERS @ map js_toLowerCase (filter (\<lambda>n. n \<noteq> []) dropNames)"

fun normalize_step :: "string list \<Rightarrow> (string \<times> string) list \<Rightarrow> string \<times> raw_header \<Rightarrow> (string \<times> string) list" where
  "normalize_step drops out (rawName, Undefined) = out"
| "normalize_step drops out (rawName, rawValue) =
     (let name = js_toLowerCase rawName;
          value = (case rawValue of Many vs \<Rightarrow> js_join '', '' vs | One v \<Rightarrow> v | Undefined \<Rightarrow> []) in
      if name \<in> set drops then out
      else setOwn out name (case map_of out name of None \<Rightarrow> value | Some prev \<Rightarrow> prev @ '', '' @ value))"

definition normalizeHeaders :: "(string \<times> raw_header) list \<Rightarrow> string list \<Rightarrow> (string \<times> string) list" where
  "normalizeHeaders rawHeaders dropNames = foldl (normalize_step (dropped_names dropNames)) [] rawHeaders"


section \<open>Bodies\<close>

definition mediaType :: "string option \<Rightarrow> string" where
  "mediaType contentType = js_toLowerCase (js_trim (hd (js_split CHR '';'' (coalesce contentType []))))"

definition first_wins :: "(string \<times> string) list \<Rightarrow> (string \<times> json) list" where
  "first_wins pairs =
     foldl (\<lambda>out (k, v). if map_of out k = None then setOwn out k (JString v) else out) [] pairs"

definition parseBody ::
  "(string \<Rightarrow> json option) \<Rightarrow> (string \<Rightarrow> (string \<times> string) list) \<Rightarrow> string \<Rightarrow> string option \<Rightarrow> json" where
  "parseBody parse formFields body contentType =
     (let raw = JObject [(''text'', JString body)]; type = mediaType contentType in
      if type = ''application/json'' then (case parse body of Some v \<Rightarrow> v | None \<Rightarrow> raw)
      else if type = ''application/x-www-form-urlencoded'' then JObject (first_wins (formFields body))
      else raw)"


section \<open>Envelopes\<close>

text \<open>\<open>.replace(/\.\d{3}Z$/, "Z")\<close>.\<close>

definition formatEventTime :: "string \<Rightarrow> string" where
  "formatEventTime stamp =
     (let cut = length stamp - 5; tail = drop cut stamp in
      if 5 \<le> length stamp \<and> tail ! 0 = CHR ''.'' \<and> ascii_digit (tail ! 1) \<and> ascii_digit (tail ! 2) \<and>
         ascii_digit (tail ! 3) \<and> tail ! 4 = CHR ''Z''
      then take cut stamp @ ''Z'' else stamp)"

record WebhookEnvelopeInput =
  wi_source :: string
  wi_id :: "string option"
  wi_headers :: "(string \<times> string) list"
  wi_body :: json
  wi_sender :: "(string \<times> json) list option"
  wi_repository :: "string option"
  wi_now :: string

definition buildWebhookEnvelope :: "string \<Rightarrow> WebhookEnvelopeInput \<Rightarrow> Envelope" where
  "buildWebhookEnvelope uuid i =
     \<lparr>ev_source = wi_source i, ev_kind = Webhook,
      ev_id = (if truthy_str (wi_id i) then the (wi_id i) else uuid),
      ev_time = formatEventTime (wi_now i), ev_headers = wi_headers i, ev_body = wi_body i,
      ev_sender = coalesce (wi_sender i) [], ev_repository = coalesce (wi_repository i) []\<rparr>"

record CronEnvelopeInput =
  ci_source :: string
  ci_payload :: "json option"
  ci_nowMs :: int
  ci_nowIso :: string

definition buildCronEnvelope :: "string \<Rightarrow> CronEnvelopeInput \<Rightarrow> Envelope" where
  "buildCronEnvelope uuid i =
     \<lparr>ev_source = ci_source i, ev_kind = Cron,
      ev_id = ci_source i @ ''-'' @ int_string (ci_nowMs i div 1000) @ ''-'' @ take 8 uuid,
      ev_time = formatEventTime (ci_nowIso i), ev_headers = [],
      ev_body = coalesce (js_nullish (ci_payload i)) (JObject []), ev_sender = [], ev_repository = []\<rparr>"


section \<open>Properties\<close>

text \<open>The values sent for a name, in order.\<close>

fun header_value :: "raw_header \<Rightarrow> string option" where
  "header_value Undefined = None"
| "header_value (One v) = Some v"
| "header_value (Many vs) = Some (js_join '', '' vs)"

definition sent_values :: "(string \<times> raw_header) list \<Rightarrow> string \<Rightarrow> string list" where
  "sent_values rawHeaders name =
     List.map_filter (\<lambda>(rawName, v). if js_toLowerCase rawName = name then header_value v else None) rawHeaders"

lemma js_join_snoc: "xs \<noteq> [] \<Longrightarrow> js_join sep (xs @ [x]) = js_join sep xs @ sep @ x"
  by (induction sep xs rule: js_join.induct) auto

definition joined :: "string list \<Rightarrow> string option" where
  "joined vs = (if vs = [] then None else Some (js_join '', '' vs))"

lemma normalize_step_lookup:
  "map_of (normalize_step drops out (rawName, v)) n =
     (if js_toLowerCase rawName = n \<and> n \<notin> set drops \<and> header_value v \<noteq> None
      then Some (case map_of out n of None \<Rightarrow> the (header_value v) | Some prev \<Rightarrow> prev @ '', '' @ the (header_value v))
      else map_of out n)"
  by (cases v) (auto simp: Let_def setOwn_def AList.update_conv' split: option.splits)

lemma normalize_fold:
  assumes "map_of out n = (if n \<in> set drops then None else joined vs)"
  shows "map_of (foldl (normalize_step drops) out rawHeaders) n =
    (if n \<in> set drops then None else joined (vs @ sent_values rawHeaders n))"
  using assms
proof (induction rawHeaders arbitrary: out vs)
  case (Cons h rawHeaders)
  obtain rawName v where h: "h = (rawName, v)" by (cases h)
  show ?case
  proof (cases "js_toLowerCase rawName = n \<and> header_value v \<noteq> None")
    case True
    then obtain x where x: "header_value v = Some x" by blast
    have "map_of (normalize_step drops out h) n = (if n \<in> set drops then None else joined (vs @ [x]))"
      using Cons.prems True x by (auto simp: h normalize_step_lookup joined_def js_join_snoc)
    from Cons.IH[OF this] show ?thesis using True x by (simp add: h sent_values_def List.map_filter_simps)
  next
    case False
    then have "map_of (normalize_step drops out h) n = (if n \<in> set drops then None else joined vs)"
      using Cons.prems by (auto simp: h normalize_step_lookup)
    from Cons.IH[OF this] show ?thesis using False by (auto simp: h sent_values_def List.map_filter_simps)
  qed
qed (simp add: sent_values_def List.map_filter_simps)

text \<open>
  What of a request's headers reaches the conditions: under each name, in lower case, all the
  values sent for it in any spelling, joined in order; never an authorization, cookie or verify
  header, whatever its spelling.
\<close>

theorem normalized_headers:
  "map_of (normalizeHeaders rawHeaders dropNames) name =
     (if name \<in> {''authorization'', ''cookie''} \<or> (\<exists>d \<in> set dropNames. d \<noteq> [] \<and> js_toLowerCase d = name)
         \<or> sent_values rawHeaders name = []
      then None else Some (js_join '', '' (sent_values rawHeaders name)))"
proof -
  have "name \<in> set (dropped_names dropNames) \<longleftrightarrow>
      name \<in> {''authorization'', ''cookie''} \<or> (\<exists>d \<in> set dropNames. d \<noteq> [] \<and> js_toLowerCase d = name)"
    by (auto simp: dropped_names_def ALWAYS_DROPPED_HEADERS_def)
  then show ?thesis
    using normalize_fold[of "[]" name "dropped_names dropNames" "[]" rawHeaders]
    by (auto simp: normalizeHeaders_def joined_def)
qed

end
