(* ===== verification/Corpus_Search.thy ===== *)
theory Corpus_Search
  imports Js_Number Effect_Monad "HOL-Library.Multiset" "HOL-Library.AList"
begin

text \<open>
  Candidate retrieval of \<open>apps/agent-orchestrator/src/knowledge-base\<close>: the chunk and hit types
  of \<open>types.ts\<close>, the fan-out over the member collections with the merge of their hits
  (\<open>search.ts\<close>), the ACL mirror's pre-filter (\<open>prefilter.ts\<close>) and the reranking of the
  authorized chunks (\<open>rerank.ts\<close>).

  Scores are doubles; the arithmetic of the reranking rounds after each operation. A
  \<open>Promise.allSettled\<close> runs its calls in their order, each answer depending on the whole log.
\<close>

section \<open>Double arithmetic and comparisons\<close>

fun js_less :: "js_double \<Rightarrow> js_double \<Rightarrow> bool" where
  "js_less (Fin x) (Fin y) \<longleftrightarrow> x < y"
| "js_less NaN _ \<longleftrightarrow> False"
| "js_less _ NaN \<longleftrightarrow> False"
| "js_less NegInf y \<longleftrightarrow> y \<noteq> NegInf"
| "js_less (Fin x) y \<longleftrightarrow> y = PosInf"
| "js_less PosInf _ \<longleftrightarrow> False"

definition js_same :: "js_double \<Rightarrow> js_double \<Rightarrow> bool" where
  "js_same a b \<longleftrightarrow> a = b \<and> a \<noteq> NaN"

fun js_neg :: "js_double \<Rightarrow> js_double" where
  "js_neg (Fin x) = Fin (- x)"
| "js_neg PosInf = NegInf"
| "js_neg NegInf = PosInf"
| "js_neg NaN = NaN"

fun js_add :: "js_double \<Rightarrow> js_double \<Rightarrow> js_double" where
  "js_add (Fin x) (Fin y) = js_Number (x + y)"
| "js_add NaN _ = NaN"
| "js_add _ NaN = NaN"
| "js_add (Fin x) y = y"
| "js_add x (Fin y) = x"
| "js_add x y = (if x = y then x else NaN)"

definition js_sub :: "js_double \<Rightarrow> js_double \<Rightarrow> js_double" where
  "js_sub a b = js_add a (js_neg b)"

definition js_sign :: "js_double \<Rightarrow> rat" where
  "js_sign d = (case d of Fin x \<Rightarrow> sgn x | PosInf \<Rightarrow> 1 | NegInf \<Rightarrow> - 1 | NaN \<Rightarrow> 0)"

definition js_inf :: "rat \<Rightarrow> js_double" where
  "js_inf s = (if 0 < s then PosInf else if s < 0 then NegInf else NaN)"

fun js_mul :: "js_double \<Rightarrow> js_double \<Rightarrow> js_double" where
  "js_mul (Fin x) (Fin y) = js_Number (x * y)"
| "js_mul a b = js_inf (js_sign a * js_sign b)"

fun js_div :: "js_double \<Rightarrow> js_double \<Rightarrow> js_double" where
  "js_div (Fin x) (Fin y) = (if y = 0 then js_inf (sgn x) else js_Number (x / y))"
| "js_div NaN _ = NaN"
| "js_div (Fin x) NaN = NaN"
| "js_div (Fin x) _ = Fin 0"
| "js_div a (Fin y) = js_inf (js_sign a * (if y < 0 then - 1 else 1))"
| "js_div _ _ = NaN"

lemma js_less_irrefl [simp]: "\<not> js_less a a"
  by (cases a) simp_all

lemma js_less_trans: "js_less a b \<Longrightarrow> js_less b c \<Longrightarrow> js_less a c"
  by (cases a; cases b; cases c) auto

lemma js_less_total: "a \<noteq> NaN \<Longrightarrow> b \<noteq> NaN \<Longrightarrow> a \<noteq> b \<Longrightarrow> js_less a b \<or> js_less b a"
  by (cases a; cases b) auto


section \<open>Sorting\<close>

text \<open>
  \<open>Array.prototype.sort\<close> with a comparator, which is stable: an element goes behind those the
  comparator puts strictly before it. (Of a comparator that is not a consistent order the
  language only says that the result is a permutation.)
\<close>

fun sort_insert :: "('a \<Rightarrow> 'a \<Rightarrow> js_double) \<Rightarrow> 'a \<Rightarrow> 'a list \<Rightarrow> 'a list" where
  "sort_insert cmp x [] = [x]"
| "sort_insert cmp x (y # ys) =
     (if js_less (Fin 0) (cmp x y) then y # sort_insert cmp x ys else x # y # ys)"

definition js_sort :: "('a \<Rightarrow> 'a \<Rightarrow> js_double) \<Rightarrow> 'a list \<Rightarrow> 'a list" where
  "js_sort cmp xs = foldr (sort_insert cmp) xs []"

lemma mset_sort_insert [simp]: "mset (sort_insert cmp x xs) = add_mset x (mset xs)"
  by (induction xs) simp_all

lemma mset_js_sort [simp]: "mset (js_sort cmp xs) = mset xs"
  by (induction xs) (simp_all add: js_sort_def)

lemma set_js_sort [simp]: "set (js_sort cmp xs) = set xs"
  by (metis mset_js_sort set_mset_mset)

lemma length_js_sort [simp]: "length (js_sort cmp xs) = length xs"
  by (metis mset_js_sort size_mset)

lemma sort_insert_sorted:
  assumes le: "\<And>x y. x \<in> A \<Longrightarrow> y \<in> A \<Longrightarrow> le x y \<longleftrightarrow> \<not> js_less (Fin 0) (cmp x y)"
    and total: "\<And>x y. x \<in> A \<Longrightarrow> y \<in> A \<Longrightarrow> le x y \<or> le y x"
    and trans: "\<And>x y z. x \<in> A \<Longrightarrow> y \<in> A \<Longrightarrow> z \<in> A \<Longrightarrow> le x y \<Longrightarrow> le y z \<Longrightarrow> le x z"
    and "x \<in> A" "set ys \<subseteq> A" "sorted_wrt le ys"
  shows "sorted_wrt le (sort_insert cmp x ys)"
  using assms(4-)
proof (induction ys)
  case (Cons y ys)
  have set: "set (sort_insert cmp x ys) = insert x (set ys)"
    by (metis mset_sort_insert set_mset_add_mset_insert set_mset_mset)
  show ?case
  proof (cases "js_less (Fin 0) (cmp x y)")
    case True
    then have "le y x" using le[of x y] total[of x y] Cons.prems by auto
    then show ?thesis using True Cons set by auto
  next
    case False
    then have xy: "le x y" using le[of x y] Cons.prems by auto
    have "le x z" if "z \<in> set ys" for z
      using trans[of x y z] xy that Cons.prems by auto
    then show ?thesis using False xy Cons.prems by auto
  qed
qed simp

lemma js_sort_sorted:
  assumes "\<And>x y. x \<in> set xs \<Longrightarrow> y \<in> set xs \<Longrightarrow> le x y \<longleftrightarrow> \<not> js_less (Fin 0) (cmp x y)"
    and "\<And>x y. x \<in> set xs \<Longrightarrow> y \<in> set xs \<Longrightarrow> le x y \<or> le y x"
    and "\<And>x y z. x \<in> set xs \<Longrightarrow> y \<in> set xs \<Longrightarrow> z \<in> set xs \<Longrightarrow> le x y \<Longrightarrow> le y z \<Longrightarrow> le x z"
  shows "sorted_wrt le (js_sort cmp xs)"
proof -
  have "set ys \<subseteq> set xs \<Longrightarrow> sorted_wrt le (js_sort cmp ys)" for ys
  proof (induction ys)
    case (Cons y ys)
    have "sorted_wrt le (sort_insert cmp y (js_sort cmp ys))"
      using Cons by (intro sort_insert_sorted[where A = "set xs", OF assms]) simp_all
    then show ?case by (simp add: js_sort_def)
  qed (simp add: js_sort_def)
  then show ?thesis by simp
qed


lemma js_unique_Nil_iff [simp]: "js_unique xs = [] \<longleftrightarrow> xs = []"
  by (simp add: js_unique_def)

lemma sort_Nil_iff: "sort xs = [] \<longleftrightarrow> xs = []"
  by (metis length_0_conv length_sort)


section \<open>Chunks and hits\<close>

record CorpusChunk =
  ch_connectionId :: string
  ch_connectionLabel :: "string option"
  ch_sourceUrl :: string
  ch_sourceId :: string
  ch_title :: "string option"
  ch_updatedAt :: "string option"
  ch_contentHash :: string
  ch_version :: "string option"
  ch_text :: string
  ch_aclPrincipals :: "string list option"
  ch_aclPermissive :: bool

record CorpusSearchResult =
  hit_chunk :: CorpusChunk
  hit_score :: js_double

abbreviation hit_connection :: "CorpusSearchResult \<Rightarrow> string" where
  "hit_connection h \<equiv> ch_connectionId (hit_chunk h)"

abbreviation hit_source :: "CorpusSearchResult \<Rightarrow> string" where
  "hit_source h \<equiv> ch_sourceId (hit_chunk h)"

text \<open>Errors by class: the two of \<open>probe.ts\<close>, and any other with its name and its message.\<close>

datatype kb_error = PermissionDeniedError string | TransientProbeError string | OtherError string string

definition new_Error :: "string \<Rightarrow> kb_error" where
  "new_Error msg = OtherError ''Error'' msg"

definition error_string :: "kb_error \<Rightarrow> string" where
  "error_string e =
     (let show = (\<lambda>name msg. if msg = [] then name else if name = [] then msg else name @ '': '' @ msg) in
      case e of
        PermissionDeniedError msg \<Rightarrow> show ''PermissionDeniedError'' msg
      | TransientProbeError msg \<Rightarrow> show ''TransientProbeError'' msg
      | OtherError name msg \<Rightarrow> show name msg)"

text \<open>A store of one member: \<open>query(text, { callerRoles }, k)\<close>.\<close>

type_synonym 'v CorpusStore = "string \<Rightarrow> string list \<Rightarrow> int \<Rightarrow> ('v, kb_error, CorpusSearchResult list) eff"


section \<open>Fan-out and merge\<close>

definition betterThan :: "CorpusSearchResult \<Rightarrow> CorpusSearchResult \<Rightarrow> bool" where
  "betterThan a b =
     (if \<not> js_same (hit_score a) (hit_score b) then js_less (hit_score b) (hit_score a)
      else if hit_connection a \<noteq> hit_connection b then hit_connection a < hit_connection b
      else hit_source a < hit_source b)"

definition prune_key :: "CorpusSearchResult \<Rightarrow> string" where
  "prune_key hit =
     (let hash = ch_contentHash (hit_chunk hit) in
      if hash \<noteq> [] then hash else hit_connection hit @ [CHR 0x00] @ hit_source hit)"

definition prune_step ::
    "CorpusSearchResult \<Rightarrow> (string \<times> CorpusSearchResult) list \<Rightarrow> (string \<times> CorpusSearchResult) list" where
  "prune_step hit best =
     (case map_of best (prune_key hit) of
        None \<Rightarrow> AList.update (prune_key hit) hit best
      | Some existing \<Rightarrow> if betterThan hit existing then AList.update (prune_key hit) hit best else best)"

definition prune_order :: "CorpusSearchResult \<Rightarrow> CorpusSearchResult \<Rightarrow> js_double" where
  "prune_order a b = Fin (if betterThan a b then - 1 else if betterThan b a then 1 else 0)"

definition prune :: "CorpusSearchResult list \<Rightarrow> int \<Rightarrow> CorpusSearchResult list" where
  "prune hits limit = take (nat limit) (js_sort prune_order (map snd (fold prune_step hits [])))"

fun all_settled :: "('v, 'e, 'a) eff list \<Rightarrow> ('v, 'e, ('e + 'a) list) eff" where
  "all_settled [] = return_e []"
| "all_settled (m # ms) =
     bind_e (try_e m) (\<lambda>r. bind_e (all_settled ms) (\<lambda>rs. return_e (r # rs)))"

record CorpusSearchOutcome =
  so_hits :: "CorpusSearchResult list"
  so_skipped :: nat

definition gathered :: "(kb_error + CorpusSearchResult list) list \<Rightarrow> CorpusSearchResult list" where
  "gathered settled = concat (map (\<lambda>r. case r of Inl _ \<Rightarrow> [] | Inr hits \<Rightarrow> hits) settled)"

definition rejected :: "('e + 'a) list \<Rightarrow> 'e list" where
  "rejected settled = List.map_filter (\<lambda>r. case r of Inl e \<Rightarrow> Some e | Inr _ \<Rightarrow> None) settled"

definition searchCorpus ::
    "'v CorpusStore list \<Rightarrow> string \<Rightarrow> string list \<Rightarrow> int \<Rightarrow> ('v, kb_error, CorpusSearchOutcome) eff" where
  "searchCorpus stores query callerRoles limit =
     (if limit \<le> 0
      then throw_e (new_Error (''corpus search limit must be a positive integer, got '' @ int_string limit))
      else if stores = [] then return_e \<lparr>so_hits = [], so_skipped = 0\<rparr>
      else bind_e (all_settled (map (\<lambda>store. store query callerRoles limit) stores)) (\<lambda>settled.
        (let skipped = length (rejected settled) in
         if skipped = length stores
         then throw_e (new_Error (''every corpus in this knowledge base failed: '' @ error_string (hd (rejected settled))))
         else return_e \<lparr>so_hits = prune (gathered settled) limit, so_skipped = skipped\<rparr>)))"


section \<open>The mirror's pre-filter\<close>

definition kindOf :: "string \<Rightarrow> string" where
  "kindOf pr = (case js_indexOf pr CHR '':'' of Some index \<Rightarrow> take index pr | None \<Rightarrow> pr)"

fun excludes_loop :: "string list \<Rightarrow> string list \<Rightarrow> string list \<Rightarrow> bool" where
  "excludes_loop [] held covered \<longleftrightarrow> True"
| "excludes_loop (pr # principals) held covered \<longleftrightarrow>
     (if pr \<in> set held then False
      else if kindOf pr \<notin> set covered then False
      else excludes_loop principals held covered)"

definition mirrorExcludes :: "CorpusSearchResult \<Rightarrow> string list \<Rightarrow> string list \<Rightarrow> bool" where
  "mirrorExcludes hit held covered \<longleftrightarrow>
     (let principals = coalesce (ch_aclPrincipals (hit_chunk hit)) [] in
      if ch_aclPermissive (hit_chunk hit) \<or> principals = [] then False
      else excludes_loop principals held covered)"

definition preFilter :: "CorpusSearchResult list \<Rightarrow> string list \<Rightarrow> CorpusSearchResult list \<times> nat" where
  "preFilter hits callerPrincipals =
     (if hits = [] \<or> callerPrincipals = [] then (hits, 0)
      else
        (let held = js_unique callerPrincipals; covered = js_unique (map kindOf callerPrincipals) in
         (filter (\<lambda>hit. \<not> mirrorExcludes hit held covered) hits,
          length (filter (\<lambda>hit. mirrorExcludes hit held covered) hits))))"


section \<open>Reranking\<close>

text \<open>A candidate the source confirmed (\<open>probe.ts\<close>): its title and URL are the probe's.\<close>

record AuthorizedChunk =
  ac_chunk :: CorpusChunk
  ac_score :: js_double
  ac_title :: string
  ac_url :: string
  ac_version :: "string option"
  ac_stale :: bool

definition WEIGHT_VECTOR :: js_double where "WEIGHT_VECTOR = js_Number (7 / 10)"

definition WEIGHT_KEYWORD :: js_double where "WEIGHT_KEYWORD = js_Number (3 / 10)"

definition STOP_WORDS :: "string list" where
  "STOP_WORDS =
     [''the'', ''and'', ''for'', ''are'', ''what'', ''which'', ''with'', ''that'', ''this'', ''from'',
      ''have'', ''has'', ''can'', ''you'', ''our'', ''was'', ''were'', ''about'', ''into'', ''how'',
      ''does'', ''did'', ''they'', ''them'']"

text \<open>The letters and numbers (\<open>\p{L}\<close>, \<open>\p{N}\<close>) among the code units below 256.\<close>

definition letter_or_number :: "char \<Rightarrow> bool" where
  "letter_or_number c \<longleftrightarrow>
     ascii_lower_letter c \<or> ascii_upper_letter c \<or> ascii_digit c \<or>
     (let n = (of_char c :: nat) in
      n \<in> {170, 178, 179, 181, 185, 186, 188, 189, 190} \<or> (192 \<le> n \<and> n \<noteq> 215 \<and> n \<noteq> 247))"

definition rerank_tokenize :: "string \<Rightarrow> string list" where
  "rerank_tokenize s =
     js_unique (filter (\<lambda>token. \<not> (length token < 3 \<or> token \<in> set STOP_WORDS))
       (js_runs letter_or_number (js_toLowerCase s)))"

definition keywordOverlap :: "string list \<Rightarrow> string \<Rightarrow> string \<Rightarrow> js_double" where
  "keywordOverlap terms title body =
     (if terms = [] then Fin 0
      else
        (let haystack = rerank_tokenize (title @ '' '' @ body);
             hits = length (filter (\<lambda>term. term \<in> set haystack) terms) in
         js_div (Fin (of_nat hits)) (Fin (of_nat (length terms)))))"

definition min_score :: "AuthorizedChunk list \<Rightarrow> js_double" where
  "min_score chunks = fold (\<lambda>c m. if js_less (ac_score c) m then ac_score c else m) chunks PosInf"

definition max_score :: "AuthorizedChunk list \<Rightarrow> js_double" where
  "max_score chunks = fold (\<lambda>c m. if js_less m (ac_score c) then ac_score c else m) chunks NegInf"

definition combined_score :: "string list \<Rightarrow> js_double \<Rightarrow> js_double \<Rightarrow> AuthorizedChunk \<Rightarrow> js_double" where
  "combined_score terms mn width c =
     (let norm = (if js_less (Fin 0) width then js_div (js_sub (ac_score c) mn) width else Fin 1) in
      js_add (js_mul WEIGHT_VECTOR norm)
        (js_mul WEIGHT_KEYWORD
          (keywordOverlap terms (coalesce (ch_title (ac_chunk c)) []) (ch_text (ac_chunk c)))))"

definition rank_order :: "AuthorizedChunk \<times> js_double \<Rightarrow> AuthorizedChunk \<times> js_double \<Rightarrow> js_double" where
  "rank_order a b =
     (let ca = fst a; cb = fst b in
      if \<not> js_same (snd a) (snd b) then js_sub (snd b) (snd a)
      else if \<not> js_same (ac_score ca) (ac_score cb) then js_sub (ac_score cb) (ac_score ca)
      else if ch_connectionId (ac_chunk ca) \<noteq> ch_connectionId (ac_chunk cb)
      then Fin (if ch_connectionId (ac_chunk ca) < ch_connectionId (ac_chunk cb) then - 1 else 1)
      else if ch_sourceId (ac_chunk ca) \<noteq> ch_sourceId (ac_chunk cb)
      then Fin (if ch_sourceId (ac_chunk ca) < ch_sourceId (ac_chunk cb) then - 1 else 1)
      else Fin 0)"

definition rerank :: "string \<Rightarrow> AuthorizedChunk list \<Rightarrow> AuthorizedChunk list" where
  "rerank query chunks =
     (if length chunks < 2 then chunks
      else
        (let terms = rerank_tokenize query; mn = min_score chunks; width = js_sub (max_score chunks) mn;
             scored = map (\<lambda>c. (c, combined_score terms mn width c)) chunks in
         map fst (js_sort rank_order scored)))"


section \<open>The merge\<close>

lemma betterThan_asym: "betterThan a b \<Longrightarrow> \<not> betterThan b a"
  by (auto simp: betterThan_def js_same_def split: if_splits dest: js_less_trans)

lemma betterThan_cotrans:
  assumes "hit_score a \<noteq> NaN" "hit_score b \<noteq> NaN" "hit_score c \<noteq> NaN" "betterThan a c"
  shows "betterThan a b \<or> betterThan b c"
proof -
  have "js_less (hit_score c) (hit_score b) \<or> js_less (hit_score b) (hit_score a)"
    if "js_less (hit_score c) (hit_score a)"
    using that js_less_total[of "hit_score a" "hit_score b"] js_less_total[of "hit_score b" "hit_score c"] assms(1-3)
    by (metis js_less_trans)
  then show ?thesis
    using assms js_less_total[of "hit_score b" "hit_score c"]
    by (auto simp: betterThan_def js_same_def split: if_splits)
qed

text \<open>What the map of best hits holds after some hits.\<close>

definition best_of :: "CorpusSearchResult list \<Rightarrow> (string \<times> CorpusSearchResult) list \<Rightarrow> bool" where
  "best_of hits best \<longleftrightarrow>
     distinct (map fst best) \<and>
     (\<forall>(k, v) \<in> set best. k = prune_key v \<and> v \<in> set hits) \<and>
     (\<forall>h \<in> set hits. \<exists>v. map_of best (prune_key h) = Some v \<and> \<not> betterThan h v)"

lemma best_of_update:
  assumes "best_of hits best" "\<And>v. v \<in> set hits \<Longrightarrow> prune_key v = prune_key h \<Longrightarrow> \<not> betterThan v h"
  shows "best_of (hits @ [h]) (AList.update (prune_key h) h best)"
proof -
  let ?b = "AList.update (prune_key h) h best"
  have d: "distinct (map fst ?b)" using assms(1) by (simp add: best_of_def distinct_update)
  have m: "map_of ?b = (map_of best)(prune_key h \<mapsto> h)" by (rule update_conv')
  have src: "k = prune_key v \<and> v \<in> set (hits @ [h])" if "(k, v) \<in> set ?b" for k v
  proof -
    have "map_of ?b k = Some v" using that d by simp
    then show ?thesis using assms(1) m
      by (auto simp: best_of_def split: if_splits dest!: map_of_SomeD)
  qed
  have "\<exists>v. map_of ?b (prune_key g) = Some v \<and> \<not> betterThan g v" if "g \<in> set (hits @ [h])" for g
  proof (cases "prune_key g = prune_key h")
    case True
    then show ?thesis using that assms(2)[of g] m betterThan_asym[of h h] by auto
  next
    case False
    then show ?thesis using that assms(1) m by (auto simp: best_of_def)
  qed
  then show ?thesis using d src unfolding best_of_def by auto
qed

lemma best_of_step:
  assumes "best_of hits best" "\<forall>h \<in> set (hits @ [h]). hit_score h \<noteq> NaN"
  shows "best_of (hits @ [h]) (prune_step h best)"
proof (cases "map_of best (prune_key h)")
  case None
  have "prune_key v \<noteq> prune_key h" if "v \<in> set hits" for v
    using that assms(1) None unfolding best_of_def by (metis option.distinct(1))
  then show ?thesis
    using best_of_update[OF assms(1), of h] None by (simp add: prune_step_def)
next
  case (Some w)
  have w: "w \<in> set hits" "prune_key w = prune_key h"
    using assms(1) Some by (auto simp: best_of_def dest!: map_of_SomeD)
  show ?thesis
  proof (cases "betterThan h w")
    case True
    have "\<not> betterThan v h" if "v \<in> set hits" "prune_key v = prune_key h" for v
    proof
      assume "betterThan v h"
      moreover have "\<not> betterThan v w" using assms(1) that Some unfolding best_of_def by fastforce
      ultimately have "betterThan w h"
        using betterThan_cotrans[of v w h] assms(2) that(1) w(1) by auto
      then show False using True betterThan_asym by blast
    qed
    then show ?thesis using best_of_update[OF assms(1), of h] True Some by (simp add: prune_step_def)
  next
    case False
    then have "best_of (hits @ [h]) best" using assms(1) Some by (auto simp: best_of_def)
    then show ?thesis using False Some by (simp add: prune_step_def)
  qed
qed

lemma best_of_fold:
  "\<forall>h \<in> set hits. hit_score h \<noteq> NaN \<Longrightarrow> best_of hits (fold prune_step hits [])"
proof (induction hits rule: rev_induct)
  case (snoc h hits)
  then show ?case using best_of_step[of hits "fold prune_step hits []" h] by simp
qed (simp add: best_of_def)

lemma prune_order_less: "js_less (Fin 0) (prune_order a b) \<longleftrightarrow> \<not> betterThan a b \<and> betterThan b a"
  by (simp add: prune_order_def)

lemma prune_sorted:
  assumes "\<forall>h \<in> set hits. hit_score h \<noteq> NaN"
  shows "sorted_wrt (\<lambda>a b. \<not> betterThan b a) (js_sort prune_order hits)"
proof (rule js_sort_sorted)
  show "\<not> betterThan y x \<longleftrightarrow> \<not> js_less (Fin 0) (prune_order x y)" for x y
    using betterThan_asym[of y x] by (auto simp: prune_order_less)
  show "\<not> betterThan y x \<or> \<not> betterThan x y" for x y
    using betterThan_asym by blast
  show "\<not> betterThan y x \<Longrightarrow> \<not> betterThan z y \<Longrightarrow> \<not> betterThan z x"
    if "x \<in> set hits" "y \<in> set hits" "z \<in> set hits" for x y z
    using betterThan_cotrans[of z y x] assms that by auto
qed

lemma prune_best:
  assumes "\<forall>h \<in> set hits. hit_score h \<noteq> NaN"
  shows "distinct (map prune_key (prune hits limit))" and "set (prune hits limit) \<subseteq> set hits"
    and "sorted_wrt (\<lambda>a b. \<not> betterThan b a) (prune hits limit)" and "length (prune hits limit) \<le> nat limit"
    and "h \<in> set hits \<Longrightarrow>
          (\<exists>r \<in> set (prune hits limit). prune_key r = prune_key h \<and> \<not> betterThan h r) \<or>
          length (prune hits limit) = nat limit \<and> (\<forall>r \<in> set (prune hits limit). \<not> betterThan h r)"
proof -
  let ?best = "fold prune_step hits []" and ?s = "js_sort prune_order (map snd (fold prune_step hits []))"
  have b: "best_of hits ?best" by (rule best_of_fold[OF assms])
  have keys: "map prune_key (map snd ?best) = map fst ?best"
    using b by (auto simp: best_of_def)
  have "mset (map prune_key ?s) = mset (map fst ?best)"
    by (metis keys mset_js_sort mset_map)
  then have ds: "distinct (map prune_key ?s)" using b by (metis best_of_def mset_eq_imp_distinct_iff)
  then show "distinct (map prune_key (prune hits limit))" by (simp add: prune_def take_map[symmetric])
  have sub: "set ?s \<subseteq> set hits" using b by (auto simp: best_of_def)
  then show "set (prune hits limit) \<subseteq> set hits" unfolding prune_def by (metis set_take_subset subset_trans)
  have srt: "sorted_wrt (\<lambda>a b. \<not> betterThan b a) ?s"
    by (rule prune_sorted) (use sub assms in auto)
  then show "sorted_wrt (\<lambda>a b. \<not> betterThan b a) (prune hits limit)" by (simp add: prune_def sorted_wrt_take)
  show "length (prune hits limit) \<le> nat limit" by (simp add: prune_def)
  assume h: "h \<in> set hits"
  then obtain v where v: "map_of ?best (prune_key h) = Some v" "\<not> betterThan h v"
    using b unfolding best_of_def by blast
  have vin: "v \<in> set ?s" "prune_key v = prune_key h"
    using v(1) b by (auto simp: best_of_def dest!: map_of_SomeD) force
  show "(\<exists>r \<in> set (prune hits limit). prune_key r = prune_key h \<and> \<not> betterThan h r) \<or>
        length (prune hits limit) = nat limit \<and> (\<forall>r \<in> set (prune hits limit). \<not> betterThan h r)"
  proof (cases "v \<in> set (prune hits limit)")
    case False
    have sp: "?s = prune hits limit @ drop (nat limit) ?s" by (simp add: prune_def)
    then have tail: "v \<in> set (drop (nat limit) ?s)" using False vin(1) by (metis Un_iff set_append)
    then have len: "length (prune hits limit) = nat limit"
      by (cases "length ?s \<le> nat limit") (auto simp: prune_def)
    have "\<not> betterThan h r" if "r \<in> set (prune hits limit)" for r
    proof
      assume "betterThan h r"
      moreover have "\<not> betterThan v r"
        using srt tail that sorted_wrt_append[of _ "prune hits limit" "drop (nat limit) ?s"] sp by simp
      moreover have "r \<in> set hits" "v \<in> set hits"
        using that vin(1) sub set_take_subset[of "nat limit" ?s] by (auto simp: prune_def)
      ultimately show False using betterThan_cotrans[of h v r] v(2) h assms by auto
    qed
    then show ?thesis using len by blast
  qed (use v(2) vin(2) in blast)
qed

lemma AList_update_subset: "set (AList.update k v al) \<subseteq> insert (k, v) (set al)"
  by (induction al) auto

lemma prune_subset: "set (prune hits limit) \<subseteq> set hits"
proof -
  have "snd ` set (fold prune_step hits best) \<subseteq> set hits \<union> snd ` set best" for best
  proof (induction hits arbitrary: best)
    case (Cons h hits)
    have "snd ` set (AList.update (prune_key h) h best) \<subseteq> insert h (snd ` set best)"
      using image_mono[OF AList_update_subset[of "prune_key h" h best], of snd] by simp
    then have "snd ` set (prune_step h best) \<subseteq> insert h (snd ` set best)"
      by (auto simp: prune_step_def split: option.splits)
    then have "set hits \<union> snd ` set (prune_step h best) \<subseteq> set (h # hits) \<union> snd ` set best" by auto
    then show ?case using Cons[of "prune_step h best"] by (simp only: fold_Cons comp_def)
  qed simp
  from this[of "[]"] have "set (js_sort prune_order (map snd (fold prune_step hits []))) \<subseteq> set hits" by simp
  then show ?thesis unfolding prune_def by (metis set_take_subset subset_trans)
qed


text \<open>
  The merge of the members' hits keeps the best: at most the limit, all of them hits that some
  member returned, no two with the same content, best first; and a hit that is not among them
  either has its content represented by one at least as good, or the list is full of hits that
  are all at least as good. (Scores are numbers, not \<open>NaN\<close>.)
\<close>

theorem merge_keeps_the_best:
  assumes "\<forall>h \<in> set hits. hit_score h \<noteq> NaN" "h \<in> set hits"
  shows "length (prune hits limit) \<le> nat limit \<and> set (prune hits limit) \<subseteq> set hits \<and>
    distinct (map prune_key (prune hits limit)) \<and> sorted_wrt (\<lambda>a b. \<not> betterThan b a) (prune hits limit) \<and>
    ((\<exists>r \<in> set (prune hits limit). prune_key r = prune_key h \<and> \<not> betterThan h r) \<or>
     length (prune hits limit) = nat limit \<and> (\<forall>r \<in> set (prune hits limit). \<not> betterThan h r))"
  using prune_best(1-4)[OF assms(1), of limit] prune_best(5)[OF assms(1,2), of limit] by blast

definition ex_hit :: "string \<Rightarrow> rat \<Rightarrow> CorpusSearchResult" where
  "ex_hit hash score = \<lparr>hit_chunk = \<lparr>ch_connectionId = ''c'', ch_connectionLabel = None, ch_sourceUrl = ''u'', ch_sourceId = ''s'',
     ch_title = None, ch_updatedAt = None, ch_contentHash = hash, ch_version = None, ch_text = [],
     ch_aclPrincipals = None, ch_aclPermissive = False\<rparr>, hit_score = Fin score\<rparr>"

theorem merge_keeps_the_best_witness:
  "length (prune [ex_hit ''a'' 1, ex_hit ''b'' 3, ex_hit ''a'' 2] 2) \<le> 2 \<and>
   map hit_score (prune [ex_hit ''a'' 1, ex_hit ''b'' 3, ex_hit ''a'' 2] 2) = [Fin 3, Fin 2]"
proof -
  have "map hit_score (prune [ex_hit ''a'' 1, ex_hit ''b'' 3, ex_hit ''a'' 2] 2) = [Fin 3, Fin 2]" by code_simp
  then show ?thesis
    using merge_keeps_the_best[of "[ex_hit ''a'' 1, ex_hit ''b'' 3, ex_hit ''a'' 2]" "ex_hit ''a'' 1" 2]
    by (simp add: ex_hit_def)
qed


section \<open>Settled calls\<close>

lemma emits_all_settled:
  "(\<And>m. m \<in> set ms \<Longrightarrow> emits A m) \<Longrightarrow> emits A (all_settled ms)"
  by (induction ms) (auto intro!: emits_rules)

lemma does_all_settled:
  assumes "\<And>q. q \<in> set qs \<Longrightarrow> does (f q) (P q)"
  shows "does (all_settled (map f qs))
    (\<lambda>r new. \<exists>rns. r = Inr (map fst rns) \<and> new = concat (map snd rns) \<and>
       list_all2 (\<lambda>q (r, n). P q r n) qs rns)"
  using assms
proof (induction qs)
  case Nil
  show ?case by (auto intro!: does_return exI[of _ "[]"])
next
  case (Cons q qs)
  let ?Q = "\<lambda>qs r new. \<exists>rns. r = Inr (map fst rns) \<and> new = concat (map snd rns) \<and>
       list_all2 (\<lambda>q (r, n). P q r n) qs rns"
  have q: "does (try_e (f q)) (\<lambda>r new. \<exists>r'. r = Inr r' \<and> P q r' new)"
    by (rule does_try) (use Cons.prems in simp)
  have qs: "does (all_settled (map f qs)) (?Q qs)" using Cons by simp
  show ?case unfolding list.map all_settled.simps
  proof (rule does_bind[OF q])
    fix r first
    assume first: "\<exists>r'. Inr r = (Inr r' :: 'c + ('c + 'd)) \<and> P q r' first"
    show "does (bind_e (all_settled (map f qs)) (\<lambda>rs. return_e (r # rs))) (\<lambda>rr new. ?Q (q # qs) rr (first @ new))"
    proof (rule does_bind[OF qs])
      fix rs rest
      assume "?Q qs (Inr rs) rest"
      then obtain rns where "rs = map fst rns" "rest = concat (map snd rns)" "list_all2 (\<lambda>q (r, n). P q r n) qs rns"
        by auto
      then show "does (return_e (r # rs)) (\<lambda>rr new. ?Q (q # qs) rr (first @ rest @ new))"
        using first by (intro does_return exI[of _ "(r, first) # rns"]) simp
    qed auto
  qed auto
qed


section \<open>The pre-filter and the ranking\<close>

lemma excludes_loop_iff:
  "excludes_loop ps held covered \<longleftrightarrow> (\<forall>p \<in> set ps. p \<notin> set held \<and> kindOf p \<in> set covered)"
  by (induction ps) auto

lemma preFilter_subset: "set (fst (preFilter hits principals)) \<subseteq> set hits"
  by (auto simp: preFilter_def Let_def)

lemma preFilter_dropped:
  assumes "h \<in> set hits" "h \<notin> set (fst (preFilter hits principals))"
  shows "\<not> ch_aclPermissive (hit_chunk h) \<and>
    (\<exists>ps. ch_aclPrincipals (hit_chunk h) = Some ps \<and> ps \<noteq> [] \<and>
       (\<forall>p \<in> set ps. p \<notin> set principals \<and> kindOf p \<in> kindOf ` set principals))"
  using assms
  by (cases "ch_aclPrincipals (hit_chunk h)")
     (auto simp: preFilter_def mirrorExcludes_def excludes_loop_iff Let_def split: if_splits)

lemma preFilter_length: "length (fst (preFilter hits principals)) + snd (preFilter hits principals) = length hits"
  using sum_length_filter_compl[of "\<lambda>h. \<not> mirrorExcludes h (js_unique principals) (js_unique (map kindOf principals))" hits]
  by (simp add: preFilter_def Let_def)

lemma mset_rerank: "mset (rerank query chunks) = mset chunks"
proof -
  have "mset (map fst (js_sort rank_order (map (\<lambda>c. (c, f c)) chunks))) = mset chunks" for f :: "_ \<Rightarrow> js_double"
  proof -
    have "mset (map fst (js_sort rank_order (map (\<lambda>c. (c, f c)) chunks))) = mset (map fst (map (\<lambda>c. (c, f c)) chunks))"
      by (metis mset_js_sort mset_map)
    then show ?thesis by (simp add: o_def)
  qed
  then show ?thesis by (simp add: rerank_def Let_def)
qed

lemma set_rerank [simp]: "set (rerank query chunks) = set chunks"
  by (metis mset_rerank set_mset_mset)

end
