(* ===== verification/Corpus_Access.thy ===== *)
theory Corpus_Access
  imports Corpus_Search
begin

text \<open>
  The read path of a knowledge base up to the answer's chunks: a member collection in Qdrant
  (\<open>qdrant-corpus-store.ts\<close>), the probe that asks the source whether the caller may read a
  candidate (\<open>probe.ts\<close>, and \<open>BrokerProber\<close> of \<open>retrieve.ts\<close>), and their composition
  \<open>retrieve\<close>.

  The services are parameters: the identity-link gateway, the embedder, Qdrant, the
  connection-broker and \<open>JSON.parse\<close> of a chunk descriptor. Each answers depending on the log
  and may throw. An answer's body is read by its declared type, as the code casts it.
\<close>

section \<open>Calls\<close>

record 'a http_response =
  rs_status :: int
  rs_text :: "kb_error + string"
  rs_json :: "kb_error + 'a"

definition rs_ok :: "'a http_response \<Rightarrow> bool" where
  "rs_ok r \<longleftrightarrow> 200 \<le> rs_status r \<and> rs_status r \<le> 299"

text \<open>A point of Qdrant's answer: \<open>None\<close> when there is no payload with a descriptor string.\<close>

record qdrant_point =
  pt_score :: js_double
  pt_descriptor :: "string option"

datatype Granularity = Resource | Connection

record ProbeRequest =
  pq_connectionId :: string
  pq_sourceId :: "string option"

record ProbeResult =
  pr_allowed :: bool
  pr_title :: string
  pr_url :: string
  pr_version :: "string option"

record qdrant_request =
  qr_url :: string
  qr_apiKey :: "string option"
  qr_vector :: "js_double list"
  qr_limit :: int
  qr_roles :: "string list"

text \<open>One request to the connection-broker: both credentials, and what it carries.\<close>

record broker_request =
  bq_endpoint :: string
  bq_bearer :: string
  bq_delegated :: string

text \<open>What the live tools send and get: one item of a source, one document, and the filter of a query.\<close>

record BrokerItem =
  bi_id :: string
  bi_title :: "string option"
  bi_url :: "string option"
  bi_updatedAt :: "string option"
  bi_excerpt :: "string option"

record live_document =
  ld_markdown :: "string option"
  ld_url :: "string option"
  ld_title :: "string option"

record SourceQuery =
  sq_text :: "string option"
  sq_title :: "string option"
  sq_author :: "string option"
  sq_after :: "string option"
  sq_before :: "string option"
  sq_type :: "string option"
  sq_sort :: string
  sq_limit :: rat

record query_answer =
  qa_hits :: "BrokerItem list option"
  qa_unsupported :: "string list option"

datatype kb_event =
    KGetToken string string "kb_error + string option"
  | KAccountId string string "kb_error + string option"
  | KLogin string string "kb_error + string option"
  | KEmbed string "kb_error + js_double list"
  | KSearch qdrant_request "kb_error + qdrant_point list option http_response"
  | KProbe broker_request "string option" "kb_error + ProbeResult http_response"
  | KRead broker_request "kb_error + live_document http_response"
  | KLookup broker_request "kb_error + BrokerItem list option http_response"
  | KQuery broker_request SourceQuery "kb_error + query_answer http_response"

type_synonym 'a kb_eff = "(kb_event, kb_error, 'a) eff"

record kb_env =
  kb_getToken :: "kb_event list \<Rightarrow> string \<Rightarrow> string \<Rightarrow> kb_error + string option"
  kb_accountId :: "(kb_event list \<Rightarrow> string \<Rightarrow> string \<Rightarrow> kb_error + string option) option"
  kb_login :: "(kb_event list \<Rightarrow> string \<Rightarrow> string \<Rightarrow> kb_error + string option) option"
  kb_embed :: "kb_event list \<Rightarrow> string \<Rightarrow> kb_error + js_double list"
  kb_search :: "kb_event list \<Rightarrow> qdrant_request \<Rightarrow> kb_error + qdrant_point list option http_response"
  kb_probe :: "kb_event list \<Rightarrow> broker_request \<Rightarrow> string option \<Rightarrow> kb_error + ProbeResult http_response"
  kb_parse :: "string \<Rightarrow> CorpusChunk option option"
  kb_read :: "kb_event list \<Rightarrow> broker_request \<Rightarrow> kb_error + live_document http_response"
  kb_lookup :: "kb_event list \<Rightarrow> broker_request \<Rightarrow> kb_error + BrokerItem list option http_response"
  kb_query :: "kb_event list \<Rightarrow> broker_request \<Rightarrow> SourceQuery \<Rightarrow> kb_error + query_answer http_response"


section \<open>A member collection\<close>

text \<open>\<open>kb_parse\<close> is \<open>JSON.parse\<close>: \<open>None\<close> when it throws, \<open>Some None\<close> for \<open>null\<close>.\<close>

definition decodeChunk :: "kb_env \<Rightarrow> string option \<Rightarrow> CorpusChunk option" where
  "decodeChunk env payload =
     (case payload of
        None \<Rightarrow> None
      | Some s \<Rightarrow>
          (case kb_parse env s of
             Some (Some chunk) \<Rightarrow>
               if ch_sourceUrl chunk = [] \<or> ch_contentHash chunk = [] then None else Some chunk
           | _ \<Rightarrow> None))"

record QdrantCorpusStoreConfig =
  qc_url :: string
  qc_apiKey :: "string option"
  qc_collection :: string

definition qdrant_query :: "kb_env \<Rightarrow> QdrantCorpusStoreConfig \<Rightarrow> kb_event CorpusStore" where
  "qdrant_query env cfg query callerRoles k =
     (if callerRoles = [] then return_e []
      else if k \<le> 0 then return_e []
      else
        bind_e (call_e (\<lambda>log. kb_embed env log query) (KEmbed query)) (\<lambda>vector.
          (let req = \<lparr>qr_url = strip_trailing_slashes (qc_url cfg) @ ''/collections/'' @
                        encodeURIComponent (qc_collection cfg) @ ''/points/search'',
                      qr_apiKey = (if truthy_str (qc_apiKey cfg) then qc_apiKey cfg else None),
                      qr_vector = vector, qr_limit = k, qr_roles = callerRoles\<rparr> in
           bind_e (call_e (\<lambda>log. kb_search env log req) (KSearch req)) (\<lambda>response.
             if rs_status response = 404 then return_e []
             else if \<not> rs_ok response
             then bind_e (lift_e (rs_text response)) (\<lambda>body.
               throw_e (new_Error (''qdrant search '' @ qc_collection cfg @ '': '' @
                 int_string (rs_status response) @ '' '' @ take 300 body)))
             else bind_e (lift_e (rs_json response)) (\<lambda>points.
               return_e (List.map_filter (\<lambda>point.
                 map_option (\<lambda>chunk. \<lparr>hit_chunk = chunk, hit_score = pt_score point\<rparr>)
                   (decodeChunk env (pt_descriptor point)))
                 (coalesce points [])))))))"


section \<open>Authorization by probing\<close>

record 'v Prober =
  pb_granularity :: "string \<Rightarrow> Granularity"
  pb_probe :: "ProbeRequest \<Rightarrow> ('v, kb_error, ProbeResult) eff"

record AuthorizeOutcome =
  ao_chunks :: "AuthorizedChunk list"
  ao_denied :: nat
  ao_undetermined :: "string list"

definition keyFor :: "(string \<Rightarrow> Granularity) \<Rightarrow> CorpusChunk \<Rightarrow> string" where
  "keyFor granularity chunk =
     (if granularity (ch_connectionId chunk) = Connection
      then ch_connectionId chunk @ [CHR 0x00]
      else ch_connectionId chunk @ [CHR 0x00] @ ch_sourceId chunk)"

definition requestFor :: "(string \<Rightarrow> Granularity) \<Rightarrow> CorpusChunk \<Rightarrow> ProbeRequest" where
  "requestFor granularity chunk =
     \<lparr>pq_connectionId = ch_connectionId chunk,
      pq_sourceId = (if granularity (ch_connectionId chunk) = Connection then None else Some (ch_sourceId chunk))\<rparr>"

definition probe_requests ::
    "(string \<Rightarrow> Granularity) \<Rightarrow> CorpusSearchResult list \<Rightarrow> (string \<times> ProbeRequest) list" where
  "probe_requests granularity hits =
     fold (\<lambda>hit requests.
       (let key = keyFor granularity (hit_chunk hit) in
        if key \<in> fst ` set requests then requests
        else requests @ [(key, requestFor granularity (hit_chunk hit))])) hits []"

definition classified :: "kb_error \<Rightarrow> bool" where
  "classified e \<longleftrightarrow> (case e of OtherError _ _ \<Rightarrow> False | _ \<Rightarrow> True)"

definition confirmed_chunk :: "CorpusSearchResult \<Rightarrow> ProbeResult \<Rightarrow> AuthorizedChunk" where
  "confirmed_chunk hit v =
     \<lparr>ac_chunk = hit_chunk hit, ac_score = hit_score hit, ac_title = pr_title v, ac_url = pr_url v,
      ac_version = pr_version v,
      ac_stale = (truthy_str (pr_version v) \<and> pr_version v \<noteq> ch_version (hit_chunk hit))\<rparr>"

text \<open>What a candidate's probe says of it.\<close>

datatype hit_outcome = Confirmed AuthorizedChunk | Denied | Undetermined string

definition hit_verdict :: "kb_error + ProbeResult \<Rightarrow> CorpusSearchResult \<Rightarrow> hit_outcome" where
  "hit_verdict outcome hit =
     (case outcome of
        Inl (TransientProbeError _) \<Rightarrow> Undetermined (hit_connection hit @ ''/'' @ hit_source hit)
      | Inl _ \<Rightarrow> Denied
      | Inr v \<Rightarrow> if \<not> pr_allowed v then Denied else Confirmed (confirmed_chunk hit v))"

fun authorize_loop :: "(CorpusSearchResult \<Rightarrow> hit_outcome) \<Rightarrow> CorpusSearchResult list \<Rightarrow>
    AuthorizedChunk list \<times> nat \<times> string list \<Rightarrow> AuthorizedChunk list \<times> nat \<times> string list" where
  "authorize_loop judge [] acc = acc"
| "authorize_loop judge (hit # hits) (chunks, denied, undetermined) =
     (case judge hit of
        Undetermined s \<Rightarrow> authorize_loop judge hits (chunks, denied, undetermined @ [s])
      | Denied \<Rightarrow> authorize_loop judge hits (chunks, denied + 1, undetermined)
      | Confirmed c \<Rightarrow> authorize_loop judge hits (chunks @ [c], denied, undetermined))"

definition authorize_hits :: "'v Prober \<Rightarrow> CorpusSearchResult list \<Rightarrow> ('v, kb_error, AuthorizeOutcome) eff" where
  "authorize_hits prober hits =
     (if hits = [] then return_e \<lparr>ao_chunks = [], ao_denied = 0, ao_undetermined = []\<rparr>
      else
        (let requests = probe_requests (pb_granularity prober) hits in
         bind_e (all_settled (map (\<lambda>(key, request). pb_probe prober request) requests)) (\<lambda>settled.
           (let results = zip (map fst requests) settled in
            case filter (\<lambda>e. \<not> classified e) (rejected settled) of
              e # _ \<Rightarrow> throw_e e
            | [] \<Rightarrow>
                (case authorize_loop
                        (\<lambda>hit. hit_verdict (the (map_of results (keyFor (pb_granularity prober) (hit_chunk hit)))) hit)
                        hits ([], 0, []) of
                   (chunks, denied, undetermined) \<Rightarrow>
                     return_e \<lparr>ao_chunks = chunks, ao_denied = denied,
                                ao_undetermined = sort (js_unique undetermined)\<rparr>)))))"


section \<open>Retrieval\<close>

definition DEFAULT_CANDIDATE_MULTIPLIER :: int where "DEFAULT_CANDIDATE_MULTIPLIER = 5"

record RetrieveOutcome =
  ro_chunks :: "AuthorizedChunk list"
  ro_denied :: nat
  ro_undetermined :: "string list"
  ro_skippedCorpora :: nat
  ro_preFiltered :: nat

definition retrieve ::
    "'v CorpusStore list \<Rightarrow> 'v Prober \<Rightarrow> string \<Rightarrow> string list \<Rightarrow> string list \<Rightarrow> int \<Rightarrow> int \<Rightarrow>
     ('v, kb_error, RetrieveOutcome) eff" where
  "retrieve stores prober query callerRoles callerPrincipals limit multiplier =
     (let factor = (if 1 \<le> multiplier then multiplier else DEFAULT_CANDIDATE_MULTIPLIER) in
      bind_e (searchCorpus stores query callerRoles (limit * factor)) (\<lambda>found.
        (let (kept, dropped) = preFilter (so_hits found) callerPrincipals in
         bind_e (authorize_hits prober kept) (\<lambda>authorized.
           (let ranked = rerank query (ao_chunks authorized) in
            return_e
              \<lparr>ro_chunks = take (nat limit) ranked, ro_denied = ao_denied authorized,
               ro_undetermined = ao_undetermined authorized, ro_skippedCorpora = so_skipped found,
               ro_preFiltered = dropped\<rparr>)))))"


section \<open>The broker's prober\<close>

record BrokerProberOptions =
  bp_baseUrl :: string
  bp_token :: string
  bp_delegatedToken :: "string option"
  bp_delegatedTokens :: "(string \<times> string) list"
  bp_granularities :: "(string \<times> Granularity) list"

definition broker_granularity :: "BrokerProberOptions \<Rightarrow> string \<Rightarrow> Granularity" where
  "broker_granularity options connectionId = coalesce (map_of (bp_granularities options) connectionId) Resource"

definition broker_probe :: "kb_env \<Rightarrow> BrokerProberOptions \<Rightarrow> ProbeRequest \<Rightarrow> ProbeResult kb_eff" where
  "broker_probe env options request =
     (let delegatedToken =
            (case map_of (bp_delegatedTokens options) (pq_connectionId request) of
               Some t \<Rightarrow> Some t | None \<Rightarrow> bp_delegatedToken options) in
      if \<not> truthy_str delegatedToken
      then throw_e (PermissionDeniedError ''no delegated credential for this caller'')
      else
        (let req = \<lparr>bq_endpoint = strip_trailing_slashes (bp_baseUrl options) @ ''/corpora/'' @
                       encodeURIComponent (pq_connectionId request) @ ''/probe'',
                    bq_bearer = bp_token options, bq_delegated = the delegatedToken\<rparr> in
         bind_e (try_e (call_e (\<lambda>log. kb_probe env log req (pq_sourceId request)) (KProbe req (pq_sourceId request))))
           (\<lambda>r. case r of
              Inl cause \<Rightarrow> throw_e (TransientProbeError (''connection-broker unreachable: '' @ error_string cause))
            | Inr response \<Rightarrow>
                if rs_ok response then lift_e (rs_json response)
                else if rs_status response = 403
                then throw_e (PermissionDeniedError (''broker returned '' @ int_string (rs_status response)))
                else throw_e (TransientProbeError (''broker returned '' @ int_string (rs_status response))))))"

definition BrokerProber :: "kb_env \<Rightarrow> BrokerProberOptions \<Rightarrow> kb_event Prober" where
  "BrokerProber env options = \<lparr>pb_granularity = broker_granularity options, pb_probe = broker_probe env options\<rparr>"


section \<open>What authorization shows\<close>

definition confirmed_of :: "(CorpusSearchResult \<Rightarrow> hit_outcome) \<Rightarrow> CorpusSearchResult list \<Rightarrow> AuthorizedChunk list" where
  "confirmed_of judge hits = concat (map (\<lambda>h. case judge h of Confirmed c \<Rightarrow> [c] | _ \<Rightarrow> []) hits)"

definition undetermined_of :: "(CorpusSearchResult \<Rightarrow> hit_outcome) \<Rightarrow> CorpusSearchResult list \<Rightarrow> string list" where
  "undetermined_of judge hits = concat (map (\<lambda>h. case judge h of Undetermined s \<Rightarrow> [s] | _ \<Rightarrow> []) hits)"

definition denied_of :: "(CorpusSearchResult \<Rightarrow> hit_outcome) \<Rightarrow> CorpusSearchResult list \<Rightarrow> CorpusSearchResult list" where
  "denied_of judge hits = filter (\<lambda>h. judge h = Denied) hits"

lemmas verdict_lists = confirmed_of_def undetermined_of_def denied_of_def

lemma authorize_loop_lists:
  "authorize_loop judge hits (cs, d, us) =
     (cs @ confirmed_of judge hits, d + length (denied_of judge hits), us @ undetermined_of judge hits)"
  by (induction hits arbitrary: cs d us) (auto simp: verdict_lists split: hit_outcome.split)

lemma set_confirmed_of: "c \<in> set (confirmed_of judge hits) \<longleftrightarrow> (\<exists>h \<in> set hits. judge h = Confirmed c)"
  by (induction hits) (auto simp: confirmed_of_def split: hit_outcome.split)

lemma verdicts_partition:
  "length (confirmed_of judge hits) + length (denied_of judge hits) + length (undetermined_of judge hits) = length hits"
  by (induction hits) (auto simp: verdict_lists split: hit_outcome.split)

lemma probe_requests_keys:
  "set (probe_requests g hits) \<subseteq> (\<lambda>h. (keyFor g (hit_chunk h), requestFor g (hit_chunk h))) ` set hits"
  "fst ` set (probe_requests g hits) = (\<lambda>h. keyFor g (hit_chunk h)) ` set hits"
  "distinct (map fst (probe_requests g hits))"
proof (induction hits rule: rev_induct)
  case (snoc h hits)
  {
    case 1
    then show ?case using snoc(1) by (auto simp: probe_requests_def Let_def)
  next
    case 2
    then show ?case using snoc(2) by (auto simp: probe_requests_def Let_def)
  next
    case 3
    then show ?case using snoc(3) by (auto simp: probe_requests_def Let_def)
  }
qed (simp_all add: probe_requests_def)

lemma settled_lookup:
  assumes "list_all2 (\<lambda>kq (r, n). P (snd kq) r n) requests rns" "key \<in> fst ` set requests"
  shows "\<exists>q r n. (key, q) \<in> set requests \<and> (r, n) \<in> set rns \<and> P q r n \<and>
           map_of (zip (map fst requests) (map fst rns)) key = Some r"
  using assms
proof (induction rule: list_all2_induct)
  case (Cons kq requests rn rns)
  obtain k q r n where e: "kq = (k, q)" "rn = (r, n)" by (cases kq; cases rn)
  show ?case
  proof (cases "key = k")
    case True
    then show ?thesis using Cons e by auto
  next
    case False
    then have "key \<in> fst ` set requests" using Cons.prems e by auto
    then show ?thesis using Cons.IH False e by auto
  qed
qed simp

lemma settled_lookup_rev:
  assumes "list_all2 (\<lambda>kq (r, n). P (snd kq) r n) requests rns" "distinct (map fst requests)" "(r, n) \<in> set rns"
  shows "\<exists>k q. (k, q) \<in> set requests \<and> P q r n \<and> map_of (zip (map fst requests) (map fst rns)) k = Some r"
  using assms
proof (induction rule: list_all2_induct)
  case (Cons kq requests rn rns)
  obtain k q where e: "kq = (k, q)" by (cases kq)
  show ?case
  proof (cases "(r, n) = rn")
    case True
    then show ?thesis using Cons.hyps e by (intro exI[of _ k] exI[of _ q]) auto
  next
    case False
    then obtain k' q' where "(k', q') \<in> set requests" "P q' r n"
      "map_of (zip (map fst requests) (map fst rns)) k' = Some r"
      using Cons by auto
    moreover from this have "k' \<noteq> k" using Cons.prems(1) e by force
    ultimately show ?thesis using e by (cases rn) auto
  qed
qed simp

text \<open>
  The contract of a prober: an answer it returns is vouched for by an event of the probe, and a
  call of a probe that the source did not answer makes the probe fail as transient.
\<close>

locale corpus_prober =
  fixes prober :: "'v Prober"
    and vouches :: "'v \<Rightarrow> ProbeRequest \<Rightarrow> ProbeResult \<Rightarrow> bool"
    and unanswered :: "'v \<Rightarrow> bool"
  assumes probe_law:
    "does (pb_probe prober request) (\<lambda>r new.
       (\<forall>v. r = Inr v \<longrightarrow> (\<exists>e \<in> set new. vouches e request v)) \<and>
       ((\<exists>e \<in> set new. unanswered e) \<longrightarrow> (\<exists>msg. r = Inl (TransientProbeError msg))))"
begin

abbreviation key :: "CorpusChunk \<Rightarrow> string" where
  "key \<equiv> keyFor (pb_granularity prober)"

text \<open>What authorization returns for its candidates, and what its calls show.\<close>

definition authorizes :: "CorpusSearchResult list \<Rightarrow> kb_error + AuthorizeOutcome \<Rightarrow> 'v list \<Rightarrow> bool" where
  "authorizes hits r new \<longleftrightarrow>
     (\<forall>out. r = Inr out \<longrightarrow>
        (\<forall>c \<in> set (ao_chunks out). \<exists>hit \<in> set hits. \<exists>asked \<in> set hits. \<exists>v. \<exists>e \<in> set new.
           c = confirmed_chunk hit v \<and> pr_allowed v \<and>
           key (hit_chunk asked) = key (hit_chunk hit) \<and>
           vouches e (requestFor (pb_granularity prober) (hit_chunk asked)) v) \<and>
        ((\<exists>e \<in> set new. unanswered e) \<longrightarrow> ao_undetermined out \<noteq> []))"

lemma judged_chunks:
  assumes all: "list_all2 (\<lambda>kq (r, n).
       (\<forall>v. r = Inr v \<longrightarrow> (\<exists>e \<in> set n. vouches e (snd kq) v)) \<and>
       ((\<exists>e \<in> set n. unanswered e) \<longrightarrow> (\<exists>msg. r = Inl (TransientProbeError msg))))
     (probe_requests (pb_granularity prober) hits) rns"
    and hit: "hit \<in> set hits"
    and hit_outcome: "hit_verdict (the (map_of (zip (map fst (probe_requests (pb_granularity prober) hits)) (map fst rns))
       (key (hit_chunk hit)))) hit = Confirmed c"
  shows "\<exists>asked \<in> set hits. \<exists>v. \<exists>e \<in> set (concat (map snd rns)).
       c = confirmed_chunk hit v \<and> pr_allowed v \<and> key (hit_chunk asked) = key (hit_chunk hit) \<and>
       vouches e (requestFor (pb_granularity prober) (hit_chunk asked)) v"
proof -
  let ?rs = "probe_requests (pb_granularity prober) hits"
  have "key (hit_chunk hit) \<in> fst ` set ?rs" using hit probe_requests_keys(2) by fastforce
  from settled_lookup[OF all this] obtain q r n where q:
    "(key (hit_chunk hit), q) \<in> set ?rs" "(r, n) \<in> set rns" "\<forall>v. r = Inr v \<longrightarrow> (\<exists>e \<in> set n. vouches e q v)"
    "map_of (zip (map fst ?rs) (map fst rns)) (key (hit_chunk hit)) = Some r"
    by blast
  obtain v where v: "r = Inr v" "pr_allowed v" "c = confirmed_chunk hit v"
    using hit_outcome q(4) by (auto simp: hit_verdict_def split: sum.splits kb_error.splits if_splits)
  obtain asked where "asked \<in> set hits" "key (hit_chunk asked) = key (hit_chunk hit)"
    "q = requestFor (pb_granularity prober) (hit_chunk asked)"
    using q(1) probe_requests_keys(1)[of "pb_granularity prober" hits] by auto
  moreover obtain e where "e \<in> set n" "vouches e q v" using q(3) v(1) by blast
  moreover have "e \<in> set (concat (map snd rns))" using q(2) \<open>e \<in> set n\<close> by force
  ultimately show ?thesis using v by blast
qed

lemma unanswered_undetermined:
  assumes all: "list_all2 (\<lambda>kq (r, n).
       (\<forall>v. r = Inr v \<longrightarrow> (\<exists>e \<in> set n. vouches e (snd kq) v)) \<and>
       ((\<exists>e \<in> set n. unanswered e) \<longrightarrow> (\<exists>msg. r = Inl (TransientProbeError msg))))
     (probe_requests (pb_granularity prober) hits) rns"
    and e: "e \<in> set (concat (map snd rns))" "unanswered e"
  shows "undetermined_of (\<lambda>hit. hit_verdict (the (map_of
      (zip (map fst (probe_requests (pb_granularity prober) hits)) (map fst rns)) (key (hit_chunk hit)))) hit) hits \<noteq> []"
proof -
  let ?rs = "probe_requests (pb_granularity prober) hits"
  obtain r n where rn: "(r, n) \<in> set rns" "e \<in> set n" using e(1) by auto
  from settled_lookup_rev[OF all probe_requests_keys(3) rn(1)] rn(2) e(2) obtain k q msg where k:
    "(k, q) \<in> set ?rs" "r = Inl (TransientProbeError msg)" "map_of (zip (map fst ?rs) (map fst rns)) k = Some r"
    by blast
  obtain hit where hit: "hit \<in> set hits" "k = key (hit_chunk hit)"
    using k(1) probe_requests_keys(1)[of "pb_granularity prober" hits] by auto
  then show ?thesis using k by (auto simp: undetermined_of_def hit_verdict_def intro!: bexI[of _ hit])
qed

lemma authorize_does: "does (authorize_hits prober hits) (authorizes hits)"
proof (cases "hits = []")
  case True
  then show ?thesis by (auto simp: authorize_hits_def authorizes_def intro!: does_return)
next
  case False
  let ?rs = "probe_requests (pb_granularity prober) hits"
  let ?P = "\<lambda>q r n. (\<forall>v. r = Inr v \<longrightarrow> (\<exists>e \<in> set n. vouches e q v)) \<and>
       ((\<exists>e \<in> set n. unanswered e) \<longrightarrow> (\<exists>msg. r = Inl (TransientProbeError msg)))"
  have probes: "does (all_settled (map (\<lambda>(k, q). pb_probe prober q) ?rs))
      (\<lambda>r new. \<exists>rns. r = Inr (map fst rns) \<and> new = concat (map snd rns) \<and> list_all2 (\<lambda>kq (r, n). ?P (snd kq) r n) ?rs rns)"
    using probe_law by (intro does_all_settled) (simp add: split_beta)
  show ?thesis
    unfolding authorize_hits_def Let_def if_not_P[OF False]
  proof (rule does_bind[OF probes])
    fix settled first
    assume "\<exists>rns. Inr settled = Inr (map fst rns) \<and> first = concat (map snd rns) \<and>
        list_all2 (\<lambda>kq (r, n). ?P (snd kq) r n) ?rs rns"
    then obtain rns where rns: "settled = map fst rns" "first = concat (map snd rns)"
      "list_all2 (\<lambda>kq (r, n). ?P (snd kq) r n) ?rs rns" by auto
    let ?judge = "\<lambda>hit. hit_verdict (the (map_of (zip (map fst ?rs) settled) (key (hit_chunk hit)))) hit"
    have shown: "\<exists>hit \<in> set hits. \<exists>asked \<in> set hits. \<exists>v. \<exists>e \<in> set first.
           c = confirmed_chunk hit v \<and> pr_allowed v \<and>
           key (hit_chunk asked) = key (hit_chunk hit) \<and>
           vouches e (requestFor (pb_granularity prober) (hit_chunk asked)) v"
      if c: "c \<in> set (confirmed_of ?judge hits)" for c
    proof -
      obtain hit where hit: "hit \<in> set hits" "?judge hit = Confirmed c"
        using c[unfolded set_confirmed_of] by (rule bexE)
      show ?thesis
        using judged_chunks[OF rns(3) hit(1) hit(2)[unfolded rns(1)], folded rns(2)] hit(1) by (rule bexI)
    qed
    have told: "undetermined_of ?judge hits \<noteq> []" if "e \<in> set first" "unanswered e" for e
      using unanswered_undetermined[OF rns(3) that(1)[unfolded rns(2)] that(2)] unfolding rns(1) .
    have out: "authorizes hits (Inr \<lparr>ao_chunks = confirmed_of ?judge hits, ao_denied = d,
        ao_undetermined = sort (js_unique (undetermined_of ?judge hits))\<rparr>) first" for d
    proof -
      show ?thesis unfolding authorizes_def
      proof (intro allI impI conjI ballI)
        fix o' c
        assume o': "Inr \<lparr>ao_chunks = confirmed_of ?judge hits, ao_denied = d,
            ao_undetermined = sort (js_unique (undetermined_of ?judge hits))\<rparr> = (Inr o' :: kb_error + _)"
        {
          assume "c \<in> set (ao_chunks o')"
          then have "c \<in> set (confirmed_of ?judge hits)" using o' by auto
          then show "\<exists>hit \<in> set hits. \<exists>asked \<in> set hits. \<exists>v. \<exists>e \<in> set first.
             c = confirmed_chunk hit v \<and> pr_allowed v \<and> key (hit_chunk asked) = key (hit_chunk hit) \<and>
             vouches e (requestFor (pb_granularity prober) (hit_chunk asked)) v" by (rule shown)
        }
        assume "\<exists>e \<in> set first. unanswered e"
        then have "undetermined_of ?judge hits \<noteq> []" using told by auto
        then show "ao_undetermined o' \<noteq> []" using o' by (auto simp: sort_Nil_iff)
      qed
    qed
    show "does (case filter (\<lambda>e. \<not> classified e) (rejected settled) of
         [] \<Rightarrow> (case authorize_loop ?judge hits ([], 0, []) of
             (chunks, denied, undetermined) \<Rightarrow> return_e \<lparr>ao_chunks = chunks, ao_denied = denied, ao_undetermined = sort (js_unique undetermined)\<rparr>)
       | e # _ \<Rightarrow> throw_e e) (\<lambda>r new. authorizes hits r (first @ new))"
    proof (cases "filter (\<lambda>e. \<not> classified e) (rejected settled)")
      case Nil
      then show ?thesis using out by (simp add: authorize_loop_lists does_return)
    next
      case (Cons e es)
      then show ?thesis by (simp add: does_throw authorizes_def)
    qed
  qed (simp add: authorizes_def)
qed

text \<open>The same for the whole read path, over stores whose calls are not probes.\<close>

definition retrieves :: "int \<Rightarrow> kb_error + RetrieveOutcome \<Rightarrow> 'v list \<Rightarrow> bool" where
  "retrieves limit r new \<longleftrightarrow>
     (\<forall>out. r = Inr out \<longrightarrow>
        (\<forall>c \<in> set (ro_chunks out). \<exists>(hit :: CorpusSearchResult) (asked :: CorpusSearchResult) v. \<exists>e \<in> set new.
           c = confirmed_chunk hit v \<and> pr_allowed v \<and>
           key (hit_chunk asked) = key (hit_chunk hit) \<and>
           vouches e (requestFor (pb_granularity prober) (hit_chunk asked)) v) \<and>
        length (ro_chunks out) \<le> nat limit \<and>
        ((\<exists>e \<in> set new. unanswered e) \<longrightarrow> ro_undetermined out \<noteq> []))"

lemma authorizes_retrieves:
  assumes "authorizes hits (Inr authorized) new" "\<forall>e \<in> set first. \<not> unanswered e"
  shows "retrieves limit
    (Inr \<lparr>ro_chunks = take (nat limit) (rerank query (ao_chunks authorized)), ro_denied = d,
          ro_undetermined = ao_undetermined authorized, ro_skippedCorpora = s, ro_preFiltered = p\<rparr>) (first @ new)"
  unfolding retrieves_def
proof (intro allI impI conjI ballI)
  fix out c
  assume out: "Inr \<lparr>ro_chunks = take (nat limit) (rerank query (ao_chunks authorized)), ro_denied = d,
          ro_undetermined = ao_undetermined authorized, ro_skippedCorpora = s, ro_preFiltered = p\<rparr> = (Inr out :: kb_error + _)"
  {
    assume "c \<in> set (ro_chunks out)"
    then have "c \<in> set (ao_chunks authorized)" using out by (auto dest!: in_set_takeD)
    then show "\<exists>(hit :: CorpusSearchResult) (asked :: CorpusSearchResult) v. \<exists>e \<in> set (first @ new).
           c = confirmed_chunk hit v \<and> pr_allowed v \<and>
           key (hit_chunk asked) = key (hit_chunk hit) \<and>
           vouches e (requestFor (pb_granularity prober) (hit_chunk asked)) v"
      using assms(1)[unfolded authorizes_def, rule_format, OF refl] by (fastforce simp del: bex_simps)
  }
  show "length (ro_chunks out) \<le> nat limit" using out by auto
  assume "\<exists>e \<in> set (first @ new). unanswered e"
  then have "\<exists>e \<in> set new. unanswered e" using assms(2) by auto
  then show "ro_undetermined out \<noteq> []" using assms(1) out by (auto simp: authorizes_def)
qed

lemma retrieve_does:
  assumes "\<And>store k. store \<in> set stores \<Longrightarrow> emits (\<lambda>e. \<not> unanswered e) (store query roles k)"
  shows "does (retrieve stores prober query roles principals limit multiplier) (retrieves limit)"
proof -
  have search: "does (searchCorpus stores query roles k) (\<lambda>_ new. \<forall>e \<in> set new. \<not> unanswered e)" for k
  proof -
    have "emits (\<lambda>e. \<not> unanswered e) (searchCorpus stores query roles k)"
      unfolding searchCorpus_def Let_def
      using assms by (intro emits_rules emits_all_settled) auto
    then show ?thesis by (simp add: does_emits list_all_iff)
  qed
  show ?thesis
    unfolding retrieve_def Let_def split_beta
  proof (rule does_bind[OF search])
    fix found first
    assume first: "\<forall>e \<in> set first. \<not> unanswered e"
    show "does (bind_e (authorize_hits prober (fst (preFilter (so_hits found) principals)))
        (\<lambda>authorized. return_e \<lparr>ro_chunks = take (nat limit) (rerank query (ao_chunks authorized)),
            ro_denied = ao_denied authorized, ro_undetermined = ao_undetermined authorized,
            ro_skippedCorpora = so_skipped found, ro_preFiltered = snd (preFilter (so_hits found) principals)\<rparr>))
        (\<lambda>r new. retrieves limit r (first @ new))"
      using authorizes_retrieves[OF _ first]
      by (intro does_bind[OF authorize_does] does_return) (simp_all add: retrieves_def)
  qed (simp add: retrieves_def)
qed

end


section \<open>The prober of the broker keeps the contract\<close>

text \<open>A probe's event vouches for its answer: the broker said so, to the caller's own credential.\<close>

definition probe_vouches :: "BrokerProberOptions \<Rightarrow> kb_event \<Rightarrow> ProbeRequest \<Rightarrow> ProbeResult \<Rightarrow> bool" where
  "probe_vouches options e request v \<longleftrightarrow>
     (case e of
        KProbe bq source (Inr response) \<Rightarrow>
          source = pq_sourceId request \<and> rs_ok response \<and> rs_json response = Inr v \<and>
          bq_endpoint bq = strip_trailing_slashes (bp_baseUrl options) @ ''/corpora/'' @
            encodeURIComponent (pq_connectionId request) @ ''/probe'' \<and>
          bq_bearer bq = bp_token options \<and> bq_delegated bq \<noteq> [] \<and>
          Some (bq_delegated bq) = (case map_of (bp_delegatedTokens options) (pq_connectionId request) of
             Some t \<Rightarrow> Some t | None \<Rightarrow> bp_delegatedToken options)
      | _ \<Rightarrow> False)"

definition probe_unanswered :: "kb_event \<Rightarrow> bool" where
  "probe_unanswered e \<longleftrightarrow>
     (case e of
        KProbe _ _ (Inl _) \<Rightarrow> True
      | KProbe _ _ (Inr response) \<Rightarrow> \<not> rs_ok response \<and> rs_status response \<noteq> 403
      | _ \<Rightarrow> False)"

lemma BrokerProber_simps [simp]:
  "pb_granularity (BrokerProber env options) = broker_granularity options"
  "pb_probe (BrokerProber env options) = broker_probe env options"
  by (simp_all add: BrokerProber_def)

interpretation broker: corpus_prober "BrokerProber env options" "probe_vouches options" probe_unanswered
  for env options
proof unfold_locales
  fix request
  show "does (pb_probe (BrokerProber env options) request) (\<lambda>r new.
       (\<forall>v. r = Inr v \<longrightarrow> (\<exists>e \<in> set new. probe_vouches options e request v)) \<and>
       ((\<exists>e \<in> set new. probe_unanswered e) \<longrightarrow> (\<exists>msg. r = Inl (TransientProbeError msg))))"
    (is "does _ ?law")
  proof -
    let ?t = "case map_of (bp_delegatedTokens options) (pq_connectionId request) of
        Some t \<Rightarrow> Some t | None \<Rightarrow> bp_delegatedToken options"
    let ?bq = "\<lparr>bq_endpoint = strip_trailing_slashes (bp_baseUrl options) @ ''/corpora/'' @
        encodeURIComponent (pq_connectionId request) @ ''/probe'', bq_bearer = bp_token options, bq_delegated = the ?t\<rparr>"
    have call: "does (try_e (call_e (\<lambda>log. kb_probe env log ?bq (pq_sourceId request)) (KProbe ?bq (pq_sourceId request))))
        (\<lambda>r new. \<exists>a. r = Inr a \<and> new = [KProbe ?bq (pq_sourceId request) a])"
      by (intro does_rules) blast
    have token: "the ?t \<noteq> []" "Some (the ?t) = ?t" if "truthy_str ?t"
      using that by (cases ?t; simp)+
    show ?thesis
      unfolding BrokerProber_simps broker_probe_def Let_def
    proof (intro does_if does_bind[OF call] does_throw)
      fix r first
      assume t: "\<not> \<not> truthy_str ?t" and "\<exists>a. Inr r = (Inr a :: kb_error + _) \<and> first = [KProbe ?bq (pq_sourceId request) a]"
      then have first: "first = [KProbe ?bq (pq_sourceId request) r]" by simp
      show "does (case r of
          Inl cause \<Rightarrow> throw_e (TransientProbeError (''connection-broker unreachable: '' @ error_string cause))
        | Inr response \<Rightarrow>
            if rs_ok response then lift_e (rs_json response)
            else if rs_status response = 403
            then throw_e (PermissionDeniedError (''broker returned '' @ int_string (rs_status response)))
            else throw_e (TransientProbeError (''broker returned '' @ int_string (rs_status response))))
          (\<lambda>r new. ?law r (first @ new))"
        using t token unfolding first
        by (cases r) (auto intro!: does_rules simp: probe_vouches_def probe_unanswered_def)
    qed auto
  qed
qed

end
