(* ===== verification/Corpus_Cite.thy ===== *)
theory Corpus_Cite
  imports Js_Number
begin

text \<open>
  \<open>apps/agent-orchestrator/src/knowledge-base/cite.ts\<close>: the numbered sources of an answer, the
  Sources list and the caveats block, the substitution of the model's \<open>[n]\<close> markers by links,
  and the final form of an answer.
\<close>

record CitedSource =
  cs_n :: int
  cs_title :: string
  cs_url :: string

definition SOURCES_HEADER :: string where "SOURCES_HEADER = ''Sources:''"

definition CAVEATS_HEADER :: string where "CAVEATS_HEADER = ''What this answer could not see:''"

abbreviation newline :: char where "newline \<equiv> CHR 0x0A"

definition sourceKey :: "CitedSource \<Rightarrow> string" where
  "sourceKey source = (if cs_url source \<noteq> [] then cs_url source else ''title:'' @ cs_title source)"

definition escape_title_char :: "char \<Rightarrow> string" where
  "escape_title_char c = (if c \<in> set [CHR 0x5C, CHR ''['', CHR '']''] then [CHR 0x5C, c] else [c])"

definition escape_url_char :: "char \<Rightarrow> string" where
  "escape_url_char c =
     (if c = CHR '' '' then ''%20'' else if c = CHR ''('' then ''%28'' else if c = CHR '')'' then ''%29'' else [c])"

definition sourceLink :: "CitedSource \<Rightarrow> string" where
  "sourceLink source =
     (let title = concat (map escape_title_char (cs_title source)) in
      if cs_url source = [] then title
      else ''['' @ title @ '']('' @ concat (map escape_url_char (cs_url source)) @ '')'')"

fun source_lines :: "string list \<Rightarrow> CitedSource list \<Rightarrow> string list" where
  "source_lines seen [] = []"
| "source_lines seen (source # sources) =
     (if sourceKey source \<in> set seen then source_lines seen sources
      else (''- '' @ sourceLink source) # source_lines (sourceKey source # seen) sources)"

definition sourcesBlock :: "CitedSource list \<Rightarrow> string" where
  "sourcesBlock sources =
     (let lines = source_lines [] sources in
      if lines = [] then [] else SOURCES_HEADER @ [newline] @ js_join [newline] lines @ [newline])"

definition caveatsBlock :: "string list \<Rightarrow> string" where
  "caveatsBlock lines =
     (let unique = js_unique lines in
      if unique = [] then []
      else newline # CAVEATS_HEADER @ [newline] @ js_join [newline] (map (\<lambda>l. ''- '' @ l) unique) @ [newline])"


section \<open>Citation markers\<close>

text \<open>
  \<open>CITATION_RUN\<close>: groups \<open>[d, d; ...]\<close> next to each other. Each matcher returns what is left
  behind the match. No two ways through the expression start with the same character, so the
  match is the only one.
\<close>

definition blank :: "char \<Rightarrow> bool" where
  "blank c \<longleftrightarrow> c = CHR '' '' \<or> c = CHR 0x09"

function group_tail :: "string \<Rightarrow> string option" where
  "group_tail s =
     (if take 1 s = '']'' then Some (drop 1 s)
      else
        (let a = dropWhile js_ws s; b = dropWhile js_ws (drop 1 a) in
         if (take 1 a = '','' \<or> take 1 a = '';'') \<and> takeWhile ascii_digit b \<noteq> []
         then group_tail (dropWhile ascii_digit b) else None))"
  by pat_completeness auto

termination
proof (relation "measure length")
  fix s a b
  assume "a = dropWhile js_ws s" "b = dropWhile js_ws (drop 1 a)"
    and sep: "(take 1 a = '','' \<or> take 1 a = '';'') \<and> takeWhile ascii_digit b \<noteq> []"
  then have "length (dropWhile ascii_digit b) \<le> length b" "length b \<le> length a - 1" "length a \<le> length s"
    using length_dropWhile_le[of _ "drop 1 a"] by (simp_all add: length_dropWhile_le)
  moreover have "a \<noteq> []" using sep by auto
  ultimately show "(dropWhile ascii_digit b, s) \<in> measure length" by (cases a) auto
qed simp

declare group_tail.simps [simp del]

definition match_group :: "string \<Rightarrow> string option" where
  "match_group s =
     (if take 1 s = ''['' \<and> takeWhile ascii_digit (drop 1 s) \<noteq> []
      then group_tail (dropWhile ascii_digit (drop 1 s)) else None)"

lemma group_tail_shorter: "group_tail s = Some r \<Longrightarrow> length r < length s"
proof (induction s rule: group_tail.induct)
  case (1 s)
  let ?a = "dropWhile js_ws s"
  let ?b = "dropWhile js_ws (drop 1 ?a)"
  show ?case
  proof (cases "take 1 s = '']''")
    case True
    then show ?thesis using 1(2) by (subst (asm) group_tail.simps) (cases s; simp)
  next
    case False
    then have c: "(take 1 ?a = '','' \<or> take 1 ?a = '';'') \<and> takeWhile ascii_digit ?b \<noteq> []"
      "group_tail (dropWhile ascii_digit ?b) = Some r"
      using 1(2) by (subst (asm) group_tail.simps, simp add: Let_def split: if_splits)+
    have "length r < length (dropWhile ascii_digit ?b)" using 1(1)[OF False refl refl c(1) c(2)] .
    also have "\<dots> \<le> length ?b" by (rule length_dropWhile_le)
    also have "\<dots> \<le> length (drop 1 ?a)" by (rule length_dropWhile_le)
    also have "\<dots> \<le> length ?a" by simp
    also have "\<dots> \<le> length s" by (rule length_dropWhile_le)
    finally show ?thesis .
  qed
qed

lemma match_group_shorter: "match_group s = Some r \<Longrightarrow> length r < length s"
proof -
  assume "match_group s = Some r"
  then have "length r < length (dropWhile ascii_digit (drop 1 s))"
    by (auto simp: match_group_def dest: group_tail_shorter split: if_splits)
  also have "\<dots> \<le> length s" using length_dropWhile_le[of ascii_digit "drop 1 s"] by simp
  finally show ?thesis .
qed

definition run_gap :: "string \<Rightarrow> string" where
  "run_gap s =
     (let a = dropWhile blank s in dropWhile blank (if take 1 a = '','' then drop 1 a else a))"

lemma run_gap_le: "length (run_gap s) \<le> length s"
proof -
  let ?a = "dropWhile blank s"
  have "length (run_gap s) \<le> length (if take 1 ?a = '','' then drop 1 ?a else ?a)"
    unfolding run_gap_def Let_def by (rule length_dropWhile_le)
  also have "\<dots> \<le> length ?a" by simp
  also have "\<dots> \<le> length s" by (rule length_dropWhile_le)
  finally show ?thesis .
qed

function run_tail :: "string \<Rightarrow> string" where
  "run_tail s = (case match_group (run_gap s) of None \<Rightarrow> s | Some rest \<Rightarrow> run_tail rest)"
  by pat_completeness auto
termination
  by (relation "measure length") (use match_group_shorter run_gap_le in \<open>force intro: less_le_trans\<close>)+

declare run_tail.simps [simp del]

lemma run_tail_le: "length (run_tail s) \<le> length s"
proof (induction s rule: run_tail.induct)
  case (1 s)
  show ?case
  proof (cases "match_group (run_gap s)")
    case None
    then show ?thesis by (subst run_tail.simps) simp
  next
    case (Some rest)
    then have "length (run_tail rest) \<le> length rest" using 1 by simp
    also have "\<dots> \<le> length s" using match_group_shorter[OF Some] run_gap_le[of s] by simp
    finally show ?thesis using Some by (subst run_tail.simps) simp
  qed
qed

definition match_run :: "string \<Rightarrow> string option" where
  "match_run s = map_option run_tail (match_group s)"

lemma match_run_shorter: "match_run s = Some rest \<Longrightarrow> length rest < length s"
  using match_group_shorter run_tail_le by (fastforce simp: match_run_def intro: le_less_trans)


section \<open>Linking\<close>

text \<open>\<open>Number(digits)\<close>, and the source with that number: the last one of a number counts.\<close>

definition cite_number :: "string \<Rightarrow> nat" where
  "cite_number ds = foldl (\<lambda>n c. 10 * n + (of_char c - 48)) 0 ds"

definition source_by_n :: "CitedSource list \<Rightarrow> js_double \<Rightarrow> CitedSource option" where
  "source_by_n sources n = map_of (rev (map (\<lambda>s. (Fin (of_int (cs_n s)), s)) sources)) n"

fun run_links :: "CitedSource list \<Rightarrow> string list \<Rightarrow> string list \<Rightarrow> CitedSource list" where
  "run_links sources inRun [] = []"
| "run_links sources inRun (digits # rest) =
     (case source_by_n sources (js_Number (of_nat (cite_number digits))) of
        None \<Rightarrow> run_links sources inRun rest
      | Some source \<Rightarrow>
          if sourceKey source \<in> set inRun then run_links sources inRun rest
          else source # run_links sources (sourceKey source # inRun) rest)"

definition needsSpaceBefore :: "char option \<Rightarrow> bool" where
  "needsSpaceBefore prev =
     (case prev of None \<Rightarrow> False | Some c \<Rightarrow> c \<notin> set ([CHR '' '', CHR 0x09, newline, CHR 0x0D] @ ''([{'' @ [CHR 0x22, CHR 0x27]))"

definition strip_end :: "(char \<Rightarrow> bool) \<Rightarrow> string \<Rightarrow> string" where
  "strip_end p s = rev (dropWhile p (rev s))"

text \<open>
  The loop over the matches: \<open>prev\<close> is the character before the rest of the text, \<open>pending\<close>
  the text since the last replaced marker. It returns the new text and the sources it linked.
\<close>

function link_loop :: "CitedSource list \<Rightarrow> char option \<Rightarrow> string \<Rightarrow> string \<Rightarrow> string \<times> CitedSource list" where
  "link_loop sources prev pending s =
     (case s of
        [] \<Rightarrow> (pending, [])
      | c # cs \<Rightarrow>
          (case match_run s of
             None \<Rightarrow> link_loop sources (Some c) (pending @ [c]) cs
           | Some rest \<Rightarrow>
               (let m = take (length s - length rest) s in
                if take 1 rest = ''('' \<or> prev = Some CHR '']''
                then link_loop sources (Some (last m)) (pending @ m) rest
                else
                  (let linked = run_links sources [] (js_runs ascii_digit m);
                       prefix = (if linked = [] then strip_end blank pending
                                 else if needsSpaceBefore prev then pending @ '' '' else pending) in
                   case link_loop sources (Some (last m)) [] rest of
                     (out, used) \<Rightarrow> (prefix @ js_join '', '' (map sourceLink linked) @ out, linked @ used)))))"
  by pat_completeness auto
termination
  by (relation "measure (\<lambda>(sources, prev, pending, s). length s)") (auto dest!: match_run_shorter)

declare link_loop.simps [simp del]

definition linkCitations :: "string \<Rightarrow> CitedSource list \<Rightarrow> string \<times> nat" where
  "linkCitations body sources =
     (case link_loop sources None [] body of
        (out, used) \<Rightarrow> (out, length (js_unique (map sourceKey used))))"

fun js_includes :: "string \<Rightarrow> string \<Rightarrow> bool" where
  "js_includes [] t \<longleftrightarrow> t = []"
| "js_includes (c # cs) t \<longleftrightarrow> js_startsWith (c # cs) t \<or> js_includes cs t"

definition strip_newlines :: "string \<Rightarrow> string" where
  "strip_newlines s = strip_end (\<lambda>c. c = newline) s"

definition finalizeCitations :: "string \<Rightarrow> CitedSource list \<Rightarrow> string list \<Rightarrow> string" where
  "finalizeCitations response sources caveats =
     (let (body, used) = linkCitations response sources;
          body' = (if used = 0 \<and> sources \<noteq> []
                   then strip_newlines body @ [newline, newline] @ sourcesBlock sources else body);
          block = caveatsBlock caveats in
      if block \<noteq> [] \<and> \<not> js_includes body' (js_trim block)
      then strip_newlines body' @ [newline] @ block else body')"


section \<open>What an answer keeps\<close>

lemma js_includes_iff: "js_includes s t \<longleftrightarrow> (\<exists>p q. s = p @ t @ q)"
proof (induction s)
  case step: (Cons c cs)
  show ?case
  proof
    assume "js_includes (c # cs) t"
    then consider q where "c # cs = t @ q" | p q where "cs = p @ t @ q"
      using step by (auto simp: js_startsWith_iff)
    then show "\<exists>p q. c # cs = p @ t @ q"
      by cases (metis append_Nil, metis append_Cons)
  next
    assume "\<exists>p q. c # cs = p @ t @ q"
    then obtain p q where pq: "c # cs = p @ t @ q" by blast
    show "js_includes (c # cs) t"
    proof (cases p)
      case Nil
      then have "js_startsWith (c # cs) t" using pq by (simp add: js_startsWith_iff)
      then show ?thesis by simp
    next
      case (Cons d p')
      then have "js_includes cs t" using pq step by auto
      then show ?thesis by simp
    qed
  qed
qed auto

lemma js_trim_infix: "\<exists>p q. s = p @ js_trim s @ q"
proof -
  have "s = takeWhile js_ws s @ dropWhile js_ws s" by simp
  moreover have "dropWhile js_ws s = js_trim s @ rev (takeWhile js_ws (rev (dropWhile js_ws s)))"
    unfolding js_trim_def by (metis rev_append rev_rev_ident takeWhile_dropWhile_id)
  ultimately show ?thesis by metis
qed

lemma js_includes_trans: "js_includes s t \<Longrightarrow> js_includes t u \<Longrightarrow> js_includes s u"
  unfolding js_includes_iff by (metis append.assoc)

lemma js_includes_append: "js_includes (p @ s @ q) s"
  unfolding js_includes_iff by blast

lemma js_includes_trim: "js_includes s (js_trim s)"
  unfolding js_includes_iff by (rule js_trim_infix)

lemma strip_end_append: "strip_end p t \<noteq> [] \<Longrightarrow> strip_end p (s @ t) = s @ strip_end p t"
  by (auto simp: strip_end_def dropWhile_append)

lemma strip_end_infix: "\<exists>q. s = strip_end p s @ q"
  unfolding strip_end_def by (metis rev_append rev_rev_ident takeWhile_dropWhile_id)

lemma sourcesBlock_nonempty: "sources \<noteq> [] \<Longrightarrow> \<exists>t. sourcesBlock sources = ''Sources:'' @ t"
  by (cases sources) (simp_all add: sourcesBlock_def SOURCES_HEADER_def)

lemma strip_newlines_sources: "sources \<noteq> [] \<Longrightarrow> strip_newlines (sourcesBlock sources) \<noteq> []"
proof -
  assume "sources \<noteq> []"
  then obtain t where "sourcesBlock sources = ''Sources:'' @ t" using sourcesBlock_nonempty by blast
  then have s: "CHR ''S'' \<in> set (sourcesBlock sources)" by simp
  show ?thesis
  proof
    assume "strip_newlines (sourcesBlock sources) = []"
    then have "\<forall>c \<in> set (sourcesBlock sources). c = newline"
      by (simp add: strip_newlines_def strip_end_def dropWhile_eq_Nil_conv)
    from this[rule_format, OF s] show False by simp
  qed
qed

lemma caveatsBlock_Nil_iff: "caveatsBlock caveats = [] \<longleftrightarrow> caveats = []"
  by (auto simp: caveatsBlock_def Let_def js_unique_def)

lemma finalize_keeps:
  "caveats \<noteq> [] \<Longrightarrow> js_includes (finalizeCitations response sources caveats) (js_trim (caveatsBlock caveats))"
  "sources \<noteq> [] \<Longrightarrow> snd (linkCitations response sources) = 0 \<Longrightarrow>
     js_includes (finalizeCitations response sources caveats) (strip_newlines (sourcesBlock sources))"
proof -
  obtain body used where l: "linkCitations response sources = (body, used)" by (cases "linkCitations response sources")
  define body' where "body' = (if used = 0 \<and> sources \<noteq> []
    then strip_newlines body @ [newline, newline] @ sourcesBlock sources else body)"
  have f: "finalizeCitations response sources caveats =
      (if caveatsBlock caveats \<noteq> [] \<and> \<not> js_includes body' (js_trim (caveatsBlock caveats))
       then strip_newlines body' @ [newline] @ caveatsBlock caveats else body')"
    by (simp add: finalizeCitations_def l body'_def Let_def)
  have block: "js_includes (strip_newlines body' @ [newline] @ caveatsBlock caveats) (js_trim (caveatsBlock caveats))"
    using js_includes_trans[OF js_includes_append[of "strip_newlines body' @ [newline]" "caveatsBlock caveats" "[]"] js_includes_trim]
    by simp
  show "caveats \<noteq> [] \<Longrightarrow> js_includes (finalizeCitations response sources caveats) (js_trim (caveatsBlock caveats))"
    using block by (simp add: f caveatsBlock_Nil_iff)
  assume s: "sources \<noteq> []" and u: "snd (linkCitations response sources) = 0"
  let ?k = "strip_newlines (sourcesBlock sources)" and ?pre = "strip_newlines body @ [newline, newline]"
  have b: "body' = ?pre @ sourcesBlock sources" using s u l by (simp add: body'_def)
  obtain q where "sourcesBlock sources = ?k @ q" using strip_end_infix unfolding strip_newlines_def by blast
  then have one: "js_includes body' ?k" unfolding b js_includes_iff by (metis append.assoc)
  have "strip_newlines body' = ?pre @ ?k"
    using strip_end_append[of _ "sourcesBlock sources" ?pre] strip_newlines_sources[OF s] by (simp add: b strip_newlines_def)
  then have "js_includes (strip_newlines body' @ [newline] @ caveatsBlock caveats) ?k"
    by (metis append.assoc js_includes_append)
  then show "js_includes (finalizeCitations response sources caveats) ?k" using one by (simp add: f)
qed

text \<open>Only sources of the turn are linked, and a text without brackets is kept as it is.\<close>

lemma source_by_n_in: "source_by_n sources n = Some s \<Longrightarrow> s \<in> set sources"
  unfolding source_by_n_def by (drule map_of_SomeD) auto

lemma run_links_subset: "set (run_links sources inRun ds) \<subseteq> set sources"
  by (induction sources inRun ds rule: run_links.induct) (auto split: option.splits dest: source_by_n_in)

lemma link_loop_subset: "set (snd (link_loop sources prev pending s)) \<subseteq> set sources"
proof (induction sources prev pending s rule: link_loop.induct)
  case (1 sources prev pending s)
  show ?case
  proof (cases s)
    case Nil
    then show ?thesis by (subst link_loop.simps) simp
  next
    case (Cons c cs)
    show ?thesis
    proof (cases "match_run s")
      case None
      then show ?thesis using 1(1)[OF Cons None] Cons by (subst link_loop.simps) simp
    next
      case (Some rest)
      let ?m = "take (length s - length rest) s"
      show ?thesis
      proof (cases "take 1 rest = ''('' \<or> prev = Some CHR '']''")
        case True
        then show ?thesis
          using 1(2)[OF Cons Some refl True] Cons Some by (subst link_loop.simps) (simp add: Let_def)
      next
        case False
        let ?next = "link_loop sources (Some (last ?m)) [] rest"
        have "set (snd ?next) \<subseteq> set sources" using 1(3)[OF Cons Some refl False refl refl] .
        moreover have "snd (link_loop sources prev pending s) =
            run_links sources [] (js_runs ascii_digit ?m) @ snd ?next"
          using False Some Cons by (subst link_loop.simps) (cases ?next; simp add: Let_def)
        ultimately show ?thesis using run_links_subset by simp
      qed
    qed
  qed
qed

lemma link_loop_plain: "CHR ''['' \<notin> set s \<Longrightarrow> link_loop sources prev pending s = (pending @ s, [])"
proof (induction s arbitrary: prev pending)
  case Nil
  show ?case by (subst link_loop.simps) simp
next
  case (Cons c cs)
  then have "match_run (c # cs) = None" by (auto simp: match_run_def match_group_def)
  then show ?case using Cons by (subst link_loop.simps) simp
qed




end
