(* ===== verification/Corpus_Searcher.thy ===== *)
theory Corpus_Searcher
  imports Corpus_Access Corpus_Cite
begin

text \<open>
  The generated search tool of a knowledge base: what its descriptor carries (\<open>exec.ts\<close>), the
  caller's own credentials per provider (\<open>linked-credentials.ts\<close>), the Markdown of a search
  (\<open>render.ts\<close>) and the search itself (\<open>searcher.ts\<close>), with the stores that \<open>index.ts\<close>
  opens. Literals keep the source's text with \<open>--\<close> for the em dash.
\<close>

section \<open>Execution specs\<close>

record KnowledgeBaseExecMember =
  m_id :: string
  m_label :: string
  m_collection :: string
  m_allowedRoles :: "string list"
  m_granularity :: "Granularity option"
  m_identityProviders :: "string list option"

datatype kb_operation = OpSearch | OpRead | OpLookup | OpQuery | OpFetch

definition operation_name :: "kb_operation \<Rightarrow> string" where
  "operation_name op =
     (case op of OpSearch \<Rightarrow> ''search'' | OpRead \<Rightarrow> ''read'' | OpLookup \<Rightarrow> ''lookup'' | OpQuery \<Rightarrow> ''query'' | OpFetch \<Rightarrow> ''fetch'')"

record KnowledgeBaseExecSpec =
  ks_knowledgeBaseId :: string
  ks_displayName :: string
  ks_operation :: kb_operation
  ks_members :: "KnowledgeBaseExecMember list"
  ks_disclose :: bool

record kb_tool =
  kt_id :: string
  kt_exec :: "KnowledgeBaseExecSpec option"

record kb_caller =
  kc_subject :: string
  kc_roles :: "string list"

abbreviation providers_of :: "KnowledgeBaseExecMember \<Rightarrow> string list" where
  "providers_of member \<equiv> coalesce (m_identityProviders member) []"


section \<open>The caller's credentials\<close>

record DelegatedCredential =
  dc_token :: string
  dc_principals :: "string list option"

definition optional_call ::
    "(kb_event list \<Rightarrow> string \<Rightarrow> string \<Rightarrow> kb_error + string option) option \<Rightarrow>
     (string \<Rightarrow> string \<Rightarrow> kb_error + string option \<Rightarrow> kb_event) \<Rightarrow> string \<Rightarrow> string \<Rightarrow> string option kb_eff" where
  "optional_call method ev provider subject =
     (case method of
        None \<Rightarrow> return_e None
      | Some f \<Rightarrow> call_e (\<lambda>log. f log provider subject) (ev provider subject))"

definition linked_principals :: "kb_env \<Rightarrow> string \<Rightarrow> string \<Rightarrow> string list option kb_eff" where
  "linked_principals env provider subject =
     bind_e (try_e
       (bind_e (optional_call (kb_accountId env) KAccountId provider subject) (\<lambda>accountId.
          if truthy_str accountId then return_e (Some [''user:'' @ the accountId])
          else bind_e (optional_call (kb_login env) KLogin provider subject) (\<lambda>login.
            return_e (if truthy_str login then Some [''user:'' @ the login] else None)))))
       (\<lambda>r. return_e (case r of Inl _ \<Rightarrow> None | Inr principals \<Rightarrow> principals))"

definition resolveOne :: "kb_env \<Rightarrow> string \<Rightarrow> string \<Rightarrow> DelegatedCredential option kb_eff" where
  "resolveOne env provider subject =
     bind_e (call_e (\<lambda>log. kb_getToken env log provider subject) (KGetToken provider subject)) (\<lambda>token.
       if \<not> truthy_str token then return_e None
       else bind_e (linked_principals env provider subject) (\<lambda>principals.
         return_e (Some \<lparr>dc_token = the token, dc_principals = principals\<rparr>)))"

fun delegatedToken :: "kb_env \<Rightarrow> string \<Rightarrow> string list \<Rightarrow> DelegatedCredential option kb_eff" where
  "delegatedToken env subject [] = return_e None"
| "delegatedToken env subject (provider # providers) =
     bind_e (resolveOne env provider subject) (\<lambda>credential.
       case credential of Some c \<Rightarrow> return_e (Some c) | None \<Rightarrow> delegatedToken env subject providers)"

fun delegatedTokens_loop :: "kb_env \<Rightarrow> string \<Rightarrow> string list \<Rightarrow> (string \<times> DelegatedCredential) list \<Rightarrow>
    (string \<times> DelegatedCredential) list kb_eff" where
  "delegatedTokens_loop env subject [] resolved = return_e resolved"
| "delegatedTokens_loop env subject (provider # providers) resolved =
     bind_e (resolveOne env provider subject) (\<lambda>credential.
       delegatedTokens_loop env subject providers
         (case credential of Some c \<Rightarrow> AList.update provider c resolved | None \<Rightarrow> resolved))"

definition delegatedTokens :: "kb_env \<Rightarrow> string \<Rightarrow> string list \<Rightarrow> (string \<times> DelegatedCredential) list kb_eff" where
  "delegatedTokens env subject providers = delegatedTokens_loop env subject providers []"


section \<open>Rendering\<close>

record RenderInput =
  ri_outcome :: RetrieveOutcome
  ri_withheld :: nat
  ri_disclose :: bool
  ri_unlinked :: "(string list \<times> nat) option"
  ri_firstIndex :: "int option"

definition firstIndexOf :: "RenderInput \<Rightarrow> int" where
  "firstIndexOf i = (case ri_firstIndex i of Some n \<Rightarrow> if 1 \<le> n then n else 1 | None \<Rightarrow> 1)"

definition displayTitle :: "AuthorizedChunk \<Rightarrow> string" where
  "displayTitle c = (if js_trim (ac_title c) \<noteq> [] then ac_title c else ch_sourceId (ac_chunk c))"

definition cited_sources :: "RenderInput \<Rightarrow> CitedSource list" where
  "cited_sources i =
     map (\<lambda>(k, c). \<lparr>cs_n = firstIndexOf i + int k, cs_title = displayTitle c, cs_url = ac_url c\<rparr>)
       (enumerate 0 (ro_chunks (ri_outcome i)))"

definition caveatLines :: "RenderInput \<Rightarrow> string list" where
  "caveatLines i =
     (let out = ri_outcome i in
      (if ri_disclose i \<and> 0 < ri_withheld i
       then [js_nat_string (ri_withheld i) @
         '' source(s) in this knowledge base are outside your access, so there may be more you cannot see.''] else []) @
      (if ri_disclose i \<and> 0 < ro_denied out
       then [js_nat_string (ro_denied out) @
         '' passage(s) matched but the source did not confirm your access to them.''] else []) @
      (if ro_undetermined out \<noteq> []
       then [js_nat_string (length (ro_undetermined out)) @
         '' source(s) could not be checked just now, so evidence may be missing that nobody was able to confirm either way.'']
       else []) @
      (if 0 < ro_skippedCorpora out
       then [js_nat_string (ro_skippedCorpora out) @
         '' source(s) could not be searched at all, so this answer covers less than the knowledge base does.''] else []) @
      (case ri_unlinked i of
         None \<Rightarrow> []
       | Some (providers, n) \<Rightarrow>
           if n = 0 then []
           else if providers \<noteq> []
           then [js_nat_string n @ '' source(s) need an account you have not linked ('' @ js_join '', '' providers @
             ''); link it and ask again to include them.'']
           else [js_nat_string n @ '' source(s) could not be checked against your own access, so they were left out.'']))"

definition citationsBlock :: "RenderInput \<Rightarrow> string" where
  "citationsBlock i = sourcesBlock (cited_sources i) @ caveatsBlock (caveatLines i)"

definition chunk_parts :: "int \<Rightarrow> AuthorizedChunk \<Rightarrow> string list" where
  "chunk_parts n c =
     [''### ['' @ int_string n @ ''] '' @ displayTitle c,
      ''Source: '' @ coalesce (ch_connectionLabel (ac_chunk c)) (ch_connectionId (ac_chunk c)) @
        (if ac_stale c
         then '' '' @ [CHR 0xB7] @ '' **may be out of date** (the source has changed since this was indexed)'' else []),
      ''reference: '' @ ch_connectionId (ac_chunk c) @ ''/'' @ ch_sourceId (ac_chunk c),
      [],
      [CHR 0x60, CHR 0x60, CHR 0x60] @ ''text'',
      js_trim (ch_text (ac_chunk c)),
      [CHR 0x60, CHR 0x60, CHR 0x60],
      []]"

definition render :: "RenderInput \<Rightarrow> string" where
  "render i =
     (let chunks = ro_chunks (ri_outcome i) in
      if chunks = []
      then ''No passages in this knowledge base matched.'' @ [newline] @ caveatsBlock (caveatLines i)
      else js_join [newline] (concat (map (\<lambda>(k, c). chunk_parts (firstIndexOf i + int k) c) (enumerate 0 chunks))) @
        [newline] @ citationsBlock i)"


section \<open>Searching\<close>

record SearchResult =
  sr_result :: string
  sr_needsLink :: bool
  sr_linkProviders :: "string list option"
  sr_sources :: "CitedSource list option"
  sr_caveats :: "string list option"

definition plain_result :: "string \<Rightarrow> SearchResult" where
  "plain_result s =
     \<lparr>sr_result = s, sr_needsLink = False, sr_linkProviders = None, sr_sources = None, sr_caveats = None\<rparr>"

definition visibleMembers ::
    "KnowledgeBaseExecMember list \<Rightarrow> string list \<Rightarrow> KnowledgeBaseExecMember list \<times> nat" where
  "visibleMembers members callerRoles =
     (let hidden = (\<lambda>member. \<not> list_ex (\<lambda>role. role \<in> set callerRoles) (m_allowedRoles member) \<or> m_collection member = []) in
      (filter (\<lambda>member. \<not> hidden member) members, length (filter hidden members)))"

definition providersOf :: "KnowledgeBaseExecMember list \<Rightarrow> string list" where
  "providersOf members = sort (js_unique (concat (map providers_of members)))"

definition providersToLink :: "KnowledgeBaseExecMember list \<Rightarrow> (string \<times> 'c) list \<Rightarrow> string list" where
  "providersToLink members linked =
     sort (js_unique (filter (\<lambda>p. map_of linked p = None) (concat (map providers_of members))))"

definition linkedProviders :: "KnowledgeBaseExecMember list \<Rightarrow> (string \<times> 'c) list \<Rightarrow> string list" where
  "linkedProviders members linked =
     sort (js_unique (filter (\<lambda>p. map_of linked p \<noteq> None) (concat (map providers_of members))))"

definition granularitiesOf :: "KnowledgeBaseExecMember list \<Rightarrow> (string \<times> Granularity) list" where
  "granularitiesOf members =
     rev (map (\<lambda>member. (m_id member, if m_granularity member = Some Connection then Connection else Resource)) members)"

definition needsLinkAsk :: "string \<Rightarrow> string list \<Rightarrow> SearchResult" where
  "needsLinkAsk displayName providers =
     (let which = (if providers \<noteq> [] then '' ('' @ js_join '', '' providers @ '')'' else []) in
      \<lparr>sr_result = ''I need you to link the account behind '' @ displayName @ which @
          '' before I can search it -- every result has to be checked against your own access to the source.'',
       sr_needsLink = True, sr_linkProviders = Some providers, sr_sources = None, sr_caveats = None\<rparr>)"

text \<open>\<open>openCorpus\<close> is the factory of \<open>index.ts\<close>.\<close>

record searcher_options =
  sx_qdrantUrl :: string
  sx_qdrantApiKey :: "string option"
  sx_brokerUrl :: string
  sx_brokerToken :: string
  sx_limit :: "int option"

definition SEARCH_DEFAULT_LIMIT :: int where "SEARCH_DEFAULT_LIMIT = 12"

definition openCorpus :: "kb_env \<Rightarrow> searcher_options \<Rightarrow> string \<Rightarrow> kb_event CorpusStore option" where
  "openCorpus env options collection =
     (if collection \<noteq> []
      then Some (qdrant_query env \<lparr>qc_url = sx_qdrantUrl options,
                   qc_apiKey = (if truthy_str (sx_qdrantApiKey options) then sx_qdrantApiKey options else None),
                   qc_collection = collection\<rparr>)
      else None)"

definition usable_provider :: "(string \<times> DelegatedCredential) list \<Rightarrow> KnowledgeBaseExecMember \<Rightarrow> string option" where
  "usable_provider tokens member =
     (case find (\<lambda>p. map_of tokens p \<noteq> None) (providers_of member) of Some p \<Rightarrow> if p = [] then None else Some p | None \<Rightarrow> None)"

record serving =
  sv_servable :: "KnowledgeBaseExecMember list"
  sv_notLinked :: "KnowledgeBaseExecMember list"
  sv_tokens :: "(string \<times> string) list"
  sv_principals :: "string list"

fun serve_loop :: "(string \<times> DelegatedCredential) list \<Rightarrow> KnowledgeBaseExecMember list \<Rightarrow> serving \<Rightarrow> serving" where
  "serve_loop tokens [] sv = sv"
| "serve_loop tokens (member # members) sv =
     (case usable_provider tokens member of
        None \<Rightarrow> serve_loop tokens members (sv\<lparr>sv_notLinked := sv_notLinked sv @ [member]\<rparr>)
      | Some provider \<Rightarrow>
          (let credential = the (map_of tokens provider) in
           serve_loop tokens members
             \<lparr>sv_servable = sv_servable sv @ [member], sv_notLinked = sv_notLinked sv,
              sv_tokens = AList.update (m_id member) (dc_token credential) (sv_tokens sv),
              sv_principals = js_unique (sv_principals sv @ coalesce (dc_principals credential) [])\<rparr>))"

definition serve :: "(string \<times> DelegatedCredential) list \<Rightarrow> KnowledgeBaseExecMember list \<Rightarrow> serving" where
  "serve tokens visible =
     serve_loop tokens visible \<lparr>sv_servable = [], sv_notLinked = [], sv_tokens = [], sv_principals = []\<rparr>"

record LinkCheck =
  lc_linkProviders :: "string list"
  lc_linkedProviders :: "string list"

definition checkLinks :: "kb_env \<Rightarrow> kb_tool \<Rightarrow> kb_caller \<Rightarrow> LinkCheck kb_eff" where
  "checkLinks env tool caller =
     (let none = return_e \<lparr>lc_linkProviders = [], lc_linkedProviders = []\<rparr> in
      case kt_exec tool of
        None \<Rightarrow> none
      | Some exec \<Rightarrow>
          if ks_operation exec \<noteq> OpSearch \<or> kc_subject caller = [] then none
          else
            (let visible = fst (visibleMembers (ks_members exec) (kc_roles caller)) in
             if visible = [] then none
             else bind_e (delegatedTokens env (kc_subject caller) (providersOf visible)) (\<lambda>tokens.
               return_e \<lparr>lc_linkProviders = providersToLink visible tokens,
                          lc_linkedProviders = linkedProviders visible tokens\<rparr>)))"

definition no_outcome :: RetrieveOutcome where
  "no_outcome = \<lparr>ro_chunks = [], ro_denied = 0, ro_undetermined = [], ro_skippedCorpora = 0, ro_preFiltered = 0\<rparr>"

definition prober_options :: "searcher_options \<Rightarrow> serving \<Rightarrow> BrokerProberOptions" where
  "prober_options options sv =
     \<lparr>bp_baseUrl = sx_brokerUrl options, bp_token = sx_brokerToken options, bp_delegatedToken = None,
      bp_delegatedTokens = sv_tokens sv, bp_granularities = granularitiesOf (sv_servable sv)\<rparr>"

definition rendered :: "RenderInput \<Rightarrow> string list \<Rightarrow> SearchResult" where
  "rendered i unlinkedProviders =
     \<lparr>sr_result = render i, sr_needsLink = False,
      sr_linkProviders = (if unlinkedProviders \<noteq> [] then Some unlinkedProviders else None),
      sr_sources = Some (cited_sources i), sr_caveats = Some (caveatLines i)\<rparr>"

text \<open>The part of \<open>search\<close> that runs once the caller's tokens are known.\<close>

definition search_with ::
    "kb_env \<Rightarrow> searcher_options \<Rightarrow> KnowledgeBaseExecSpec \<Rightarrow> KnowledgeBaseExecMember list \<Rightarrow> nat \<Rightarrow> string \<Rightarrow> kb_caller \<Rightarrow> int \<Rightarrow>
     (string \<times> DelegatedCredential) list \<Rightarrow> SearchResult kb_eff" where
  "search_with env options exec visible withheld query caller firstIndex tokens =
     (if tokens = [] then return_e (needsLinkAsk (ks_displayName exec) (providersToLink visible tokens))
      else
        (let sv = serve tokens visible in
         if sv_servable sv = [] then return_e (needsLinkAsk (ks_displayName exec) (providersToLink visible tokens))
         else
           (let opened = map (\<lambda>member. openCorpus env options (m_collection member)) (sv_servable sv);
                stores = List.map_filter id opened;
                skipped = length (filter Option.is_none opened) in
            bind_e (retrieve stores (BrokerProber env (prober_options options sv)) query (kc_roles caller)
                      (sv_principals sv) (coalesce (sx_limit options) SEARCH_DEFAULT_LIMIT) DEFAULT_CANDIDATE_MULTIPLIER)
              (\<lambda>out.
                (let unlinkedProviders = providersToLink (sv_notLinked sv) tokens in
                 return_e (rendered
                   \<lparr>ri_outcome = out\<lparr>ro_skippedCorpora := ro_skippedCorpora out + skipped\<rparr>, ri_withheld = withheld,
                    ri_disclose = ks_disclose exec,
                    ri_unlinked = Some (unlinkedProviders, length (sv_notLinked sv)),
                    ri_firstIndex = Some firstIndex\<rparr> unlinkedProviders))))))"

definition kb_search_run ::
    "kb_env \<Rightarrow> searcher_options \<Rightarrow> kb_tool \<Rightarrow> string \<Rightarrow> kb_caller \<Rightarrow> int \<Rightarrow> SearchResult kb_eff" where
  "kb_search_run env options tool query caller firstIndex =
     (case kt_exec tool of
        None \<Rightarrow> throw_e (new_Error (''tool '' @ kt_id tool @ '' carries no knowledge-base execution spec''))
      | Some exec \<Rightarrow>
          if ks_operation exec \<noteq> OpSearch
          then return_e (plain_result (''I cannot '' @ operation_name (ks_operation exec) @ '' '' @ ks_displayName exec @
            '': only search is supported for this knowledge base.''))
          else if kc_subject caller = []
          then return_e (plain_result ''I could not establish who is asking, so I cannot search this knowledge base.'')
          else
            (case visibleMembers (ks_members exec) (kc_roles caller) of
               (visible, withheld) \<Rightarrow>
                 if visible = []
                 then (let i = \<lparr>ri_outcome = no_outcome, ri_withheld = withheld, ri_disclose = ks_disclose exec,
                                ri_unlinked = None, ri_firstIndex = None\<rparr> in
                       return_e ((plain_result (render i))\<lparr>sr_caveats := Some (caveatLines i)\<rparr>))
                 else bind_e (delegatedTokens env (kc_subject caller) (providersOf visible))
                   (search_with env options exec visible withheld query caller firstIndex)))"

end
