(* ===== verification/Corpus_Guarantees.thy ===== *)
theory Corpus_Guarantees
  imports Corpus_Searcher
begin

text \<open>
  What the search of a knowledge base guarantees: the calls it makes, and that whatever it shows
  was confirmed by the source, in this search, under the caller's own credential.
\<close>

section \<open>The contract of a store\<close>

text \<open>A store fails closed: without roles it returns nothing and asks nobody.\<close>

locale corpus_stores =
  fixes stores :: "'v CorpusStore list"
  assumes fails_closed: "store \<in> set stores \<Longrightarrow> store query [] k = return_e []"
begin

lemma all_settled_closed:
  "set sub \<subseteq> set stores \<Longrightarrow>
     all_settled (map (\<lambda>store. store query [] k) sub) trail = (Inr (map (\<lambda>_. Inr []) sub), trail)"
  by (induction sub) (simp_all add: fails_closed eff_defs)

lemma search_fails_closed:
  assumes "0 < limit"
  shows "searchCorpus stores query [] limit trail = (Inr \<lparr>so_hits = [], so_skipped = 0\<rparr>, trail)"
proof -
  have "rejected (map (\<lambda>_. Inr []) stores :: (kb_error + CorpusSearchResult list) list) = []" by (simp add: rejected_def map_filter_def)
  moreover have "gathered (map (\<lambda>_. Inr []) stores) = []" by (simp add: gathered_def)
  moreover have "prune [] limit = []" by (simp add: prune_def js_sort_def)
  ultimately show ?thesis
    using assms all_settled_closed[of stores query limit trail]
    by (simp add: searchCorpus_def bind_e_def return_e_def Let_def)
qed

end

interpretation qdrant: corpus_stores "map (qdrant_query env) cfgs" for env cfgs
  by unfold_locales (auto simp: qdrant_query_def)


section \<open>Credentials\<close>

text \<open>The request of an event that goes to the connection-broker.\<close>

definition broker_calls :: "kb_event \<Rightarrow> broker_request option" where
  "broker_calls e =
     (case e of KProbe bq _ _ \<Rightarrow> Some bq | KRead bq _ \<Rightarrow> Some bq | KLookup bq _ \<Rightarrow> Some bq | KQuery bq _ _ \<Rightarrow> Some bq | _ \<Rightarrow> None)"

definition off_broker :: "kb_event \<Rightarrow> bool" where
  "off_broker e \<longleftrightarrow> broker_calls e = None"

lemma off_broker_answered: "off_broker e \<Longrightarrow> \<not> probe_unanswered e"
  by (cases e) (auto simp: off_broker_def broker_calls_def probe_unanswered_def)

text \<open>A token was handed out for a subject and a provider.\<close>

definition issued :: "string \<Rightarrow> kb_event list \<Rightarrow> string \<Rightarrow> DelegatedCredential \<Rightarrow> bool" where
  "issued subject new provider c \<longleftrightarrow>
     dc_token c \<noteq> [] \<and> KGetToken provider subject (Inr (Some (dc_token c))) \<in> set new"

lemma optional_call_off_broker:
  "(\<And>a b r. off_broker (ev a b r)) \<Longrightarrow> emits off_broker (optional_call f ev provider subject)"
  unfolding optional_call_def by (intro emits_rules)

lemma linked_principals_off_broker: "emits off_broker (linked_principals env provider subject)"
  unfolding linked_principals_def by (intro emits_rules optional_call_off_broker) (simp_all add: off_broker_def broker_calls_def)

lemma resolveOne_does:
  "does (resolveOne env provider subject) (\<lambda>r new.
     (\<forall>c. r = Inr (Some c) \<longrightarrow> issued subject new provider c) \<and> list_all off_broker new)"
  (is "does _ ?post")
proof -
  let ?ev = "KGetToken provider subject"
  have call: "does (call_e (\<lambda>log. kb_getToken env log provider subject) ?ev) (\<lambda>r new. new = [?ev r])"
    by (rule does_call) simp
  have principals: "does (linked_principals env provider subject) (\<lambda>_ new. list_all off_broker new)"
    using linked_principals_off_broker by (simp add: does_emits)
  have ev: "off_broker (?ev r)" for r by (simp add: off_broker_def broker_calls_def)
  show ?thesis unfolding resolveOne_def
  proof (rule does_bind[OF call])
    fix token first
    assume first: "first = [?ev (Inr token)]"
    show "does (if \<not> truthy_str token then return_e None
        else bind_e (linked_principals env provider subject)
          (\<lambda>principals. return_e (Some \<lparr>dc_token = the token, dc_principals = principals\<rparr>)))
        (\<lambda>r new. ?post r (first @ new))"
      by (intro does_if does_bind[OF principals] does_return; cases token)
        (auto simp: first ev issued_def)
  qed (auto simp: ev)
qed

lemma delegatedTokens_loop_does:
  "does (delegatedTokens_loop env subject providers resolved) (\<lambda>r new.
     (\<forall>tokens. r = Inr tokens \<longrightarrow> (\<forall>p c. map_of tokens p = Some c \<longrightarrow>
        map_of resolved p = Some c \<or> p \<in> set providers \<and> issued subject new p c)) \<and> list_all off_broker new)"
  (is "does _ (?post providers resolved)")
proof (induction providers arbitrary: resolved)
  case Nil
  show ?case by (simp add: does_return)
next
  case (Cons p ps)
  show ?case unfolding delegatedTokens_loop.simps
  proof (rule does_bind[OF resolveOne_does])
    fix credential first
    assume first: "(\<forall>c. Inr credential = (Inr (Some c) :: kb_error + _) \<longrightarrow> issued subject first p c) \<and> list_all off_broker first"
    let ?r = "case credential of Some c \<Rightarrow> AList.update p c resolved | None \<Rightarrow> resolved"
    show "does (delegatedTokens_loop env subject ps ?r) (\<lambda>r new. ?post (p # ps) resolved r (first @ new))"
    proof (rule does_mono[OF Cons])
      fix r new
      assume post: "?post ps ?r r new"
      have r: "map_of resolved q = Some c \<or> q = p \<and> issued subject first q c" if "map_of ?r q = Some c" for q c
        using that first by (auto simp: update_conv' split: option.splits if_splits)
      have "issued subject (first @ new) q c" if "issued subject first q c \<or> issued subject new q c" for q c
        using that by (auto simp: issued_def)
      then show "?post (p # ps) resolved r (first @ new)"
        using post r first by (fastforce simp: list_all_append)
    qed
  qed auto
qed

lemma delegatedTokens_does:
  "does (delegatedTokens env subject providers) (\<lambda>r new.
     (\<forall>tokens. r = Inr tokens \<longrightarrow> (\<forall>p c. map_of tokens p = Some c \<longrightarrow> p \<in> set providers \<and> issued subject new p c)) \<and>
     list_all off_broker new)"
  unfolding delegatedTokens_def by (rule does_mono[OF delegatedTokens_loop_does]) auto


section \<open>Which members are served\<close>

lemma usable_provider_Some:
  "usable_provider tokens m = Some p \<Longrightarrow> p \<in> set (providers_of m) \<and> (\<exists>c. map_of tokens p = Some c)"
  by (auto simp: usable_provider_def find_Some_iff split: option.splits if_splits)

lemma serve_loop_tokens:
  assumes "map_of (sv_tokens (serve_loop tokens members sv)) cid = Some t"
  shows "map_of (sv_tokens sv) cid = Some t \<or>
    (\<exists>m \<in> set members. m_id m = cid \<and> (\<exists>p \<in> set (providers_of m). \<exists>c. map_of tokens p = Some c \<and> dc_token c = t))"
  using assms
proof (induction tokens members sv rule: serve_loop.induct)
  case (2 tokens m ms sv)
  show ?case
  proof (cases "usable_provider tokens m")
    case None
    then show ?thesis using 2(1)[OF None] 2(3) by auto
  next
    case (Some p)
    then obtain c where c: "p \<in> set (providers_of m)" "map_of tokens p = Some c" using usable_provider_Some by blast
    show ?thesis using 2(2)[OF Some refl] 2(3) Some c by (auto simp: update_conv' Let_def split: if_splits)
  qed
qed simp

lemma serve_loop_servable:
  "set (sv_servable (serve_loop tokens members sv)) \<subseteq> set (sv_servable sv) \<union> set members"
  by (induction tokens members sv rule: serve_loop.induct) (auto simp: Let_def split: option.splits)

lemma serve_tokens:
  "map_of (sv_tokens (serve tokens visible)) cid = Some t \<Longrightarrow>
     \<exists>m \<in> set visible. m_id m = cid \<and> (\<exists>p \<in> set (providers_of m). \<exists>c. map_of tokens p = Some c \<and> dc_token c = t)"
  unfolding serve_def by (drule serve_loop_tokens) simp

lemma serve_servable: "set (sv_servable (serve tokens visible)) \<subseteq> set visible"
  unfolding serve_def using serve_loop_servable by fastforce

lemma qdrant_query_off_broker: "emits off_broker (qdrant_query env cfg query roles k)"
  unfolding qdrant_query_def Let_def by (intro emits_rules) (simp_all add: off_broker_def broker_calls_def)

lemma openCorpus_off_broker:
  "openCorpus env options collection = Some store \<Longrightarrow> emits off_broker (store query roles k)"
  by (auto simp: openCorpus_def qdrant_query_off_broker split: if_splits)



section \<open>What is shown was confirmed\<close>

text \<open>
  A chunk was confirmed for a caller: its connection is a member the caller's roles reach, the
  caller's own token for one of the member's providers was read, and with that token the broker
  was asked about the chunk's source and allowed it; its title and URL are the answer's.
\<close>

definition confirmed_for ::
    "searcher_options \<Rightarrow> kb_caller \<Rightarrow> KnowledgeBaseExecMember list \<Rightarrow> kb_event list \<Rightarrow> AuthorizedChunk \<Rightarrow> bool" where
  "confirmed_for options caller members new c \<longleftrightarrow>
     (\<exists>m \<in> set members. \<exists>provider \<in> set (providers_of m). \<exists>token source response v.
        m_id m = ch_connectionId (ac_chunk c) \<and>
        list_ex (\<lambda>role. role \<in> set (kc_roles caller)) (m_allowedRoles m) \<and>
        KGetToken provider (kc_subject caller) (Inr (Some token)) \<in> set new \<and>
        KProbe \<lparr>bq_endpoint = strip_trailing_slashes (sx_brokerUrl options) @ ''/corpora/'' @
                  encodeURIComponent (ch_connectionId (ac_chunk c)) @ ''/probe'',
                bq_bearer = sx_brokerToken options, bq_delegated = token\<rparr> source (Inr response) \<in> set new \<and>
        source \<in> {None, Some (ch_sourceId (ac_chunk c))} \<and>
        rs_ok response \<and> rs_json response = Inr v \<and> pr_allowed v \<and> ac_title c = pr_title v \<and> ac_url c = pr_url v)"

lemma key_connection:
  assumes "keyFor g a = keyFor g b" "CHR 0x00 \<notin> set (ch_connectionId a)" "CHR 0x00 \<notin> set (ch_connectionId b)"
  shows "requestFor g a = requestFor g b" "ch_connectionId a = ch_connectionId b"
proof -
  have split: "takeWhile (\<lambda>c. c \<noteq> CHR 0x00) (x @ CHR 0x00 # y) = x" if "CHR 0x00 \<notin> set x" for x y
    using that by (induction x) auto
  have "takeWhile (\<lambda>c. c \<noteq> CHR 0x00) (keyFor g c) = ch_connectionId c" if "CHR 0x00 \<notin> set (ch_connectionId c)" for c
    using that split by (simp add: keyFor_def)
  then show con: "ch_connectionId a = ch_connectionId b" using assms by metis
  then show "requestFor g a = requestFor g b"
    using assms(1) by (auto simp: keyFor_def requestFor_def split: if_splits)
qed

lemma visibleMembers_visible:
  "m \<in> set (fst (visibleMembers members roles)) \<Longrightarrow>
     m \<in> set members \<and> list_ex (\<lambda>role. role \<in> set roles) (m_allowedRoles m) \<and> m_collection m \<noteq> []"
  by (simp add: visibleMembers_def Let_def)

lemma confirmed_forI:
  assumes v: "probe_vouches (prober_options options (serve tokens (fst (visibleMembers members (kc_roles caller))))) e
      (requestFor g (hit_chunk asked)) v" "e \<in> set new" "pr_allowed v"
    and c: "c = confirmed_chunk hit v" "keyFor g (hit_chunk asked) = keyFor g (hit_chunk hit)"
    and tokens: "\<And>p c. map_of tokens p = Some c \<Longrightarrow> issued (kc_subject caller) new p c"
    and ids: "\<forall>m \<in> set members. CHR 0x00 \<notin> set (m_id m)" "CHR 0x00 \<notin> set (ch_connectionId (ac_chunk c))"
  shows "confirmed_for options caller members new c"
proof -
  let ?visible = "fst (visibleMembers members (kc_roles caller))"
  obtain bq source response where e: "e = KProbe bq source (Inr response)"
    using v(1) by (auto simp: probe_vouches_def split: kb_event.splits sum.splits)
  have b: "source = pq_sourceId (requestFor g (hit_chunk asked))" "rs_ok response" "rs_json response = Inr v"
    "bq_endpoint bq = strip_trailing_slashes (sx_brokerUrl options) @ ''/corpora/'' @
       encodeURIComponent (ch_connectionId (hit_chunk asked)) @ ''/probe''"
    "bq_bearer bq = sx_brokerToken options"
    "map_of (sv_tokens (serve tokens ?visible)) (ch_connectionId (hit_chunk asked)) = Some (bq_delegated bq)"
    using v(1) unfolding e
    by (auto simp: probe_vouches_def prober_options_def requestFor_def split: option.splits)
  obtain m p d where m: "m \<in> set ?visible" "m_id m = ch_connectionId (hit_chunk asked)" "p \<in> set (providers_of m)"
    "map_of tokens p = Some d" "dc_token d = bq_delegated bq"
    using serve_tokens[OF b(6)] by blast
  have vis: "m \<in> set members" "list_ex (\<lambda>role. role \<in> set (kc_roles caller)) (m_allowedRoles m)"
    using visibleMembers_visible[OF m(1)] by blast+
  have hit: "ac_chunk c = hit_chunk hit" "ac_title c = pr_title v" "ac_url c = pr_url v"
    by (simp_all add: c(1) confirmed_chunk_def)
  have same: "requestFor g (hit_chunk asked) = requestFor g (hit_chunk hit)"
    "ch_connectionId (hit_chunk asked) = ch_connectionId (hit_chunk hit)"
    using key_connection[OF c(2)] ids vis(1) m(2) hit(1) by auto
  have bq: "bq = \<lparr>bq_endpoint = strip_trailing_slashes (sx_brokerUrl options) @ ''/corpora/'' @
       encodeURIComponent (ch_connectionId (ac_chunk c)) @ ''/probe'', bq_bearer = sx_brokerToken options,
       bq_delegated = bq_delegated bq\<rparr>"
    using b(4,5) same(2) hit(1) by (cases bq) simp
  have "source \<in> {None, Some (ch_sourceId (ac_chunk c))}"
    using b(1)[unfolded same(1)] hit(1) by (simp add: requestFor_def)
  moreover have "KProbe \<lparr>bq_endpoint = strip_trailing_slashes (sx_brokerUrl options) @ ''/corpora/'' @
       encodeURIComponent (ch_connectionId (ac_chunk c)) @ ''/probe'', bq_bearer = sx_brokerToken options,
       bq_delegated = bq_delegated bq\<rparr> source (Inr response) \<in> set new"
    using v(2) unfolding e by (subst (asm) bq)
  moreover have "KGetToken p (kc_subject caller) (Inr (Some (bq_delegated bq))) \<in> set new"
    using tokens[OF m(4)] m(5) by (simp add: issued_def)
  moreover have "m_id m = ch_connectionId (ac_chunk c)" using m(2) same(2) hit(1) by simp
  ultimately show ?thesis
    unfolding confirmed_for_def using vis m(3) b(2,3) v(3) hit(2,3) by blast
qed


definition searched ::
    "searcher_options \<Rightarrow> kb_caller \<Rightarrow> KnowledgeBaseExecSpec \<Rightarrow> kb_error + SearchResult \<Rightarrow> kb_event list \<Rightarrow> bool" where
  "searched options caller exec r new \<longleftrightarrow>
     (\<forall>res. r = Inr res \<longrightarrow> sr_sources res \<noteq> None \<longrightarrow>
        (\<exists>i u. res = rendered i u \<and>
           (\<forall>c \<in> set (ro_chunks (ri_outcome i)).
              CHR 0x00 \<in> set (ch_connectionId (ac_chunk c)) \<or> confirmed_for options caller (ks_members exec) new c) \<and>
           length (ro_chunks (ri_outcome i)) \<le> nat (coalesce (sx_limit options) SEARCH_DEFAULT_LIMIT) \<and>
           ((\<exists>e \<in> set new. probe_unanswered e) \<longrightarrow> ro_undetermined (ri_outcome i) \<noteq> [])))"

lemma searched_without_sources [simp]:
  "searched options caller exec (Inl e) new"
  "sr_sources res = None \<Longrightarrow> searched options caller exec (Inr res) new"
  by (simp_all add: searched_def)

lemma issued_append: "issued subject first p c \<Longrightarrow> issued subject (first @ new) p c"
  by (simp add: issued_def)

lemma retrieved_is_searched:
  assumes tokens: "\<And>p c. map_of tokens p = Some c \<Longrightarrow> issued (kc_subject caller) first p c"
    and first: "list_all off_broker first"
    and ids: "\<forall>m \<in> set (ks_members exec). CHR 0x00 \<notin> set (m_id m)"
    and sv: "sv = serve tokens (fst (visibleMembers (ks_members exec) (kc_roles caller)))"
    and r: "broker.retrieves env (prober_options options sv) (coalesce (sx_limit options) SEARCH_DEFAULT_LIMIT) (Inr out) new"
      (is "broker.retrieves _ ?opts ?limit _ _")
  shows "searched options caller exec
    (Inr (rendered \<lparr>ri_outcome = out\<lparr>ro_skippedCorpora := s\<rparr>, ri_withheld = w, ri_disclose = d, ri_unlinked = x, ri_firstIndex = f\<rparr> u))
    (first @ new)"
proof -
  note r' = r[unfolded broker.retrieves_def, rule_format, OF refl]
  have shown: "CHR 0x00 \<in> set (ch_connectionId (ac_chunk c)) \<or> confirmed_for options caller (ks_members exec) (first @ new) c"
    if c: "c \<in> set (ro_chunks out)" for c
  proof (cases "CHR 0x00 \<in> set (ch_connectionId (ac_chunk c))")
    case nul: False
    obtain hit asked :: CorpusSearchResult and v e where v: "c = confirmed_chunk hit v" "pr_allowed v"
      "keyFor (broker_granularity ?opts) (hit_chunk asked) = keyFor (broker_granularity ?opts) (hit_chunk hit)"
      "probe_vouches ?opts e (requestFor (broker_granularity ?opts) (hit_chunk asked)) v" "e \<in> set new"
      using r' c unfolding BrokerProber_simps by blast
    show ?thesis
      using confirmed_forI[OF v(4)[unfolded sv] _ v(2,1) v(3)[unfolded sv] issued_append[OF tokens] ids nul] v(5) by simp
  qed simp
  have "\<not> probe_unanswered e" if "e \<in> set first" for e
    using that first off_broker_answered by (auto simp: list_all_iff)
  then show ?thesis
    unfolding searched_def
    using r' shown
    by (intro allI impI exI[of _ "\<lparr>ri_outcome = out\<lparr>ro_skippedCorpora := s\<rparr>, ri_withheld = w, ri_disclose = d, ri_unlinked = x, ri_firstIndex = f\<rparr>"]
        exI[of _ u] conjI ballI) auto
qed

lemma search_with_does:
  assumes tokens: "\<And>p c. map_of tokens p = Some c \<Longrightarrow> issued (kc_subject caller) first p c"
    and first: "list_all off_broker first"
    and ids: "\<forall>m \<in> set (ks_members exec). CHR 0x00 \<notin> set (m_id m)"
    and visible: "visible = fst (visibleMembers (ks_members exec) (kc_roles caller))"
  shows "does (search_with env options exec visible withheld query caller n tokens)
    (\<lambda>r new. searched options caller exec r (first @ new))"
proof -
  have ask: "sr_sources (needsLinkAsk a b) = None" for a b by (simp add: needsLinkAsk_def Let_def)
  have stores: "emits (\<lambda>e. \<not> probe_unanswered e) (store query (kc_roles caller) k)"
    if store: "store \<in> set (List.map_filter id (map (\<lambda>member. openCorpus env options (m_collection member)) ms))" for store k ms
  proof -
    obtain collection where "openCorpus env options collection = Some store"
      using store by (auto simp: map_filter_def)
    then show ?thesis using openCorpus_off_broker off_broker_answered by (metis emits_mono)
  qed
  have retr: "does (retrieve (List.map_filter id (map (\<lambda>member. openCorpus env options (m_collection member)) ms))
      (BrokerProber env opts) query (kc_roles caller) ps limit k) (broker.retrieves env opts limit)" for ms opts ps limit k
    by (rule broker.retrieve_does) (rule stores)
  show ?thesis
    unfolding search_with_def Let_def
    by (intro does_if does_return does_bind[OF retr])
      (auto simp: ask visible intro!: retrieved_is_searched tokens first ids)
qed

lemma kb_search_run_does:
  assumes "kt_exec tool = Some exec" "\<forall>m \<in> set (ks_members exec). CHR 0x00 \<notin> set (m_id m)"
  shows "does (kb_search_run env options tool query caller n) (searched options caller exec)"
proof -
  obtain visible withheld where vis: "visibleMembers (ks_members exec) (kc_roles caller) = (visible, withheld)"
    by (cases "visibleMembers (ks_members exec) (kc_roles caller)")
  have run: "does (bind_e (delegatedTokens env (kc_subject caller) (providersOf visible))
      (search_with env options exec visible withheld query caller n)) (searched options caller exec)"
    by (intro does_bind[OF delegatedTokens_does] search_with_does)
      (use assms(2) vis in auto)
  show ?thesis
    unfolding kb_search_run_def using assms(1) run
    by (auto simp: vis Let_def plain_result_def intro!: does_return)
qed


text \<open>
  C17. Everything a knowledge-base search shows was confirmed by the source in this very search: a
  search that cites sources renders at most its limit of passages, and each passage belongs to a
  member that the caller's roles reach, was probed at the broker with the caller's own token for
  one of that member's providers, read in the same search for the same subject, was allowed, and
  carries the title and the URL of that answer. (Member ids are names without NUL characters; a
  chunk that claims a connection id with one is left out of the statement.)
\<close>

theorem shown_passages_are_confirmed:
  assumes "kt_exec tool = Some exec" "\<forall>m \<in> set (ks_members exec). CHR 0x00 \<notin> set (m_id m)"
    and "kb_search_run env options tool query caller n trail = (Inr res, trail')" "sr_sources res \<noteq> None"
  shows "\<exists>new i u. trail' = trail @ new \<and> res = rendered i u \<and>
    length (ro_chunks (ri_outcome i)) \<le> nat (coalesce (sx_limit options) SEARCH_DEFAULT_LIMIT) \<and>
    (\<forall>c \<in> set (ro_chunks (ri_outcome i)).
       CHR 0x00 \<in> set (ch_connectionId (ac_chunk c)) \<or> confirmed_for options caller (ks_members exec) new c)"
  using does_use[OF kb_search_run_does[OF assms(1,2)] assms(3)] assms(4) unfolding searched_def by blast

definition ex_chunk :: CorpusChunk where
  "ex_chunk = \<lparr>ch_connectionId = ''wiki'', ch_connectionLabel = None, ch_sourceUrl = ''https://w/7'', ch_sourceId = ''7'',
     ch_title = None, ch_updatedAt = None, ch_contentHash = ''h'', ch_version = None, ch_text = ''Plan'',
     ch_aclPrincipals = None, ch_aclPermissive = False\<rparr>"

definition ex_env :: "kb_error + ProbeResult http_response \<Rightarrow> kb_env" where
  "ex_env probe = \<lparr>kb_getToken = (\<lambda>_ _ _. Inr (Some ''tok'')), kb_accountId = None, kb_login = None,
     kb_embed = (\<lambda>_ _. Inr []),
     kb_search = (\<lambda>_ _. Inr \<lparr>rs_status = 200, rs_text = Inr [], rs_json = Inr (Some [\<lparr>pt_score = Fin 1, pt_descriptor = Some []\<rparr>])\<rparr>),
     kb_probe = (\<lambda>_ _ _. probe), kb_parse = (\<lambda>_. Some (Some ex_chunk)),
     kb_read = (\<lambda>_ _. Inl (new_Error [])), kb_lookup = (\<lambda>_ _. Inl (new_Error [])), kb_query = (\<lambda>_ _ _. Inl (new_Error []))\<rparr>"

definition ex_allowed :: "kb_error + ProbeResult http_response" where
  "ex_allowed = Inr \<lparr>rs_status = 200, rs_text = Inr [],
     rs_json = Inr \<lparr>pr_allowed = True, pr_title = ''Plan'', pr_url = ''https://w/7'', pr_version = None\<rparr>\<rparr>"

definition ex_options :: searcher_options where
  "ex_options = \<lparr>sx_qdrantUrl = ''q'', sx_qdrantApiKey = None, sx_brokerUrl = ''b'', sx_brokerToken = ''t'', sx_limit = None\<rparr>"

definition ex_spec :: KnowledgeBaseExecSpec where
  "ex_spec = \<lparr>ks_knowledgeBaseId = ''kb'', ks_displayName = ''KB'', ks_operation = OpSearch,
     ks_members = [\<lparr>m_id = ''wiki'', m_label = ''Wiki'', m_collection = ''c'', m_allowedRoles = [''dev''],
       m_granularity = None, m_identityProviders = Some [''atlassian'']\<rparr>], ks_disclose = True\<rparr>"

definition ex_tool :: kb_tool where "ex_tool = \<lparr>kt_id = ''kb'', kt_exec = Some ex_spec\<rparr>"

definition ex_caller :: kb_caller where "ex_caller = \<lparr>kc_subject = ''ann'', kc_roles = [''dev'']\<rparr>"

definition ex_run :: "kb_error + ProbeResult http_response \<Rightarrow> (kb_error + SearchResult) \<times> kb_event list" where
  "ex_run probe = kb_search_run (ex_env probe) ex_options ex_tool ''plan'' ex_caller 1 []"

lemma ex_run_shape:
  "(case ex_run ex_allowed of (Inr r, _) \<Rightarrow> map cs_title (the (sr_sources r)) = [''Plan''] \<and> sr_sources r \<noteq> None | _ \<Rightarrow> False)"
  by code_simp

theorem shown_passages_are_confirmed_witness:
  "\<exists>new i u r. ex_run ex_allowed = (Inr r, new) \<and> r = rendered i u \<and> length (ro_chunks (ri_outcome i)) = 1 \<and>
     (\<forall>c \<in> set (ro_chunks (ri_outcome i)).
        CHR 0x00 \<in> set (ch_connectionId (ac_chunk c)) \<or> confirmed_for ex_options ex_caller (ks_members ex_spec) new c)"
proof -
  obtain r new where r: "ex_run ex_allowed = (Inr r, new)" "map cs_title (the (sr_sources r)) = [''Plan'']" "sr_sources r \<noteq> None"
    using ex_run_shape by (cases "ex_run ex_allowed") (auto split: sum.splits)
  have ids: "\<forall>m \<in> set (ks_members ex_spec). CHR 0x00 \<notin> set (m_id m)" by code_simp
  obtain i u where i: "r = rendered i u" "\<forall>c \<in> set (ro_chunks (ri_outcome i)).
      CHR 0x00 \<in> set (ch_connectionId (ac_chunk c)) \<or> confirmed_for ex_options ex_caller (ks_members ex_spec) new c"
    using shown_passages_are_confirmed[OF _ ids r(1)[unfolded ex_run_def] r(3)] by (auto simp: ex_tool_def)
  have "length (the (sr_sources r)) = 1" using arg_cong[OF r(2), of length] by simp
  then have "length (ro_chunks (ri_outcome i)) = 1" unfolding i(1) by (simp add: rendered_def cited_sources_def)
  then show ?thesis using r(1) i by blast
qed

text \<open>
  C18. A candidate nobody could check is never passed over in silence: when, in a search that
  cites sources, the broker could not be reached for a probe or answered it with anything but a
  success or a 403, the caveats that go out with the answer say how many sources could not be
  checked.
\<close>

theorem unchecked_evidence_is_disclosed:
  assumes "kt_exec tool = Some exec" "\<forall>m \<in> set (ks_members exec). CHR 0x00 \<notin> set (m_id m)"
    and "kb_search_run env options tool query caller n trail = (Inr res, trail @ new)" "sr_sources res \<noteq> None"
    and "e \<in> set new" "probe_unanswered e"
  shows "\<exists>k > 0. js_nat_string k @ '' source(s) could not be checked just now, so evidence may be missing that nobody was able to confirm either way.''
    \<in> set (the (sr_caveats res))"
proof -
  obtain i u where i: "res = rendered i u" "ro_undetermined (ri_outcome i) \<noteq> []"
    using does_use[OF kb_search_run_does[OF assms(1,2)] assms(3)] assms(4-6) unfolding searched_def by auto
  then show ?thesis
    by (intro exI[of _ "length (ro_undetermined (ri_outcome i))"]) (simp add: rendered_def caveatLines_def Let_def)
qed

lemma ex_run_unreachable:
  "(case ex_run (Inl (new_Error [])) of (Inr r, l) \<Rightarrow> sr_sources r \<noteq> None \<and> list_ex probe_unanswered l | _ \<Rightarrow> False)"
  by code_simp

theorem unchecked_evidence_is_disclosed_witness:
  "\<exists>k > 0. \<exists>r new. ex_run (Inl (new_Error [])) = (Inr r, new) \<and>
     js_nat_string k @ '' source(s) could not be checked just now, so evidence may be missing that nobody was able to confirm either way.''
       \<in> set (the (sr_caveats r))"
proof -
  obtain r new e where r: "ex_run (Inl (new_Error [])) = (Inr r, new)" "sr_sources r \<noteq> None" "e \<in> set new" "probe_unanswered e"
    using ex_run_unreachable by (cases "ex_run (Inl (new_Error []))") (auto split: sum.splits simp: list_ex_iff)
  have ids: "\<forall>m \<in> set (ks_members ex_spec). CHR 0x00 \<notin> set (m_id m)" by code_simp
  have run: "kb_search_run (ex_env (Inl (new_Error []))) ex_options ex_tool ''plan'' ex_caller 1 [] = (Inr r, [] @ new)"
    using r(1) by (simp add: ex_run_def)
  show ?thesis
    using unchecked_evidence_is_disclosed[OF _ ids run r(2-4)] r(1) by (auto simp: ex_tool_def)
qed

end
