(* ===== verification/Corpus_Live.thy ===== *)
theory Corpus_Live
  imports Corpus_Guarantees
begin

text \<open>
  The live tools of a knowledge base, which ask the sources as the calling user: the read of one
  document (\<open>reader.ts\<close>), the keyword lookup (\<open>lookup.ts\<close>) and the structured query
  (\<open>query.ts\<close>).

  \<open>JSON.parse\<close> is a parameter (\<open>Inl\<close>: the text of what it threw), and so is \<open>Date.parse\<close>,
  whose result for most strings is the implementation's choice (\<open>None\<close>: \<open>NaN\<close>). Literals
  keep the source's text with \<open>--\<close> for the em dash and \<open>...\<close> for the ellipsis. A resolved
  credential has a token (\<open>resolveOne\<close>), so the tools only ask whether there is one.
\<close>

record live_options =
  lx_brokerUrl :: string
  lx_brokerToken :: string

type_synonym json_parser = "string \<Rightarrow> string + json"

definition broker_call :: "live_options \<Rightarrow> string \<Rightarrow> string \<Rightarrow> broker_request" where
  "broker_call options path delegated =
     \<lparr>bq_endpoint = strip_trailing_slashes (lx_brokerUrl options) @ path,
      bq_bearer = lx_brokerToken options, bq_delegated = delegated\<rparr>"

definition may_use :: "kb_caller \<Rightarrow> KnowledgeBaseExecMember \<Rightarrow> bool" where
  "may_use caller member \<longleftrightarrow> list_ex (\<lambda>role. role \<in> set (kc_roles caller)) (m_allowedRoles member)"

definition link_result :: "string \<Rightarrow> string list \<Rightarrow> SearchResult" where
  "link_result result providers =
     \<lparr>sr_result = result, sr_needsLink = True, sr_linkProviders = Some providers, sr_sources = None, sr_caveats = None\<rparr>"

definition words :: "string \<Rightarrow> string" where
  "words s = js_join '' '' (js_runs (\<lambda>c. \<not> js_ws c) s)"

definition text_or_empty :: "'a http_response \<Rightarrow> string" where
  "text_or_empty response = (case rs_text response of Inl _ \<Rightarrow> [] | Inr s \<Rightarrow> s)"


section \<open>Reading one document\<close>

definition memberNames :: "KnowledgeBaseExecMember list \<Rightarrow> string" where
  "memberNames members =
     (if members = [] then ''nothing -- this knowledge base has no readable members''
      else js_join '', '' (map (\<lambda>m. m_id m @ '' ('' @ m_label m @ '')'') members))"

definition read_document ::
    "kb_env \<Rightarrow> live_options \<Rightarrow> KnowledgeBaseExecMember \<Rightarrow> string \<Rightarrow> int \<Rightarrow> string \<Rightarrow> SearchResult kb_eff" where
  "read_document env options member sourceId firstIndex token =
     (let req = broker_call options (''/corpora/'' @ encodeURIComponent (m_id member) @ ''/documents/'' @
                  encodeURIComponent sourceId) token in
      bind_e (try_e (call_e (\<lambda>log. kb_read env log req) (KRead req))) (\<lambda>r.
        case r of
          Inl cause \<Rightarrow> throw_e (new_Error (''connection-broker unreachable: '' @ error_string cause))
        | Inr response \<Rightarrow>
            if \<not> rs_ok response
            then return_e (plain_result (js_trim (''The source refused that read ('' @ int_string (rs_status response) @
              ''). '' @ take 300 (text_or_empty response))))
            else bind_e (lift_e (rs_json response)) (\<lambda>document.
              (let title = coalesce (ld_title document) sourceId; markdown = coalesce (ld_markdown document) [] in
               if \<not> truthy_str (ld_url document)
               then return_e (plain_result (''Live read from '' @ m_label member @ '': '' @ title @ [newline, newline] @ markdown))
               else
                 (let url = the (ld_url document) in
                  return_e ((plain_result (''['' @ int_string firstIndex @ ''] Live read from '' @ m_label member @ '': '' @
                      title @ '' -- '' @ url @ [newline, newline] @ markdown))
                    \<lparr>sr_sources := Some [\<lparr>cs_n = firstIndex, cs_title = title, cs_url = url\<rparr>]\<rparr>))))))"

definition corpus_read ::
    "kb_env \<Rightarrow> live_options \<Rightarrow> kb_tool \<Rightarrow> string \<Rightarrow> kb_caller \<Rightarrow> int \<Rightarrow> SearchResult kb_eff" where
  "corpus_read env options tool reference caller firstIndex =
     (let not_read = throw_e (new_Error (''tool '' @ kt_id tool @ '' is not a knowledge-base read'')) in
      case kt_exec tool of
        None \<Rightarrow> not_read
      | Some exec \<Rightarrow>
          if ks_operation exec \<noteq> OpRead then not_read
          else
            (let (corpusId, sourceId) =
                   (case js_indexOf reference CHR ''/'' of
                      Some (Suc k) \<Rightarrow> (take (Suc k) reference, drop (Suc (Suc k)) reference)
                    | _ \<Rightarrow> ([], [])) in
             if corpusId = [] \<or> sourceId = []
             then return_e (plain_result ([CHR 0x22] @ reference @ [CHR 0x22] @ '' is not a readable reference. Use '' @ [CHR 0x60] @
               ''<corpus>/<id>'' @ [CHR 0x60] @ '', where <corpus> is one of: '' @ memberNames (ks_members exec) @ ''.''))
             else
               (case find (\<lambda>m. m_id m = corpusId) (ks_members exec) of
                  None \<Rightarrow> return_e (plain_result ([CHR 0x22] @ corpusId @ [CHR 0x22] @ '' is not part of '' @ ks_displayName exec @
                    ''. Readable here: '' @ memberNames (ks_members exec) @ ''.''))
                | Some member \<Rightarrow>
                    if \<not> may_use caller member
                    then return_e (plain_result (''You do not have access to '' @ m_label member @ '' in this knowledge base.''))
                    else
                      bind_e (delegatedToken env (kc_subject caller) (providers_of member)) (\<lambda>credential.
                        case credential of
                          None \<Rightarrow> return_e (link_result (''I need you to link the account behind '' @ m_label member @
                            '' before I can read from it -- a live read has to run as you, not as the ingestion credential.'')
                            (providers_of member))
                        | Some c \<Rightarrow> read_document env options member sourceId firstIndex (dc_token c)))))"


section \<open>Asking every member\<close>

text \<open>
  The loop that \<open>lookup\<close> and \<open>query\<close> share: members the caller's roles do not reach are
  passed over; without a linked account a member is noted as unlinked; a note from the source is
  kept as a refusal; everything else contributes its items.
\<close>

record live_item =
  li_item :: BrokerItem
  li_member :: string
  li_corpus :: string

record ask_state =
  as_perSource :: "live_item list list"
  as_unlinked :: "string list"
  as_unlinkedProviders :: "string list"
  as_refused :: "string list"
  as_any :: bool

definition ask_start :: ask_state where
  "ask_start = \<lparr>as_perSource = [], as_unlinked = [], as_unlinkedProviders = [], as_refused = [], as_any = False\<rparr>"

type_synonym asker = "KnowledgeBaseExecMember \<Rightarrow> string \<Rightarrow> (BrokerItem list \<times> string option) kb_eff"

fun ask_members :: "kb_env \<Rightarrow> asker \<Rightarrow> kb_caller \<Rightarrow> KnowledgeBaseExecMember list \<Rightarrow> ask_state \<Rightarrow> ask_state kb_eff" where
  "ask_members env ask caller [] st = return_e st"
| "ask_members env ask caller (member # members) st =
     (if \<not> may_use caller member then ask_members env ask caller members st
      else
        bind_e (delegatedToken env (kc_subject caller) (providers_of member)) (\<lambda>credential.
          case credential of
            None \<Rightarrow> ask_members env ask caller members
              (st\<lparr>as_any := True, as_unlinked := as_unlinked st @ [m_label member],
                  as_unlinkedProviders := js_unique (as_unlinkedProviders st @ providers_of member)\<rparr>)
          | Some c \<Rightarrow>
              bind_e (ask member (dc_token c)) (\<lambda>(items, note).
                if truthy_str note
                then ask_members env ask caller members
                  (st\<lparr>as_any := True, as_refused := as_refused st @ [m_label member @ '' ('' @ the note @ '')'']\<rparr>)
                else ask_members env ask caller members
                  (st\<lparr>as_any := True,
                      as_perSource := as_perSource st @
                        [map (\<lambda>item. \<lparr>li_item = item, li_member = m_label member, li_corpus = m_id member\<rparr>) items]\<rparr>))))"

definition MAX_REFUSAL_DETAIL :: nat where "MAX_REFUSAL_DETAIL = 200"

definition refusalNote :: "json_parser \<Rightarrow> int \<Rightarrow> string \<Rightarrow> string" where
  "refusalNote parse status body =
     (let detail = (case parse body of
                      Inr (JObject ms) \<Rightarrow> (case map_of ms ''error'' of Some (JString s) \<Rightarrow> words s | _ \<Rightarrow> [])
                    | _ \<Rightarrow> []) in
      if detail = [] then ''refused ('' @ int_string status @ '')''
      else ''refused ('' @ int_string status @ ''): '' @
        (if MAX_REFUSAL_DETAIL < length detail then take MAX_REFUSAL_DETAIL detail @ ''...'' else detail))"

definition item_title :: "live_item \<Rightarrow> string" where
  "item_title i = coalesce (bi_title (li_item i)) (bi_id (li_item i))"

definition item_sources :: "int \<Rightarrow> live_item list \<Rightarrow> CitedSource list" where
  "item_sources firstIndex items =
     map (\<lambda>(k, i). \<lparr>cs_n = firstIndex + int k, cs_title = item_title i, cs_url = coalesce (bi_url (li_item i)) []\<rparr>)
       (enumerate 0 items)"

definition item_lines :: "string \<Rightarrow> live_item \<Rightarrow> string" where
  "item_lines heading i =
     js_join [newline]
       ([heading, ''  reference: '' @ li_corpus i @ ''/'' @ bi_id (li_item i)] @
        (if truthy_str (bi_url (li_item i)) then [''  '' @ the (bi_url (li_item i))] else []) @
        (if truthy_str (bi_excerpt (li_item i)) then [''  '' @ words (the (bi_excerpt (li_item i)))] else []))"


section \<open>Lookup\<close>

definition searchThroughBroker :: "kb_env \<Rightarrow> json_parser \<Rightarrow> live_options \<Rightarrow> string \<Rightarrow> asker" where
  "searchThroughBroker env parse options query member delegated =
     (let req = broker_call options (''/corpora/'' @ encodeURIComponent (m_id member) @ ''/search?q='' @
                  encodeURIComponent query) delegated in
      bind_e (try_e (call_e (\<lambda>log. kb_lookup env log req) (KLookup req))) (\<lambda>r.
        case r of
          Inl cause \<Rightarrow> throw_e (new_Error (''connection-broker unreachable: '' @ error_string cause))
        | Inr response \<Rightarrow>
            if rs_status response = 404 then return_e ([], Some ''no live search for this source'')
            else if \<not> rs_ok response
            then return_e ([], Some (refusalNote parse (rs_status response) (text_or_empty response)))
            else bind_e (lift_e (rs_json response)) (\<lambda>hits. return_e (coalesce hits [], None))))"

definition lookup_render ::
    "string \<Rightarrow> string \<Rightarrow> int \<Rightarrow> live_item list \<Rightarrow> string list \<Rightarrow> string list \<Rightarrow> string" where
  "lookup_render displayName query firstIndex hits unlinked refused =
     (if hits = [] then ''Nothing in '' @ displayName @ '' matches '' @ [CHR 0x22] @ query @ [CHR 0x22] @ '' right now.''
      else ''Live results from '' @ displayName @ '' for '' @ [CHR 0x22] @ query @ [CHR 0x22] @ '':'' @
        concat (map (\<lambda>(k, i). item_lines
            ([newline] @ ''- ['' @ int_string (firstIndex + int k) @ ''] '' @ item_title i @ '' -- '' @ li_member i) i)
          (enumerate 0 hits))) @
     (if unlinked \<noteq> [] then [newline, newline] @ ''Not searched (no linked account): '' @ js_join '', '' unlinked @ ''.'' else []) @
     (if refused \<noteq> [] then [newline, newline] @ ''Could not search: '' @ js_join '', '' refused @ ''.'' else [])"

definition corpus_lookup ::
    "kb_env \<Rightarrow> json_parser \<Rightarrow> live_options \<Rightarrow> kb_tool \<Rightarrow> string \<Rightarrow> kb_caller \<Rightarrow> int \<Rightarrow> SearchResult kb_eff" where
  "corpus_lookup env parse options tool query caller firstIndex =
     (let not_lookup = throw_e (new_Error (''tool '' @ kt_id tool @ '' is not a knowledge-base lookup'')) in
      case kt_exec tool of
        None \<Rightarrow> not_lookup
      | Some exec \<Rightarrow>
          if ks_operation exec \<noteq> OpLookup then not_lookup
          else
            (let trimmed = js_trim query in
             if trimmed = []
             then return_e (plain_result ''Give me something to look for -- this searches the sources for words you name.'')
             else
               bind_e (ask_members env (searchThroughBroker env parse options trimmed) caller (ks_members exec) ask_start) (\<lambda>st.
                 (let hits = concat (as_perSource st) in
                  if \<not> as_any st then return_e (plain_result (''You do not have access to anything in '' @ ks_displayName exec @ ''.''))
                  else if as_perSource st = [] \<and> as_unlinked st \<noteq> []
                  then return_e (link_result (''I need you to link the account behind '' @ js_join '', '' (as_unlinked st) @
                    '' before I can search it live -- this runs as you, not as the ingestion credential.'')
                    (sort (as_unlinkedProviders st)))
                  else return_e ((plain_result (lookup_render (ks_displayName exec) trimmed firstIndex hits (as_unlinked st) (as_refused st)))
                    \<lparr>sr_sources := Some (item_sources firstIndex hits)\<rparr>)))))"



section \<open>Structured queries\<close>

definition QUERY_DEFAULT_LIMIT :: rat where "QUERY_DEFAULT_LIMIT = 10"

definition QUERY_MAX_LIMIT :: rat where "QUERY_MAX_LIMIT = 25"

definition QUERY_FIELDS :: "string list" where
  "QUERY_FIELDS = [''source'', ''text'', ''title'', ''author'', ''after'', ''before'', ''type'', ''sort'', ''limit'']"

record PlannerQuery = SourceQuery +
  pl_source :: "string option"

definition unusable :: "string \<Rightarrow> string" where
  "unusable why =
     ''That query is not usable ('' @ why @ ''). Send a JSON object with any of: '' @
     ''source, text, title, author, after, before, type, sort, limit.''"

definition quoted :: "string \<Rightarrow> string" where
  "quoted s = [CHR 0x22] @ s @ [CHR 0x22]"

definition days_in_month :: "nat \<Rightarrow> nat \<Rightarrow> nat" where
  "days_in_month year month =
     (if month = 2 then (if year mod 4 = 0 \<and> (year mod 100 \<noteq> 0 \<or> year mod 400 = 0) then 29 else 28)
      else if month \<in> {4, 6, 9, 11} then 30 else 31)"

text \<open>
  \<open>isDate\<close>: four, two and two digits, and the date at midnight UTC has this date again, which
  holds for the days of the calendar only.
\<close>

definition isDate :: "string \<Rightarrow> bool" where
  "isDate s \<longleftrightarrow>
     (let y = take 4 s; m = take 2 (drop 5 s); d = take 2 (drop 8 s) in
      length s = 10 \<and> s ! 4 = CHR ''-'' \<and> s ! 7 = CHR ''-'' \<and> list_all ascii_digit (y @ m @ d) \<and>
      1 \<le> cite_number m \<and> cite_number m \<le> 12 \<and>
      1 \<le> cite_number d \<and> cite_number d \<le> days_in_month (cite_number y) (cite_number m))"

fun field_problem :: "(string \<times> json) list \<Rightarrow> string option" where
  "field_problem [] = None"
| "field_problem ((key, field) # rest) =
     (if key \<notin> set QUERY_FIELDS then Some (unusable (''unknown field '' @ quoted key))
      else if (if key = ''limit'' then (case field of JNumber _ \<Rightarrow> False | _ \<Rightarrow> True) else (case field of JString _ \<Rightarrow> False | _ \<Rightarrow> True))
      then Some (unusable (quoted key @ '' has the wrong type''))
      else field_problem rest)"

text \<open>The fields as the planner wrote them, before the defaults.\<close>

record raw_query =
  rq_source :: "string option"
  rq_text :: "string option"
  rq_title :: "string option"
  rq_author :: "string option"
  rq_after :: "string option"
  rq_before :: "string option"
  rq_type :: "string option"
  rq_sort :: "string option"
  rq_limit :: "rat option"

definition string_field :: "(string \<times> json) list \<Rightarrow> string \<Rightarrow> string option" where
  "string_field ms key = (case map_of ms key of Some (JString s) \<Rightarrow> Some s | _ \<Rightarrow> None)"

definition read_fields :: "(string \<times> json) list \<Rightarrow> raw_query" where
  "read_fields ms =
     \<lparr>rq_source = string_field ms ''source'', rq_text = string_field ms ''text'', rq_title = string_field ms ''title'',
      rq_author = string_field ms ''author'', rq_after = string_field ms ''after'', rq_before = string_field ms ''before'',
      rq_type = string_field ms ''type'', rq_sort = string_field ms ''sort'',
      rq_limit = (case map_of ms ''limit'' of Some (JNumber x) \<Rightarrow> Some x | _ \<Rightarrow> None)\<rparr>"

definition date_problem :: "string \<Rightarrow> string option \<Rightarrow> string option" where
  "date_problem name date =
     (if truthy_str date \<and> \<not> isDate (the date)
      then Some (quoted (the date) @ '' is not a date for '' @ quoted name @ ''; use YYYY-MM-DD.'') else None)"

definition query_sort :: "raw_query \<Rightarrow> string + string" where
  "query_sort q =
     (case rq_sort q of
        None \<Rightarrow> Inr (if truthy_str (rq_text q) then ''relevance'' else ''newest'')
      | Some srt \<Rightarrow>
          if srt = [] then Inr (if truthy_str (rq_text q) then ''relevance'' else ''newest'')
          else if srt \<notin> set [''relevance'', ''newest'', ''oldest'']
          then Inl (quoted srt @ '' is not a sort; use newest, oldest or relevance.'')
          else if srt = ''relevance'' \<and> \<not> truthy_str (rq_text q) then Inr ''newest''
          else Inr srt)"

definition check_query :: "raw_query \<Rightarrow> string + PlannerQuery" where
  "check_query q =
     (case date_problem ''after'' (rq_after q) of
        Some p \<Rightarrow> Inl p
      | None \<Rightarrow>
          (case date_problem ''before'' (rq_before q) of
             Some p \<Rightarrow> Inl p
           | None \<Rightarrow>
               (case query_sort q of
                  Inl p \<Rightarrow> Inl p
                | Inr srt \<Rightarrow>
                    if (case rq_limit q of Some l \<Rightarrow> l < 0 | None \<Rightarrow> False) then Inl ''limit must be positive.''
                    else
                      (let limit = (case rq_limit q of
                                      Some l \<Rightarrow> if l = 0 then QUERY_DEFAULT_LIMIT else min l QUERY_MAX_LIMIT
                                    | None \<Rightarrow> QUERY_DEFAULT_LIMIT) in
                       Inr \<lparr>sq_text = rq_text q, sq_title = rq_title q, sq_author = rq_author q, sq_after = rq_after q,
                            sq_before = rq_before q, sq_type = rq_type q, sq_sort = srt, sq_limit = limit,
                            pl_source = rq_source q\<rparr>))))"

definition parsePlannerQuery :: "json_parser \<Rightarrow> string \<Rightarrow> string + PlannerQuery" where
  "parsePlannerQuery parse raw =
     (let trimmed = js_trim raw in
      if js_startsWith trimmed ''{''
      then
        (case parse trimmed of
           Inl cause \<Rightarrow> Inl (unusable cause)
         | Inr (JObject ms) \<Rightarrow>
             (case field_problem ms of Some p \<Rightarrow> Inl p | None \<Rightarrow> check_query (read_fields ms))
         | Inr _ \<Rightarrow> Inl (unusable ''not an object''))
      else check_query ((read_fields [])\<lparr>rq_text := (if trimmed \<noteq> [] then Some trimmed else None)\<rparr>))"

definition normalize_name :: "string \<Rightarrow> string" where
  "normalize_name s =
     (let t = js_toLowerCase (js_trim s) in if js_startsWith t ''#'' then drop 1 t else t)"

definition membersNamed :: "KnowledgeBaseExecMember list \<Rightarrow> string \<Rightarrow> KnowledgeBaseExecMember list option" where
  "membersNamed members name =
     (let want = normalize_name name in
      if want = [] then Some members
      else map_option (\<lambda>m. [m])
        (find (\<lambda>m. normalize_name (m_id m) = want \<or> normalize_name (m_label m) = want) members))"

definition interleave :: "live_item list list \<Rightarrow> live_item list" where
  "interleave perSource =
     concat (map (\<lambda>i. List.map_filter (\<lambda>items. if i < length items then Some (items ! i) else None) perSource)
       [0..<foldr max (map length perSource) 0])"

definition item_time :: "(string \<Rightarrow> int option) \<Rightarrow> live_item \<Rightarrow> int option" where
  "item_time date item = (if truthy_str (bi_updatedAt (li_item item)) then date (the (bi_updatedAt (li_item item))) else None)"

definition time_order :: "(string \<Rightarrow> int option) \<Rightarrow> string \<Rightarrow> live_item \<Rightarrow> live_item \<Rightarrow> js_double" where
  "time_order date srt a b =
     (case (item_time date a, item_time date b) of
        (None, None) \<Rightarrow> Fin 0
      | (None, Some _) \<Rightarrow> Fin 1
      | (Some _, None) \<Rightarrow> Fin (- 1)
      | (Some ta, Some tb) \<Rightarrow> Fin (of_int (if srt = ''oldest'' then ta - tb else tb - ta)))"

definition mergeResults :: "(string \<Rightarrow> int option) \<Rightarrow> live_item list list \<Rightarrow> string \<Rightarrow> rat \<Rightarrow> live_item list" where
  "mergeResults date perSource srt limit =
     take (nat \<lfloor>limit\<rfloor>)
       (if srt = ''relevance'' then interleave perSource else js_sort (time_order date srt) (concat perSource))"

definition describe_query :: "PlannerQuery \<Rightarrow> string" where
  "describe_query q =
     (let add = (\<lambda>label value. if truthy_str value then [label @ '' '' @ quoted (the value)] else []) in
      js_join '', ''
        (add ''matching'' (sq_text q) @ add ''titled'' (sq_title q) @ add ''by'' (sq_author q) @ add ''type'' (sq_type q) @
         add ''changed on or after'' (sq_after q) @ add ''changed before'' (sq_before q) @
         [if sq_sort q = ''relevance'' then ''most relevant first'' else sq_sort q @ '' first'']))"

definition query_render ::
    "string \<Rightarrow> PlannerQuery \<Rightarrow> int \<Rightarrow> live_item list \<Rightarrow> string list \<Rightarrow> string list \<Rightarrow> string" where
  "query_render displayName q firstIndex items unlinked refused =
     (let src = js_trim (coalesce (pl_source q) []);
          place = (if src \<noteq> [] then displayName @ '' ('' @ src @ '')'' else displayName) in
      (if items = [] then ''Nothing in '' @ place @ '' matches: '' @ describe_query q @ ''.''
       else ''Results from '' @ place @ '' -- '' @ describe_query q @ '':'' @
         concat (map (\<lambda>(k, i). item_lines
             ([newline] @ ''- ['' @ int_string (firstIndex + int k) @ ''] '' @ item_title i @ '' -- '' @ li_member i @
               (if truthy_str (bi_updatedAt (li_item i)) then '' '' @ [CHR 0xB7] @ '' changed '' @ the (bi_updatedAt (li_item i)) else [])) i)
           (enumerate 0 items))) @
      (if unlinked \<noteq> [] then [newline, newline] @ ''Not queried (no linked account): '' @ js_join '', '' unlinked @ ''.'' else []) @
      (if refused \<noteq> [] then [newline, newline] @ ''Could not query: '' @ js_join ''; '' refused @ ''.'' else []))"

definition queryThroughBroker :: "kb_env \<Rightarrow> json_parser \<Rightarrow> live_options \<Rightarrow> SourceQuery \<Rightarrow> asker" where
  "queryThroughBroker env parse options flt member delegated =
     (let req = broker_call options (''/corpora/'' @ encodeURIComponent (m_id member) @ ''/query'') delegated in
      bind_e (try_e (call_e (\<lambda>log. kb_query env log req flt) (KQuery req flt))) (\<lambda>r.
        case r of
          Inl cause \<Rightarrow> throw_e (new_Error (''connection-broker unreachable: '' @ error_string cause))
        | Inr response \<Rightarrow>
            if rs_status response = 404 then return_e ([], Some ''cannot be queried this way'')
            else if \<not> rs_ok response
            then return_e ([], Some (refusalNote parse (rs_status response) (text_or_empty response)))
            else bind_e (lift_e (rs_json response)) (\<lambda>body.
              if coalesce (qa_unsupported body) [] \<noteq> []
              then return_e ([], Some (''cannot filter by '' @ js_join '', '' (coalesce (qa_unsupported body) [])))
              else return_e (coalesce (qa_hits body) [], None))))"

definition corpus_query ::
    "kb_env \<Rightarrow> json_parser \<Rightarrow> (string \<Rightarrow> int option) \<Rightarrow> live_options \<Rightarrow> kb_tool \<Rightarrow> string \<Rightarrow> kb_caller \<Rightarrow> int \<Rightarrow> SearchResult kb_eff" where
  "corpus_query env parse date options tool input caller firstIndex =
     (let not_query = throw_e (new_Error (''tool '' @ kt_id tool @ '' is not a knowledge-base query'')) in
      case kt_exec tool of
        None \<Rightarrow> not_query
      | Some exec \<Rightarrow>
          if ks_operation exec \<noteq> OpQuery then not_query
          else
            (case parsePlannerQuery parse input of
               Inl problem \<Rightarrow> return_e (plain_result problem)
             | Inr q \<Rightarrow>
                 (case membersNamed (ks_members exec) (coalesce (pl_source q) []) of
                    None \<Rightarrow> return_e (plain_result (quoted (coalesce (pl_source q) []) @ '' is not a source in '' @ ks_displayName exec @
                      ''. Sources here: '' @ js_join '', '' (map (\<lambda>m. m_id m @ '' ('' @ m_label m @ '')'') (ks_members exec)) @ ''.''))
                  | Some members \<Rightarrow>
                      bind_e (ask_members env (queryThroughBroker env parse options (SourceQuery.truncate q)) caller members ask_start) (\<lambda>st.
                        if \<not> as_any st then return_e (plain_result (''You do not have access to anything in '' @ ks_displayName exec @ ''.''))
                        else if as_perSource st = [] \<and> as_unlinked st \<noteq> []
                        then return_e (link_result (''I need you to link the account behind '' @ js_join '', '' (as_unlinked st) @
                          '' before I can query it -- this runs as you, not as the ingestion credential.'')
                          (sort (as_unlinkedProviders st)))
                        else
                          (let items = mergeResults date (as_perSource st) (sq_sort q) (sq_limit q) in
                           return_e ((plain_result (query_render (ks_displayName exec) q firstIndex items (as_unlinked st) (as_refused st)))
                             \<lparr>sr_sources := Some (item_sources firstIndex items)\<rparr>))))))"


section \<open>The live tools run as the caller\<close>

lemma delegatedToken_does:
  "does (delegatedToken env subject providers) (\<lambda>r new.
     (\<forall>c. r = Inr (Some c) \<longrightarrow> (\<exists>p \<in> set providers. issued subject new p c)) \<and> list_all off_broker new)"
  (is "does _ (?post providers)")
proof (induction providers)
  case Nil
  show ?case by (simp add: does_return)
next
  case (Cons p ps)
  show ?case unfolding delegatedToken.simps
  proof (rule does_bind[OF resolveOne_does])
    fix credential first
    assume first: "(\<forall>c. Inr credential = (Inr (Some c) :: kb_error + _) \<longrightarrow> issued subject first p c) \<and> list_all off_broker first"
    show "does (case credential of Some c \<Rightarrow> return_e (Some c) | None \<Rightarrow> delegatedToken env subject ps)
        (\<lambda>r new. ?post (p # ps) r (first @ new))"
    proof (cases credential)
      case None
      then show ?thesis using first by (auto intro!: does_mono[OF Cons] simp: issued_def)
    next
      case (Some c)
      then show ?thesis using first by (simp add: does_return)
    qed
  qed auto
qed

text \<open>
  A request to the broker made as the caller: to a member the caller's roles reach, with the
  orchestrator's own bearer and a token that was read in the same call for the caller and one of
  the member's providers.
\<close>

definition as_caller :: "live_options \<Rightarrow> kb_caller \<Rightarrow> KnowledgeBaseExecMember list \<Rightarrow> kb_event list \<Rightarrow> broker_request \<Rightarrow> bool" where
  "as_caller options caller members new bq \<longleftrightarrow>
     (\<exists>m \<in> set members. \<exists>p \<in> set (providers_of m). \<exists>rest.
        may_use caller m \<and> bq_bearer bq = lx_brokerToken options \<and>
        bq_endpoint bq = strip_trailing_slashes (lx_brokerUrl options) @ ''/corpora/'' @ encodeURIComponent (m_id m) @ ''/'' @ rest \<and>
        KGetToken p (kc_subject caller) (Inr (Some (bq_delegated bq))) \<in> set new)"

definition calls_as_caller :: "live_options \<Rightarrow> kb_caller \<Rightarrow> KnowledgeBaseExecMember list \<Rightarrow> kb_event list \<Rightarrow> bool" where
  "calls_as_caller options caller members new \<longleftrightarrow>
     (\<forall>e bq. e \<in> set new \<longrightarrow> broker_calls e = Some bq \<longrightarrow> as_caller options caller members new bq)"

lemma calls_as_caller_Nil [simp]: "calls_as_caller options caller members []"
  by (simp add: calls_as_caller_def)

lemma calls_as_caller_append:
  "calls_as_caller options caller members first \<Longrightarrow> calls_as_caller options caller members new \<Longrightarrow>
     calls_as_caller options caller members (first @ new)"
  unfolding calls_as_caller_def as_caller_def by (metis Un_iff set_append)

lemma off_broker_calls: "list_all off_broker new \<Longrightarrow> calls_as_caller options caller members new"
  by (auto simp: calls_as_caller_def off_broker_def list_all_iff)

text \<open>What one member is asked: one request under its path with the given token.\<close>

definition asks_with :: "live_options \<Rightarrow> asker \<Rightarrow> bool" where
  "asks_with options ask \<longleftrightarrow>
     (\<forall>member token. does (ask member token) (\<lambda>r new. \<forall>e bq. e \<in> set new \<longrightarrow> broker_calls e = Some bq \<longrightarrow>
        (\<exists>rest. bq = broker_call options (''/corpora/'' @ encodeURIComponent (m_id member) @ ''/'' @ rest) token)))"

lemma asked_as_caller:
  assumes "issued (kc_subject caller) first p c" "p \<in> set (providers_of m)" "m \<in> set members" "may_use caller m"
    and "list_all off_broker first"
    and "\<forall>e bq. e \<in> set new \<longrightarrow> broker_calls e = Some bq \<longrightarrow>
        (\<exists>rest. bq = broker_call options (''/corpora/'' @ encodeURIComponent (m_id m) @ ''/'' @ rest) (dc_token c))"
  shows "calls_as_caller options caller members (first @ new)"
  unfolding calls_as_caller_def
proof (intro allI impI)
  fix e bq
  assume e: "e \<in> set (first @ new)" "broker_calls e = Some bq"
  then have "e \<in> set new" using assms(5) by (auto simp: list_all_iff off_broker_def)
  then obtain rest where "bq = broker_call options (''/corpora/'' @ encodeURIComponent (m_id m) @ ''/'' @ rest) (dc_token c)"
    using assms(6) e(2) by blast
  then show "as_caller options caller members (first @ new) bq"
    using assms(1-4) unfolding as_caller_def
    by (intro bexI[of _ m] bexI[of _ p] exI[of _ rest]) (simp_all add: broker_call_def issued_def)
qed

lemma ask_members_does:
  assumes ask: "asks_with options ask" and sub: "set members \<subseteq> set all"
  shows "does (ask_members env ask caller members st) (\<lambda>r new. calls_as_caller options caller all new)"
  using sub
proof (induction members arbitrary: st)
  case Nil
  show ?case by (simp add: does_return)
next
  case (Cons m ms)
  have rec: "does (ask_members env ask caller ms st') (\<lambda>r new. calls_as_caller options caller all (first @ new))"
    if "calls_as_caller options caller all first" for st' first
    by (rule does_mono[OF Cons.IH]) (use Cons.prems that calls_as_caller_append in auto)
  show ?case
  proof (cases "may_use caller m")
    case False
    then show ?thesis using Cons by simp
  next
    case True
    have one: "does (ask m token) (\<lambda>r new. \<forall>e bq. e \<in> set new \<longrightarrow> broker_calls e = Some bq \<longrightarrow>
        (\<exists>rest. bq = broker_call options (''/corpora/'' @ encodeURIComponent (m_id m) @ ''/'' @ rest) token))" for token
      using ask by (simp add: asks_with_def)
    have allowed: "(\<not> may_use caller m) = False" using True by simp
    show ?thesis
      unfolding ask_members.simps allowed if_False
    proof (rule does_bind[OF delegatedToken_does])
      fix credential first
      assume first: "(\<forall>c. Inr credential = (Inr (Some c) :: kb_error + _) \<longrightarrow> (\<exists>p \<in> set (providers_of m). issued (kc_subject caller) first p c)) \<and>
          list_all off_broker first"
      show "does (case credential of
            None \<Rightarrow> ask_members env ask caller ms
              (st\<lparr>as_any := True, as_unlinked := as_unlinked st @ [m_label m],
                  as_unlinkedProviders := js_unique (as_unlinkedProviders st @ providers_of m)\<rparr>)
          | Some c \<Rightarrow>
              bind_e (ask m (dc_token c)) (\<lambda>(items, note).
                if truthy_str note
                then ask_members env ask caller ms
                  (st\<lparr>as_any := True, as_refused := as_refused st @ [m_label m @ '' ('' @ the note @ '')'']\<rparr>)
                else ask_members env ask caller ms
                  (st\<lparr>as_any := True,
                      as_perSource := as_perSource st @
                        [map (\<lambda>item. \<lparr>li_item = item, li_member = m_label m, li_corpus = m_id m\<rparr>) items]\<rparr>)))
          (\<lambda>r new. calls_as_caller options caller all (first @ new))"
      proof (cases credential)
        case None
        then show ?thesis using first rec off_broker_calls by simp
      next
        case (Some c)
        then obtain p where p: "p \<in> set (providers_of m)" "issued (kc_subject caller) first p c" using first by blast
        have asked: "calls_as_caller options caller all (first @ new)"
          if "\<forall>e bq. e \<in> set new \<longrightarrow> broker_calls e = Some bq \<longrightarrow>
            (\<exists>rest. bq = broker_call options (''/corpora/'' @ encodeURIComponent (m_id m) @ ''/'' @ rest) (dc_token c))" for new
          by (rule asked_as_caller[OF p(2,1) _ True _ that]) (use first Cons.prems in auto)
        show ?thesis
          unfolding Some option.case
        proof (rule does_bind[OF one])
          fix x second
          assume "\<forall>e bq. e \<in> set second \<longrightarrow> broker_calls e = Some bq \<longrightarrow>
            (\<exists>rest. bq = broker_call options (''/corpora/'' @ encodeURIComponent (m_id m) @ ''/'' @ rest) (dc_token c))"
          then show "does (case x of (items, note) \<Rightarrow>
                if truthy_str note
                then ask_members env ask caller ms
                  (st\<lparr>as_any := True, as_refused := as_refused st @ [m_label m @ '' ('' @ the note @ '')'']\<rparr>)
                else ask_members env ask caller ms
                  (st\<lparr>as_any := True,
                      as_perSource := as_perSource st @
                        [map (\<lambda>item. \<lparr>li_item = item, li_member = m_label m, li_corpus = m_id m\<rparr>) items]\<rparr>))
              (\<lambda>r new. calls_as_caller options caller all (first @ second @ new))"
            using rec[of "first @ second"] asked[of second] by (auto split: prod.split)
        qed (use asked in auto)
      qed
    qed (use off_broker_calls in auto)
  qed
qed


lemma asks_with_lookup: "asks_with options (searchThroughBroker env parse options query)"
proof -
  have one: "does (searchThroughBroker env parse options query member token)
      (\<lambda>r new. \<exists>a. new = [KLookup (broker_call options (''/corpora/'' @ encodeURIComponent (m_id member) @ ''/search?q='' @
         encodeURIComponent query) token) a])" for member token
    unfolding searchThroughBroker_def Let_def
    by (rule does_bind[OF does_try_call]) (auto split: sum.split intro!: does_rules does_bind[OF does_lift_none])
  show ?thesis
    unfolding asks_with_def by (intro allI does_mono[OF one]) (force simp: broker_calls_def)
qed

lemma asks_with_query: "asks_with options (queryThroughBroker env parse options flt)"
proof -
  have one: "does (queryThroughBroker env parse options flt member token)
      (\<lambda>r new. \<exists>a. new = [KQuery (broker_call options (''/corpora/'' @ encodeURIComponent (m_id member) @ ''/query'') token) flt a])"
    for member token
    unfolding queryThroughBroker_def Let_def
    by (rule does_bind[OF does_try_call]) (auto split: sum.split intro!: does_rules does_bind[OF does_lift_none])
  show ?thesis
    unfolding asks_with_def by (intro allI does_mono[OF one]) (force simp: broker_calls_def)
qed

lemma read_document_does:
  "does (read_document env options member sourceId n token) (\<lambda>r new. \<forall>e bq. e \<in> set new \<longrightarrow> broker_calls e = Some bq \<longrightarrow>
        (\<exists>rest. bq = broker_call options (''/corpora/'' @ encodeURIComponent (m_id member) @ ''/'' @ rest) token))"
proof -
  have "does (read_document env options member sourceId n token)
      (\<lambda>r new. \<exists>a. new = [KRead (broker_call options (''/corpora/'' @ encodeURIComponent (m_id member) @ ''/documents/'' @
         encodeURIComponent sourceId) token) a])"
    unfolding read_document_def Let_def
    by (rule does_bind[OF does_try_call]) (auto split: sum.split intro!: does_rules does_bind[OF does_lift_none])
  then show ?thesis by (rule does_mono) (force simp: broker_calls_def)
qed


lemma membersNamed_subset: "membersNamed members name = Some ms \<Longrightarrow> set ms \<subseteq> set members"
  by (auto simp: membersNamed_def Let_def find_Some_iff split: if_splits)

lemma corpus_lookup_does:
  assumes "kt_exec tool = Some exec"
  shows "does (corpus_lookup env parse options tool query caller n)
    (\<lambda>_ new. calls_as_caller options caller (ks_members exec) new)"
  unfolding corpus_lookup_def assms option.case Let_def
  by (intro does_if does_throw does_return does_bind[OF ask_members_does[OF asks_with_lookup subset_refl]]) simp_all

lemma corpus_query_does:
  assumes "kt_exec tool = Some exec"
  shows "does (corpus_query env parse date options tool input caller n)
    (\<lambda>_ new. calls_as_caller options caller (ks_members exec) new)"
proof (cases "parsePlannerQuery parse input")
  case (Inl p)
  then show ?thesis by (simp add: corpus_query_def assms does_return does_throw)
next
  case (Inr q)
  show ?thesis
  proof (cases "membersNamed (ks_members exec) (coalesce (pl_source q) [])")
    case None
    then show ?thesis using Inr by (simp add: corpus_query_def assms does_return does_throw)
  next
    case (Some ms)
    show ?thesis
      unfolding corpus_query_def assms option.case Let_def Inr sum.case Some
      by (intro does_if does_throw does_return does_bind[OF ask_members_does[OF asks_with_query membersNamed_subset[OF Some]]])
        simp_all
  qed
qed

lemma corpus_read_does:
  assumes "kt_exec tool = Some exec"
  shows "does (corpus_read env options tool reference caller n)
    (\<lambda>_ new. calls_as_caller options caller (ks_members exec) new)"
proof -
  have read: "does (bind_e (delegatedToken env (kc_subject caller) (providers_of m)) (\<lambda>credential.
        case credential of None \<Rightarrow> return_e a | Some c \<Rightarrow> read_document env options m src n (dc_token c)))
      (\<lambda>_ new. calls_as_caller options caller (ks_members exec) new)"
    if m: "m \<in> set (ks_members exec)" "may_use caller m" for m a src
  proof (rule does_bind[OF delegatedToken_does])
    fix credential first
    assume first: "(\<forall>c. Inr credential = (Inr (Some c) :: kb_error + _) \<longrightarrow> (\<exists>p \<in> set (providers_of m). issued (kc_subject caller) first p c)) \<and>
          list_all off_broker first"
    show "does (case credential of None \<Rightarrow> return_e a | Some c \<Rightarrow> read_document env options m src n (dc_token c))
        (\<lambda>_ new. calls_as_caller options caller (ks_members exec) (first @ new))"
    proof (cases credential)
      case None
      then show ?thesis using first off_broker_calls by (simp add: does_return)
    next
      case (Some c)
      then obtain p where p: "p \<in> set (providers_of m)" "issued (kc_subject caller) first p c" using first by blast
      then show ?thesis
        unfolding Some option.case using first m
        by (intro does_mono[OF read_document_does]) (auto intro!: asked_as_caller[OF p(2,1)])
    qed
  qed (use off_broker_calls in auto)
  show ?thesis
    unfolding corpus_read_def assms option.case Let_def
    using read
    by (auto simp: find_Some_iff split: option.split nat.split prod.split intro!: does_throw does_return)
qed

text \<open>
  C19. The live tools of a knowledge base run as the caller: every request that a document read, a
  keyword lookup or a structured query sends to the broker goes to a member of the knowledge base
  that the caller's roles reach, under that member's own path, and carries a token that was read
  in the same call for the caller's subject and one of that member's providers.
\<close>

theorem live_tools_run_as_the_caller:
  assumes "kt_exec tool = Some exec"
  shows "does (corpus_read env options tool reference caller n) (\<lambda>_ new. calls_as_caller options caller (ks_members exec) new) \<and>
    does (corpus_lookup env parse options tool query caller n) (\<lambda>_ new. calls_as_caller options caller (ks_members exec) new) \<and>
    does (corpus_query env parse date options tool input caller n) (\<lambda>_ new. calls_as_caller options caller (ks_members exec) new)"
  using corpus_read_does[OF assms] corpus_lookup_does[OF assms] corpus_query_does[OF assms] by blast


definition ex_query_env :: kb_env where
  "ex_query_env = (ex_env ex_allowed)\<lparr>kb_query := (\<lambda>_ _ _. Inr \<lparr>rs_status = 200, rs_text = Inr [],
     rs_json = Inr \<lparr>qa_hits = Some [], qa_unsupported = None\<rparr>\<rparr>)\<rparr>"

definition ex_query_tool :: kb_tool where
  "ex_query_tool = \<lparr>kt_id = ''kb'', kt_exec = Some (ex_spec\<lparr>ks_operation := OpQuery\<rparr>)\<rparr>"

definition ex_query_run :: "(kb_error + SearchResult) \<times> kb_event list" where
  "ex_query_run = corpus_query ex_query_env (\<lambda>_. Inl []) (\<lambda>_. None) \<lparr>lx_brokerUrl = ''b'', lx_brokerToken = ''t''\<rparr>
     ex_query_tool ''budget'' ex_caller 1 []"

lemma ex_query_run_asks: "list_ex (\<lambda>e. broker_calls e \<noteq> None) (snd ex_query_run)"
  by code_simp

theorem live_tools_run_as_the_caller_witness:
  "\<exists>e bq. e \<in> set (snd ex_query_run) \<and> broker_calls e = Some bq \<and>
     as_caller \<lparr>lx_brokerUrl = ''b'', lx_brokerToken = ''t''\<rparr> ex_caller (ks_members ex_spec) (snd ex_query_run) bq"
proof -
  obtain e bq where e: "e \<in> set (snd ex_query_run)" "broker_calls e = Some bq"
    using ex_query_run_asks by (auto simp: list_ex_iff)
  have "does (corpus_query ex_query_env (\<lambda>_. Inl []) (\<lambda>_. None) \<lparr>lx_brokerUrl = ''b'', lx_brokerToken = ''t''\<rparr> ex_query_tool ''budget'' ex_caller 1)
      (\<lambda>_ new. calls_as_caller \<lparr>lx_brokerUrl = ''b'', lx_brokerToken = ''t''\<rparr> ex_caller (ks_members ex_spec) new)"
    using live_tools_run_as_the_caller[of ex_query_tool "ex_spec\<lparr>ks_operation := OpQuery\<rparr>" ex_query_env
      "\<lparr>lx_brokerUrl = ''b'', lx_brokerToken = ''t''\<rparr>" "[]" ex_caller 1 "\<lambda>_. Inl []" "[]" "\<lambda>_. None" "''budget''"]
    by (simp add: ex_query_tool_def)
  then have "calls_as_caller \<lparr>lx_brokerUrl = ''b'', lx_brokerToken = ''t''\<rparr> ex_caller (ks_members ex_spec) (snd ex_query_run)"
    unfolding does_def ex_query_run_def by (metis append_Nil)
  then show ?thesis using e unfolding calls_as_caller_def by blast
qed


section \<open>Queries and merged results\<close>

lemma query_sort_ok:
  "query_sort r = Inr srt \<Longrightarrow> srt \<in> {''relevance'', ''newest'', ''oldest''} \<and> (srt \<noteq> ''relevance'' \<or> truthy_str (rq_text r))"
  by (auto simp: query_sort_def split: option.splits if_splits)

lemma date_problem_None: "date_problem name date = None \<longleftrightarrow> \<not> truthy_str date \<or> isDate (the date)"
  by (simp add: date_problem_def)

lemma check_query_ok:
  assumes "check_query r = Inr q"
  shows "sq_sort q \<in> {''relevance'', ''newest'', ''oldest''} \<and> (sq_sort q \<noteq> ''relevance'' \<or> truthy_str (sq_text q)) \<and>
    0 < sq_limit q \<and> sq_limit q \<le> 25 \<and>
    (\<not> truthy_str (sq_after q) \<or> isDate (the (sq_after q))) \<and> (\<not> truthy_str (sq_before q) \<or> isDate (the (sq_before q)))"
proof -
  obtain srt where srt: "query_sort r = Inr srt" and dates: "date_problem ''after'' (rq_after r) = None" "date_problem ''before'' (rq_before r) = None"
    using assms by (auto simp: check_query_def split: option.splits sum.splits)
  let ?limit = "case rq_limit r of Some l \<Rightarrow> if l = 0 then QUERY_DEFAULT_LIMIT else min l QUERY_MAX_LIMIT | None \<Rightarrow> QUERY_DEFAULT_LIMIT"
  have ok: "\<not> (case rq_limit r of Some l \<Rightarrow> l < 0 | None \<Rightarrow> False)"
    using assms srt dates by (simp add: check_query_def split: if_splits)
  then have q: "q = \<lparr>sq_text = rq_text r, sq_title = rq_title r, sq_author = rq_author r, sq_after = rq_after r,
      sq_before = rq_before r, sq_type = rq_type r, sq_sort = srt, sq_limit = ?limit, pl_source = rq_source r\<rparr>"
    using assms srt dates by (simp add: check_query_def Let_def)
  have limit: "0 < ?limit \<and> ?limit \<le> 25"
    using ok by (auto simp: QUERY_DEFAULT_LIMIT_def QUERY_MAX_LIMIT_def split: option.splits)
  show ?thesis
    using query_sort_ok[OF srt] limit dates[unfolded date_problem_None] by (simp add: q)
qed

text \<open>
  A query the planner writes is either answered with the problem or well formed: its sort is
  one of the three, relevance only where there are words to be relevant to, its limit is positive
  and at most 25, and a date it filters by is a day of the calendar.
\<close>

theorem planner_query_is_well_formed:
  assumes "parsePlannerQuery parse raw = Inr q"
  shows "sq_sort q \<in> {''relevance'', ''newest'', ''oldest''} \<and> (sq_sort q \<noteq> ''relevance'' \<or> truthy_str (sq_text q)) \<and>
    0 < sq_limit q \<and> sq_limit q \<le> 25 \<and>
    (\<not> truthy_str (sq_after q) \<or> isDate (the (sq_after q))) \<and> (\<not> truthy_str (sq_before q) \<or> isDate (the (sq_before q)))"
proof -
  obtain r where "check_query r = Inr q"
    using assms by (auto simp: parsePlannerQuery_def Let_def split: sum.splits json.splits option.splits if_splits)
  then show ?thesis by (rule check_query_ok)
qed

definition ex_filter :: "string + PlannerQuery" where
  "ex_filter = parsePlannerQuery (\<lambda>_. Inr (JObject [(''after'', JString ''2024-02-29''), (''limit'', JNumber 40)])) ''{}''"

lemma ex_filter_ok: "is_ok ex_filter"
  by code_simp

theorem planner_query_is_well_formed_witness:
  "\<exists>q. ex_filter = Inr q \<and> 0 < sq_limit q \<and> sq_limit q \<le> 25"
proof -
  obtain q where q: "ex_filter = Inr q" using ex_filter_ok[unfolded is_ok_iff] by (rule exE)
  then show ?thesis using planner_query_is_well_formed[OF q[unfolded ex_filter_def]] by blast
qed

lemma mset_concat_append:
  "mset (concat (map (\<lambda>i. f i @ g i) xs)) = mset (concat (map f xs)) + mset (concat (map g xs))"
  by (induction xs) simp_all

lemma concat_nth: "length xs \<le> n \<Longrightarrow> concat (map (\<lambda>i. if i < length xs then [xs ! i] else []) [0..<n]) = xs"
proof (induction n)
  case (Suc n)
  show ?case
  proof (cases "length xs = Suc n")
    case True
    have "concat (map (\<lambda>i. if i < length xs then [xs ! i] else []) [0..<n]) = map (\<lambda>i. xs ! i) [0..<n]"
    proof -
      have "map (\<lambda>i. if i < length xs then [xs ! i] else []) [0..<n] = map (\<lambda>i. [xs ! i]) [0..<n]"
        using True by (intro map_cong) auto
      then show ?thesis by (simp only: concat_map_singleton)
    qed
    then show ?thesis using True map_nth[of xs] by simp
  next
    case False
    then show ?thesis using Suc by simp
  qed
qed simp

lemma mset_interleave_up_to:
  assumes "\<forall>items \<in> set perSource. length items \<le> n"
  shows "mset (concat (map (\<lambda>i. List.map_filter (\<lambda>items. if i < length items then Some (items ! i) else None) perSource) [0..<n])) =
    mset (concat perSource)"
  using assms
proof (induction perSource)
  case Nil
  show ?case by (simp add: map_filter_def)
next
  case (Cons x xs)
  have "List.map_filter (\<lambda>items. if i < length items then Some (items ! i) else None) (x # xs) =
      (if i < length x then [x ! i] else []) @ List.map_filter (\<lambda>items. if i < length items then Some (items ! i) else None) xs" for i
    by (simp add: map_filter_def)
  then show ?case using Cons concat_nth[of x n] by (simp add: mset_concat_append)
qed

lemma length_le_foldr_max: "items \<in> set perSource \<Longrightarrow> length items \<le> foldr max (map length perSource) 0"
  by (induction perSource) auto

lemma mset_interleave: "mset (interleave perSource) = mset (concat perSource)"
  unfolding interleave_def by (rule mset_interleave_up_to) (simp add: length_le_foldr_max)

text \<open>\<open>a\<close> may stand before \<open>b\<close>: undated items come last.\<close>

definition may_precede :: "(string \<Rightarrow> int option) \<Rightarrow> string \<Rightarrow> live_item \<Rightarrow> live_item \<Rightarrow> bool" where
  "may_precede date srt a b =
     (case (item_time date a, item_time date b) of
        (_, None) \<Rightarrow> True
      | (None, Some _) \<Rightarrow> False
      | (Some ta, Some tb) \<Rightarrow> if srt = ''oldest'' then ta \<le> tb else tb \<le> ta)"

lemma time_sorted: "sorted_wrt (may_precede date srt) (js_sort (time_order date srt) items)"
  by (rule js_sort_sorted) (auto simp: may_precede_def time_order_def split: option.splits if_splits)

text \<open>
  The results of a query are all the items of the sources that answered, cut to the limit:
  in turn over the sources for relevance, and otherwise sorted by their own times, oldest or
  newest first as asked, with undated items last.
\<close>

theorem query_results_are_merged:
  "\<exists>items. mset items = mset (concat perSource) \<and> mergeResults date perSource srt limit = take (nat \<lfloor>limit\<rfloor>) items \<and>
     (srt = ''relevance'' \<and> items = interleave perSource \<or> sorted_wrt (may_precede date srt) items)"
proof (cases "srt = ''relevance''")
  case True
  then show ?thesis using mset_interleave by (auto simp: mergeResults_def)
next
  case False
  then show ?thesis
    using time_sorted by (intro exI[of _ "js_sort (time_order date srt) (concat perSource)"]) (simp add: mergeResults_def)
qed

end
