(* ===== verification/Broker_Access.thy ===== *)
theory Broker_Access
  imports Corpus_Live Event_Values
begin

text \<open>
  The gate of the connection-broker (\<open>apps/connection-broker/src\<close>): who a caller is and which
  credential it may spend (\<open>auth.ts\<close>), the routes (\<open>parseRoute\<close> of \<open>server.ts\<close>) and the
  validation of an untrusted query (\<open>drivers/query.ts\<close>).
\<close>

section \<open>Callers\<close>

datatype Caller = Orchestrator | Sync string

record AuthConfig =
  ac_orchestratorToken :: string
  ac_syncTokens :: "(string \<times> string) list"

datatype broker_error =
    Unauthorized string | Forbidden string
  | PermissionDenied string | Transient string | Permanent string | QueryValidation string | OtherFailure string

text \<open>\<open>Buffer.from\<close> of a string: its UTF-8 bytes, and the comparison of two buffers of equal length.\<close>

definition utf8_bytes :: "string \<Rightarrow> nat list" where
  "utf8_bytes s =
     concat (map (\<lambda>c. let n = (of_char c :: nat) in if n < 128 then [n] else [192 + n div 64, 128 + n mod 64]) s)"

definition secretsMatch :: "string \<Rightarrow> string \<Rightarrow> bool" where
  "secretsMatch presented expected \<longleftrightarrow>
     (let a = utf8_bytes presented; b = utf8_bytes expected in if length a \<noteq> length b then False else a = b)"

text \<open>\<open>.replace(/^Bearer\s+/i, "").trim()\<close>.\<close>

definition bearer_token :: "string option \<Rightarrow> string" where
  "bearer_token authorization =
     (let a = coalesce authorization [];
          rest = drop 6 a in
      js_trim (if js_toLowerCase (take 6 a) = ''bearer'' \<and> takeWhile js_ws rest \<noteq> [] then dropWhile js_ws rest else a))"

definition authenticate :: "AuthConfig \<Rightarrow> string option \<Rightarrow> broker_error + Caller" where
  "authenticate config authorization =
     (let token = bearer_token authorization in
      if token = [] then Inl (Unauthorized ''missing bearer token'')
      else if ac_orchestratorToken config \<noteq> [] \<and> secretsMatch token (ac_orchestratorToken config) then Inr Orchestrator
      else
        (case find (\<lambda>(connection, expected). secretsMatch token expected) (ac_syncTokens config) of
           Some (connection, _) \<Rightarrow> Inr (Sync connection)
         | None \<Rightarrow> Inl (Unauthorized ''unrecognized bearer token'')))"

datatype broker_operation = OpList | OpFetchOne | OpProbe

datatype credential_kind = ServiceCredential | DelegatedCred

definition broker_authorize ::
    "Caller \<Rightarrow> broker_operation \<Rightarrow> string \<Rightarrow> string option \<Rightarrow> broker_error + credential_kind" where
  "broker_authorize caller operation connection delegated =
     (case caller of
        Sync own \<Rightarrow>
          if own \<noteq> connection then Inl (Forbidden (''sync caller for '' @ own @ '' may not act on '' @ connection))
          else if operation = OpProbe then Inl (Forbidden ''a sync caller cannot probe on behalf of a user'')
          else Inr ServiceCredential
      | Orchestrator \<Rightarrow>
          if operation = OpList
          then Inl (Forbidden (''the orchestrator may not list; that is the sync worker'' @ [CHR 0x27] @ ''s operation''))
          else if \<not> truthy_str delegated
          then Inl (Forbidden (''the orchestrator must supply the calling user'' @ [CHR 0x27] @ ''s delegated token; '' @
            ''it may not use the service credential''))
          else Inr DelegatedCred)"


section \<open>Routes\<close>

text \<open>
  \<open>decodeURIComponent\<close>: percent triplets are UTF-8 bytes. \<open>None\<close> stands for the \<open>URIError\<close>
  it throws on anything malformed, and for the code points above 255 that the model's strings
  cannot hold.
\<close>

definition hex_value :: "char \<Rightarrow> nat option" where
  "hex_value c =
     (let n = (of_char c :: nat) in
      if 48 \<le> n \<and> n \<le> 57 then Some (n - 48)
      else if 65 \<le> n \<and> n \<le> 70 then Some (n - 55)
      else if 97 \<le> n \<and> n \<le> 102 then Some (n - 87) else None)"

definition percent_value :: "string \<Rightarrow> nat option" where
  "percent_value s =
     (case s of
        p # a # b # _ \<Rightarrow>
          if p = CHR ''%''
          then (case (hex_value a, hex_value b) of (Some x, Some y) \<Rightarrow> Some (16 * x + y) | _ \<Rightarrow> None)
          else None
      | _ \<Rightarrow> None)"

function decodeURIComponent :: "string \<Rightarrow> string option" where
  "decodeURIComponent s =
     (case s of
        [] \<Rightarrow> Some []
      | c # cs \<Rightarrow>
          if c \<noteq> CHR ''%'' then map_option (\<lambda>t. c # t) (decodeURIComponent cs)
          else
            (case percent_value s of
               None \<Rightarrow> None
             | Some n \<Rightarrow>
                 if n < 128 then map_option (\<lambda>t. char_of n # t) (decodeURIComponent (drop 3 s))
                 else if n \<in> {194, 195}
                 then (case percent_value (drop 3 s) of
                         Some m \<Rightarrow>
                           if 128 \<le> m \<and> m < 192
                           then map_option (\<lambda>t. char_of (64 * (n - 192) + (m - 128)) # t) (decodeURIComponent (drop 6 s))
                           else None
                       | None \<Rightarrow> None)
                 else None))"
  by pat_completeness auto
termination
  by (relation "measure length") auto

declare decodeURIComponent.simps [simp del]

datatype route_kind = KResources | KDocuments | KSearchRoute | KQueryRoute | KProbeRoute | KSyncRoute | KWebhook

record Route =
  rt_name :: string
  rt_kind :: route_kind
  rt_id :: "string option"

definition path_parts :: "string \<Rightarrow> string list" where
  "path_parts pathname = filter (\<lambda>p. p \<noteq> []) (js_split CHR ''/'' pathname)"

text \<open>\<open>Inl\<close>: a component does not decode, which throws; \<open>Inr None\<close>: no such route.\<close>

definition parseRoute :: "string \<Rightarrow> broker_error + Route option" where
  "parseRoute pathname =
     (let parts = path_parts pathname; undecodable = Inl (OtherFailure ''URI malformed'') in
      case parts of
        section0 # encoded # rest \<Rightarrow>
          (case decodeURIComponent encoded of
             None \<Rightarrow> undecodable
           | Some name \<Rightarrow>
               (let plain = (\<lambda>kind. Inr (Some \<lparr>rt_name = name, rt_kind = kind, rt_id = None\<rparr>));
                    with_id = (\<lambda>kind e. case decodeURIComponent e of
                                 None \<Rightarrow> undecodable
                               | Some i \<Rightarrow> Inr (Some \<lparr>rt_name = name, rt_kind = kind, rt_id = Some i\<rparr>)) in
                if section0 = ''corpora''
                then
                  (case rest of
                     [what] \<Rightarrow>
                       if what = ''probe'' then plain KProbeRoute
                       else if what = ''sync'' then plain KSyncRoute
                       else if what = ''search'' then plain KSearchRoute
                       else if what = ''query'' then plain KQueryRoute
                       else if what = ''resources'' then plain KResources
                       else Inr None
                   | [what, e] \<Rightarrow>
                       if what = ''documents'' then with_id KDocuments e
                       else if what = ''resources'' then with_id KResources e
                       else Inr None
                   | _ \<Rightarrow> Inr None)
                else if section0 = ''connections'' \<and> rest = [''webhook''] then plain KWebhook
                else Inr None))
      | _ \<Rightarrow> Inr None)"


section \<open>Query validation\<close>

definition STRING_FIELDS :: "string list" where
  "STRING_FIELDS = [''text'', ''title'', ''author'', ''after'', ''before'', ''type'']"

definition KNOWN_FIELDS :: "string list" where
  "KNOWN_FIELDS = STRING_FIELDS @ [''sort'', ''limit'']"

definition SORTS :: "string list" where "SORTS = [''relevance'', ''newest'', ''oldest'']"

text \<open>
  A calendar date: the parts again after \<open>Date.UTC\<close>, which reads a year below 100 as one of
  the twentieth century.
\<close>

definition isCalendarDate :: "string \<Rightarrow> bool" where
  "isCalendarDate value \<longleftrightarrow> isDate value \<and> 100 \<le> cite_number (take 4 value)"

record broker_query =
  bk_text :: "string option"
  bk_title :: "string option"
  bk_author :: "string option"
  bk_after :: "string option"
  bk_before :: "string option"
  bk_type :: "string option"
  bk_sort :: "string option"
  bk_limit :: "int option"

fun first_bad_string :: "(string \<times> json) list \<Rightarrow> string list \<Rightarrow> string option" where
  "first_bad_string raw [] = None"
| "first_bad_string raw (field # rest) =
     (case map_of raw field of
        None \<Rightarrow> first_bad_string raw rest
      | Some JNull \<Rightarrow> first_bad_string raw rest
      | Some (JString _) \<Rightarrow> first_bad_string raw rest
      | Some _ \<Rightarrow> Some field)"

definition bad_date :: "string option \<Rightarrow> bool" where
  "bad_date value \<longleftrightarrow> js_trim (coalesce value []) \<noteq> [] \<and> \<not> isCalendarDate (js_trim (coalesce value []))"

definition query_limit :: "json option \<Rightarrow> broker_error + int option" where
  "query_limit limit =
     (case js_nullish limit of
        None \<Rightarrow> Inr None
      | Some (JNumber x) \<Rightarrow>
          if is_integer x \<and> 0 < x then Inr (Some \<lfloor>x\<rfloor>) else Inl (QueryValidation ''limit must be a positive integer'')
      | Some _ \<Rightarrow> Inl (QueryValidation ''limit must be a positive integer''))"

definition broker_query_sort :: "json option \<Rightarrow> broker_error + string option" where
  "broker_query_sort srt =
     (case js_nullish srt of
        None \<Rightarrow> Inr None
      | Some (JString s) \<Rightarrow>
          if s \<in> set SORTS then Inr (Some s) else Inl (QueryValidation (''sort must be one of: '' @ js_join '', '' SORTS))
      | Some _ \<Rightarrow> Inl (QueryValidation (''sort must be one of: '' @ js_join '', '' SORTS)))"

definition parseSourceQuery :: "json \<Rightarrow> broker_error + broker_query" where
  "parseSourceQuery body =
     (case body of
        JObject raw \<Rightarrow>
          (let unknown = filter (\<lambda>key. key \<notin> set KNOWN_FIELDS) (map fst raw); str = string_field raw in
           if unknown \<noteq> [] then Inl (QueryValidation (''unknown query field(s): '' @ js_join '', '' unknown))
           else
             (case first_bad_string raw STRING_FIELDS of
                Some field \<Rightarrow> Inl (QueryValidation (field @ '' must be a string''))
              | None \<Rightarrow>
                  if bad_date (str ''after'') then Inl (QueryValidation ''after must be a date in YYYY-MM-DD form'')
                  else if bad_date (str ''before'') then Inl (QueryValidation ''before must be a date in YYYY-MM-DD form'')
                  else
                    (case broker_query_sort (map_of raw ''sort'') of
                       Inl e \<Rightarrow> Inl e
                     | Inr srt \<Rightarrow>
                         map_sum id (\<lambda>limit. \<lparr>bk_text = str ''text'', bk_title = str ''title'', bk_author = str ''author'',
                             bk_after = str ''after'', bk_before = str ''before'', bk_type = str ''type'',
                             bk_sort = srt, bk_limit = limit\<rparr>)
                           (query_limit (map_of raw ''limit'')))))
      | _ \<Rightarrow> Inl (QueryValidation ''query body must be a JSON object''))"


section \<open>What the orchestrator sends, the broker understands\<close>

lemma hex_value_digit: "n < 16 \<Longrightarrow> hex_value (hex_digit n) = Some n"
  by (auto simp: hex_value_def hex_digit_def Let_def)

lemma percent_value_byte: "b < 256 \<Longrightarrow> percent_value (percent_byte b @ rest) = Some b"
proof -
  assume "b < 256"
  then have "b div 16 < 16" "b mod 16 < 16" by linarith+
  then show ?thesis by (simp add: percent_value_def percent_byte_def hex_value_digit)
qed

lemma decode_plain: "c \<noteq> CHR ''%'' \<Longrightarrow> decodeURIComponent (c # s) = map_option (\<lambda>t. c # t) (decodeURIComponent s)"
  by (subst decodeURIComponent.simps) simp

lemma decode_encoded_char: "decodeURIComponent (encode_char c @ rest) = map_option (\<lambda>t. c # t) (decodeURIComponent rest)"
proof -
  let ?n = "(of_char c :: nat)"
  have n: "?n < 256" by (rule of_char_less_256)
  consider "uri_unreserved c" | "\<not> uri_unreserved c" "?n < 128" | "\<not> uri_unreserved c" "128 \<le> ?n" by linarith
  then show ?thesis
  proof cases
    case 1
    then have "c \<noteq> CHR ''%''"
      by (auto simp: uri_unreserved_def ascii_lower_letter_def ascii_upper_letter_def ascii_digit_def Let_def)
    then show ?thesis using 1 by (simp add: encode_char_def decode_plain)
  next
    case 2
    then show ?thesis
      using percent_value_byte[of ?n rest]
      by (subst decodeURIComponent.simps) (simp add: encode_char_def percent_byte_def Let_def)
  next
    case 3
    let ?a = "192 + ?n div 64" and ?b = "128 + ?n mod 64"
    have "?n div 64 = 2 \<or> ?n div 64 = 3" using 3 n by linarith
    then have ab: "?a < 256" "?b < 256" "?a \<in> {194, 195}" "?b < 192" by auto
    have undo: "64 * (?a - 192) + (?b - 128) = ?n" by simp
    have "percent_value (percent_byte ?a @ percent_byte ?b @ rest) = Some ?a" "percent_value (percent_byte ?b @ rest) = Some ?b"
      using percent_value_byte ab by blast+
    then show ?thesis
      using 3 ab undo
      by (subst decodeURIComponent.simps) (simp add: encode_char_def percent_byte_def Let_def)
  qed
qed

lemma decode_encode: "decodeURIComponent (encodeURIComponent s) = Some s"
proof (induction s)
  case Nil
  show ?case by (subst decodeURIComponent.simps) (simp add: encodeURIComponent_def)
next
  case (Cons c s)
  then show ?case by (simp add: encodeURIComponent_def decode_encoded_char)
qed


lemma js_split_component:
  "c \<notin> set a \<Longrightarrow> js_split c (a @ c # b) = a # js_split c b"
  by (induction a) auto

lemma js_split_plain: "c \<notin> set a \<Longrightarrow> js_split c a = [a]"
  by (induction a) auto

lemma encode_nonempty: "s \<noteq> [] \<Longrightarrow> encodeURIComponent s \<noteq> []"
  by (cases s) (auto simp: encodeURIComponent_def encode_char_def percent_byte_def Let_def)

lemma path_parts_corpus:
  assumes "name \<noteq> []"
  shows "path_parts (''/corpora/'' @ encodeURIComponent name @ ''/'' @ rest) =
    ''corpora'' # encodeURIComponent name # path_parts rest"
proof -
  have "js_split CHR ''/'' (encodeURIComponent name @ CHR ''/'' # rest) = encodeURIComponent name # js_split CHR ''/'' rest"
    by (rule js_split_component[OF encodeURIComponent_no_slash])
  then show ?thesis
    using js_split_component[of "CHR ''/''" "''corpora''" "encodeURIComponent name @ CHR ''/'' # rest"] encode_nonempty[OF assms]
    by (simp add: path_parts_def)
qed

lemma routes_of_paths:
  assumes "name \<noteq> []" "doc \<noteq> []"
  shows "parseRoute (''/corpora/'' @ encodeURIComponent name @ ''/probe'') =
      Inr (Some \<lparr>rt_name = name, rt_kind = KProbeRoute, rt_id = None\<rparr>) \<and>
    parseRoute (''/corpora/'' @ encodeURIComponent name @ ''/search'') =
      Inr (Some \<lparr>rt_name = name, rt_kind = KSearchRoute, rt_id = None\<rparr>) \<and>
    parseRoute (''/corpora/'' @ encodeURIComponent name @ ''/query'') =
      Inr (Some \<lparr>rt_name = name, rt_kind = KQueryRoute, rt_id = None\<rparr>) \<and>
    parseRoute (''/corpora/'' @ encodeURIComponent name @ ''/documents/'' @ encodeURIComponent doc) =
      Inr (Some \<lparr>rt_name = name, rt_kind = KDocuments, rt_id = Some doc\<rparr>)"
proof -
  have one: "path_parts what = [what]" if "CHR ''/'' \<notin> set what" "what \<noteq> []" for what
    using that by (simp add: path_parts_def js_split_plain)
  have docs: "path_parts (''documents/'' @ encodeURIComponent doc) = [''documents'', encodeURIComponent doc]"
    using js_split_component[of "CHR ''/''" "''documents''" "encodeURIComponent doc"] encode_nonempty[OF assms(2)]
      js_split_plain[OF encodeURIComponent_no_slash[of doc]]
    by (simp add: path_parts_def)
  show ?thesis
    using path_parts_corpus[OF assms(1), of "''probe''"] path_parts_corpus[OF assms(1), of "''search''"]
      path_parts_corpus[OF assms(1), of "''query''"] path_parts_corpus[OF assms(1), of "''documents/'' @ encodeURIComponent doc"]
      one[of "''probe''"] one[of "''search''"] one[of "''query''"] docs
    by (simp add: parseRoute_def decode_encode Let_def)
qed

text \<open>
  The paths the orchestrator's knowledge-base clients build reach the route they mean, with the
  corpus name and the document id as they were, whatever characters those hold: a probe, a search,
  a query and a document read of a corpus are parsed by the broker as exactly that.
\<close>

theorem broker_paths_round_trip:
  assumes "name \<noteq> []" "doc \<noteq> []"
  shows "parseRoute (''/corpora/'' @ encodeURIComponent name @ ''/probe'') =
      Inr (Some \<lparr>rt_name = name, rt_kind = KProbeRoute, rt_id = None\<rparr>) \<and>
    parseRoute (''/corpora/'' @ encodeURIComponent name @ ''/search'') =
      Inr (Some \<lparr>rt_name = name, rt_kind = KSearchRoute, rt_id = None\<rparr>) \<and>
    parseRoute (''/corpora/'' @ encodeURIComponent name @ ''/query'') =
      Inr (Some \<lparr>rt_name = name, rt_kind = KQueryRoute, rt_id = None\<rparr>) \<and>
    parseRoute (''/corpora/'' @ encodeURIComponent name @ ''/documents/'' @ encodeURIComponent doc) =
      Inr (Some \<lparr>rt_name = name, rt_kind = KDocuments, rt_id = Some doc\<rparr>)"
  by (rule routes_of_paths[OF assms])

theorem broker_paths_round_trip_witness:
  "parseRoute (''/corpora/'' @ encodeURIComponent ''a/b c'' @ ''/documents/'' @ encodeURIComponent ''C1/17.2'') =
     Inr (Some \<lparr>rt_name = ''a/b c'', rt_kind = KDocuments, rt_id = Some ''C1/17.2''\<rparr>)"
  using broker_paths_round_trip[of "''a/b c''" "''C1/17.2''"] by simp


section \<open>Queries across the boundary\<close>

text \<open>
  The body of a query: \<open>JSON.stringify\<close> of the filter leaves out what is undefined
  (\<open>queryThroughBroker\<close>).
\<close>

fun present :: "(string \<times> string option) list \<Rightarrow> (string \<times> json) list" where
  "present [] = []"
| "present ((k, None) # kvs) = present kvs"
| "present ((k, Some s) # kvs) = (k, JString s) # present kvs"

definition query_strings :: "SourceQuery \<Rightarrow> (string \<times> string option) list" where
  "query_strings q =
     [(''text'', sq_text q), (''title'', sq_title q), (''author'', sq_author q), (''after'', sq_after q),
      (''before'', sq_before q), (''type'', sq_type q)]"

definition query_raw :: "SourceQuery \<Rightarrow> (string \<times> json) list" where
  "query_raw q = present (query_strings q) @ [(''sort'', JString (sq_sort q)), (''limit'', JNumber (sq_limit q))]"

definition query_body :: "SourceQuery \<Rightarrow> json" where
  "query_body q =
     JObject (query_raw q)"

lemma map_of_present:
  "distinct (map fst kvs) \<Longrightarrow> map_of (present kvs) key = (case map_of kvs key of Some v \<Rightarrow> map_option JString v | None \<Rightarrow> None)"
proof (induction kvs rule: present.induct)
  case (2 k kvs)
  then have "map_of kvs k = None" by (simp add: map_of_eq_None_iff)
  then show ?case using 2 by auto
qed auto

lemma keys_present: "fst ` set (present kvs) \<subseteq> fst ` set kvs"
  by (induction kvs rule: present.induct) auto

lemma query_strings_keys: "map fst (query_strings q) = STRING_FIELDS"
  by (simp add: query_strings_def STRING_FIELDS_def)

lemma distinct_fields: "distinct STRING_FIELDS"
  by (simp add: STRING_FIELDS_def)

lemma query_raw_lookup:
  assumes "key \<in> set STRING_FIELDS"
  shows "map_of (present (query_strings q) @ rest) key =
    (case the (map_of (query_strings q) key) of Some s \<Rightarrow> Some (JString s) | None \<Rightarrow> map_of rest key)"
proof -
  obtain v where "map_of (query_strings q) key = Some v"
    using assms by (metis query_strings_keys map_of_eq_None_iff list.set_map option.exhaust)
  then show ?thesis
    using map_of_present[of "query_strings q" key] distinct_fields
    by (cases v) (simp_all add: query_strings_keys map_add_def)
qed

lemma query_raw_other:
  assumes "key \<notin> set STRING_FIELDS"
  shows "map_of (present (query_strings q) @ rest) key = map_of rest key"
proof -
  have "map_of (present (query_strings q)) key = None"
    using assms keys_present[of "query_strings q"] by (metis map_of_eq_None_iff query_strings_keys list.set_map subsetD)
  then show ?thesis by (simp add: map_add_def)
qed

lemma query_raw_field:
  assumes "key \<in> set STRING_FIELDS"
  shows "string_field (query_raw q) key = the (map_of (query_strings q) key)" "first_bad_string (query_raw q) [key] = None"
proof -
  have "key \<noteq> ''sort''" "key \<noteq> ''limit''" using assms by (auto simp: STRING_FIELDS_def)
  then show "string_field (query_raw q) key = the (map_of (query_strings q) key)" "first_bad_string (query_raw q) [key] = None"
    using query_raw_lookup[OF assms, of q "[(''sort'', JString (sq_sort q)), (''limit'', JNumber (sq_limit q))]"]
    by (simp_all add: string_field_def query_raw_def split: option.splits)
qed

lemma first_bad_string_each: "(\<And>f. f \<in> set fs \<Longrightarrow> first_bad_string raw [f] = None) \<Longrightarrow> first_bad_string raw fs = None"
proof (induction fs)
  case (Cons f fs)
  have "first_bad_string raw [f] = None" "first_bad_string raw fs = None" using Cons by simp_all
  then show ?case by (simp split: option.splits json.splits)
qed simp

lemma query_raw_strings: "first_bad_string (query_raw q) STRING_FIELDS = None"
  by (rule first_bad_string_each) (rule query_raw_field(2))

lemma query_raw_known: "filter (\<lambda>key. key \<notin> set KNOWN_FIELDS) (map fst (query_raw q)) = []"
proof -
  have "fst ` set (present (query_strings q)) \<subseteq> set STRING_FIELDS"
    using keys_present[of "query_strings q"] by (metis query_strings_keys list.set_map)
  then show ?thesis by (auto simp: query_raw_def KNOWN_FIELDS_def filter_empty_conv)
qed

lemma query_raw_sort: "broker_query_sort (map_of (query_raw q) ''sort'') =
    (if sq_sort q \<in> set SORTS then Inr (Some (sq_sort q)) else Inl (QueryValidation (''sort must be one of: '' @ js_join '', '' SORTS)))"
proof -
  have "''sort'' \<notin> set STRING_FIELDS" by (simp add: STRING_FIELDS_def)
  from query_raw_other[OF this] have "map_of (query_raw q) ''sort'' = Some (JString (sq_sort q))"
    by (simp add: query_raw_def del: map_of_append)
  then show ?thesis by (simp add: broker_query_sort_def)
qed

lemma query_raw_limit: "query_limit (map_of (query_raw q) ''limit'') =
    (if is_integer (sq_limit q) \<and> 0 < sq_limit q then Inr (Some \<lfloor>sq_limit q\<rfloor>)
     else Inl (QueryValidation ''limit must be a positive integer''))"
proof -
  have "''limit'' \<notin> set STRING_FIELDS" by (simp add: STRING_FIELDS_def)
  from query_raw_other[OF this] have "map_of (query_raw q) ''limit'' = Some (JNumber (sq_limit q))"
    by (simp add: query_raw_def del: map_of_append)
  then show ?thesis by (simp add: query_limit_def)
qed

text \<open>A date has nothing to trim.\<close>

lemma isDate_trim: "isDate s \<Longrightarrow> js_trim s = s"
proof -
  assume "isDate s"
  then have "length s = 10" "list_all ascii_digit (take 4 s @ take 2 (drop 5 s) @ take 2 (drop 8 s))"
    unfolding isDate_def Let_def by blast+
  moreover from this(1) obtain a b c d e f g h i j where "s = [a, b, c, d, e, f, g, h, i, j]"
    by (auto simp: length_Suc_conv numeral_eq_Suc)
  ultimately have ends: "ascii_digit (hd s)" "ascii_digit (last s)" "s \<noteq> []" by simp_all
  have "\<not> js_ws c" if "ascii_digit c" for c
    using that by (auto simp: js_ws_def ascii_digit_def Let_def)
  with ends have "dropWhile js_ws s = s" "dropWhile js_ws (rev s) = rev s"
    by (simp_all add: dropWhile_eq_self_iff hd_rev)
  then show "js_trim s = s" by (simp add: js_trim_def)
qed

lemma good_date:
  assumes "\<not> truthy_str d \<or> isDate (the d)" and "\<not> truthy_str d \<or> 100 \<le> cite_number (take 4 (the d))"
  shows "\<not> bad_date d"
proof (cases "truthy_str d")
  case True
  then obtain s where "d = Some s" by (cases d) auto
  then show ?thesis using assms True by (auto simp: bad_date_def isCalendarDate_def isDate_trim)
next
  case False
  then show ?thesis by (cases d) (auto simp: bad_date_def js_trim_def)
qed

definition forwarded_query :: "SourceQuery \<Rightarrow> broker_query" where
  "forwarded_query q =
     \<lparr>bk_text = sq_text q, bk_title = sq_title q, bk_author = sq_author q, bk_after = sq_after q, bk_before = sq_before q,
      bk_type = sq_type q, bk_sort = Some (sq_sort q), bk_limit = Some \<lfloor>sq_limit q\<rfloor>\<rparr>"

lemma parse_query_body:
  fixes q :: SourceQuery
  assumes "sq_sort q \<in> set SORTS" "is_integer (sq_limit q)" "0 < sq_limit q" "\<not> bad_date (sq_after q)" "\<not> bad_date (sq_before q)"
  shows "parseSourceQuery (query_body q) = Inr (forwarded_query q)"
proof -
  have "string_field (query_raw q) ''text'' = sq_text q" "string_field (query_raw q) ''title'' = sq_title q"
    "string_field (query_raw q) ''author'' = sq_author q" "string_field (query_raw q) ''after'' = sq_after q"
    "string_field (query_raw q) ''before'' = sq_before q" "string_field (query_raw q) ''type'' = sq_type q"
    using query_raw_field(1)[of _ q] by (simp_all add: STRING_FIELDS_def query_strings_def)
  then show ?thesis
    using assms query_raw_strings[of q] query_raw_known[of q] query_raw_sort[of q] query_raw_limit[of q]
    by (simp add: parseSourceQuery_def query_body_def forwarded_query_def Let_def)
qed

text \<open>
  C37. The two validators of a structured query agree: a query the orchestrator's planner parser
  accepts, with an integral limit and dates from the year 100 on, is accepted by the broker when it
  arrives there as the request body, and arrives with every filter, the sort and the limit it had.
\<close>

theorem planner_queries_are_accepted:
  assumes "parsePlannerQuery parse raw = Inr q" and "is_integer (sq_limit q)"
    and "list_all (\<lambda>d. \<not> truthy_str d \<or> 100 \<le> cite_number (take 4 (the d))) [sq_after q, sq_before q]"
  shows "parseSourceQuery (query_body (SourceQuery.truncate q)) = Inr (forwarded_query (SourceQuery.truncate q))"
proof -
  obtain r where "check_query r = Inr q"
    using assms(1) by (auto simp: parsePlannerQuery_def Let_def split: if_splits sum.splits json.splits option.splits)
  from check_query_ok[OF this] show ?thesis
    using assms(2, 3) good_date
    by (intro parse_query_body) (auto simp: SourceQuery.truncate_def SORTS_def)
qed

definition planner_json_ex :: json where
  "planner_json_ex = JObject [(''author'', JString ''Ana''), (''after'', JString ''2026-01-05''), (''limit'', JNumber 40)]"

theorem planner_queries_are_accepted_witness:
  "parseSourceQuery (query_body \<lparr>sq_text = None, sq_title = None, sq_author = Some ''Ana'', sq_after = Some ''2026-01-05'',
      sq_before = None, sq_type = None, sq_sort = ''newest'', sq_limit = 25\<rparr>) =
    Inr \<lparr>bk_text = None, bk_title = None, bk_author = Some ''Ana'', bk_after = Some ''2026-01-05'', bk_before = None,
      bk_type = None, bk_sort = Some ''newest'', bk_limit = Some 25\<rparr>"
proof -
  let ?q = "\<lparr>sq_text = None, sq_title = None, sq_author = Some ''Ana'', sq_after = Some ''2026-01-05'',
      sq_before = None, sq_type = None, sq_sort = ''newest'', sq_limit = 25, pl_source = None\<rparr> :: PlannerQuery"
  have "parsePlannerQuery (\<lambda>_. Inr planner_json_ex) ''{...}'' = Inr ?q" by code_simp
  moreover have "100 \<le> cite_number ''2026''" by code_simp
  ultimately have "parseSourceQuery (query_body (SourceQuery.truncate ?q)) = Inr (forwarded_query (SourceQuery.truncate ?q))"
    by (intro planner_queries_are_accepted[of "\<lambda>_. Inr planner_json_ex" "''{...}''"]) (simp_all add: is_integer_def)
  then show ?thesis by (simp add: SourceQuery.truncate_def forwarded_query_def)
qed


section \<open>Defaults of a query\<close>

record ResolvedQuery =
  rv_text :: "string option"
  rv_title :: "string option"
  rv_author :: "string option"
  rv_after :: "string option"
  rv_before :: "string option"
  rv_type :: "string option"
  rv_sort :: string
  rv_limit :: int

definition option_list :: "'a option \<Rightarrow> 'a list" where
  "option_list v = (case v of None \<Rightarrow> [] | Some x \<Rightarrow> [x])"

definition clean :: "string option \<Rightarrow> string option" where
  "clean value =
     (case value of None \<Rightarrow> None | Some s \<Rightarrow> if js_trim s \<noteq> [] then Some (js_trim s) else None)"

definition resolveQuery :: "broker_query \<Rightarrow> broker_error + ResolvedQuery" where
  "resolveQuery query =
     (let after = clean (bk_after query); before = clean (bk_before query); txt = clean (bk_text query);
          bad = (\<lambda>value. case value of Some v \<Rightarrow> \<not> isCalendarDate v | None \<Rightarrow> False);
          refuse = (\<lambda>field value. Inl (QueryValidation (field @ '' must be a date in YYYY-MM-DD form, got '' @ js_stringify (the value))));
          requested = coalesce (bk_sort query) (if truthy_str txt then ''relevance'' else ''newest'') in
      if bad after then refuse ''after'' after
      else if bad before then refuse ''before'' before
      else Inr \<lparr>rv_text = txt, rv_title = clean (bk_title query), rv_author = clean (bk_author query),
        rv_after = after, rv_before = before, rv_type = map_option js_toLowerCase (clean (bk_type query)),
        rv_sort = (if requested = ''relevance'' \<and> \<not> truthy_str txt then ''newest'' else requested),
        rv_limit = (case bk_limit query of
                      Some limit \<Rightarrow> if 1 \<le> limit then min limit 25 else 10
                    | None \<Rightarrow> 10)\<rparr>)"

definition route_limit :: "broker_query \<Rightarrow> broker_query" where
  "route_limit query = query\<lparr>bk_limit := Some (min (coalesce (bk_limit query) 10) 25)\<rparr>"

lemma map_sum_Inr: "map_sum id f r = Inr y \<Longrightarrow> \<exists>x. r = Inr x \<and> y = f x"
  by (cases r) auto

lemma parsed_query:
  assumes "parseSourceQuery body = Inr query"
  shows "\<not> bad_date (bk_after query)" "\<not> bad_date (bk_before query)"
    and "list_all (\<lambda>srt. srt \<in> set SORTS) (option_list (bk_sort query))"
    and "list_all (\<lambda>limit. 0 < limit) (option_list (bk_limit query))"
proof -
  obtain raw srt limit where srt: "broker_query_sort (map_of raw ''sort'') = Inr srt"
    and limit: "query_limit (map_of raw ''limit'') = Inr limit"
    and dates: "\<not> bad_date (string_field raw ''after'')" "\<not> bad_date (string_field raw ''before'')"
    and query: "bk_after query = string_field raw ''after''" "bk_before query = string_field raw ''before''"
      "bk_sort query = srt" "bk_limit query = limit"
    using assms by (auto simp: parseSourceQuery_def Let_def split: json.splits if_splits option.splits sum.splits dest!: map_sum_Inr)
  show "\<not> bad_date (bk_after query)" "\<not> bad_date (bk_before query)" using dates query by simp_all
  show "list_all (\<lambda>srt. srt \<in> set SORTS) (option_list (bk_sort query))"
    using srt query by (auto simp: broker_query_sort_def option_list_def split: option.splits json.splits if_splits)
  show "list_all (\<lambda>limit. 0 < limit) (option_list (bk_limit query))"
    using limit query by (auto simp: query_limit_def option_list_def is_integer_def split: option.splits json.splits if_splits)
qed

lemma clean_good:
  assumes "\<not> bad_date d"
  shows "(case clean d of Some v \<Rightarrow> isCalendarDate v | None \<Rightarrow> True)"
  using assms by (cases d) (auto simp: clean_def bad_date_def)

lemma accepted_query_bounds:
  assumes "parseSourceQuery body = Inr query"
  shows "case resolveQuery (route_limit query) of
      Inl _ \<Rightarrow> False
    | Inr r \<Rightarrow> 1 \<le> rv_limit r \<and> rv_limit r \<le> 25 \<and> rv_sort r \<in> {''relevance'', ''newest'', ''oldest''} \<and>
        (rv_sort r \<noteq> ''relevance'' \<or> truthy_str (rv_text r)) \<and>
        list_all isCalendarDate (option_list (rv_after r) @ option_list (rv_before r))"
proof -
  note p = parsed_query[OF assms]
  have "(case clean (bk_after query) of Some v \<Rightarrow> isCalendarDate v | None \<Rightarrow> True)"
    "(case clean (bk_before query) of Some v \<Rightarrow> isCalendarDate v | None \<Rightarrow> True)"
    using p(1, 2) by (simp_all add: clean_good)
  then show ?thesis
    using p(3, 4)
    by (auto simp: resolveQuery_def route_limit_def option_list_def SORTS_def Let_def coalesce_def split: option.splits)
qed

lemma accepted_query_resolves: "parseSourceQuery body = Inr query \<Longrightarrow> is_ok (resolveQuery (route_limit query))"
  using accepted_query_bounds[of body query] by (auto simp: is_ok_def split: sum.splits)

text \<open>
  What the route's validation lets through, a driver's own check never refuses, and the query a
  driver acts on is bounded: one to twenty-five items, in one of the three orders, by relevance only
  when there are words to be relevant to, and with calendar dates only.
\<close>

theorem accepted_queries_resolve:
  assumes "parseSourceQuery body = Inr query"
  shows "case resolveQuery (route_limit query) of
      Inl _ \<Rightarrow> False
    | Inr r \<Rightarrow> 1 \<le> rv_limit r \<and> rv_limit r \<le> 25 \<and> rv_sort r \<in> {''relevance'', ''newest'', ''oldest''} \<and>
        (rv_sort r \<noteq> ''relevance'' \<or> truthy_str (rv_text r)) \<and>
        list_all isCalendarDate (option_list (rv_after r) @ option_list (rv_before r))"
  by (rule accepted_query_bounds[OF assms])

definition broker_json_ex :: json where
  "broker_json_ex = JObject [(''text'', JString ''  ''), (''sort'', JString ''relevance''), (''limit'', JNumber 400)]"

theorem accepted_queries_resolve_witness:
  "case parseSourceQuery broker_json_ex of
     Inl _ \<Rightarrow> False
   | Inr query \<Rightarrow>
       (case resolveQuery (route_limit query) of
          Inl _ \<Rightarrow> False
        | Inr r \<Rightarrow> rv_limit r \<le> 25 \<and> rv_sort r = ''newest'')"
proof -
  let ?query = "\<lparr>bk_text = Some ''  '', bk_title = None, bk_author = None, bk_after = None, bk_before = None,
    bk_type = None, bk_sort = Some ''relevance'', bk_limit = Some 400\<rparr>"
  have parsed: "parseSourceQuery broker_json_ex = Inr ?query" by code_simp
  have "case resolveQuery (route_limit ?query) of Inl _ \<Rightarrow> False | Inr r \<Rightarrow> rv_sort r = ''newest''" by code_simp
  then show ?thesis using accepted_queries_resolve[OF parsed] parsed by (simp split: sum.splits)
qed

end
