(* ===== verification/Broker_Server.thy ===== *)
theory Broker_Server
  imports Broker_Access
begin

text \<open>
  The HTTP surface of the connection-broker (\<open>apps/connection-broker/src/server.ts\<close>): every
  route of \<open>handle\<close>, the webhook route, and the answer of the whole server.

  A driver (\<open>drivers/types.ts\<close>) is a record of its methods; the optional ones are options. Each
  method is a strategy over the log of the calls so far, and the event of a call records which corpus
  it was made for, the arguments, the credentials among them, and the answer. What the URL parser
  made of the request line, \<open>JSON.parse\<close>, \<open>Number\<close> of a string and the UTF-8 decoder are
  parameters.
\<close>

section \<open>Drivers and bindings\<close>

record Scope =
  sc_space :: "string option"
  sc_channel :: "string option"
  sc_folderID :: "string option"

record Credentials =
  cr_service :: "string option"
  cr_delegated :: "string option"

record ResourceRef =
  rf_id :: string
  rf_title :: string
  rf_url :: string
  rf_version :: "string option"
  rf_updatedAt :: "string option"
  rf_acl :: "(string list \<times> bool option) option"

record Document = ResourceRef +
  dm_markdown :: string

record SearchHit = ResourceRef +
  sh_excerpt :: "string option"

record ListPage =
  lp_resources :: "ResourceRef list"
  lp_cursor :: "string option"

record QueryResult =
  qs_hits :: "SearchHit list"
  qs_unsupported :: "string list option"

record WebhookEvent =
  we_scopeKey :: "string option"
  we_sourceIds :: "string list"

record SyncReport =
  sy_indexed :: int
  sy_removed :: int
  sy_full :: bool

datatype request_header = HOne string | HMany "string list"

record WebhookRequest =
  wr_headers :: "(string \<times> request_header) list"
  wr_rawBody :: string

datatype driver_call =
    DList Scope Credentials "string option" "broker_error + ListPage"
  | DFetch Scope Credentials string "broker_error + Document"
  | DProbe Scope Credentials "string option" "broker_error + ProbeResult"
  | DRead Credentials string "broker_error + Document"
  | DSearch Credentials Scope string rat "broker_error + SearchHit list"
  | DQuery Credentials Scope broker_query "broker_error + QueryResult"

datatype broker_event =
    BDriver string driver_call
  | BSync string "broker_error + SyncReport option"
  | BChange string "string list"

type_synonym 'a broker_eff = "(broker_event, broker_error, 'a) eff"

record Driver =
  dr_provider :: string
  dr_list :: "broker_event list \<Rightarrow> Scope \<Rightarrow> Credentials \<Rightarrow> string option \<Rightarrow> broker_error + ListPage"
  dr_fetch :: "broker_event list \<Rightarrow> Scope \<Rightarrow> Credentials \<Rightarrow> string \<Rightarrow> broker_error + Document"
  dr_probe :: "broker_event list \<Rightarrow> Scope \<Rightarrow> Credentials \<Rightarrow> string option \<Rightarrow> broker_error + ProbeResult"
  dr_parseWebhook :: "(WebhookRequest \<Rightarrow> string \<Rightarrow> broker_error + WebhookEvent option) option"
  dr_readAsUser :: "(broker_event list \<Rightarrow> Credentials \<Rightarrow> string \<Rightarrow> broker_error + Document) option"
  dr_searchAsUser :: "(broker_event list \<Rightarrow> Credentials \<Rightarrow> Scope \<Rightarrow> string \<Rightarrow> rat \<Rightarrow> broker_error + SearchHit list) option"
  dr_queryAsUser :: "(broker_event list \<Rightarrow> Credentials \<Rightarrow> Scope \<Rightarrow> broker_query \<Rightarrow> broker_error + QueryResult) option"

record CorpusBinding =
  cb_name :: string
  cb_connection :: string
  cb_driver :: Driver
  cb_scope :: Scope
  cb_allowedRoles :: "string list"
  cb_serviceToken :: string

text \<open>A registry: the bindings in the order of the map, at most one under a name.\<close>

type_synonym CorpusRegistry = "CorpusBinding list"

definition registry_get :: "CorpusRegistry \<Rightarrow> string \<Rightarrow> CorpusBinding option" where
  "registry_get bindings name = find (\<lambda>b. cb_name b = name) bindings"

fun static_put :: "CorpusBinding \<Rightarrow> CorpusRegistry \<Rightarrow> CorpusRegistry" where
  "static_put binding [] = [binding]"
| "static_put binding (b # bs) = (if cb_name b = cb_name binding then binding # bs else b # static_put binding bs)"

text \<open>\<open>validateScope\<close> is the driver's; the constructor throws what it throws.\<close>

fun first_failure :: "('a \<Rightarrow> 'e option) \<Rightarrow> 'a list \<Rightarrow> 'e option" where
  "first_failure f [] = None"
| "first_failure f (x # xs) = (case f x of Some e \<Rightarrow> Some e | None \<Rightarrow> first_failure f xs)"

definition StaticCorpusRegistry ::
    "(Driver \<Rightarrow> Scope \<Rightarrow> broker_error option) \<Rightarrow> CorpusBinding list \<Rightarrow> broker_error + CorpusRegistry" where
  "StaticCorpusRegistry validateScope bindings =
     (case first_failure (\<lambda>b. validateScope (cb_driver b) (cb_scope b)) bindings of
        Some e \<Rightarrow> Inl e
      | None \<Rightarrow> Inr (fold static_put bindings []))"


section \<open>Requests and responses\<close>

record parsed_url =
  pu_pathname :: string
  pu_searchParams :: "(string \<times> string) list"

record http_request =
  hr_method :: string
  hr_url :: "broker_error + parsed_url"
  hr_headers :: "(string \<times> request_header) list"
  hr_chunks :: "nat list list"

datatype broker_body =
    BError string | BHealthy | BDocument Document | BHits "SearchHit list" | BQueryResult QueryResult
  | BReport SyncReport | BProbe ProbeResult | BPage ListPage | BIgnored | BActed nat nat

type_synonym http_answer = "int \<times> broker_body"

record broker_env =
  be_parse :: json_parser
  be_number :: "string \<Rightarrow> js_double"
  be_utf8 :: "nat list \<Rightarrow> string"

record webhook_options =
  wh_secretFor :: "string \<Rightarrow> string option"

record ServerOptions =
  so_auth :: AuthConfig
  so_registry :: CorpusRegistry
  so_runSync :: "(broker_event list \<Rightarrow> string \<Rightarrow> broker_error + SyncReport option) option"
  so_webhooks :: "webhook_options option"

definition DELEGATED_TOKEN_HEADER :: string where "DELEGATED_TOKEN_HEADER = ''x-delegated-token''"

definition broker_header :: "http_request \<Rightarrow> string \<Rightarrow> string option" where
  "broker_header req name =
     (case map_of (hr_headers req) name of
        None \<Rightarrow> None
      | Some (HOne value) \<Rightarrow> Some value
      | Some (HMany values) \<Rightarrow> (case values of [] \<Rightarrow> None | value # _ \<Rightarrow> Some value))"

text \<open>The chunks of a body up to a bound, which is checked as each arrives.\<close>

fun read_chunks :: "nat \<Rightarrow> string \<Rightarrow> nat \<Rightarrow> nat list list \<Rightarrow> broker_error + nat list" where
  "read_chunks bound complaint seen [] = Inr []"
| "read_chunks bound complaint seen (chunk # chunks) =
     (if bound < seen + length chunk then Inl (OtherFailure complaint)
      else map_sum id (\<lambda>rest. chunk @ rest) (read_chunks bound complaint (seen + length chunk) chunks))"

definition readBodyText :: "broker_env \<Rightarrow> http_request \<Rightarrow> broker_error + string" where
  "readBodyText env req = map_sum id (be_utf8 env) (read_chunks 65536 ''request body too large'' 0 (hr_chunks req))"

definition readRawBody :: "broker_env \<Rightarrow> http_request \<Rightarrow> broker_error + string" where
  "readRawBody env req = map_sum id (be_utf8 env) (read_chunks 262144 ''webhook body too large'' 0 (hr_chunks req))"

text \<open>
  \<open>readJson\<close>: an array is an object too, and has no member of the names that are read; anything
  that is not an object, and anything that does not parse, counts as empty.
\<close>

definition readJson :: "broker_env \<Rightarrow> http_request \<Rightarrow> broker_error + (string \<times> json) list" where
  "readJson env req =
     map_sum id (\<lambda>s. if s = [] then [] else (case be_parse env s of Inr (JObject ms) \<Rightarrow> ms | _ \<Rightarrow> []))
       (readBodyText env req)"


section \<open>Webhooks\<close>

definition coversScope :: "Scope \<Rightarrow> string option \<Rightarrow> bool" where
  "coversScope scope scopeKey \<longleftrightarrow>
     \<not> truthy_str scopeKey \<or> sc_space scope = scopeKey \<or> sc_channel scope = scopeKey \<or> sc_folderID scope = scopeKey"

fun notify_each :: "string list \<Rightarrow> CorpusBinding list \<Rightarrow> unit broker_eff" where
  "notify_each sourceIds [] = return_e ()"
| "notify_each sourceIds (target # targets) =
     bind_e (emit_e (BChange (cb_name target) sourceIds)) (\<lambda>_. notify_each sourceIds targets)"

definition not_found :: "http_answer broker_eff" where
  "not_found = return_e (404, BError ''not found'')"

definition handleWebhook :: "broker_env \<Rightarrow> ServerOptions \<Rightarrow> string \<Rightarrow> http_request \<Rightarrow> http_answer broker_eff" where
  "handleWebhook env options connection req =
     (let candidates = filter (\<lambda>b. cb_connection b = connection) (so_registry options) in
      case (so_webhooks options, candidates) of
        (Some webhooks, first # _) \<Rightarrow>
          (let secret = wh_secretFor webhooks connection in
           if \<not> truthy_str secret then not_found
           else
             (case dr_parseWebhook (cb_driver first) of
                None \<Rightarrow> not_found
              | Some parseWebhook \<Rightarrow>
                  bind_e (lift_e (readRawBody env req)) (\<lambda>rawBody.
                    case parseWebhook \<lparr>wr_headers = hr_headers req, wr_rawBody = rawBody\<rparr> (the secret) of
                      Inl (PermissionDenied _) \<Rightarrow> return_e (401, BError ''signature verification failed'')
                    | Inl e \<Rightarrow> throw_e e
                    | Inr None \<Rightarrow> return_e (200, BIgnored)
                    | Inr (Some event) \<Rightarrow>
                        (let targets = filter (\<lambda>b. coversScope (cb_scope b) (we_scopeKey event)) candidates in
                         if targets = [] then return_e (200, BIgnored)
                         else bind_e (notify_each (we_sourceIds event) targets) (\<lambda>_.
                           return_e (202, BActed (length targets) (length (we_sourceIds event))))))))
      | _ \<Rightarrow> not_found)"


section \<open>Data routes\<close>

definition route_operation :: "Route \<Rightarrow> broker_operation" where
  "route_operation route =
     (if rt_kind route = KProbeRoute then OpProbe
      else if rt_kind route \<in> {KDocuments, KSearchRoute, KQueryRoute} \<or> truthy_str (rt_id route) then OpFetchOne
      else OpList)"

definition user_read :: "route_kind \<Rightarrow> bool" where
  "user_read kind \<longleftrightarrow> kind \<in> {KDocuments, KSearchRoute, KQueryRoute}"

definition route_text :: "route_kind \<Rightarrow> string" where
  "route_text kind =
     (case kind of
        KResources \<Rightarrow> ''resources'' | KDocuments \<Rightarrow> ''documents'' | KSearchRoute \<Rightarrow> ''search'' | KQueryRoute \<Rightarrow> ''query''
      | KProbeRoute \<Rightarrow> ''probe'' | KSyncRoute \<Rightarrow> ''sync'' | KWebhook \<Rightarrow> ''webhook'')"

definition search_limit :: "js_double \<Rightarrow> rat" where
  "search_limit limit = (case limit of Fin x \<Rightarrow> if 0 < x then min x 25 else 10 | _ \<Rightarrow> 10)"

definition serve_search ::
    "broker_env \<Rightarrow> CorpusBinding \<Rightarrow> Credentials \<Rightarrow> parsed_url \<Rightarrow> http_answer broker_eff" where
  "serve_search env binding credentials url =
     (case dr_searchAsUser (cb_driver binding) of
        None \<Rightarrow> return_e (404, BError (dr_provider (cb_driver binding) @ '' has no live search''))
      | Some searchAsUser \<Rightarrow>
          (let query = coalesce (map_of (pu_searchParams url) ''q'') [];
               limit = search_limit (be_number env (coalesce (map_of (pu_searchParams url) ''limit'') ''10'')) in
           bind_e (call_e (\<lambda>log. searchAsUser log credentials (cb_scope binding) query limit)
               (\<lambda>r. BDriver (cb_name binding) (DSearch credentials (cb_scope binding) query limit r)))
             (\<lambda>hits. return_e (200, BHits hits))))"

definition serve_query ::
    "broker_env \<Rightarrow> CorpusBinding \<Rightarrow> Credentials \<Rightarrow> http_request \<Rightarrow> http_answer broker_eff" where
  "serve_query env binding credentials req =
     (case dr_queryAsUser (cb_driver binding) of
        None \<Rightarrow> return_e (404, BError (dr_provider (cb_driver binding) @ '' has no structured query''))
      | Some queryAsUser \<Rightarrow>
          bind_e (lift_e (readBodyText env req)) (\<lambda>s.
            case (if js_trim s \<noteq> [] then be_parse env s else Inr (JObject [])) of
              Inl _ \<Rightarrow> return_e (400, BError ''query body is not valid JSON'')
            | Inr raw \<Rightarrow>
                (case parseSourceQuery raw of
                   Inl (QueryValidation m) \<Rightarrow> return_e (400, BError m)
                 | Inl e \<Rightarrow> throw_e e
                 | Inr query \<Rightarrow>
                     bind_e (call_e (\<lambda>log. queryAsUser log credentials (cb_scope binding) (route_limit query))
                         (\<lambda>r. BDriver (cb_name binding) (DQuery credentials (cb_scope binding) (route_limit query) r)))
                       (\<lambda>result. return_e (200, BQueryResult result)))))"

definition serve_documents :: "CorpusBinding \<Rightarrow> Credentials \<Rightarrow> string \<Rightarrow> http_answer broker_eff" where
  "serve_documents binding credentials docId =
     (case dr_readAsUser (cb_driver binding) of
        None \<Rightarrow> return_e (404, BError (dr_provider (cb_driver binding) @ '' has no user read''))
      | Some readAsUser \<Rightarrow>
          bind_e (call_e (\<lambda>log. readAsUser log credentials docId) (\<lambda>r. BDriver (cb_name binding) (DRead credentials docId r)))
            (\<lambda>document. return_e (200, BDocument document)))"

definition serve_sync :: "ServerOptions \<Rightarrow> string \<Rightarrow> http_answer broker_eff" where
  "serve_sync options name =
     (case so_runSync options of
        None \<Rightarrow> return_e (404, BError ''this broker does not index'')
      | Some runSync \<Rightarrow>
          bind_e (call_e (\<lambda>log. runSync log name) (BSync name)) (\<lambda>report.
            case report of
              None \<Rightarrow> return_e (409, BError ''a pass is already running'')
            | Some r \<Rightarrow> return_e (200, BReport r)))"

definition serve_probe :: "broker_env \<Rightarrow> CorpusBinding \<Rightarrow> Credentials \<Rightarrow> http_request \<Rightarrow> http_answer broker_eff" where
  "serve_probe env binding credentials req =
     bind_e (lift_e (readJson env req)) (\<lambda>body.
       (let sourceId = string_field body ''sourceId'' in
        bind_e (call_e (\<lambda>log. dr_probe (cb_driver binding) log (cb_scope binding) credentials sourceId)
            (\<lambda>r. BDriver (cb_name binding) (DProbe (cb_scope binding) credentials sourceId r)))
          (\<lambda>result. return_e (200, BProbe result))))"

definition serve_resources ::
    "CorpusBinding \<Rightarrow> Credentials \<Rightarrow> string option \<Rightarrow> string option \<Rightarrow> http_answer broker_eff" where
  "serve_resources binding credentials resource cursor =
     (let driver = cb_driver binding; scope = cb_scope binding in
      if truthy_str resource
      then bind_e (call_e (\<lambda>log. dr_fetch driver log scope credentials (the resource))
               (\<lambda>r. BDriver (cb_name binding) (DFetch scope credentials (the resource) r)))
             (\<lambda>document. return_e (200, BDocument document))
      else bind_e (call_e (\<lambda>log. dr_list driver log scope credentials cursor)
               (\<lambda>r. BDriver (cb_name binding) (DList scope credentials cursor r)))
             (\<lambda>page. return_e (200, BPage page)))"

definition serve_route ::
    "broker_env \<Rightarrow> ServerOptions \<Rightarrow> http_request \<Rightarrow> parsed_url \<Rightarrow> Route \<Rightarrow> CorpusBinding \<Rightarrow> Credentials \<Rightarrow>
       http_answer broker_eff" where
  "serve_route env options req url route binding credentials =
     (case rt_kind route of
        KDocuments \<Rightarrow> serve_documents binding credentials (the (rt_id route))
      | KSearchRoute \<Rightarrow> serve_search env binding credentials url
      | KQueryRoute \<Rightarrow> serve_query env binding credentials req
      | KSyncRoute \<Rightarrow> serve_sync options (rt_name route)
      | KProbeRoute \<Rightarrow> serve_probe env binding credentials req
      | _ \<Rightarrow> serve_resources binding credentials (rt_id route) (map_of (pu_searchParams url) ''cursor''))"

definition failure_response :: "broker_error \<Rightarrow> http_answer broker_eff" where
  "failure_response e =
     (case e of
        PermissionDenied m \<Rightarrow> return_e (403, BError m)
      | Transient m \<Rightarrow> return_e (503, BError m)
      | Permanent m \<Rightarrow> return_e (500, BError m)
      | QueryValidation m \<Rightarrow> return_e (400, BError m)
      | _ \<Rightarrow> throw_e e)"

definition grant :: "ServerOptions \<Rightarrow> http_request \<Rightarrow> Route \<Rightarrow> broker_error + credential_kind" where
  "grant options req route =
     (case authenticate (so_auth options) (broker_header req ''authorization'') of
        Inl e \<Rightarrow> Inl e
      | Inr caller \<Rightarrow>
          broker_authorize caller (route_operation route) (rt_name route) (broker_header req DELEGATED_TOKEN_HEADER))"

definition handle :: "broker_env \<Rightarrow> ServerOptions \<Rightarrow> http_request \<Rightarrow> http_answer broker_eff" where
  "handle env options req =
     bind_e (lift_e (hr_url req)) (\<lambda>url.
       if pu_pathname url = ''/healthz'' then return_e (200, BHealthy)
       else bind_e (lift_e (parseRoute (pu_pathname url))) (\<lambda>found.
         case found of
           None \<Rightarrow> not_found
         | Some route \<Rightarrow>
             if rt_kind route = KQueryRoute \<and> hr_method req \<noteq> ''POST'' then return_e (405, BError ''query is POST only'')
             else if rt_kind route = KWebhook then handleWebhook env options (rt_name route) req
             else
               (case grant options req route of
                  Inl (Unauthorized m) \<Rightarrow> return_e (401, BError m)
                | Inl (Forbidden m) \<Rightarrow> return_e (403, BError m)
                | Inl e \<Rightarrow> throw_e e
                | Inr credential \<Rightarrow>
                    (case registry_get (so_registry options) (rt_name route) of
                       None \<Rightarrow> return_e (404, BError (''no such corpus: '' @ rt_name route))
                     | Some binding \<Rightarrow>
                         (let credentials =
                                (if credential = ServiceCredential
                                 then \<lparr>cr_service = Some (cb_serviceToken binding), cr_delegated = None\<rparr>
                                 else \<lparr>cr_service = None, cr_delegated = broker_header req DELEGATED_TOKEN_HEADER\<rparr>) in
                          if user_read (rt_kind route) \<and> credential \<noteq> DelegatedCred
                          then return_e (403, BError (route_text (rt_kind route) @ '' is a read on a user'' @ [CHR 0x27] @
                            ''s behalf and requires a delegated token''))
                          else bind_e (try_e (serve_route env options req url route binding credentials)) (\<lambda>r.
                            case r of Inl e \<Rightarrow> failure_response e | Inr response \<Rightarrow> return_e response))))))"

definition createBrokerServer ::
    "broker_env \<Rightarrow> ServerOptions \<Rightarrow> http_request \<Rightarrow> broker_event list \<Rightarrow> http_answer \<times> broker_event list" where
  "createBrokerServer env options req trail =
     (case handle env options req trail of
        (Inl _, trail') \<Rightarrow> ((500, BError ''internal error''), trail')
      | (Inr response, trail') \<Rightarrow> (response, trail'))"


section \<open>Which credential is spent\<close>

definition spends_service :: "ServerOptions \<Rightarrow> string \<Rightarrow> Scope \<Rightarrow> Credentials \<Rightarrow> bool" where
  "spends_service options corpus scope c \<longleftrightarrow>
     (case registry_get (so_registry options) corpus of
        None \<Rightarrow> False
      | Some b \<Rightarrow> scope = cb_scope b \<and> c = \<lparr>cr_service = Some (cb_serviceToken b), cr_delegated = None\<rparr>)"

definition spends_delegated :: "ServerOptions \<Rightarrow> http_request \<Rightarrow> string \<Rightarrow> Scope option \<Rightarrow> Credentials \<Rightarrow> bool" where
  "spends_delegated options req corpus scope c \<longleftrightarrow>
     authenticate (so_auth options) (broker_header req ''authorization'') = Inr Orchestrator \<and>
     truthy_str (broker_header req DELEGATED_TOKEN_HEADER) \<and>
     c = \<lparr>cr_service = None, cr_delegated = broker_header req DELEGATED_TOKEN_HEADER\<rparr> \<and>
     (case registry_get (so_registry options) corpus of
        None \<Rightarrow> False
      | Some b \<Rightarrow> scope = None \<or> scope = Some (cb_scope b))"

text \<open>A change notice for a corpus: the driver of its connection verified the delivery, which covers the corpus.\<close>

definition verified_change :: "broker_env \<Rightarrow> ServerOptions \<Rightarrow> http_request \<Rightarrow> string \<Rightarrow> string list \<Rightarrow> bool" where
  "verified_change env options req corpus sourceIds \<longleftrightarrow>
     (\<exists>target verifier webhooks secret parseWebhook rawBody event.
        target \<in> set (so_registry options) \<and> cb_name target = corpus \<and>
        verifier \<in> set (so_registry options) \<and> cb_connection verifier = cb_connection target \<and>
        so_webhooks options = Some webhooks \<and> wh_secretFor webhooks (cb_connection target) = Some secret \<and> secret \<noteq> [] \<and>
        dr_parseWebhook (cb_driver verifier) = Some parseWebhook \<and> readRawBody env req = Inr rawBody \<and>
        parseWebhook \<lparr>wr_headers = hr_headers req, wr_rawBody = rawBody\<rparr> secret = Inr (Some event) \<and>
        sourceIds = we_sourceIds event \<and> coversScope (cb_scope target) (we_scopeKey event))"

definition spends_fairly :: "broker_env \<Rightarrow> ServerOptions \<Rightarrow> http_request \<Rightarrow> broker_event \<Rightarrow> bool" where
  "spends_fairly env options req e \<longleftrightarrow>
     (let syncs = (\<lambda>corpus. authenticate (so_auth options) (broker_header req ''authorization'') = Inr (Sync corpus)) in
      case e of
        BDriver corpus (DList scope c _ _) \<Rightarrow> syncs corpus \<and> spends_service options corpus scope c
      | BDriver corpus (DFetch scope c _ _) \<Rightarrow>
          syncs corpus \<and> spends_service options corpus scope c \<or> spends_delegated options req corpus (Some scope) c
      | BDriver corpus (DProbe scope c _ _) \<Rightarrow> spends_delegated options req corpus (Some scope) c
      | BDriver corpus (DRead c _ _) \<Rightarrow> spends_delegated options req corpus None c
      | BDriver corpus (DSearch c scope _ limit _) \<Rightarrow>
          spends_delegated options req corpus (Some scope) c \<and> 0 < limit \<and> limit \<le> 25
      | BDriver corpus (DQuery c scope query _) \<Rightarrow> spends_delegated options req corpus (Some scope) c \<and> is_ok (resolveQuery query)
      | BSync corpus _ \<Rightarrow> syncs corpus
      | BChange corpus sourceIds \<Rightarrow> verified_change env options req corpus sourceIds)"

lemma registry_get_name: "registry_get bs name = Some b \<Longrightarrow> cb_name b = name \<and> b \<in> set bs"
  by (auto simp: registry_get_def find_Some_iff in_set_conv_nth)

text \<open>What a granted credential says about the caller.\<close>

lemma grant_service:
  assumes "grant options req route = Inr ServiceCredential"
  shows "authenticate (so_auth options) (broker_header req ''authorization'') = Inr (Sync (rt_name route))"
    and "rt_kind route \<noteq> KProbeRoute"
  using assms by (auto simp: grant_def broker_authorize_def route_operation_def split: sum.splits Caller.splits if_splits)

lemma grant_delegated:
  assumes "grant options req route = Inr DelegatedCred"
  shows "authenticate (so_auth options) (broker_header req ''authorization'') = Inr Orchestrator"
    and "truthy_str (broker_header req DELEGATED_TOKEN_HEADER)"
    and "rt_kind route \<noteq> KSyncRoute \<or> truthy_str (rt_id route)"
    and "rt_kind route = KResources \<or> rt_kind route = KSyncRoute \<or> rt_kind route = KWebhook \<Longrightarrow> truthy_str (rt_id route)"
  using assms by (auto simp: grant_def broker_authorize_def route_operation_def split: sum.splits Caller.splits if_splits)

lemma parsed_route_id: "parseRoute path = Inr (Some route) \<Longrightarrow> rt_kind route = KSyncRoute \<Longrightarrow> rt_id route = None"
  by (auto simp: parseRoute_def Let_def split: list.splits option.splits if_splits)

lemma search_limit_bounds: "0 < search_limit l" "search_limit l \<le> 25"
  by (auto simp: search_limit_def split: js_double.split)

text \<open>The continuation of a computation whose value is known.\<close>

definition emits_at :: "('v \<Rightarrow> bool) \<Rightarrow> ('v, 'e, 'a) eff \<Rightarrow> ('a \<Rightarrow> bool) \<Rightarrow> bool" where
  "emits_at A m R \<longleftrightarrow> emits A m \<and> (\<forall>log. wp m (\<lambda>x _. R x) log)"

lemma emits_at_bind: "emits_at A m R \<Longrightarrow> (\<And>x. R x \<Longrightarrow> emits A (f x)) \<Longrightarrow> emits A (bind_e m f)"
  unfolding emits_at_def by (rule emits_bind_wp[where R = R]) auto

lemma emits_at_lift: "emits_at A (lift_e r) (\<lambda>x. r = Inr x)"
  by (simp add: emits_at_def emits_lift wp_lift)

lemma emits_notify: "(\<And>b. b \<in> set targets \<Longrightarrow> A (BChange (cb_name b) ids)) \<Longrightarrow> emits A (notify_each ids targets)"
  by (induction targets) (simp_all add: emits_return emits_bind emits_emit)

lemma webhook_fair: "emits (spends_fairly env options req) (handleWebhook env options connection req)"
proof (cases "so_webhooks options")
  case None
  then show ?thesis by (simp add: handleWebhook_def not_found_def emits_return Let_def)
next
  case (Some webhooks)
  let ?cs = "filter (\<lambda>b. cb_connection b = connection) (so_registry options)"
  show ?thesis
  proof (cases ?cs)
    case Nil
    then show ?thesis using Some by (simp add: handleWebhook_def not_found_def emits_return Let_def)
  next
    case (Cons first rest)
    then have "first \<in> set ?cs" by simp
    then have first: "first \<in> set (so_registry options)" "cb_connection first = connection" by simp_all
    have fair: "spends_fairly env options req (BChange (cb_name b) (we_sourceIds event))"
      if "truthy_str (wh_secretFor webhooks connection)" "dr_parseWebhook (cb_driver first) = Some parseWebhook"
        "readRawBody env req = Inr rawBody"
        "parseWebhook \<lparr>wr_headers = hr_headers req, wr_rawBody = rawBody\<rparr> (the (wh_secretFor webhooks connection)) = Inr (Some event)"
        "b \<in> set (filter (\<lambda>b. coversScope (cb_scope b) (we_scopeKey event)) ?cs)" for parseWebhook rawBody event b
    proof -
      obtain secret where "wh_secretFor webhooks connection = Some secret" "secret \<noteq> []"
        using \<open>truthy_str (wh_secretFor webhooks connection)\<close> by (auto simp: truthy_str_def split: option.splits)
      then have "verified_change env options req (cb_name b) (we_sourceIds event)"
        unfolding verified_change_def using that Some first
        by (intro exI[of _ b] exI[of _ first] exI[of _ webhooks] exI[of _ secret] exI[of _ parseWebhook] exI[of _ rawBody]
            exI[of _ event]) simp
      then show ?thesis by (simp add: spends_fairly_def Let_def)
    qed
    show ?thesis
      unfolding handleWebhook_def Let_def Cons Some prod.case option.case list.case not_found_def
      using fair[unfolded Cons]
      by (intro emits_rules emits_at_bind[OF emits_at_lift] emits_notify) (auto intro!: emits_rules emits_notify split: sum.splits option.splits broker_error.splits)
  qed
qed

definition granted_credentials :: "http_request \<Rightarrow> CorpusBinding \<Rightarrow> credential_kind \<Rightarrow> Credentials" where
  "granted_credentials req binding credential =
     (if credential = ServiceCredential
      then \<lparr>cr_service = Some (cb_serviceToken binding), cr_delegated = None\<rparr>
      else \<lparr>cr_service = None, cr_delegated = broker_header req DELEGATED_TOKEN_HEADER\<rparr>)"

lemma delegated_spends:
  assumes "grant options req route = Inr DelegatedCred" and "registry_get (so_registry options) (rt_name route) = Some b"
  shows "spends_delegated options req (cb_name b) None (granted_credentials req b DelegatedCred)"
    and "spends_delegated options req (cb_name b) (Some (cb_scope b)) (granted_credentials req b DelegatedCred)"
  using assms grant_delegated[OF assms(1)] registry_get_name[OF assms(2)]
  by (simp_all add: spends_delegated_def granted_credentials_def)

lemma service_spends:
  assumes "grant options req route = Inr ServiceCredential" and "registry_get (so_registry options) (rt_name route) = Some b"
  shows "authenticate (so_auth options) (broker_header req ''authorization'') = Inr (Sync (cb_name b))"
    and "spends_service options (cb_name b) (cb_scope b) (granted_credentials req b ServiceCredential)"
  using assms grant_service[OF assms(1)] registry_get_name[OF assms(2)]
  by (simp_all add: spends_service_def granted_credentials_def)

lemma route_fair:
  assumes g: "grant options req route = Inr credential" and b: "registry_get (so_registry options) (rt_name route) = Some b"
    and user: "\<not> (user_read (rt_kind route) \<and> credential \<noteq> DelegatedCred)"
    and parsed: "parseRoute path = Inr (Some route)" and web: "rt_kind route \<noteq> KWebhook"
  shows "emits (spends_fairly env options req)
    (serve_route env options req url route b (granted_credentials req b credential))"
proof -
  note defs = serve_route_def serve_documents_def serve_search_def serve_query_def serve_sync_def serve_probe_def
    serve_resources_def spends_fairly_def Let_def
  have resolves: "is_ok (resolveQuery (route_limit query))" if "parseSourceQuery raw = Inr query" for raw query
    using accepted_query_resolves[OF that] .
  show ?thesis
  proof (cases credential)
    case ServiceCredential
    then have "rt_kind route \<in> {KResources, KSyncRoute}"
      using user web grant_service(2)[OF g[unfolded ServiceCredential]] by (cases "rt_kind route") (auto simp: user_read_def)
    then show ?thesis
      using service_spends[OF g[unfolded ServiceCredential] b] registry_get_name[OF b] ServiceCredential
      by (auto simp: defs split: option.splits intro!: emits_rules)
  next
    case DelegatedCred
    have "rt_kind route \<noteq> KSyncRoute"
      using grant_delegated(3)[OF g[unfolded DelegatedCred]] parsed_route_id[OF parsed] by auto
    then show ?thesis
      using delegated_spends[OF g[unfolded DelegatedCred] b] grant_delegated(4)[OF g[unfolded DelegatedCred]] web DelegatedCred
      by (cases "rt_kind route")
        (auto simp: defs search_limit_bounds resolves split: option.splits sum.splits broker_error.splits intro!: emits_rules)
  qed
qed

lemma handle_fair: "emits (spends_fairly env options req) (handle env options req)"
  unfolding handle_def granted_credentials_def[symmetric] not_found_def
  by (intro emits_rules emits_at_bind[OF emits_at_lift] webhook_fair)
    (auto simp: Let_def failure_response_def granted_credentials_def[symmetric]
      split: sum.splits broker_error.splits option.splits intro!: emits_rules webhook_fair route_fair)

lemma server_log: "snd (createBrokerServer env options req trail) = snd (handle env options req trail)"
  by (simp add: createBrokerServer_def split: prod.split sum.split)

lemma server_events: "emits A (handle env options req) \<Longrightarrow>
  \<exists>new. snd (createBrokerServer env options req trail) = trail @ new \<and> list_all A new"
  unfolding emits_def server_log by blast



section \<open>What an answer means\<close>

definition failure_status :: "broker_error \<Rightarrow> int" where
  "failure_status e =
     (case e of PermissionDenied _ \<Rightarrow> 403 | Transient _ \<Rightarrow> 503 | QueryValidation _ \<Rightarrow> 400 | _ \<Rightarrow> 500)"

definition outcome_status :: "broker_error + 'a \<Rightarrow> int" where
  "outcome_status r = (case r of Inl e \<Rightarrow> failure_status e | Inr _ \<Rightarrow> 200)"

definition call_status :: "driver_call \<Rightarrow> int" where
  "call_status c =
     (case c of
        DList _ _ _ r \<Rightarrow> outcome_status r | DFetch _ _ _ r \<Rightarrow> outcome_status r | DProbe _ _ _ r \<Rightarrow> outcome_status r
      | DRead _ _ r \<Rightarrow> outcome_status r | DSearch _ _ _ _ r \<Rightarrow> outcome_status r | DQuery _ _ _ r \<Rightarrow> outcome_status r)"

definition thrown_status :: "broker_error + http_answer \<Rightarrow> int" where
  "thrown_status r = (case r of Inl _ \<Rightarrow> 500 | Inr response \<Rightarrow> fst response)"

definition is_change :: "broker_event \<Rightarrow> bool" where
  "is_change e \<longleftrightarrow> (case e of BChange _ _ \<Rightarrow> True | _ \<Rightarrow> False)"

definition answers :: "broker_event list \<Rightarrow> int \<Rightarrow> bool" where
  "answers new status \<longleftrightarrow>
     (case new of
        [] \<Rightarrow> status \<noteq> 503 \<and> status \<noteq> 202
      | [BDriver _ c] \<Rightarrow> status = call_status c
      | [BSync _ r] \<Rightarrow> status = (case r of Inr None \<Rightarrow> 409 | _ \<Rightarrow> outcome_status r)
      | _ \<Rightarrow> list_all is_change new \<and> status = 202)"

lemma answers_simps [simp]:
  "answers [] status \<longleftrightarrow> status \<noteq> 503 \<and> status \<noteq> 202"
  "answers [BDriver corpus c] status \<longleftrightarrow> status = call_status c"
  "answers [BSync corpus r] status \<longleftrightarrow> status = (case r of Inr None \<Rightarrow> 409 | _ \<Rightarrow> outcome_status r)"
  by (simp_all add: answers_def)

lemma answers_changes: "new \<noteq> [] \<Longrightarrow> list_all is_change new \<Longrightarrow> answers new 202"
  by (auto simp: answers_def is_change_def split: list.splits broker_event.splits)

lemma does_notify: "does (notify_each ids targets) (\<lambda>r new. r = Inr () \<and> length new = length targets \<and> list_all is_change new)"
proof (induction targets)
  case Nil
  then show ?case by (simp add: does_return)
next
  case (Cons t ts)
  show ?case
    by (simp, rule does_bind[where P = "\<lambda>r new. r = Inr () \<and> new = [BChange (cb_name t) ids]"])
      (auto intro!: does_emit does_mono[OF Cons] simp: is_change_def)
qed

lemma does_lift_bind:
  assumes "\<And>e. r = Inl e \<Longrightarrow> R (Inl e) []" and "\<And>x. r = Inr x \<Longrightarrow> does (f x) R"
  shows "does (bind_e (lift_e r) f) R"
  using assms by (cases r) (auto simp: does_def bind_e_def lift_e_def)

lemma does_call_return:
  assumes "\<And>a. R (map_sum id g a) [ev a]"
  shows "does (bind_e (call_e f ev) (\<lambda>x. return_e (g x))) R"
proof (rule does_bind[where P = "\<lambda>r new. new = [ev r]"])
  show "does (call_e f ev) (\<lambda>r new. new = [ev r])" by (simp add: does_call)
  show "R (Inl e) new" if "new = [ev (Inl e)]" for e new using assms[of "Inl e"] that by simp
  show "does (return_e (g x)) (\<lambda>r new. R r (first @ new))" if "first = [ev (Inr x)]" for x first
    using assms[of "Inr x"] that by (simp add: does_return)
qed

definition served :: "broker_error + http_answer \<Rightarrow> broker_event list \<Rightarrow> bool" where
  "served r new \<longleftrightarrow> answers new (case r of Inl e \<Rightarrow> failure_status e | Inr response \<Rightarrow> fst response)"

lemma read_chunks_error: "read_chunks bound complaint seen chunks = Inl e \<Longrightarrow> e = OtherFailure complaint"
proof (induction chunks arbitrary: seen)
  case (Cons c cs)
  then show ?case by (cases "read_chunks bound complaint (seen + length c) cs") (auto split: if_splits)
qed simp

lemma body_error: "readBodyText env req = Inl e \<Longrightarrow> \<exists>m. e = OtherFailure m"
  "readJson env req = Inl e \<Longrightarrow> \<exists>m. e = OtherFailure m"
  by (auto simp: readBodyText_def readJson_def map_sum_def split: sum.splits dest: read_chunks_error)

lemma parse_error: "parseSourceQuery raw = Inl e \<Longrightarrow> \<exists>m. e = QueryValidation m"
  by (auto simp: parseSourceQuery_def query_limit_def broker_query_sort_def map_sum_def Let_def
      split: json.splits if_splits option.splits sum.splits)

lemmas status_defs = served_def outcome_status_def failure_status_def call_status_def

lemma query_answers: "does (serve_query env b c req) served"
  unfolding serve_query_def
  by (auto split: option.splits sum.splits broker_error.splits if_splits simp: status_defs map_sum_def
      intro!: does_rules does_lift_bind does_call_return dest: body_error parse_error)

lemma sync_answers: "does (serve_sync options name) served"
proof (cases "so_runSync options")
  case None
  then show ?thesis by (simp add: serve_sync_def does_return served_def)
next
  case (Some runSync)
  have call: "does (call_e (\<lambda>log. runSync log name) (BSync name)) (\<lambda>r new. new = [BSync name r])" by (simp add: does_call)
  show ?thesis
    unfolding serve_sync_def Some option.case
    by (rule does_bind[OF call])
      (auto simp: status_defs intro!: does_return split: option.splits sum.splits broker_error.splits)
qed

lemma route_answers: "does (serve_route env options req url route b c) served"
  unfolding serve_route_def
  by (cases "rt_kind route")
    (auto simp: serve_documents_def serve_search_def serve_probe_def serve_resources_def Let_def status_defs map_sum_def
      split: option.splits sum.splits broker_error.splits if_splits
      intro!: does_rules does_lift_bind does_call_return sync_answers query_answers
      dest: body_error)

lemma failure_answers: "served (Inl e) new \<Longrightarrow> does (failure_response e) (\<lambda>r more. answers (new @ more) (thrown_status r))"
  by (cases e) (simp_all add: failure_response_def status_defs thrown_status_def does_rules)

lemma webhook_answers: "does (handleWebhook env options connection req) (\<lambda>r new. answers new (thrown_status r))"
proof -
  have note_all: "does (bind_e (notify_each ids targets) (\<lambda>_. return_e (202, body))) (\<lambda>r new. answers new (thrown_status r))"
    if "targets \<noteq> []" for ids targets body
    using that by (intro does_bind[OF does_notify]) (auto intro!: does_return answers_changes simp: thrown_status_def)
  show ?thesis
    unfolding handleWebhook_def not_found_def Let_def
    by (auto split: option.splits list.splits sum.splits broker_error.splits if_splits
        simp: thrown_status_def[of "Inl _"] thrown_status_def[of "Inr (_, _)"] simp del: notify_each.simps
        intro!: does_rules does_lift_bind note_all)
qed

lemma handle_answers: "does (handle env options req) (\<lambda>r new. answers new (thrown_status r))"
proof -
  have route: "does (bind_e (try_e (serve_route env options req url route b c))
      (\<lambda>r. case r of Inl e \<Rightarrow> failure_response e | Inr response \<Rightarrow> return_e response)) (\<lambda>r new. answers new (thrown_status r))"
    for url route b c
    by (rule does_bind[where P = "\<lambda>r new. case r of Inl _ \<Rightarrow> False | Inr x \<Rightarrow> served x new"])
      (auto intro!: does_try does_mono[OF route_answers] failure_answers does_return
        simp: served_def[of "Inr _"] thrown_status_def[of "Inr _"] split: sum.splits)
  show ?thesis
    unfolding handle_def not_found_def Let_def
    by (auto split: option.splits sum.splits broker_error.splits if_splits simp: thrown_status_def[of "Inl _"] thrown_status_def[of "Inr (_, _)"]
        intro!: does_rules does_lift_bind webhook_answers route)
qed

text \<open>
  C13. One request makes at most one call of a driver, or starts at most one pass, and the status of the
  answer is that call's outcome: 200 when it succeeded, 403 only for what the source refused, 503 only
  for what could not be found out, 500 for what will never work and for anything unforeseen, 400 for a
  query the driver rejects. A request that reached no driver is never answered as an outage, and 202
  is the answer exactly of notices that were passed on.
\<close>

theorem broker_answers_say_what_happened:
  "\<exists>new. snd (createBrokerServer env options req trail) = trail @ new \<and>
     answers new (fst (fst (createBrokerServer env options req trail)))"
proof -
  have "fst (fst (createBrokerServer env options req trail)) = thrown_status (fst (handle env options req trail))"
    by (simp add: createBrokerServer_def thrown_status_def split: prod.split sum.split)
  then show ?thesis using handle_answers[of env options req] unfolding does_def server_log by metis
qed


section \<open>A probe from end to end\<close>

text \<open>
  The orchestrator's prober (\<open>BrokerProber\<close> of \<open>knowledge-base/retrieve.ts\<close>) talking to this
  server: the request \<open>fetch\<close> makes of its arguments, whose body chunks are given, and the response
  the prober reads.
\<close>

definition probe_http :: "string \<Rightarrow> nat list list \<Rightarrow> broker_request \<Rightarrow> http_request" where
  "probe_http base chunks req =
     \<lparr>hr_method = ''POST'',
      hr_url = Inr \<lparr>pu_pathname = drop (length base) (bq_endpoint req), pu_searchParams = []\<rparr>,
      hr_headers = [(''content-type'', HOne ''application/json''), (''authorization'', HOne (''Bearer '' @ bq_bearer req)),
        (DELEGATED_TOKEN_HEADER, HOne (bq_delegated req))],
      hr_chunks = chunks\<rparr>"

definition probe_answer :: "http_answer \<Rightarrow> ProbeResult http_response" where
  "probe_answer r =
     \<lparr>rs_status = fst r, rs_text = Inr (case snd r of BError m \<Rightarrow> m | _ \<Rightarrow> []),
      rs_json = (case snd r of BProbe p \<Rightarrow> Inr p | _ \<Rightarrow> Inl (new_Error ''not a probe result''))\<rparr>"

definition wired_to ::
    "kb_env \<Rightarrow> broker_env \<Rightarrow> ServerOptions \<Rightarrow> string \<Rightarrow> (string option \<Rightarrow> nat list list) \<Rightarrow> kb_env" where
  "wired_to env benv options base chunks =
     env\<lparr>kb_probe := (\<lambda>log req sourceId.
       Inr (probe_answer (fst (createBrokerServer benv options (probe_http base (chunks sourceId) req) []))))\<rparr>"

definition probe_meaning :: "broker_error + ProbeResult \<Rightarrow> kb_error + ProbeResult" where
  "probe_meaning r =
     (case r of
        Inr p \<Rightarrow> Inr p
      | Inl (PermissionDenied _) \<Rightarrow> Inl (PermissionDeniedError ''broker returned 403'')
      | Inl e \<Rightarrow> Inl (TransientProbeError (''broker returned '' @ int_string (failure_status e))))"

lemma bearer_token_plain: "js_trim t = t \<Longrightarrow> bearer_token (Some (''Bearer '' @ t)) = t"
proof -
  assume t: "js_trim t = t"
  have "js_ws CHR '' ''" by (simp add: js_ws_def)
  moreover have "js_trim (dropWhile js_ws t) = js_trim t" by (simp add: js_trim_def)
  moreover have "js_toLowerCase ''Bearer'' = ''bearer''" by code_simp
  ultimately show ?thesis using t by (simp add: bearer_token_def Let_def)
qed

lemma orchestrator_authenticates:
  "ac_orchestratorToken config = t \<Longrightarrow> t \<noteq> [] \<Longrightarrow> js_trim t = t \<Longrightarrow> authenticate config (Some (''Bearer '' @ t)) = Inr Orchestrator"
  using bearer_token_plain[of t] by (simp add: authenticate_def secretsMatch_def Let_def)

lemma handle_probe:
  fixes req :: http_request
  assumes "hr_url req = Inr \<lparr>pu_pathname = path, pu_searchParams = ps\<rparr>" "path \<noteq> ''/healthz''"
    and "parseRoute path = Inr (Some \<lparr>rt_name = name, rt_kind = KProbeRoute, rt_id = None\<rparr>)"
    and "authenticate (so_auth options) (broker_header req ''authorization'') = Inr Orchestrator"
    and "broker_header req DELEGATED_TOKEN_HEADER = Some d" "d \<noteq> []"
    and "registry_get (so_registry options) name = Some b" and "readJson env req = Inr body"
  shows "fst (createBrokerServer env options req trail) =
    (case dr_probe (cb_driver b) trail (cb_scope b) \<lparr>cr_service = None, cr_delegated = Some d\<rparr> (string_field body ''sourceId'') of
       Inr p \<Rightarrow> (200, BProbe p)
     | Inl (PermissionDenied m) \<Rightarrow> (403, BError m) | Inl (Transient m) \<Rightarrow> (503, BError m)
     | Inl (Permanent m) \<Rightarrow> (500, BError m) | Inl (QueryValidation m) \<Rightarrow> (400, BError m)
     | Inl _ \<Rightarrow> (500, BError ''internal error''))"
  using assms
  by (simp add: createBrokerServer_def handle_def grant_def broker_authorize_def route_operation_def user_read_def
      serve_route_def serve_probe_def failure_response_def eff_defs Let_def
      split: sum.splits broker_error.splits)

lemma probe_header:
  "broker_header (probe_http base chunks bq) ''authorization'' = Some (''Bearer '' @ bq_bearer bq)"
  "broker_header (probe_http base chunks bq) DELEGATED_TOKEN_HEADER = Some (bq_delegated bq)"
  by (simp_all add: broker_header_def probe_http_def DELEGATED_TOKEN_HEADER_def)

lemma probe_path:
  assumes "bq_endpoint bq = base @ ''/corpora/'' @ encodeURIComponent name @ ''/probe''" and "name \<noteq> []"
  shows "hr_url (probe_http base chunks bq) = Inr \<lparr>pu_pathname = ''/corpora/'' @ encodeURIComponent name @ ''/probe'', pu_searchParams = []\<rparr>"
    and "parseRoute (''/corpora/'' @ encodeURIComponent name @ ''/probe'') =
      Inr (Some \<lparr>rt_name = name, rt_kind = KProbeRoute, rt_id = None\<rparr>)"
  using assms routes_of_paths[of name name] by (simp_all add: probe_http_def)

lemma int_string_403: "int_string 403 = ''403''"
  by code_simp

lemma wired_probe_call:
  assumes "bp_token popts = t" "t \<noteq> []" "js_trim t = t" "ac_orchestratorToken (so_auth options) = t"
    and "bp_delegatedTokens popts = []" "bp_delegatedToken popts = Some d" "d \<noteq> []"
    and "pq_connectionId request = name" "name \<noteq> []" "registry_get (so_registry options) name = Some b"
    and body: "\<And>bq. readJson benv (probe_http (strip_trailing_slashes (bp_baseUrl popts)) (chunks (pq_sourceId request)) bq) =
      Inr (present [(''sourceId'', pq_sourceId request)])"
  shows "fst (broker_probe (wired_to env benv options (strip_trailing_slashes (bp_baseUrl popts)) chunks) popts request trail) =
    probe_meaning (dr_probe (cb_driver b) [] (cb_scope b) \<lparr>cr_service = None, cr_delegated = Some d\<rparr> (pq_sourceId request))"
proof -
  let ?base = "strip_trailing_slashes (bp_baseUrl popts)"
  let ?bq = "\<lparr>bq_endpoint = ?base @ ''/corpora/'' @ encodeURIComponent name @ ''/probe'', bq_bearer = t, bq_delegated = d\<rparr>"
  let ?req = "probe_http ?base (chunks (pq_sourceId request)) ?bq"
  have field: "string_field (present [(''sourceId'', pq_sourceId request)]) ''sourceId'' = pq_sourceId request"
    by (cases "pq_sourceId request") (simp_all add: string_field_def)
  have "fst (createBrokerServer benv options ?req []) =
    (case dr_probe (cb_driver b) [] (cb_scope b) \<lparr>cr_service = None, cr_delegated = Some d\<rparr> (pq_sourceId request) of
       Inr p \<Rightarrow> (200, BProbe p)
     | Inl (PermissionDenied m) \<Rightarrow> (403, BError m) | Inl (Transient m) \<Rightarrow> (503, BError m)
     | Inl (Permanent m) \<Rightarrow> (500, BError m) | Inl (QueryValidation m) \<Rightarrow> (400, BError m)
     | Inl _ \<Rightarrow> (500, BError ''internal error''))"
    using probe_path[where bq = ?bq and base = ?base and name = name] orchestrator_authenticates[where config = "so_auth options" and t = t]
      probe_header[where bq = ?bq] assms handle_probe[where req = ?req and trail = "[]" and env = benv] body[of ?bq] field
    by simp
  then show ?thesis
    using assms int_string_403
    by (simp add: broker_probe_def wired_to_def probe_answer_def rs_ok_def probe_meaning_def failure_status_def eff_defs Let_def
        split: sum.splits broker_error.splits)
qed

text \<open>
  C8. A probe from end to end. When the orchestrator holds the broker's token and forwards the user's own
  credential, what its prober concludes about a resource of a registered corpus is what the driver
  said to that user's credential in that corpus's scope: the driver's answer is passed on as it is, a
  refusal of the source is a denial, and an outage, a permanent failure or a fault of any kind is
  reported as undetermined, never as a denial.
\<close>

theorem probe_verdicts_survive_the_broker:
  assumes "bp_token popts = t" "t \<noteq> []" "js_trim t = t" "ac_orchestratorToken (so_auth options) = t"
    and "bp_delegatedTokens popts = []" "bp_delegatedToken popts = Some d" "d \<noteq> []"
    and "pq_connectionId request = name" "name \<noteq> []" "registry_get (so_registry options) name = Some b"
    and "\<And>bq. readJson benv (probe_http (strip_trailing_slashes (bp_baseUrl popts)) (chunks (pq_sourceId request)) bq) =
      Inr (present [(''sourceId'', pq_sourceId request)])"
  shows "fst (broker_probe (wired_to env benv options (strip_trailing_slashes (bp_baseUrl popts)) chunks) popts request trail) =
    probe_meaning (dr_probe (cb_driver b) [] (cb_scope b) \<lparr>cr_service = None, cr_delegated = Some d\<rparr> (pq_sourceId request))"
  by (rule wired_probe_call) (rule assms)+

text \<open>A deployment with one corpus whose driver is busy.\<close>

definition driver_ex :: Driver where
  "driver_ex =
     \<lparr>dr_provider = ''slack'', dr_list = (\<lambda>_ _ _ _. Inl (Transient ''busy'')), dr_fetch = (\<lambda>_ _ _ _. Inl (Transient ''busy'')),
      dr_probe = (\<lambda>_ _ c _. if cr_delegated c = Some ''xoxp'' then Inl (Transient ''busy'') else Inl (PermissionDenied ''not you'')),
      dr_parseWebhook = None, dr_readAsUser = None, dr_searchAsUser = None, dr_queryAsUser = None\<rparr>"

definition binding_ex :: CorpusBinding where
  "binding_ex =
     \<lparr>cb_name = ''eng'', cb_connection = ''slack'', cb_driver = driver_ex,
      cb_scope = \<lparr>sc_space = None, sc_channel = Some ''C1'', sc_folderID = None\<rparr>, cb_allowedRoles = [''dev''], cb_serviceToken = ''xoxb''\<rparr>"

definition options_ex :: ServerOptions where
  "options_ex =
     \<lparr>so_auth = \<lparr>ac_orchestratorToken = ''s3'', ac_syncTokens = []\<rparr>, so_registry = [binding_ex], so_runSync = None,
      so_webhooks = None\<rparr>"

definition benv_ex :: broker_env where
  "benv_ex = \<lparr>be_parse = (\<lambda>_. Inr (JObject [(''sourceId'', JString ''17'')])), be_number = (\<lambda>_. NaN), be_utf8 = map char_of\<rparr>"

definition popts_ex :: BrokerProberOptions where
  "popts_ex =
     \<lparr>bp_baseUrl = ''http://broker/'', bp_token = ''s3'', bp_delegatedToken = Some ''xoxp'', bp_delegatedTokens = [],
      bp_granularities = []\<rparr>"

theorem probe_verdicts_survive_the_broker_witness:
  "\<exists>env. fst (broker_probe (wired_to env benv_ex options_ex ''http://broker'' (\<lambda>_. [[49]])) popts_ex
      \<lparr>pq_connectionId = ''eng'', pq_sourceId = Some ''17''\<rparr> []) = Inl (TransientProbeError ''broker returned 503'')"
proof -
  have base: "strip_trailing_slashes (bp_baseUrl popts_ex) = ''http://broker''" by code_simp
  have "js_trim ''s3'' = ''s3''" by code_simp
  moreover have "int_string 503 = ''503''" by code_simp
  ultimately show ?thesis
    using probe_verdicts_survive_the_broker[of popts_ex "''s3''" options_ex "''xoxp''" "\<lparr>pq_connectionId = ''eng'', pq_sourceId = Some ''17''\<rparr>"
        "''eng''" binding_ex benv_ex "\<lambda>_. [[49]]" undefined "[]"] base
    by (auto simp: popts_ex_def options_ex_def binding_ex_def driver_ex_def benv_ex_def registry_get_def readJson_def readBodyText_def
        probe_http_def probe_meaning_def failure_status_def)
qed

text \<open>
  A 403 is not the driver's denial alone: a caller that is not the orchestrator is refused with the same
  status, so an orchestrator that was given a corpus's sync token reads every candidate as denied.
\<close>

lemma sync_token_reads_as_denial:
  fixes req :: http_request
  assumes "hr_url req = Inr \<lparr>pu_pathname = path, pu_searchParams = ps\<rparr>" "path \<noteq> ''/healthz''"
    and "parseRoute path = Inr (Some \<lparr>rt_name = name, rt_kind = KProbeRoute, rt_id = None\<rparr>)"
    and "authenticate (so_auth options) (broker_header req ''authorization'') = Inr (Sync own)"
  shows "fst (fst (createBrokerServer env options req trail)) = 403"
  using assms
  by (simp add: createBrokerServer_def handle_def grant_def broker_authorize_def route_operation_def eff_defs Let_def)

end
