(* ===== verification/Sync_Chunk.thy ===== *)
theory Sync_Chunk
  imports Broker_Server "HOL-Library.Sublist"
begin

text \<open>
  Chunking of a document for the index (\<open>apps/connection-broker/src/sync/chunk.ts\<close>): the split on
  headings, the split of an over-long section on paragraphs with overlap, the forced split of an
  over-long paragraph, and the content hash. The digest is a parameter; token counts are integers.
\<close>

section \<open>Definitions\<close>

record ChunkOptions =
  co_maxTokens :: "int option"
  co_overlap :: "int option"

record Chunk =
  ck_connectionId :: string
  ck_connectionLabel :: string
  ck_sourceId :: string
  ck_sourceUrl :: string
  ck_title :: string
  ck_updatedAt :: "string option"
  ck_version :: "string option"
  ck_contentHash :: string
  ck_aclPrincipals :: "string list option"
  ck_aclPermissive :: "bool option"
  ck_text :: string

definition DEFAULT_MAX_TOKENS :: int where "DEFAULT_MAX_TOKENS = 800"

definition DEFAULT_OVERLAP :: int where "DEFAULT_OVERLAP = 100"

definition MAX_CHUNK_TOKENS :: int where "MAX_CHUNK_TOKENS = 6000"

definition approxTokens :: "string \<Rightarrow> int" where
  "approxTokens s = (int (length s) + 3) div 4"

text \<open>\<open>/^#{1,6}\s/\<close>.\<close>

definition heading_line :: "string \<Rightarrow> bool" where
  "heading_line line \<longleftrightarrow>
     (let n = length (takeWhile (\<lambda>c. c = CHR ''#'') line) in
      1 \<le> n \<and> n \<le> 6 \<and> (case drop n line of c # _ \<Rightarrow> js_ws c | [] \<Rightarrow> False))"

fun heading_loop :: "string list \<Rightarrow> string list \<Rightarrow> string list" where
  "heading_loop current [] = (if current \<noteq> [] then [js_join [newline] current] else [])"
| "heading_loop current (line # rest) =
     (if heading_line line \<and> list_ex (\<lambda>l. js_trim l \<noteq> []) current
      then js_join [newline] current # heading_loop [line] rest
      else heading_loop (current @ [line]) rest)"

definition splitOnHeadings :: "string \<Rightarrow> string list" where
  "splitOnHeadings markdown =
     (let sections = heading_loop [] (js_split newline markdown) in if sections \<noteq> [] then sections else [markdown])"

text \<open>\<open>split(/\n{2,}/)\<close>.\<close>

function paragraph_split :: "string \<Rightarrow> string \<Rightarrow> string list" where
  "paragraph_split acc s =
     (case s of
        [] \<Rightarrow> [acc]
      | c # cs \<Rightarrow>
          if c = newline \<and> (case cs of d # _ \<Rightarrow> d = newline | [] \<Rightarrow> False)
          then acc # paragraph_split [] (dropWhile (\<lambda>d. d = newline) cs)
          else paragraph_split (acc @ [c]) cs)"
  by pat_completeness auto
termination
  by (relation "measure (\<lambda>(acc, s). length s)") (auto simp: length_dropWhile_le less_Suc_eq_le)

declare paragraph_split.simps [simp del]

text \<open>The trailing paragraphs, up to roughly the overlap.\<close>

fun tail_budget :: "int \<Rightarrow> string list \<Rightarrow> string list" where
  "tail_budget budget [] = []"
| "tail_budget budget (p # ps) = (if 0 < budget then p # tail_budget (budget - approxTokens p) ps else [])"

definition overlap_tail :: "string list \<Rightarrow> int \<Rightarrow> string list" where
  "overlap_tail paragraphs overlap = rev (tail_budget overlap (rev paragraphs))"

text \<open>
  The forced split. The parts of a split come with the pieces of those that are too long on their
  own; \<open>buf\<close> is what is being filled.
\<close>

fun pack_parts :: "char \<Rightarrow> int \<Rightarrow> (string \<times> string list) list \<Rightarrow> string \<Rightarrow> string list" where
  "pack_parts sep maxTokens [] buf = (if buf \<noteq> [] then [buf] else [])"
| "pack_parts sep maxTokens ((part, pieces) # rest) buf =
     (if maxTokens < approxTokens part
      then (if buf \<noteq> [] then [buf] else []) @ pieces @ pack_parts sep maxTokens rest []
      else
        (let candidate = (if buf \<noteq> [] then buf @ [sep] @ part else part) in
         if buf \<noteq> [] \<and> maxTokens < approxTokens candidate
         then buf # pack_parts sep maxTokens rest part
         else pack_parts sep maxTokens rest candidate))"

function windows :: "nat \<Rightarrow> string \<Rightarrow> string list" where
  "windows n s = (if s = [] \<or> n = 0 then [] else take n s # windows n (drop n s))"
  by pat_completeness auto
termination
  by (relation "measure (\<lambda>(n, s). length s)") auto

declare windows.simps [simp del]

lemma split_part_shorter: "c \<in> set s \<Longrightarrow> p \<in> set (js_split c s) \<Longrightarrow> length p < length s"
proof -
  have "p \<in> set (js_split c s) \<Longrightarrow> length p + of_bool (c \<in> set s) \<le> length s"
  proof (induction s arbitrary: p)
    case (Cons x xs)
    then show ?case by (fastforce split: if_splits list.splits)
  qed simp
  then show "c \<in> set s \<Longrightarrow> p \<in> set (js_split c s) \<Longrightarrow> length p < length s" by simp
qed

function forceSplit :: "int \<Rightarrow> string \<Rightarrow> string list" where
  "forceSplit maxTokens s =
     (if approxTokens s \<le> maxTokens then [s]
      else
        (case find (\<lambda>sep. sep \<in> set s) [newline, CHR '' ''] of
           Some sep \<Rightarrow>
             pack_parts sep maxTokens
               (map (\<lambda>part. (part, if maxTokens < approxTokens part then forceSplit maxTokens part else []))
                 (js_split sep s)) []
         | None \<Rightarrow> windows (nat (max 1 (maxTokens * 4))) s))"
  by pat_completeness auto
termination
  by (relation "measure (\<lambda>(maxTokens, s). length s)") (auto simp: split_part_shorter split: if_splits)

declare forceSplit.simps [simp del]

record paragraph_state =
  ps_chunks :: "string list"
  ps_current :: "string list"

definition with_heading :: "string option \<Rightarrow> string \<Rightarrow> string" where
  "with_heading heading s = (case heading of Some h \<Rightarrow> h @ [newline, newline] @ s | None \<Rightarrow> s)"

definition flush :: "string option \<Rightarrow> int \<Rightarrow> paragraph_state \<Rightarrow> paragraph_state" where
  "flush heading overlap st =
     (if ps_current st = [] then st
      else \<lparr>ps_chunks = ps_chunks st @ [with_heading heading (js_join [newline, newline] (ps_current st))],
            ps_current = (if 0 < overlap then overlap_tail (ps_current st) overlap else [])\<rparr>)"

definition push_unit :: "string option \<Rightarrow> int \<Rightarrow> int \<Rightarrow> string \<Rightarrow> paragraph_state \<Rightarrow> paragraph_state" where
  "push_unit heading maxTokens overlap unit st =
     (let candidate = js_join [newline, newline] (ps_current st @ [unit]);
          st' = (if ps_current st \<noteq> [] \<and> maxTokens < approxTokens candidate then flush heading overlap st else st) in
      st'\<lparr>ps_current := ps_current st' @ [unit]\<rparr>)"

definition paragraph_units :: "int \<Rightarrow> string \<Rightarrow> string list" where
  "paragraph_units maxTokens paragraph =
     (if maxTokens < approxTokens paragraph then forceSplit maxTokens paragraph else [paragraph])"

definition section_heading :: "string list \<Rightarrow> string option" where
  "section_heading paragraphs =
     (case paragraphs of p # _ \<Rightarrow> if heading_line (js_trim p) then Some p else None | [] \<Rightarrow> None)"

definition section_body :: "string list \<Rightarrow> string list" where
  "section_body paragraphs = (if section_heading paragraphs \<noteq> None then drop 1 paragraphs else paragraphs)"

definition splitOnParagraphs :: "string \<Rightarrow> int \<Rightarrow> int \<Rightarrow> string list" where
  "splitOnParagraphs section0 maxTokens overlap =
     (let paragraphs = paragraph_split [] section0;
          heading = section_heading paragraphs;
          units = concat (map (paragraph_units maxTokens) (section_body paragraphs));
          st = fold (push_unit heading maxTokens overlap) units \<lparr>ps_chunks = [], ps_current = []\<rparr>;
          chunks = ps_chunks st @
            (if ps_current st \<noteq> [] then [with_heading heading (js_join [newline, newline] (ps_current st))] else []) in
      if chunks \<noteq> [] then chunks else [section0])"

text \<open>\<open>text.replace(/\s+/g, " ").trim()\<close>.\<close>

function collapse_ws :: "string \<Rightarrow> string" where
  "collapse_ws s =
     (case s of
        [] \<Rightarrow> []
      | c # cs \<Rightarrow> if js_ws c then CHR '' '' # collapse_ws (dropWhile js_ws cs) else c # collapse_ws cs)"
  by pat_completeness auto
termination
  by (relation "measure length") (auto simp: length_dropWhile_le less_Suc_eq_le)

declare collapse_ws.simps [simp del]

definition hashChunk :: "(string \<Rightarrow> string) \<Rightarrow> string \<Rightarrow> string \<Rightarrow> string \<Rightarrow> string" where
  "hashChunk sha256 connectionId sourceId s =
     sha256 (connectionId @ [CHR 0x00] @ sourceId @ [CHR 0x00] @ js_trim (collapse_ws s))"

definition chunk_of :: "(string \<Rightarrow> string) \<Rightarrow> string \<times> string \<Rightarrow> Document \<Rightarrow> string \<Rightarrow> Chunk" where
  "chunk_of sha256 connection document s =
     \<lparr>ck_connectionId = fst connection, ck_connectionLabel = snd connection, ck_sourceId = rf_id document,
      ck_sourceUrl = rf_url document, ck_title = rf_title document, ck_updatedAt = rf_updatedAt document,
      ck_version = rf_version document, ck_contentHash = hashChunk sha256 (fst connection) (rf_id document) s,
      ck_aclPrincipals = map_option fst (rf_acl document),
      ck_aclPermissive = Option.bind (rf_acl document) snd, ck_text = s\<rparr>"

definition section_pieces :: "int \<Rightarrow> int \<Rightarrow> string \<Rightarrow> string list" where
  "section_pieces maxTokens overlap section0 =
     (if approxTokens section0 \<le> maxTokens then [section0] else splitOnParagraphs section0 maxTokens overlap)"

definition max_tokens :: "ChunkOptions \<Rightarrow> int" where
  "max_tokens options = min (coalesce (co_maxTokens options) DEFAULT_MAX_TOKENS) MAX_CHUNK_TOKENS"

definition chunkDocument :: "(string \<Rightarrow> string) \<Rightarrow> string \<times> string \<Rightarrow> Document \<Rightarrow> ChunkOptions \<Rightarrow> Chunk list" where
  "chunkDocument sha256 connection document options =
     map (chunk_of sha256 connection document)
       (filter (\<lambda>s. s \<noteq> [])
         (map js_trim
           (concat (map (section_pieces (max_tokens options) (coalesce (co_overlap options) DEFAULT_OVERLAP))
             (splitOnHeadings (dm_markdown document))))))"


section \<open>Sections\<close>

lemma js_join_append: "xs \<noteq> [] \<Longrightarrow> ys \<noteq> [] \<Longrightarrow> js_join sep (xs @ ys) = js_join sep xs @ sep @ js_join sep ys"
proof (induction sep xs rule: js_join.induct)
  case (2 sep x)
  then show ?case by (cases ys) auto
qed auto

lemma heading_loop_nonempty: "current @ rest \<noteq> [] \<Longrightarrow> heading_loop current rest \<noteq> []"
  by (induction rest arbitrary: current) auto

lemma heading_loop_join: "current @ rest \<noteq> [] \<Longrightarrow> js_join [newline] (heading_loop current rest) = js_join [newline] (current @ rest)"
proof (induction rest arbitrary: current)
  case (Cons line rest)
  show ?case
  proof (cases "heading_line line \<and> list_ex (\<lambda>l. js_trim l \<noteq> []) current")
    case True
    then have "current \<noteq> []" by auto
    moreover obtain x xs where "heading_loop [line] rest = x # xs"
      using heading_loop_nonempty[of "[line]" rest] by (cases "heading_loop [line] rest") auto
    ultimately show ?thesis using True Cons.IH[of "[line]"] by (simp add: js_join_append)
  next
    case False
    then show ?thesis using Cons.IH[of "current @ [line]"] by auto
  qed
qed simp

text \<open>
  The split on headings cuts and loses nothing: joined again by the line breaks it was cut at,
  the sections are the document.
\<close>

theorem heading_split_round_trip: "js_join [newline] (splitOnHeadings markdown) = markdown"
proof -
  have "js_join [newline] (heading_loop [] (js_split newline markdown)) = markdown"
    using heading_loop_join[of "[]" "js_split newline markdown"] by (simp add: js_join_split)
  then show ?thesis by (simp add: splitOnHeadings_def Let_def)
qed


section \<open>The forced split\<close>

definition visible :: "string \<Rightarrow> string" where
  "visible s = filter (\<lambda>c. \<not> js_ws c) s"

lemma visible_simps [simp]:
  "visible [] = []" "visible (s @ t) = visible s @ visible t" "visible (c # s) = (if js_ws c then visible s else c # visible s)"
  by (simp_all add: visible_def)

lemma visible_split: "js_ws c \<Longrightarrow> visible (concat (js_split c s)) = visible s"
  by (induction s) (auto split: list.splits)

lemma visible_pack:
  assumes "js_ws sep" and "\<And>part pieces. (part, pieces) \<in> set parts \<Longrightarrow> m < approxTokens part \<Longrightarrow> visible (concat pieces) = visible part"
  shows "visible (concat (pack_parts sep m parts buf)) = visible buf @ visible (concat (map fst parts))"
  using assms(2)
proof (induction parts arbitrary: buf)
  case (Cons pp parts)
  then show ?case using assms(1) by (cases pp) (auto simp: Let_def)
qed simp

lemma concat_windows: "n \<noteq> 0 \<Longrightarrow> concat (windows n s) = s"
proof (induction n s rule: windows.induct)
  case (1 n s)
  then show ?case by (subst windows.simps) auto
qed

lemma ws_separators: "js_ws newline" "js_ws CHR '' ''"
  by (simp_all add: js_ws_def)

lemma separator_found: "find (\<lambda>sep. sep \<in> set s) [newline, CHR '' ''] = Some sep \<Longrightarrow> js_ws sep \<and> sep \<in> set s"
  using ws_separators by (auto split: if_splits)

lemma visible_forceSplit: "visible (concat (forceSplit m s)) = visible s"
proof (induction "length s" arbitrary: s rule: less_induct)
  case less
  show ?case
  proof (cases "approxTokens s \<le> m")
    case True
    then show ?thesis by (simp add: forceSplit.simps[of m s])
  next
    case False
    show ?thesis
    proof (cases "find (\<lambda>sep. sep \<in> set s) [newline, CHR '' '']")
      case None
      moreover have "nat (max 1 (m * 4)) \<noteq> 0" by simp
      ultimately show ?thesis using False by (simp add: forceSplit.simps[of m s] concat_windows del: find.simps)
    next
      case (Some sep)
      note sep = separator_found[OF Some]
      let ?parts = "map (\<lambda>part. (part, if m < approxTokens part then forceSplit m part else [])) (js_split sep s)"
      have "visible (concat (pack_parts sep m ?parts [])) = visible (concat (map fst ?parts))"
        using sep less split_part_shorter[of sep s] by (subst visible_pack) auto
      also have "map fst ?parts = js_split sep s" by (simp add: comp_def)
      finally show ?thesis using False Some sep visible_split[of sep s] by (simp add: forceSplit.simps[of m s] del: find.simps)
    qed
  qed
qed

lemma approx_bound: "int (length s) \<le> 4 * m \<longleftrightarrow> approxTokens s \<le> m"
  unfolding approxTokens_def by linarith

lemma windows_bound: "list_all (\<lambda>w. length w \<le> n) (windows n s)"
proof (induction n s rule: windows.induct)
  case (1 n s)
  then show ?case by (subst windows.simps) auto
qed

lemma pack_bound:
  assumes "\<And>part pieces. (part, pieces) \<in> set parts \<Longrightarrow> m < approxTokens part \<Longrightarrow> list_all (\<lambda>p. approxTokens p \<le> m) pieces"
    and "approxTokens buf \<le> m" and "0 \<le> m"
  shows "list_all (\<lambda>p. approxTokens p \<le> m) (pack_parts sep m parts buf)"
  using assms
proof (induction parts arbitrary: buf)
  case (Cons pp parts)
  obtain part pieces where pp: "pp = (part, pieces)" by (cases pp)
  have ih: "list_all (\<lambda>p. approxTokens p \<le> m) (pack_parts sep m parts b)" if "approxTokens b \<le> m" for b
    using Cons.IH[of b] Cons.prems that by (metis list.set_intros(2))
  have "approxTokens [] \<le> m" using Cons.prems(3) by (simp add: approxTokens_def)
  then show ?case
    using ih Cons.prems(1)[of part pieces] Cons.prems(2) pp by (simp add: Let_def not_less)
qed simp

lemma forceSplit_bound: "1 \<le> m \<Longrightarrow> list_all (\<lambda>p. approxTokens p \<le> m) (forceSplit m s)"
proof (induction "length s" arbitrary: s rule: less_induct)
  case less
  show ?case
  proof (cases "approxTokens s \<le> m")
    case True
    then show ?thesis by (simp add: forceSplit.simps[of m s])
  next
    case False
    show ?thesis
    proof (cases "find (\<lambda>sep. sep \<in> set s) [newline, CHR '' '']")
      case None
      have "approxTokens w \<le> m" if "length w \<le> nat (max 1 (m * 4))" for w :: string
        using that less.prems approx_bound[of w m] by linarith
      then have "list_all (\<lambda>p. approxTokens p \<le> m) (windows (nat (max 1 (m * 4))) s)"
        using windows_bound[of "nat (max 1 (m * 4))" s] by (auto simp: list_all_iff)
      then show ?thesis using False None by (simp add: forceSplit.simps[of m s] del: find.simps)
    next
      case (Some sep)
      note sep = separator_found[OF Some]
      have "list_all (\<lambda>p. approxTokens p \<le> m) (pack_parts sep m
          (map (\<lambda>part. (part, if m < approxTokens part then forceSplit m part else [])) (js_split sep s)) [])"
        using sep less split_part_shorter[of sep s] by (intro pack_bound) (auto simp: approxTokens_def)
      then show ?thesis using False Some by (simp add: forceSplit.simps[of m s] del: find.simps)
    qed
  qed
qed




section \<open>Paragraphs\<close>

text \<open>Nothing of a section's paragraphs is lost: what is pushed stays in a chunk.\<close>

definition holds_text :: "paragraph_state \<Rightarrow> string \<Rightarrow> bool" where
  "holds_text st s \<longleftrightarrow> list_ex (sublist s) (ps_chunks st) \<or> s \<in> set (ps_current st)"

lemma sublist_join: "x \<in> set xs \<Longrightarrow> sublist x (js_join sep xs)"
proof (induction sep xs rule: js_join.induct)
  case (3 sep x' y ys)
  then show ?case by (auto simp: sublist_append)
qed auto

lemma sublist_heading: "sublist s t \<Longrightarrow> sublist s (with_heading h t)"
proof (cases h)
  case (Some head)
  assume "sublist s t"
  then obtain ps ss where "t = ps @ s @ ss" by (auto simp: sublist_def)
  then have "with_heading h t = (head @ [newline, newline] @ ps) @ s @ ss" using Some by (simp add: with_heading_def)
  then show ?thesis unfolding sublist_def by blast
qed (simp add: with_heading_def)

lemma push_unit_holds:
  assumes "holds_text st s"
  shows "holds_text (push_unit h m overlap unit st) s"
  using assms sublist_heading[OF sublist_join]
  by (auto simp: holds_text_def push_unit_def flush_def Let_def)

lemma push_unit_self: "holds_text (push_unit h m overlap unit st) unit"
  by (simp add: holds_text_def push_unit_def Let_def)

lemma fold_push_holds: "holds_text st s \<or> s \<in> set units \<Longrightarrow> holds_text (fold (push_unit h m overlap) units st) s"
proof (induction units arbitrary: st)
  case (Cons unit units)
  then show ?case using push_unit_holds push_unit_self by (metis fold_simps(2) set_ConsD)
qed simp

lemma sections_hold_units:
  assumes "unit \<in> set (paragraph_units m paragraph)" "paragraph \<in> set (section_body (paragraph_split [] section0))"
  shows "list_ex (sublist unit) (splitOnParagraphs section0 m overlap)"
proof -
  let ?h = "section_heading (paragraph_split [] section0)"
  let ?st = "fold (push_unit ?h m overlap) (concat (map (paragraph_units m) (section_body (paragraph_split [] section0))))
    \<lparr>ps_chunks = [], ps_current = []\<rparr>"
  have "holds_text ?st unit" using assms by (intro fold_push_holds) auto
  then show ?thesis
    unfolding holds_text_def splitOnParagraphs_def Let_def
    using sublist_heading[OF sublist_join, of unit "ps_current ?st"] by auto
qed

text \<open>Without overlap, what is being filled never exceeds the limit.\<close>

lemma join_single: "approxTokens (js_join sep [u]) = approxTokens u"
  by simp

definition fits :: "string option \<Rightarrow> int \<Rightarrow> paragraph_state \<Rightarrow> bool" where
  "fits h m st \<longleftrightarrow>
     approxTokens (js_join [newline, newline] (ps_current st)) \<le> m \<and>
     list_all (\<lambda>c. \<exists>t. c = with_heading h t \<and> approxTokens t \<le> m) (ps_chunks st)"

lemma push_unit_fits: "fits h m st \<Longrightarrow> approxTokens u \<le> m \<Longrightarrow> fits h m (push_unit h m 0 u st)"
  by (auto simp: fits_def push_unit_def flush_def Let_def)

lemma fold_push_fits: "fits h m st \<Longrightarrow> list_all (\<lambda>u. approxTokens u \<le> m) units \<Longrightarrow> fits h m (fold (push_unit h m 0) units st)"
  by (induction units arbitrary: st) (auto intro: push_unit_fits)

lemma units_fit: "1 \<le> m \<Longrightarrow> list_all (\<lambda>u. approxTokens u \<le> m) (paragraph_units m p)"
  using forceSplit_bound by (simp add: paragraph_units_def)

lemma pieces_fit:
  assumes "1 \<le> m"
  shows "splitOnParagraphs section0 m 0 = [section0] \<or>
    list_all (\<lambda>c. \<exists>t. c = with_heading (section_heading (paragraph_split [] section0)) t \<and> approxTokens t \<le> m)
      (splitOnParagraphs section0 m 0)"
proof -
  let ?h = "section_heading (paragraph_split [] section0)"
  let ?units = "concat (map (paragraph_units m) (section_body (paragraph_split [] section0)))"
  have "list_all (\<lambda>u. approxTokens u \<le> m) ?units"
    using units_fit[OF assms] by (auto simp: list_all_iff)
  moreover have "fits ?h m \<lparr>ps_chunks = [], ps_current = []\<rparr>"
    using assms by (simp add: fits_def approxTokens_def)
  ultimately have "fits ?h m (fold (push_unit ?h m 0) ?units \<lparr>ps_chunks = [], ps_current = []\<rparr>)"
    by (rule fold_push_fits[rotated])
  then show ?thesis by (auto simp: splitOnParagraphs_def fits_def Let_def)
qed

lemma visible_trim: "visible (js_trim s) = visible s"
proof -
  have drop: "filter (\<lambda>c. \<not> js_ws c) (dropWhile js_ws t) = filter (\<lambda>c. \<not> js_ws c) t" for t :: string
    by (induction t) auto
  show ?thesis unfolding visible_def js_trim_def using drop by (metis rev_filter rev_rev_ident)
qed

lemma sublist_visible: "sublist s t \<Longrightarrow> sublist (visible s) (visible t)"
  by (auto simp: sublist_def) (metis visible_simps(2))

lemma trim_visible_nonempty: "visible s \<noteq> [] \<Longrightarrow> js_trim s \<noteq> []"
  using visible_trim[of s] by auto

lemma chunk_of_text: "ck_text (chunk_of sha connection document s) = s"
  by (simp add: chunk_of_def)

lemma piece_has_chunk:
  assumes "section0 \<in> set (splitOnHeadings (dm_markdown document))"
    and "piece \<in> set (section_pieces (max_tokens options) (coalesce (co_overlap options) DEFAULT_OVERLAP) section0)"
    and "visible piece \<noteq> []"
  shows "\<exists>c \<in> set (chunkDocument sha connection document options). visible (ck_text c) = visible piece"
proof (rule bexI[of _ "chunk_of sha connection document (js_trim piece)"])
  show "visible (ck_text (chunk_of sha connection document (js_trim piece))) = visible piece"
    by (simp add: chunk_of_text visible_trim)
  show "chunk_of sha connection document (js_trim piece) \<in> set (chunkDocument sha connection document options)"
    using assms trim_visible_nonempty[of piece] by (force simp: chunkDocument_def)
qed



section \<open>Hashes\<close>

text \<open>Collapsing and trimming leaves the words, one space apart.\<close>

definition rtrim :: "string \<Rightarrow> string" where
  "rtrim s = rev (dropWhile js_ws (rev s))"

lemma js_trim_rtrim: "js_trim s = rtrim (dropWhile js_ws s)"
  by (simp add: js_trim_def rtrim_def)

lemma rtrim_snoc: "\<not> js_ws c \<Longrightarrow> rtrim (s @ c # t) = s @ c # rtrim t"
  by (simp add: rtrim_def dropWhile_append3)

lemma rtrim_blank: "list_all js_ws t \<Longrightarrow> \<not> js_ws c \<Longrightarrow> rtrim (s @ c # t) = s @ [c]"
  using rtrim_snoc[of c s t] by (simp add: rtrim_def list_all_iff dropWhile_eq_Nil_conv)

lemma runs_skip: "js_runs_acc (\<lambda>c. \<not> js_ws c) [] (dropWhile js_ws s) = js_runs_acc (\<lambda>c. \<not> js_ws c) [] s"
  by (induction s) auto

lemma runs_acc_nonempty: "cur \<noteq> [] \<Longrightarrow> js_runs_acc p cur s \<noteq> []"
  by (induction p cur s rule: js_runs_acc.induct) auto

lemma collapse_ws_Cons:
  "collapse_ws (c # cs) = (if js_ws c then CHR '' '' # collapse_ws (dropWhile js_ws cs) else c # collapse_ws cs)"
  by (subst collapse_ws.simps) simp

lemma collapse_Nil [simp]: "collapse_ws [] = []"
  by (subst collapse_ws.simps) simp

lemma space_ws: "js_ws CHR '' ''"
  by (simp add: js_ws_def)

lemma join_Cons: "rs \<noteq> [] \<Longrightarrow> js_join sep (x # rs) = x @ sep @ js_join sep rs"
  by (cases rs) simp_all

lemma rtrim_words:
  "acc \<noteq> [] \<Longrightarrow> list_all (\<lambda>c. \<not> js_ws c) acc \<Longrightarrow>
     rtrim (acc @ collapse_ws s) = js_join '' '' (js_runs_acc (\<lambda>c. \<not> js_ws c) acc s)"
proof (induction "length s" arbitrary: acc s rule: less_induct)
  case less
  let ?runs = "js_runs_acc (\<lambda>c. \<not> js_ws c)"
  obtain front c where acc: "acc = front @ [c]" "\<not> js_ws c"
    using less.prems by (cases acc rule: rev_cases) auto
  show ?case
  proof (cases s)
    case Nil
    then show ?thesis using acc rtrim_snoc[of c front "[]"] by (simp add: rtrim_def)
  next
    case (Cons d ds)
    show ?thesis
    proof (cases "js_ws d")
      case False
      then show ?thesis using less.hyps[of ds "acc @ [d]"] less.prems Cons by (simp add: collapse_ws_Cons)
    next
      case True
      have runs: "?runs acc s = acc # ?runs [] (dropWhile js_ws ds)" using True Cons less.prems by (simp add: runs_skip)
      have collapsed: "collapse_ws s = CHR '' '' # collapse_ws (dropWhile js_ws ds)" using True Cons by (simp add: collapse_ws_Cons)
      show ?thesis
      proof (cases "dropWhile js_ws ds")
        case Nil
        then show ?thesis
          unfolding runs collapsed Nil using acc rtrim_blank[of "'' ''" c front] space_ws by simp
      next
        case (Cons e es)
        have "length es < length s"
          using Cons \<open>s = d # ds\<close> length_dropWhile_le[of js_ws ds] by simp
        moreover have e: "\<not> js_ws e" using Cons hd_dropWhile[of js_ws ds] by force
        ultimately have "rtrim ([e] @ collapse_ws es) = js_join '' '' (?runs [e] es)" using less.hyps[of es "[e]"] by simp
        then have "e # rtrim (collapse_ws es) = js_join '' '' (?runs [e] es)" using rtrim_snoc[of e "[]"] e by simp
        then show ?thesis
          unfolding runs collapsed Cons
          using e rtrim_snoc[of e "acc @ '' ''"] runs_acc_nonempty[of "[e]" _ es] by (simp add: collapse_ws_Cons join_Cons)
      qed
    qed
  qed
qed

lemma normalized_words: "js_trim (collapse_ws s) = words s"
proof -
  have skip: "dropWhile js_ws (collapse_ws s) = collapse_ws (dropWhile js_ws s)"
  proof (cases s)
    case (Cons c cs)
    show ?thesis
    proof (cases "js_ws c")
      case True
      have "dropWhile js_ws (collapse_ws (dropWhile js_ws cs)) = collapse_ws (dropWhile js_ws cs)"
      proof (cases "dropWhile js_ws cs")
        case (Cons e es)
        then have "\<not> js_ws e" using hd_dropWhile[of js_ws cs] by force
        then show ?thesis using Cons by (simp add: collapse_ws_Cons)
      qed (simp del: dropWhile_eq_Nil_conv)
      then show ?thesis using Cons True space_ws by (simp add: collapse_ws_Cons)
    qed (simp add: Cons collapse_ws_Cons)
  qed simp
  show ?thesis
  proof (cases "dropWhile js_ws s")
    case Nil
    then have "js_runs_acc (\<lambda>c. \<not> js_ws c) [] s = []" using runs_skip[of s] by (simp del: dropWhile_eq_Nil_conv)
    then show ?thesis using Nil skip by (simp add: js_trim_rtrim words_def js_runs_def rtrim_def del: dropWhile_eq_Nil_conv)
  next
    case (Cons e es)
    then have e: "\<not> js_ws e" using hd_dropWhile[of js_ws s] by force
    have "js_trim (collapse_ws s) = rtrim ([e] @ collapse_ws es)" using Cons skip e by (simp add: js_trim_rtrim collapse_ws_Cons)
    also have "\<dots> = js_join '' '' (js_runs_acc (\<lambda>c. \<not> js_ws c) [] (e # es))" using rtrim_words[of "[e]" es] e by simp
    also have "\<dots> = words s" using runs_skip[of s] Cons by (simp add: words_def js_runs_def)
    finally show ?thesis .
  qed
qed

text \<open>
  The content hash is the digest of the connection, the source and the words of the text: two
  texts of the same words, however they are spaced and wrapped, have the same hash, so a reflowed
  paragraph is not embedded again.
\<close>

theorem hash_depends_on_words_only:
  "hashChunk sha256 connectionId sourceId s =
     sha256 (connectionId @ [CHR 0x00] @ sourceId @ [CHR 0x00] @ js_join '' '' (js_runs (\<lambda>c. \<not> js_ws c) s))"
  using normalized_words[of s] by (simp add: hashChunk_def words_def)


section \<open>A limit that is not kept\<close>

text \<open>
  A section whose heading is followed by its text without a blank line is one paragraph, which is
  taken for the heading; the body is then empty, and the section is returned as it is, however long.
\<close>

lemma paragraph_split_plain: "newline \<notin> set s \<Longrightarrow> paragraph_split acc s = [acc @ s]"
proof (induction s arbitrary: acc)
  case (Cons c cs)
  then show ?case by (subst paragraph_split.simps) auto
qed (simp add: paragraph_split.simps)

lemma paragraph_split_one_break:
  assumes "newline \<notin> set t" "newline \<notin> set u" "u \<noteq> []"
  shows "paragraph_split acc (t @ newline # u) = [acc @ t @ newline # u]"
  using assms(1)
proof (induction t arbitrary: acc)
  case Nil
  obtain d ds where u: "u = d # ds" using assms(3) by (cases u) auto
  then have "paragraph_split acc (newline # u) = paragraph_split (acc @ [newline]) u"
    using assms(2) by (subst paragraph_split.simps) auto
  then show ?case using paragraph_split_plain[OF assms(2)] by simp
next
  case (Cons c cs)
  then show ?case by (subst paragraph_split.simps) auto
qed

definition long_section :: "nat \<Rightarrow> string" where
  "long_section n = ''# T'' @ newline # replicate n CHR ''x''"

lemma long_section_whole:
  assumes "0 < n"
  shows "splitOnParagraphs (long_section n) m overlap = [long_section n]"
proof -
  have "paragraph_split [] (long_section n) = [long_section n]"
    using paragraph_split_one_break[of "''# T''" "replicate n CHR ''x''" "[]"] assms by (simp add: long_section_def)
  moreover have "js_trim (long_section n) = long_section n"
    using assms by (cases n rule: nat.exhaust) (simp_all add: long_section_def js_trim_def js_ws_def replicate_append_same[symmetric] del: replicate.simps)
  moreover have "heading_line (long_section n)" by (simp add: heading_line_def long_section_def js_ws_def)
  ultimately show ?thesis by (simp add: splitOnParagraphs_def section_heading_def section_body_def)
qed

lemma long_section_alone: "0 < n \<Longrightarrow> splitOnHeadings (long_section n) = [long_section n]"
proof -
  assume n: "0 < n"
  have "js_split newline (long_section n) = [''# T'', replicate n CHR ''x'']"
    using js_split_component[of newline "''# T''" "replicate n CHR ''x''"] js_split_plain[of newline "replicate n CHR ''x''"]
    by (simp add: long_section_def)
  moreover have "\<not> heading_line (replicate n CHR ''x'')" using n by (cases n) (simp_all add: heading_line_def)
  ultimately show ?thesis by (simp add: splitOnHeadings_def long_section_def)
qed

lemma long_section_tokens: "approxTokens (long_section n) = (int n + 7) div 4"
  by (simp add: approxTokens_def long_section_def)

text \<open>
  The limit on a chunk is not always kept: a document whose heading is followed directly by its text,
  with no blank line, is one chunk however long it is, above the cap that keeps a chunk
  embeddable, whatever limit and overlap are configured.
\<close>

theorem heading_paragraph_exceeds_the_cap:
  assumes "24000 \<le> n" and "dm_markdown document = long_section n"
  shows "chunkDocument sha connection document options = [chunk_of sha connection document (long_section n)] \<and>
    MAX_CHUNK_TOKENS < approxTokens (ck_text (chunk_of sha connection document (long_section n)))"
proof -
  have n: "0 < n" using assms(1) by simp
  have big: "MAX_CHUNK_TOKENS < approxTokens (long_section n)"
    using assms(1) unfolding long_section_tokens MAX_CHUNK_TOKENS_def by linarith
  then have "\<not> approxTokens (long_section n) \<le> max_tokens options" by (simp add: max_tokens_def)
  moreover have "js_trim (long_section n) = long_section n"
    using n by (cases n rule: nat.exhaust) (simp_all add: long_section_def js_trim_def js_ws_def replicate_append_same[symmetric] del: replicate.simps)
  moreover have "long_section n \<noteq> []" by (simp add: long_section_def)
  ultimately show ?thesis
    using big assms(2) long_section_alone[OF n] long_section_whole[OF n] by (simp add: chunkDocument_def section_pieces_def chunk_of_text)
qed

definition document_ex :: "string \<Rightarrow> Document" where
  "document_ex markdown =
     \<lparr>rf_id = ''17'', rf_title = ''T'', rf_url = ''https://x/17'', rf_version = Some ''3'', rf_updatedAt = None, rf_acl = None,
      dm_markdown = markdown\<rparr>"

theorem heading_paragraph_exceeds_the_cap_witness:
  "length (chunkDocument (\<lambda>s. s) (''eng'', ''eng'') (document_ex (long_section 24000)) \<lparr>co_maxTokens = None, co_overlap = None\<rparr>) = 1"
  using heading_paragraph_exceeds_the_cap[of 24000 "document_ex (long_section 24000)" "\<lambda>s. s" "(''eng'', ''eng'')"
      "\<lparr>co_maxTokens = None, co_overlap = None\<rparr>"]
  by (simp add: document_ex_def)

end
