(* ===== verification/Sync_Worker.thy ===== *)
theory Sync_Worker
  imports Sync_Chunk
begin

text \<open>
  One sync pass (\<open>apps/connection-broker/src/sync\<close>): the plan of a pass (\<open>reconcile.ts\<close>) and the
  worker that reads the source, compares and writes (\<open>worker.ts\<close>). The source and the writer are
  strategies over the log of the calls.
\<close>

section \<open>The plan\<close>

record IndexedChunk =
  ix_contentHash :: string
  ix_sourceId :: string

datatype ReconcileScope = FullScope | PartialScope "string list"

record ReconcilePlan =
  rp_upsert :: "Chunk list"
  rp_remove :: "string list"
  rp_unchanged :: nat

record reconcile_state =
  rs_upsert :: "Chunk list"
  rs_unchanged :: nat
  rs_seen :: "string list"

definition reconcile_step :: "string set \<Rightarrow> Chunk \<Rightarrow> reconcile_state \<Rightarrow> reconcile_state" where
  "reconcile_step indexedHashes chunk st =
     (if ck_contentHash chunk \<in> set (rs_seen st) then st
      else
        (let st' = st\<lparr>rs_seen := rs_seen st @ [ck_contentHash chunk]\<rparr> in
         if ck_contentHash chunk \<in> indexedHashes then st'\<lparr>rs_unchanged := Suc (rs_unchanged st)\<rparr>
         else st'\<lparr>rs_upsert := rs_upsert st @ [chunk]\<rparr>))"

definition deletionScope :: "ReconcileScope \<Rightarrow> string \<Rightarrow> bool" where
  "deletionScope scope sourceId \<longleftrightarrow> (case scope of FullScope \<Rightarrow> True | PartialScope touched \<Rightarrow> sourceId \<in> set touched)"

definition reconcile :: "Chunk list \<Rightarrow> IndexedChunk list \<Rightarrow> ReconcileScope \<Rightarrow> ReconcilePlan" where
  "reconcile current indexed scope =
     (let st = fold (reconcile_step (ix_contentHash ` set indexed)) current \<lparr>rs_upsert = [], rs_unchanged = 0, rs_seen = []\<rparr> in
      \<lparr>rp_upsert = rs_upsert st,
       rp_remove = map ix_contentHash (filter (\<lambda>chunk. deletionScope scope (ix_sourceId chunk) \<and>
          ix_contentHash chunk \<notin> set (rs_seen st)) indexed),
       rp_unchanged = rs_unchanged st\<rparr>)"

text \<open>What is indexed once a plan has been carried out: points are keyed by their hash.\<close>

definition index_entry :: "Chunk \<Rightarrow> IndexedChunk" where
  "index_entry chunk = \<lparr>ix_contentHash = ck_contentHash chunk, ix_sourceId = ck_sourceId chunk\<rparr>"

definition carried_out :: "ReconcilePlan \<Rightarrow> IndexedChunk list \<Rightarrow> IndexedChunk list" where
  "carried_out plan indexed =
     filter (\<lambda>i. ix_contentHash i \<notin> set (rp_remove plan)) (indexed @ map index_entry (rp_upsert plan))"

definition reconciled :: "string set \<Rightarrow> Chunk set \<Rightarrow> reconcile_state \<Rightarrow> bool" where
  "reconciled H examined st \<longleftrightarrow>
     set (rs_seen st) = ck_contentHash ` examined \<and> set (rs_upsert st) \<subseteq> examined \<and>
     ck_contentHash ` set (rs_upsert st) = set (rs_seen st) - H \<and> distinct (map ck_contentHash (rs_upsert st)) \<and>
     rs_unchanged st = card (set (rs_seen st) \<inter> H)"

lemma reconcile_step_inv:
  assumes "reconciled H examined st"
  shows "reconciled H (insert c examined) (reconcile_step H c st)"
proof -
  let ?h = "ck_contentHash c"
  note inv = assms[unfolded reconciled_def]
  consider "?h \<in> set (rs_seen st)" | "?h \<notin> set (rs_seen st)" "?h \<in> H" | "?h \<notin> set (rs_seen st)" "?h \<notin> H" by blast
  then show ?thesis
  proof cases
    case 1
    then show ?thesis using inv by (auto simp: reconciled_def reconcile_step_def)
  next
    case 2
    have "insert ?h (set (rs_seen st)) \<inter> H = insert ?h (set (rs_seen st) \<inter> H)" using 2 by blast
    moreover have "finite (set (rs_seen st) \<inter> H)" by simp
    ultimately show ?thesis
      using inv 2 unfolding reconciled_def reconcile_step_def Let_def by (auto simp del: finite_Int)
  next
    case 3
    have "?h \<notin> ck_contentHash ` set (rs_upsert st)" "insert ?h (set (rs_seen st)) \<inter> H = set (rs_seen st) \<inter> H"
      using inv 3 by blast+
    then show ?thesis using inv 3 unfolding reconciled_def reconcile_step_def Let_def by auto
  qed
qed

lemma reconcile_fold_inv:
  "reconciled H examined st \<Longrightarrow> reconciled H (set current \<union> examined) (fold (reconcile_step H) current st)"
proof (induction current arbitrary: st examined)
  case (Cons c cs)
  from Cons.IH[OF reconcile_step_inv[OF Cons.prems, of c]] show ?case by simp
qed simp

definition hashes_of :: "Chunk list \<Rightarrow> string set" where
  "hashes_of chunks = ck_contentHash ` set chunks"

definition indexed_hashes :: "IndexedChunk list \<Rightarrow> string set" where
  "indexed_hashes indexed = ix_contentHash ` set indexed"

lemma reconcile_facts:
  shows "hashes_of (rp_upsert (reconcile current indexed scope)) = hashes_of current - indexed_hashes indexed"
    and "set (rp_remove (reconcile current indexed scope)) =
      ix_contentHash ` {i \<in> set indexed. deletionScope scope (ix_sourceId i)} - hashes_of current"
    and "set (rp_upsert (reconcile current indexed scope)) \<subseteq> set current"
    and "distinct (map ck_contentHash (rp_upsert (reconcile current indexed scope)))"
    and "rp_unchanged (reconcile current indexed scope) = card (hashes_of current \<inter> indexed_hashes indexed)"
proof -
  let ?st0 = "\<lparr>rs_upsert = [], rs_unchanged = 0, rs_seen = []\<rparr> :: reconcile_state"
  have "reconciled (indexed_hashes indexed) {} ?st0" by (simp add: reconciled_def)
  note f = reconcile_fold_inv[OF this, of current, unfolded reconciled_def]
  show "hashes_of (rp_upsert (reconcile current indexed scope)) = hashes_of current - indexed_hashes indexed"
    using f by (simp add: reconcile_def Let_def hashes_of_def indexed_hashes_def)
  show "set (rp_remove (reconcile current indexed scope)) =
      ix_contentHash ` {i \<in> set indexed. deletionScope scope (ix_sourceId i)} - hashes_of current"
    using f by (auto simp: reconcile_def Let_def hashes_of_def indexed_hashes_def)
  show "set (rp_upsert (reconcile current indexed scope)) \<subseteq> set current"
    using f by (simp add: reconcile_def Let_def indexed_hashes_def)
  show "distinct (map ck_contentHash (rp_upsert (reconcile current indexed scope)))"
    using f by (simp add: reconcile_def Let_def indexed_hashes_def)
  show "rp_unchanged (reconcile current indexed scope) = card (hashes_of current \<inter> indexed_hashes indexed)"
    using f by (simp add: reconcile_def Let_def hashes_of_def indexed_hashes_def)
qed

text \<open>
  C32. After a pass the index holds what the pass found. Carrying out the plan leaves every current
  chunk indexed and removes nothing a partial pass did not examine; after a full pass nothing else
  is indexed at all; no chunk is embedded that was indexed already, and none twice; and planning
  again at once finds nothing to write and nothing to remove.
\<close>

theorem reconcile_converges:
  "(let plan = reconcile current indexed scope; after = carried_out plan indexed; again = reconcile current after scope in
    hashes_of current \<subseteq> indexed_hashes after \<and>
    indexed_hashes after = hashes_of current \<union> (indexed_hashes indexed - set (rp_remove plan)) \<and>
    set (rp_remove plan) = ix_contentHash ` {i \<in> set indexed. deletionScope scope (ix_sourceId i)} - hashes_of current \<and>
    (case scope of FullScope \<Rightarrow> indexed_hashes after = hashes_of current | PartialScope _ \<Rightarrow> True) \<and>
    hashes_of (rp_upsert plan) \<inter> indexed_hashes indexed = {} \<and> distinct (map ck_contentHash (rp_upsert plan)) \<and>
    rp_upsert again = [] \<and> rp_unchanged again = card (hashes_of current))"
proof -
  let ?plan = "reconcile current indexed scope"
  let ?after = "carried_out ?plan indexed"
  note f = reconcile_facts[of current indexed scope]
  have "indexed_hashes ?after = (indexed_hashes indexed \<union> hashes_of (rp_upsert ?plan)) - set (rp_remove ?plan)"
  proof -
    have image: "ix_contentHash ` {i \<in> A. ix_contentHash i \<notin> R} = ix_contentHash ` A - R" for A R by blast
    show ?thesis
      unfolding carried_out_def indexed_hashes_def hashes_of_def set_filter image
      by (simp add: image_Un image_image index_entry_def)
  qed
  then have after: "indexed_hashes ?after = hashes_of current \<union> (indexed_hashes indexed - set (rp_remove ?plan))"
    unfolding f(1, 2) by blast
  have full: "case scope of FullScope \<Rightarrow> indexed_hashes ?after = hashes_of current | PartialScope _ \<Rightarrow> True"
    unfolding after using f(2) by (auto simp: deletionScope_def indexed_hashes_def split: ReconcileScope.split)
  have "hashes_of (rp_upsert (reconcile current ?after scope)) = {}"
    unfolding reconcile_facts(1) after by blast
  then have upsert: "rp_upsert (reconcile current ?after scope) = []" by (simp add: hashes_of_def)
  have unchanged: "rp_unchanged (reconcile current ?after scope) = card (hashes_of current)"
    using reconcile_facts(5)[of current ?after scope] after by (simp add: Int_absorb2)
  show ?thesis
    unfolding Let_def using after full upsert unchanged f(1, 2, 4) by (intro conjI) auto
qed


section \<open>The worker\<close>

datatype sync_event =
    SList string "string option" "broker_error + ListPage"
  | SFetch string string "broker_error + Document"
  | SIndexed string "broker_error + IndexedChunk list"
  | SUpsert string "Chunk list" "broker_error + unit"
  | SRemove string "string list" "broker_error + unit"

type_synonym 'a sync_eff = "(sync_event, broker_error, 'a) eff"

record sync_env =
  se_list :: "sync_event list \<Rightarrow> string \<Rightarrow> string option \<Rightarrow> broker_error + ListPage"
  se_fetch :: "sync_event list \<Rightarrow> string \<Rightarrow> string \<Rightarrow> broker_error + Document"
  se_indexed :: "sync_event list \<Rightarrow> string \<Rightarrow> broker_error + IndexedChunk list"
  se_upsert :: "sync_event list \<Rightarrow> string \<Rightarrow> Chunk list \<Rightarrow> broker_error + unit"
  se_remove :: "sync_event list \<Rightarrow> string \<Rightarrow> string list \<Rightarrow> broker_error + unit"
  se_sha256 :: "string \<Rightarrow> string"

record SyncTarget =
  st_connection :: string
  st_label :: string
  st_collection :: string
  st_chunking :: "ChunkOptions option"

record SyncOptions =
  sn_onlySourceIds :: "string list option"
  sn_maxPages :: "nat option"

record WorkerReport =
  wk_connection :: string
  wk_indexed :: nat
  wk_removed :: nat
  wk_unchanged :: nat
  wk_failed :: "string list"
  wk_full :: bool

definition DEFAULT_MAX_PAGES :: nat where "DEFAULT_MAX_PAGES = 1000"

text \<open>Only the ids of the resources are read.\<close>

fun walk_pages :: "sync_env \<Rightarrow> string \<Rightarrow> nat \<Rightarrow> nat \<Rightarrow> string option \<Rightarrow> string list sync_eff" where
  "walk_pages env connection maxPages 0 cursor =
     throw_e (OtherFailure (connection @ '' did not finish listing within '' @ js_nat_string maxPages @ '' pages''))"
| "walk_pages env connection maxPages (Suc left) cursor =
     bind_e (call_e (\<lambda>log. se_list env log connection cursor) (SList connection cursor)) (\<lambda>page.
       (let ids = map rf_id (lp_resources page) in
        if \<not> truthy_str (lp_cursor page) then return_e ids
        else bind_e (walk_pages env connection maxPages left (lp_cursor page)) (\<lambda>more. return_e (ids @ more))))"

definition walk :: "sync_env \<Rightarrow> string \<Rightarrow> nat \<Rightarrow> string list sync_eff" where
  "walk env connection maxPages = walk_pages env connection maxPages maxPages None"

record fetch_state =
  fs_chunks :: "Chunk list"
  fs_fetched :: "string list"
  fs_failed :: "string list"

definition empty_chunking :: ChunkOptions where
  "empty_chunking = \<lparr>co_maxTokens = None, co_overlap = None\<rparr>"

definition target_chunks :: "sync_env \<Rightarrow> SyncTarget \<Rightarrow> Document \<Rightarrow> Chunk list" where
  "target_chunks env target document =
     chunkDocument (se_sha256 env) (st_connection target, st_label target) document (coalesce (st_chunking target) empty_chunking)"

fun fetch_each :: "sync_env \<Rightarrow> SyncTarget \<Rightarrow> string list \<Rightarrow> fetch_state \<Rightarrow> fetch_state sync_eff" where
  "fetch_each env target [] st = return_e st"
| "fetch_each env target (rid # rids) st =
     bind_e (try_e (call_e (\<lambda>log. se_fetch env log (st_connection target) rid) (SFetch (st_connection target) rid))) (\<lambda>r.
       case r of
         Inl _ \<Rightarrow> fetch_each env target rids (st\<lparr>fs_failed := fs_failed st @ [rid]\<rparr>)
       | Inr document \<Rightarrow>
           fetch_each env target rids
             (st\<lparr>fs_fetched := fs_fetched st @ [rid], fs_chunks := fs_chunks st @ target_chunks env target document\<rparr>))"

definition pass_scope :: "bool \<Rightarrow> fetch_state \<Rightarrow> ReconcileScope" where
  "pass_scope full st = (if full \<and> fs_failed st = [] then FullScope else PartialScope (fs_fetched st))"

definition write_plan :: "sync_env \<Rightarrow> string \<Rightarrow> ReconcilePlan \<Rightarrow> unit sync_eff" where
  "write_plan env collection plan =
     bind_e (if rp_upsert plan \<noteq> []
             then call_e (\<lambda>log. se_upsert env log collection (rp_upsert plan)) (SUpsert collection (rp_upsert plan))
             else return_e ()) (\<lambda>_.
       if rp_remove plan \<noteq> []
       then call_e (\<lambda>log. se_remove env log collection (rp_remove plan)) (SRemove collection (rp_remove plan))
       else return_e ())"

definition syncConnection :: "sync_env \<Rightarrow> SyncTarget \<Rightarrow> SyncOptions \<Rightarrow> WorkerReport sync_eff" where
  "syncConnection env target options =
     bind_e (case sn_onlySourceIds options of
               None \<Rightarrow> walk env (st_connection target) (coalesce (sn_maxPages options) DEFAULT_MAX_PAGES)
             | Some ids \<Rightarrow> return_e ids) (\<lambda>refs.
       bind_e (fetch_each env target refs \<lparr>fs_chunks = [], fs_fetched = [], fs_failed = []\<rparr>) (\<lambda>st.
         bind_e (call_e (\<lambda>log. se_indexed env log (st_collection target)) (SIndexed (st_collection target))) (\<lambda>indexed.
           (let scope = pass_scope (sn_onlySourceIds options = None) st; plan = reconcile (fs_chunks st) indexed scope in
            bind_e (write_plan env (st_collection target) plan) (\<lambda>_.
              return_e \<lparr>wk_connection = st_connection target, wk_indexed = length (rp_upsert plan),
                wk_removed = length (rp_remove plan), wk_unchanged = rp_unchanged plan, wk_failed = fs_failed st,
                wk_full = (scope = FullScope)\<rparr>)))))"


section \<open>What a pass reads\<close>

definition page_ids :: "sync_event \<Rightarrow> string list" where
  "page_ids e = (case e of SList _ _ (Inr page) \<Rightarrow> map rf_id (lp_resources page) | _ \<Rightarrow> [])"

definition page_event :: "string \<Rightarrow> sync_event \<Rightarrow> bool" where
  "page_event connection e \<longleftrightarrow> (case e of SList c _ (Inr _) \<Rightarrow> c = connection | _ \<Rightarrow> False)"

definition last_page :: "sync_event \<Rightarrow> bool" where
  "last_page e \<longleftrightarrow> (case e of SList _ _ (Inr page) \<Rightarrow> \<not> truthy_str (lp_cursor page) | _ \<Rightarrow> False)"

definition listing_event :: "sync_event \<Rightarrow> bool" where
  "listing_event e \<longleftrightarrow> (case e of SList _ _ _ \<Rightarrow> True | _ \<Rightarrow> False)"

definition walked :: "string \<Rightarrow> nat \<Rightarrow> broker_error + string list \<Rightarrow> sync_event list \<Rightarrow> bool" where
  "walked connection bound r new \<longleftrightarrow>
     list_all listing_event new \<and> length new \<le> bound \<and>
     (case r of
        Inl _ \<Rightarrow> True
      | Inr ids \<Rightarrow> new \<noteq> [] \<and> list_all (page_event connection) new \<and> ids = concat (map page_ids new) \<and> last_page (last new))"

lemma walk_does: "does (walk_pages env connection maxPages left cursor) (walked connection left)"
proof (induction left arbitrary: cursor)
  case 0
  then show ?case by (simp add: does_throw walked_def)
next
  case (Suc left)
  have call: "does (call_e (\<lambda>log. se_list env log connection cursor) (SList connection cursor))
      (\<lambda>r new. new = [SList connection cursor r])"
    by (simp add: does_call)
  show ?case
    unfolding walk_pages.simps Let_def
  proof (rule does_bind[OF call])
    show "walked connection (Suc left) (Inl e) new" if "new = [SList connection cursor (Inl e)]" for e new
      using that by (simp add: walked_def listing_event_def)
    fix page :: ListPage and first
    assume first: "first = [SList connection cursor (Inr page)]"
    show "does (if \<not> truthy_str (lp_cursor page) then return_e (map rf_id (lp_resources page))
        else bind_e (walk_pages env connection maxPages left (lp_cursor page)) (\<lambda>more. return_e (map rf_id (lp_resources page) @ more)))
      (\<lambda>r new. walked connection (Suc left) r (first @ new))"
    proof (intro does_if does_return does_bind[OF Suc])
      show "walked connection (Suc left) (Inr (map rf_id (lp_resources page))) (first @ [])" if "\<not> truthy_str (lp_cursor page)"
        using that first by (simp add: walked_def page_event_def page_ids_def last_page_def listing_event_def)
      show "walked connection (Suc left) (Inl e) (first @ new)" if "walked connection left (Inl e) new" for e new
        using that first by (simp add: walked_def listing_event_def)
      show "walked connection (Suc left) (Inr (map rf_id (lp_resources page) @ more)) (first @ new @ [])"
        if "walked connection left (Inr more) new" for more new
        using that first by (simp add: walked_def page_event_def page_ids_def last_page_def listing_event_def)
    qed
  qed
qed

definition fetched_id :: "sync_event \<Rightarrow> string list" where
  "fetched_id e = (case e of SFetch _ rid (Inr _) \<Rightarrow> [rid] | _ \<Rightarrow> [])"

definition failed_id :: "sync_event \<Rightarrow> string list" where
  "failed_id e = (case e of SFetch _ rid (Inl _) \<Rightarrow> [rid] | _ \<Rightarrow> [])"

definition fetched_chunks :: "sync_env \<Rightarrow> SyncTarget \<Rightarrow> sync_event \<Rightarrow> Chunk list" where
  "fetched_chunks env target e = (case e of SFetch _ _ (Inr document) \<Rightarrow> target_chunks env target document | _ \<Rightarrow> [])"

definition fetch_event :: "string \<Rightarrow> string \<Rightarrow> sync_event \<Rightarrow> bool" where
  "fetch_event connection rid e \<longleftrightarrow> (case e of SFetch c i _ \<Rightarrow> c = connection \<and> i = rid | _ \<Rightarrow> False)"

definition fetched_all :: "sync_env \<Rightarrow> SyncTarget \<Rightarrow> string list \<Rightarrow> fetch_state \<Rightarrow> broker_error + fetch_state \<Rightarrow> sync_event list \<Rightarrow> bool" where
  "fetched_all env target rids st r new \<longleftrightarrow>
     list_all2 (fetch_event (st_connection target)) rids new \<and>
     r = Inr \<lparr>fs_chunks = fs_chunks st @ concat (map (fetched_chunks env target) new),
       fs_fetched = fs_fetched st @ concat (map fetched_id new), fs_failed = fs_failed st @ concat (map failed_id new)\<rparr>"

lemma fetch_does: "does (fetch_each env target rids st) (fetched_all env target rids st)"
proof (induction rids arbitrary: st)
  case Nil
  then show ?case by (simp add: does_return fetched_all_def)
next
  case (Cons rid rids)
  note event_defs = fetch_event_def fetched_id_def failed_id_def fetched_chunks_def
  show ?case
    unfolding fetch_each.simps
  proof (rule does_bind[OF does_try_call])
    show "fetched_all env target (rid # rids) st (Inl e) new"
      if "\<exists>a. Inl e = (Inr a :: broker_error + (broker_error + Document)) \<and> new = [SFetch (st_connection target) rid a]" for e new
      using that by simp
    fix r :: "broker_error + Document" and first
    assume "\<exists>a. Inr r = (Inr a :: broker_error + (broker_error + Document)) \<and> first = [SFetch (st_connection target) rid a]"
    then have first: "first = [SFetch (st_connection target) rid r]" by simp
    show "does (case r of
        Inl _ \<Rightarrow> fetch_each env target rids (st\<lparr>fs_failed := fs_failed st @ [rid]\<rparr>)
      | Inr document \<Rightarrow> fetch_each env target rids
          (st\<lparr>fs_fetched := fs_fetched st @ [rid], fs_chunks := fs_chunks st @ target_chunks env target document\<rparr>))
      (\<lambda>r new. fetched_all env target (rid # rids) st r (first @ new))"
      using first by (cases r) (auto intro!: does_mono[OF Cons] simp: fetched_all_def event_defs)
  qed
qed


section \<open>What a pass writes\<close>

definition upsert_events :: "string \<Rightarrow> ReconcilePlan \<Rightarrow> broker_error + unit \<Rightarrow> sync_event list" where
  "upsert_events collection plan a = (if rp_upsert plan = [] then [] else [SUpsert collection (rp_upsert plan) a])"

definition remove_events :: "string \<Rightarrow> ReconcilePlan \<Rightarrow> broker_error + unit \<Rightarrow> sync_event list" where
  "remove_events collection plan a = (if rp_remove plan = [] then [] else [SRemove collection (rp_remove plan) a])"

text \<open>The writes of a plan: first the upsert, then, if it succeeded, the removal.\<close>

definition written :: "string \<Rightarrow> ReconcilePlan \<Rightarrow> broker_error + unit \<Rightarrow> sync_event list \<Rightarrow> bool" where
  "written collection plan r new \<longleftrightarrow>
     (\<exists>e. r = Inl e \<and> new = upsert_events collection plan (Inl e)) \<or>
     new = upsert_events collection plan (Inr ()) @ remove_events collection plan r"

lemma write_does: "does (write_plan env collection plan) (written collection plan)"
proof -
  have up: "does (if rp_upsert plan \<noteq> [] then call_e (\<lambda>log. se_upsert env log collection (rp_upsert plan)) (SUpsert collection (rp_upsert plan))
      else return_e ()) (\<lambda>r new. new = upsert_events collection plan r \<and> (rp_upsert plan \<noteq> [] \<or> r = Inr ()))"
    by (intro does_if does_call does_return) (simp_all add: upsert_events_def)
  show ?thesis
    unfolding write_plan_def
    by (rule does_bind[OF up]) (auto intro!: does_if does_call does_return simp: written_def remove_events_def upsert_events_def)
qed

definition reading_event :: "sync_event \<Rightarrow> bool" where
  "reading_event e \<longleftrightarrow> (case e of SUpsert _ _ _ \<Rightarrow> False | SRemove _ _ _ \<Rightarrow> False | _ \<Rightarrow> True)"

definition pass_refs :: "SyncTarget \<Rightarrow> SyncOptions \<Rightarrow> string list \<Rightarrow> sync_event list \<Rightarrow> bool" where
  "pass_refs target options refs w \<longleftrightarrow>
     (case sn_onlySourceIds options of
        None \<Rightarrow> walked (st_connection target) (coalesce (sn_maxPages options) DEFAULT_MAX_PAGES) (Inr refs) w
      | Some ids \<Rightarrow> w = [] \<and> refs = ids)"

definition fetch_result :: "sync_env \<Rightarrow> SyncTarget \<Rightarrow> sync_event list \<Rightarrow> fetch_state" where
  "fetch_result env target f =
     \<lparr>fs_chunks = concat (map (fetched_chunks env target) f), fs_fetched = concat (map fetched_id f), fs_failed = concat (map failed_id f)\<rparr>"

definition pass_plan :: "sync_env \<Rightarrow> SyncTarget \<Rightarrow> SyncOptions \<Rightarrow> sync_event list \<Rightarrow> IndexedChunk list \<Rightarrow> ReconcilePlan" where
  "pass_plan env target options f indexed =
     reconcile (fs_chunks (fetch_result env target f)) indexed
       (pass_scope (sn_onlySourceIds options = None) (fetch_result env target f))"

definition pass_report :: "sync_env \<Rightarrow> SyncTarget \<Rightarrow> SyncOptions \<Rightarrow> sync_event list \<Rightarrow> IndexedChunk list \<Rightarrow> WorkerReport" where
  "pass_report env target options f indexed =
     (let plan = pass_plan env target options f indexed in
      \<lparr>wk_connection = st_connection target, wk_indexed = length (rp_upsert plan), wk_removed = length (rp_remove plan),
       wk_unchanged = rp_unchanged plan, wk_failed = fs_failed (fetch_result env target f),
       wk_full = (pass_scope (sn_onlySourceIds options = None) (fetch_result env target f) = FullScope)\<rparr>)"

text \<open>A pass as a whole: it ended while reading, or it read everything, asked for the index and wrote its plan.\<close>

definition whole_pass :: "sync_env \<Rightarrow> SyncTarget \<Rightarrow> SyncOptions \<Rightarrow> broker_error + WorkerReport \<Rightarrow> sync_event list \<Rightarrow> bool" where
  "whole_pass env target options r new \<longleftrightarrow>
     (\<exists>e. r = Inl e \<and> list_all reading_event new) \<or>
     (\<exists>refs w f indexed wr x.
        new = w @ f @ [SIndexed (st_collection target) (Inr indexed)] @ wr \<and> pass_refs target options refs w \<and>
        list_all2 (fetch_event (st_connection target)) refs f \<and>
        written (st_collection target) (pass_plan env target options f indexed) x wr \<and>
        r = map_sum id (\<lambda>_. pass_report env target options f indexed) x)"

lemma reading_lists: "list_all listing_event new \<Longrightarrow> list_all reading_event new"
  by (induction new) (auto simp: listing_event_def reading_event_def split: sync_event.splits)

lemma reading_fetches: "list_all2 (fetch_event c) refs f \<Longrightarrow> list_all reading_event f"
  by (induction rule: list_all2_induct) (auto simp: fetch_event_def reading_event_def split: sync_event.splits)

lemma refs_does:
  "does (case sn_onlySourceIds options of
       None \<Rightarrow> walk env (st_connection target) (coalesce (sn_maxPages options) DEFAULT_MAX_PAGES)
     | Some ids \<Rightarrow> return_e ids)
   (\<lambda>r new. list_all listing_event new \<and> (case r of Inl _ \<Rightarrow> True | Inr refs \<Rightarrow> pass_refs target options refs new))"
proof (cases "sn_onlySourceIds options")
  case None
  then show ?thesis
    unfolding walk_def by (auto intro!: does_mono[OF walk_does] simp: pass_refs_def walked_def split: sum.splits)
next
  case (Some ids)
  then show ?thesis by (simp add: does_return pass_refs_def)
qed

lemma pass_does: "does (syncConnection env target options) (whole_pass env target options)"
  unfolding syncConnection_def
proof (rule does_bind[OF refs_does])
  show "whole_pass env target options (Inl e) new"
    if "list_all listing_event new \<and> (case Inl e of Inl _ \<Rightarrow> True | Inr refs \<Rightarrow> pass_refs target options refs new)" for e new
    using that reading_lists by (auto simp: whole_pass_def)
  fix refs w
  assume w: "list_all listing_event w \<and> (case Inr refs of Inl _ \<Rightarrow> True | Inr refs \<Rightarrow> pass_refs target options refs w)"
  let ?call = "call_e (\<lambda>log. se_indexed env log (st_collection target)) (SIndexed (st_collection target))"
  have idx: "does ?call (\<lambda>r new. new = [SIndexed (st_collection target) r])" by (simp add: does_call)
  show "does (bind_e (fetch_each env target refs \<lparr>fs_chunks = [], fs_fetched = [], fs_failed = []\<rparr>) (\<lambda>st.
      bind_e ?call (\<lambda>indexed.
        (let scope = pass_scope (sn_onlySourceIds options = None) st; plan = reconcile (fs_chunks st) indexed scope in
         bind_e (write_plan env (st_collection target) plan) (\<lambda>_.
           return_e \<lparr>wk_connection = st_connection target, wk_indexed = length (rp_upsert plan),
             wk_removed = length (rp_remove plan), wk_unchanged = rp_unchanged plan, wk_failed = fs_failed st,
             wk_full = (scope = FullScope)\<rparr>)))))
     (\<lambda>r new. whole_pass env target options r (w @ new))"
  proof (rule does_bind[OF fetch_does], simp add: fetched_all_def, rule does_bind[OF idx])
    fix st f
    assume "fetched_all env target refs \<lparr>fs_chunks = [], fs_fetched = [], fs_failed = []\<rparr> (Inr st) f"
    then have f: "list_all2 (fetch_event (st_connection target)) refs f" and st: "st = fetch_result env target f"
      by (simp_all add: fetched_all_def fetch_result_def)
    have reads: "list_all reading_event (w @ f)" using w f reading_lists reading_fetches by auto
    show "whole_pass env target options (Inl e) (w @ f @ new)" if "new = [SIndexed (st_collection target) (Inl e)]" for e new
      using that reads by (simp add: whole_pass_def reading_event_def)
    fix indexed first
    assume first: "first = [SIndexed (st_collection target) (Inr indexed)]"
    let ?plan = "pass_plan env target options f indexed"
    have done_pass: "whole_pass env target options (map_sum id (\<lambda>_. pass_report env target options f indexed) x) (w @ f @ first @ wr)"
      if "written (st_collection target) ?plan x wr" for x wr
      unfolding whole_pass_def
      by (rule disjI2, intro exI[of _ refs] exI[of _ w] exI[of _ f] exI[of _ indexed] exI[of _ wr] exI[of _ x] conjI)
        (use that first w f in simp_all)
    have "does (bind_e (write_plan env (st_collection target) ?plan) (\<lambda>_. return_e (pass_report env target options f indexed)))
        (\<lambda>r new. whole_pass env target options r (w @ f @ first @ new))"
      by (rule does_bind[OF write_does]) (use done_pass[of "Inl _"] done_pass[of "Inr ()"] in \<open>auto intro!: does_return\<close>)
    then show "does (let scope = pass_scope (sn_onlySourceIds options = None) st; plan = reconcile (fs_chunks st) indexed scope in
         bind_e (write_plan env (st_collection target) plan) (\<lambda>_.
           return_e \<lparr>wk_connection = st_connection target, wk_indexed = length (rp_upsert plan),
             wk_removed = length (rp_remove plan), wk_unchanged = rp_unchanged plan, wk_failed = fs_failed st,
             wk_full = (scope = FullScope)\<rparr>))
      (\<lambda>r new. whole_pass env target options r (w @ f @ first @ new))"
      by (simp add: st pass_plan_def pass_report_def Let_def)
  qed
qed


section \<open>What a pass may delete\<close>

definition fetched_ids :: "sync_event list \<Rightarrow> string list" where
  "fetched_ids new = concat (map fetched_id new)"

definition read_chunks_of :: "sync_env \<Rightarrow> SyncTarget \<Rightarrow> sync_event list \<Rightarrow> Chunk list" where
  "read_chunks_of env target new = concat (map (fetched_chunks env target) new)"

definition read_everything :: "SyncOptions \<Rightarrow> sync_event list \<Rightarrow> bool" where
  "read_everything options new \<longleftrightarrow>
     sn_onlySourceIds options = None \<and> list_all (\<lambda>e. failed_id e = []) new \<and> list_ex last_page new \<and>
     list_all (\<lambda>rid. rid \<in> set (fetched_ids new)) (concat (map page_ids new))"

definition removal_justified :: "sync_env \<Rightarrow> SyncTarget \<Rightarrow> SyncOptions \<Rightarrow> sync_event list \<Rightarrow> sync_event \<Rightarrow> bool" where
  "removal_justified env target options new e \<longleftrightarrow>
     (case e of
        SRemove collection hashes _ \<Rightarrow>
          list_ex (\<lambda>a. case a of
              SIndexed c (Inr indexed) \<Rightarrow>
                c = collection \<and>
                list_all (\<lambda>h.
                  h \<notin> hashes_of (read_chunks_of env target new) \<and>
                  list_ex (\<lambda>i. ix_contentHash i = h \<and> (ix_sourceId i \<in> set (fetched_ids new) \<or> read_everything options new)) indexed)
                hashes
            | _ \<Rightarrow> False) new
      | _ \<Rightarrow> True)"

lemmas reading_defs = fetched_id_def failed_id_def fetched_chunks_def page_ids_def

lemma listing_reads_nothing:
  "list_all listing_event w \<Longrightarrow> concat (map fetched_id w) = [] \<and> concat (map (fetched_chunks env target) w) = [] \<and> list_all (\<lambda>e. failed_id e = []) w"
  by (induction w) (auto simp: listing_event_def reading_defs split: sync_event.splits)

lemma writes_read_nothing:
  "written c plan x wr \<Longrightarrow> concat (map fetched_id wr) = [] \<and> concat (map (fetched_chunks env target) wr) = [] \<and>
    list_all (\<lambda>e. failed_id e = []) wr \<and> concat (map page_ids wr) = []"
  by (auto simp: written_def upsert_events_def remove_events_def reading_defs split: if_splits)

lemma fetching_lists_nothing: "list_all2 (fetch_event c) refs f \<Longrightarrow> concat (map page_ids f) = []"
  by (induction rule: list_all2_induct) (auto simp: fetch_event_def reading_defs split: sync_event.splits)

lemma nothing_failed:
  "list_all2 (fetch_event c) refs f \<Longrightarrow> concat (map failed_id f) = [] \<Longrightarrow> concat (map fetched_id f) = refs \<and> list_all (\<lambda>e. failed_id e = []) f"
  by (induction rule: list_all2_induct) (auto simp: fetch_event_def reading_defs split: sync_event.splits sum.splits)

lemma pass_refs_listing: "pass_refs target options refs w \<Longrightarrow> list_all listing_event w"
  by (auto simp: pass_refs_def walked_def split: option.splits)

lemma pass_refs_pages:
  "pass_refs target options refs w \<Longrightarrow> sn_onlySourceIds options = None \<Longrightarrow> refs = concat (map page_ids w) \<and> list_ex last_page w"
  by (auto simp: pass_refs_def walked_def list_ex_iff)

text \<open>The three parts of a pass, and what they say about its events as a whole.\<close>

lemma pass_parts:
  assumes new: "new = w @ f @ [SIndexed collection (Inr indexed)] @ wr"
    and w: "pass_refs target options refs w" and f: "list_all2 (fetch_event (st_connection target)) refs f"
    and wr: "written collection (pass_plan env target options f indexed) x wr"
  shows "fetched_ids new = fs_fetched (fetch_result env target f)"
    and "read_chunks_of env target new = fs_chunks (fetch_result env target f)"
    and "pass_scope (sn_onlySourceIds options = None) (fetch_result env target f) = FullScope \<Longrightarrow> read_everything options new"
proof -
  note lists = listing_reads_nothing[OF pass_refs_listing[OF w], of env target]
    and writes = writes_read_nothing[OF wr, of env target]
  show ids: "fetched_ids new = fs_fetched (fetch_result env target f)"
    unfolding new fetched_ids_def fetch_result_def using lists writes by (simp add: fetched_id_def[of "SIndexed _ _"] del: concat_eq_Nil_conv)
  show "read_chunks_of env target new = fs_chunks (fetch_result env target f)"
    unfolding new read_chunks_of_def fetch_result_def using lists writes by (simp add: fetched_chunks_def[of _ _ "SIndexed _ _"] del: concat_eq_Nil_conv)
  assume "pass_scope (sn_onlySourceIds options = None) (fetch_result env target f) = FullScope"
  then have full: "sn_onlySourceIds options = None" "concat (map failed_id f) = []"
    by (auto simp: pass_scope_def fetch_result_def split: if_splits)
  have pages: "concat (map page_ids new) = refs"
    unfolding new using pass_refs_pages[OF w full(1)] fetching_lists_nothing[OF f] writes by (simp add: page_ids_def[of "SIndexed _ _"] del: concat_eq_Nil_conv)
  show "read_everything options new"
    unfolding read_everything_def pages ids
    using full nothing_failed[OF f full(2)] lists writes pass_refs_pages[OF w full(1)]
    by (auto simp: new fetch_result_def list_all_iff failed_id_def[of "SIndexed _ _"])
qed

lemma removals_justified:
  assumes "whole_pass env target options r new"
  shows "list_all (removal_justified env target options new) new"
proof -
  consider "list_all reading_event new"
    | refs w f indexed wr x where "new = w @ f @ [SIndexed (st_collection target) (Inr indexed)] @ wr"
        "pass_refs target options refs w" "list_all2 (fetch_event (st_connection target)) refs f"
        "written (st_collection target) (pass_plan env target options f indexed) x wr"
    using assms by (auto simp: whole_pass_def)
  then show ?thesis
  proof cases
    case 1
    then show ?thesis
      by (rule list.pred_mono_strong) (auto simp: reading_event_def removal_justified_def split: sync_event.splits)
  next
    case 2
    note parts = pass_parts[OF 2]
    let ?plan = "pass_plan env target options f indexed"
    let ?scope = "pass_scope (sn_onlySourceIds options = None) (fetch_result env target f)"
    have scope: "ix_sourceId i \<in> set (fetched_ids new) \<or> read_everything options new" if "deletionScope ?scope (ix_sourceId i)" for i
      using that parts by (cases ?scope) (auto simp: deletionScope_def pass_scope_def split: if_splits)
    have remove: "list_all (\<lambda>h. h \<notin> hashes_of (read_chunks_of env target new) \<and>
        list_ex (\<lambda>i. ix_contentHash i = h \<and> (ix_sourceId i \<in> set (fetched_ids new) \<or> read_everything options new)) indexed) (rp_remove ?plan)"
      using scope reconcile_facts(2)[of "fs_chunks (fetch_result env target f)" indexed ?scope] parts(2)
      unfolding pass_plan_def list_all_iff list_ex_iff by fastforce
    have "removal_justified env target options new e" if "e \<in> set new" for e
    proof (cases "reading_event e")
      case True
      then show ?thesis by (auto simp: reading_event_def removal_justified_def split: sync_event.splits)
    next
      case False
      then have "e \<in> set wr"
        using that 2 reading_lists[OF pass_refs_listing[OF 2(2)]] reading_fetches[OF 2(3)]
        by (auto simp: list_all_iff reading_event_def[of "SIndexed _ _"])
      then consider a where "e = SRemove (st_collection target) (rp_remove ?plan) a" | a where "e = SUpsert (st_collection target) (rp_upsert ?plan) a"
        using 2(4) by (auto simp: written_def upsert_events_def remove_events_def split: if_splits)
      then show ?thesis
        using remove 2(1) by cases (auto simp: removal_justified_def)
    qed
    then show ?thesis by (simp add: list_all_iff)
  qed
qed

text \<open>
  C7. A pass deletes only what it knows to be gone. Whatever the source and the store answer, and
  wherever the pass fails, every point it removes was reported as indexed in this pass, is not among
  the chunks just read, and belongs to a document this pass read successfully; or the pass
  was a full one whose listing came to its end and every listed document of which was read. A
  partial pass, and one that could not read something, never removes what it did not look at.
\<close>

theorem passes_delete_only_what_is_gone:
  "\<exists>new. snd (syncConnection env target options trail) = trail @ new \<and> list_all (removal_justified env target options new) new"
  using pass_does[of env target options] removals_justified unfolding does_def by metis


section \<open>The index after a pass\<close>

text \<open>What a store holds that does what it is told: points are keyed by hash.\<close>

definition store_step :: "string \<Rightarrow> sync_event \<Rightarrow> IndexedChunk list \<Rightarrow> IndexedChunk list" where
  "store_step collection e store =
     (case e of
        SUpsert c chunks (Inr _) \<Rightarrow>
          if c = collection
          then filter (\<lambda>i. ix_contentHash i \<notin> hashes_of chunks) store @ map index_entry chunks else store
      | SRemove c hashes (Inr _) \<Rightarrow> if c = collection then filter (\<lambda>i. ix_contentHash i \<notin> set hashes) store else store
      | _ \<Rightarrow> store)"

definition store_after :: "string \<Rightarrow> IndexedChunk list \<Rightarrow> sync_event list \<Rightarrow> IndexedChunk list" where
  "store_after collection initial new = fold (store_step collection) new initial"

lemma store_reading: "list_all reading_event new \<Longrightarrow> store_after collection initial new = initial"
  unfolding store_after_def
  by (induction new arbitrary: initial) (auto simp: store_step_def reading_event_def split: sync_event.splits)

lemma store_after_append: "store_after c initial (xs @ ys) = store_after c (store_after c initial xs) ys"
  by (simp add: store_after_def)

lemma store_written:
  assumes "written collection plan (Inr ()) wr"
  shows "indexed_hashes (store_after collection initial wr) =
    indexed_hashes initial \<union> hashes_of (rp_upsert plan) - set (rp_remove plan)"
proof -
  have image: "ix_contentHash ` {i \<in> A. ix_contentHash i \<notin> R} = ix_contentHash ` A - R" for A R by blast
  have wr: "wr = upsert_events collection plan (Inr ()) @ remove_events collection plan (Inr ())"
    using assms by (simp add: written_def)
  have up: "indexed_hashes (store_after collection initial (upsert_events collection plan (Inr ()))) =
      indexed_hashes initial \<union> hashes_of (rp_upsert plan)"
    by (auto simp: store_after_def store_step_def upsert_events_def indexed_hashes_def hashes_of_def index_entry_def image image_Un image_image)
  have down: "indexed_hashes (store_after collection store (remove_events collection plan (Inr ()))) =
      indexed_hashes store - set (rp_remove plan)" for store
    by (auto simp: store_after_def store_step_def remove_events_def indexed_hashes_def image)
  show ?thesis unfolding wr store_after_append down up ..
qed

lemma plan_result:
  assumes "plan = reconcile current indexed scope"
  shows "indexed_hashes indexed \<union> hashes_of (rp_upsert plan) - set (rp_remove plan) =
    hashes_of current \<union> (indexed_hashes indexed - ix_contentHash ` {i \<in> set indexed. deletionScope scope (ix_sourceId i)})"
  unfolding assms reconcile_facts by (auto simp: indexed_hashes_def)

lemma index_after_pass:
  assumes "whole_pass env target options (Inr report) new"
    and "list_all (\<lambda>e. case e of SIndexed _ (Inr indexed) \<Rightarrow> set indexed = set initial | _ \<Rightarrow> True) new"
  shows "indexed_hashes (store_after (st_collection target) initial new) =
    hashes_of (read_chunks_of env target new) \<union>
    (if wk_full report then {}
     else indexed_hashes initial - ix_contentHash ` {i \<in> set initial. ix_sourceId i \<in> set (fetched_ids new)})"
    and "wk_full report \<Longrightarrow> read_everything options new"
proof -
  obtain refs w f indexed wr where parts: "new = w @ f @ [SIndexed (st_collection target) (Inr indexed)] @ wr"
      "pass_refs target options refs w" "list_all2 (fetch_event (st_connection target)) refs f"
      "written (st_collection target) (pass_plan env target options f indexed) (Inr ()) wr"
    and report: "report = pass_report env target options f indexed"
    using assms(1) unfolding whole_pass_def by (auto dest!: sym[of "Inr _"] map_sum_Inr)
  let ?scope = "pass_scope (sn_onlySourceIds options = None) (fetch_result env target f)"
  note facts = pass_parts[OF parts]
  show "wk_full report \<Longrightarrow> read_everything options new" using facts(3) report by (simp add: pass_report_def Let_def)
  have reads: "list_all reading_event (w @ f @ [SIndexed (st_collection target) (Inr indexed)])"
    using reading_lists[OF pass_refs_listing[OF parts(2)]] reading_fetches[OF parts(3)] by (simp add: reading_event_def)
  have same: "set indexed = set initial" using assms(2) parts(1) by simp
  then have "indexed_hashes indexed = indexed_hashes initial" by (simp add: indexed_hashes_def)
  note same = this same
  have "indexed_hashes (store_after (st_collection target) initial new) =
      indexed_hashes initial \<union> hashes_of (rp_upsert (pass_plan env target options f indexed)) - set (rp_remove (pass_plan env target options f indexed))"
  proof -
    have "new = (w @ f @ [SIndexed (st_collection target) (Inr indexed)]) @ wr" using parts(1) by simp
    then have "store_after (st_collection target) initial new = store_after (st_collection target) initial wr"
      using store_after_append[of "st_collection target" initial "w @ f @ [SIndexed (st_collection target) (Inr indexed)]" wr]
        store_reading[OF reads] by metis
    then show ?thesis using store_written[OF parts(4), of initial] by simp
  qed
  then have result: "indexed_hashes (store_after (st_collection target) initial new) =
      hashes_of (read_chunks_of env target new) \<union>
      (indexed_hashes initial - ix_contentHash ` {i \<in> set initial. deletionScope ?scope (ix_sourceId i)})"
    using plan_result[of "pass_plan env target options f indexed" _ indexed ?scope] same facts(2) by (simp add: pass_plan_def)
  show "indexed_hashes (store_after (st_collection target) initial new) =
    hashes_of (read_chunks_of env target new) \<union>
    (if wk_full report then {}
     else indexed_hashes initial - ix_contentHash ` {i \<in> set initial. ix_sourceId i \<in> set (fetched_ids new)})"
    unfolding result using report facts(1)
    by (cases ?scope) (auto simp: pass_report_def Let_def deletionScope_def pass_scope_def indexed_hashes_def split: if_splits)
qed

text \<open>
  C11. What a completed pass leaves behind, when the store answers what it holds and does what it is
  told: after a full pass the index holds exactly the chunks of the documents read, and those are
  all the documents the source listed; after any other pass it holds the chunks just read and whatever
  was there of documents the pass did not read.
\<close>

theorem full_pass_mirrors_the_source:
  assumes "syncConnection env target options [] = (Inr report, new)"
    and "list_all (\<lambda>e. case e of SIndexed _ (Inr indexed) \<Rightarrow> set indexed = set initial | _ \<Rightarrow> True) new"
  shows "indexed_hashes (store_after (st_collection target) initial new) =
      hashes_of (read_chunks_of env target new) \<union>
      (if wk_full report then {}
       else indexed_hashes initial - ix_contentHash ` {i \<in> set initial. ix_sourceId i \<in> set (fetched_ids new)}) \<and>
    (\<not> wk_full report \<or> read_everything options new)"
proof -
  have "whole_pass env target options (Inr report) new"
    using does_use[OF pass_does assms(1)] by simp
  from index_after_pass[OF this assms(2)] show ?thesis by blast
qed

text \<open>A source of two pages, one of which was edited since it was indexed, and a third that is gone.\<close>

definition page_ex :: "string \<Rightarrow> ResourceRef" where
  "page_ex rid = \<lparr>rf_id = rid, rf_title = ''T'', rf_url = ''u'', rf_version = None, rf_updatedAt = None, rf_acl = None\<rparr>"

definition index_ex :: "IndexedChunk list" where
  "index_ex = [\<lparr>ix_contentHash = ''old'', ix_sourceId = ''1''\<rparr>, \<lparr>ix_contentHash = ''gone'', ix_sourceId = ''9''\<rparr>]"

definition sync_env_ex :: sync_env where
  "sync_env_ex =
     \<lparr>se_list = (\<lambda>log c cursor. if cursor = None
        then Inr \<lparr>lp_resources = [page_ex ''1''], lp_cursor = Some ''next''\<rparr> else Inr \<lparr>lp_resources = [page_ex ''2''], lp_cursor = None\<rparr>),
      se_fetch = (\<lambda>log c rid. Inr ((document_ex ''hello'')\<lparr>rf_id := rid\<rparr>)),
      se_indexed = (\<lambda>log c. Inr index_ex), se_upsert = (\<lambda>log c chunks. Inr ()), se_remove = (\<lambda>log c hashes. Inr ()),
      se_sha256 = (\<lambda>s. s)\<rparr>"

definition target_ex :: SyncTarget where
  "target_ex = \<lparr>st_connection = ''e'', st_label = ''e'', st_collection = ''k'', st_chunking = None\<rparr>"

definition all_ex :: SyncOptions where
  "all_ex = \<lparr>sn_onlySourceIds = None, sn_maxPages = Some 3\<rparr>"

theorem full_pass_mirrors_the_source_witness:
  "case syncConnection sync_env_ex target_ex all_ex [] of
     (Inr report, new) \<Rightarrow>
       wk_full report \<and> wk_indexed report = 2 \<and> wk_removed report = 2 \<and>
       indexed_hashes (store_after ''k'' index_ex new) = hashes_of (read_chunks_of sync_env_ex target_ex new)
   | _ \<Rightarrow> False"
proof -
  have run: "case syncConnection sync_env_ex target_ex all_ex [] of
      (Inr report, new) \<Rightarrow> wk_full report \<and> wk_indexed report = 2 \<and> wk_removed report = 2 \<and>
        list_all (\<lambda>e. case e of SIndexed _ (Inr indexed) \<Rightarrow> set indexed = set index_ex | _ \<Rightarrow> True) new
    | _ \<Rightarrow> False"
    by code_simp
  then obtain report new where ran: "syncConnection sync_env_ex target_ex all_ex [] = (Inr report, new)"
    by (auto split: prod.splits sum.splits)
  show ?thesis
    using full_pass_mirrors_the_source[OF ran, of index_ex] run ran by (simp add: target_ex_def)
qed

end
