(* ===== verification/Sync_Store.thy ===== *)
theory Sync_Store
  imports Sync_Worker
begin

unbundle bit_operations_syntax

text \<open>
  Where a sync pass reads and writes (\<open>apps/connection-broker/src/sync\<close>): point ids
  (\<open>point-id.ts\<close>), the writer of a Qdrant collection (\<open>corpus-writer.ts\<close>) over the calls of its
  client and of the embedder, the source behind the broker's own HTTP surface (\<open>http-source.ts\<close>)
  and the status record of a pass (\<open>corpus-status.ts\<close>). SHA-1 and the JSON text of a descriptor
  are parameters; the reading loop runs on fuel, since a store may go on naming further pages.
\<close>

section \<open>Point ids\<close>

definition NAMESPACE_URL :: "nat list" where
  "NAMESPACE_URL = [0x6b, 0xa7, 0xb8, 0x11, 0x9d, 0xad, 0x11, 0xd1, 0x80, 0xb4, 0x00, 0xc0, 0x4f, 0xd4, 0x30, 0xc8]"

definition POINT_PREFIX :: string where
  "POINT_PREFIX = ''github.com/controller-agent/temporal-engine/''"

definition lower_hex_digit :: "nat \<Rightarrow> char" where
  "lower_hex_digit n = char_of (if n < 10 then 48 + n else 87 + n)"

definition bytes_hex :: "nat list \<Rightarrow> string" where
  "bytes_hex bs = concat (map (\<lambda>b. [lower_hex_digit (b div 16), lower_hex_digit (b mod 16)]) bs)"

definition corpusPointId :: "(nat list \<Rightarrow> nat list) \<Rightarrow> string \<Rightarrow> string \<Rightarrow> string" where
  "corpusPointId sha1 collection pid =
     (let hash = sha1 (NAMESPACE_URL @ utf8_bytes (POINT_PREFIX @ collection @ ''/'' @ pid));
          b0 = take 16 hash;
          b1 = b0[6 := (b0 ! 6 AND 0x0f) OR 0x50];
          b2 = b1[8 := (b1 ! 8 AND 0x3f) OR 0x80];
          hex = bytes_hex b2 in
      take 8 hex @ ''-'' @ take 4 (drop 8 hex) @ ''-'' @ take 4 (drop 12 hex) @ ''-'' @ take 4 (drop 16 hex) @ ''-'' @ drop 20 hex)"


section \<open>The writer\<close>

record descriptor =
  de_connectionId :: string
  de_connectionLabel :: string
  de_sourceUrl :: string
  de_sourceId :: string
  de_title :: string
  de_updatedAt :: "string option"
  de_contentHash :: string
  de_version :: "string option"
  de_text :: string
  de_aclPrincipals :: "string list option"
  de_aclPermissive :: "bool option"

record point_payload =
  pp_id :: "string option"
  pp_roles :: "string list"
  pp_unrestricted :: bool
  pp_hidden :: bool
  pp_descriptor :: "string option"

record QdrantPoint =
  qp_id :: string
  qp_vector :: "js_double list"
  qp_payload :: point_payload

record scroll_page =
  sp_payloads :: "point_payload option list"
  sp_next :: "string option"

datatype store_event =
    QExists string "broker_error + bool"
  | QCreate string nat "broker_error + unit"
  | QUpsert string "QdrantPoint list" "broker_error + unit"
  | QDelete string "string list" "broker_error + unit"
  | QScroll string "string option" "broker_error + scroll_page"
  | QEmbed "string list" "broker_error + js_double list list"

type_synonym 'a store_eff = "(store_event, broker_error, 'a) eff"

record store_env =
  sv_exists :: "store_event list \<Rightarrow> string \<Rightarrow> broker_error + bool"
  sv_create :: "store_event list \<Rightarrow> string \<Rightarrow> nat \<Rightarrow> broker_error + unit"
  sv_upsert :: "store_event list \<Rightarrow> string \<Rightarrow> QdrantPoint list \<Rightarrow> broker_error + unit"
  sv_delete :: "store_event list \<Rightarrow> string \<Rightarrow> string list \<Rightarrow> broker_error + unit"
  sv_scroll :: "store_event list \<Rightarrow> string \<Rightarrow> string option \<Rightarrow> broker_error + scroll_page"
  sv_embed :: "store_event list \<Rightarrow> string list \<Rightarrow> broker_error + js_double list list"
  sv_sha1 :: "nat list \<Rightarrow> nat list"
  sv_stringify :: "descriptor \<Rightarrow> string"
  sv_sourceId :: "string \<Rightarrow> string option"

text \<open>
  \<open>sv_sourceId\<close> is what \<open>JSON.parse\<close> of a descriptor leaves of its \<open>sourceId\<close>: \<open>None\<close>
  when the text does not parse or the member is not a string.
\<close>

record CorpusWriterConfig =
  cw_allowedRoles :: "string list"
  cw_vectorSize :: nat

definition EMBED_BATCH_SIZE :: nat where "EMBED_BATCH_SIZE = 256"

definition toDescriptor :: "Chunk \<Rightarrow> descriptor" where
  "toDescriptor chunk =
     \<lparr>de_connectionId = ck_connectionId chunk, de_connectionLabel = ck_connectionLabel chunk, de_sourceUrl = ck_sourceUrl chunk,
      de_sourceId = ck_sourceId chunk, de_title = ck_title chunk, de_updatedAt = ck_updatedAt chunk,
      de_contentHash = ck_contentHash chunk, de_version = ck_version chunk, de_text = ck_text chunk,
      de_aclPrincipals = ck_aclPrincipals chunk, de_aclPermissive = ck_aclPermissive chunk\<rparr>"

definition toIndexedChunk :: "store_env \<Rightarrow> point_payload option \<Rightarrow> IndexedChunk option" where
  "toIndexedChunk env payload =
     (case payload of
        None \<Rightarrow> None
      | Some p \<Rightarrow>
          if \<not> truthy_str (pp_id p) then None
          else Some \<lparr>ix_contentHash = the (pp_id p),
                     ix_sourceId = coalesce (Option.bind (pp_descriptor p) (sv_sourceId env)) []\<rparr>)"

definition ensureCollection :: "store_env \<Rightarrow> CorpusWriterConfig \<Rightarrow> string \<Rightarrow> unit store_eff" where
  "ensureCollection env cfg collection =
     bind_e (call_e (\<lambda>log. sv_exists env log collection) (QExists collection)) (\<lambda>exists0.
       if exists0 then return_e ()
       else call_e (\<lambda>log. sv_create env log collection (cw_vectorSize cfg)) (QCreate collection (cw_vectorSize cfg)))"

text \<open>The pages of a collection. \<open>None\<close>: the fuel ran out before the store stopped naming a next page.\<close>

fun scroll_pages :: "store_env \<Rightarrow> string \<Rightarrow> nat \<Rightarrow> string option \<Rightarrow> IndexedChunk list option store_eff" where
  "scroll_pages env collection 0 offset = return_e None"
| "scroll_pages env collection (Suc fuel) offset =
     bind_e (call_e (\<lambda>log. sv_scroll env log collection offset) (QScroll collection offset)) (\<lambda>page.
       (let chunks = List.map_filter (toIndexedChunk env) (sp_payloads page) in
        case sp_next page of
          None \<Rightarrow> return_e (Some chunks)
        | Some next \<Rightarrow>
            bind_e (scroll_pages env collection fuel (Some next)) (\<lambda>more. return_e (map_option (\<lambda>m. chunks @ m) more))))"

definition writer_indexed :: "store_env \<Rightarrow> nat \<Rightarrow> string \<Rightarrow> IndexedChunk list option store_eff" where
  "writer_indexed env fuel collection =
     bind_e (call_e (\<lambda>log. sv_exists env log collection) (QExists collection)) (\<lambda>exists0.
       if \<not> exists0 then return_e (Some []) else scroll_pages env collection fuel None)"

definition point_of :: "store_env \<Rightarrow> CorpusWriterConfig \<Rightarrow> string \<Rightarrow> Chunk \<Rightarrow> js_double list \<Rightarrow> QdrantPoint" where
  "point_of env cfg collection chunk vector =
     \<lparr>qp_id = corpusPointId (sv_sha1 env) collection (ck_contentHash chunk), qp_vector = vector,
      qp_payload = \<lparr>pp_id = Some (ck_contentHash chunk), pp_roles = cw_allowedRoles cfg, pp_unrestricted = False,
        pp_hidden = False, pp_descriptor = Some (sv_stringify env (toDescriptor chunk))\<rparr>\<rparr>"

function upsert_batches :: "store_env \<Rightarrow> CorpusWriterConfig \<Rightarrow> string \<Rightarrow> Chunk list \<Rightarrow> unit store_eff" where
  "upsert_batches env cfg collection chunks =
     (if chunks = [] then return_e ()
      else
        (let batch = take EMBED_BATCH_SIZE chunks in
         bind_e (call_e (\<lambda>log. sv_embed env log (map ck_text batch)) (QEmbed (map ck_text batch))) (\<lambda>vectors.
           if length vectors \<noteq> length batch
           then throw_e (OtherFailure (''embedder returned '' @ js_nat_string (length vectors) @ '' vectors for '' @
             js_nat_string (length batch) @ '' chunks; writing them would pair chunks with other chunks'' @ [CHR 0x27] @ '' embeddings''))
           else
             (let points = map2 (point_of env cfg collection) batch vectors in
              bind_e (call_e (\<lambda>log. sv_upsert env log collection points) (QUpsert collection points)) (\<lambda>_.
                upsert_batches env cfg collection (drop EMBED_BATCH_SIZE chunks))))))"
  by pat_completeness auto
termination
  by (relation "measure (\<lambda>(env, cfg, collection, chunks). length chunks)") (auto simp: EMBED_BATCH_SIZE_def)

declare upsert_batches.simps [simp del]

definition writer_upsert :: "store_env \<Rightarrow> CorpusWriterConfig \<Rightarrow> string \<Rightarrow> Chunk list \<Rightarrow> unit store_eff" where
  "writer_upsert env cfg collection chunks =
     (if chunks = [] then return_e ()
      else bind_e (ensureCollection env cfg collection) (\<lambda>_. upsert_batches env cfg collection chunks))"

definition writer_remove :: "store_env \<Rightarrow> string \<Rightarrow> string list \<Rightarrow> unit store_eff" where
  "writer_remove env collection contentHashes =
     (if contentHashes = [] then return_e ()
      else
        (let ids = map (corpusPointId (sv_sha1 env) collection) contentHashes in
         call_e (\<lambda>log. sv_delete env log collection ids) (QDelete collection ids)))"


section \<open>Reading back what was written\<close>

definition describes :: "store_env \<Rightarrow> bool" where
  "describes env \<longleftrightarrow> (\<forall>d. sv_sourceId env (sv_stringify env d) = Some (de_sourceId d))"

text \<open>
  What the writer stores of a chunk is what the next pass reads back: the content hash and the
  document it came from, which is all that the comparison with the source needs.
\<close>

theorem stored_chunks_read_back:
  assumes "describes env" and "ck_contentHash chunk \<noteq> []"
  shows "toIndexedChunk env (Some (qp_payload (point_of env cfg collection chunk vector))) = Some (index_entry chunk)"
  using assms by (simp add: toIndexedChunk_def point_of_def toDescriptor_def index_entry_def describes_def)

text \<open>Pages of a collection: the loop comes to its end with as much fuel as there are pages.\<close>

definition serves_pages :: "store_env \<Rightarrow> string \<Rightarrow> (nat \<Rightarrow> string option) \<Rightarrow> scroll_page list \<Rightarrow> bool" where
  "serves_pages env collection offset pages \<longleftrightarrow>
     (\<forall>k < length pages. (\<forall>log. sv_scroll env log collection (offset k) = Inr (pages ! k)) \<and>
        sp_next (pages ! k) = (if Suc k < length pages then offset (Suc k) else None) \<and> offset (Suc k) \<noteq> None)"

lemma fst_bind_return: "fst (bind_e m (\<lambda>x. return_e (g x)) trail) = map_sum id g (fst (m trail))"
  by (simp add: bind_e_def return_e_def split: prod.split sum.split)

lemma fst_bind_call: "f trail = Inr x \<Longrightarrow> fst (bind_e (call_e f ev) k trail) = fst (k x (trail @ [ev (Inr x)]))"
  by (simp add: bind_e_def call_e_def)

lemma scroll_from:
  assumes "serves_pages env collection offset pages" "k < length pages" "length pages - k \<le> fuel"
  shows "fst (scroll_pages env collection fuel (offset k) trail) =
    Inr (Some (concat (map (\<lambda>p. List.map_filter (toIndexedChunk env) (sp_payloads p)) (drop k pages))))"
  using assms(2, 3)
proof (induction fuel arbitrary: k trail)
  case (Suc fuel)
  have page: "sv_scroll env log collection (offset k) = Inr (pages ! k)"
    "sp_next (pages ! k) = (if Suc k < length pages then offset (Suc k) else None)" "offset (Suc k) \<noteq> None" for log
    using assms(1) Suc.prems by (auto simp: serves_pages_def)
  have drop: "drop k pages = pages ! k # drop (Suc k) pages" using Suc.prems by (simp add: Cons_nth_drop_Suc)
  show ?case
  proof (cases "Suc k < length pages")
    case True
    then obtain o' where o': "offset (Suc k) = Some o'" using page by auto
    have "fst (scroll_pages env collection fuel (Some o') t) =
        Inr (Some (concat (map (\<lambda>p. List.map_filter (toIndexedChunk env) (sp_payloads p)) (drop (Suc k) pages))))" for t
      using Suc.IH[of "Suc k" t] True Suc.prems o' by simp
    then show ?thesis
      using page True o' drop by (simp add: fst_bind_call[where x = "pages ! k"] fst_bind_return Let_def)
  next
    case False
    then show ?thesis using page drop by (simp add: fst_bind_call[where x = "pages ! k"] return_e_def Let_def)
  qed
qed simp

text \<open>
  Reading the index comes to its end: over a collection of finitely many pages, with at least as
  many rounds as there are pages, the loop returns every chunk of every page, in order.
\<close>

theorem indexed_reads_every_page:
  assumes "serves_pages env collection offset pages" "pages \<noteq> []" "offset 0 = None" "length pages \<le> fuel"
    and "sv_exists env trail collection = Inr True"
  shows "fst (writer_indexed env fuel collection trail) =
    Inr (Some (concat (map (\<lambda>p. List.map_filter (toIndexedChunk env) (sp_payloads p)) pages)))"
  using scroll_from[OF assms(1), of 0 fuel] assms by (simp add: writer_indexed_def eff_defs)


section \<open>What is written\<close>

definition upserted :: "store_event \<Rightarrow> QdrantPoint list" where
  "upserted e = (case e of QUpsert _ points _ \<Rightarrow> points | _ \<Rightarrow> [])"

definition embedded_texts :: "store_event \<Rightarrow> string list" where
  "embedded_texts e = (case e of QEmbed texts _ \<Rightarrow> texts | _ \<Rightarrow> [])"

definition embedded_vectors :: "store_event \<Rightarrow> js_double list list" where
  "embedded_vectors e = (case e of QEmbed _ (Inr vectors) \<Rightarrow> vectors | _ \<Rightarrow> [])"

definition all_of :: "(store_event \<Rightarrow> 'a list) \<Rightarrow> store_event list \<Rightarrow> 'a list" where
  "all_of f new = concat (map f new)"

text \<open>A written batch: no larger than the limit, role-gated, each point of a chunk under the chunk's own id.\<close>

definition gated_batch :: "store_env \<Rightarrow> CorpusWriterConfig \<Rightarrow> string \<Rightarrow> Chunk list \<Rightarrow> store_event \<Rightarrow> bool" where
  "gated_batch env cfg collection chunks e \<longleftrightarrow>
     (case e of
        QUpsert c points _ \<Rightarrow>
          c = collection \<and> length points \<le> EMBED_BATCH_SIZE \<and>
          list_all (\<lambda>p. pp_roles (qp_payload p) = cw_allowedRoles cfg \<and> \<not> pp_unrestricted (qp_payload p) \<and> \<not> pp_hidden (qp_payload p) \<and>
            list_ex (\<lambda>chunk. qp_id p = corpusPointId (sv_sha1 env) collection (ck_contentHash chunk) \<and>
              pp_id (qp_payload p) = Some (ck_contentHash chunk)) chunks) points
      | QEmbed texts _ \<Rightarrow> length texts \<le> EMBED_BATCH_SIZE
      | QDelete _ _ _ \<Rightarrow> False
      | _ \<Rightarrow> True)"

definition batches_written :: "store_env \<Rightarrow> CorpusWriterConfig \<Rightarrow> string \<Rightarrow> Chunk list \<Rightarrow> broker_error + unit \<Rightarrow> store_event list \<Rightarrow> bool" where
  "batches_written env cfg collection chunks r new \<longleftrightarrow>
     list_all (gated_batch env cfg collection chunks) new \<and>
     (\<not> is_ok r \<or>
       all_of embedded_texts new = map ck_text chunks \<and> length (all_of embedded_vectors new) = length chunks \<and>
       all_of upserted new = map2 (point_of env cfg collection) chunks (all_of embedded_vectors new))"

lemma gated_points:
  assumes "set batch \<subseteq> set chunks" "length batch \<le> EMBED_BATCH_SIZE"
  shows "gated_batch env cfg collection chunks (QUpsert collection (map2 (point_of env cfg collection) batch vectors) r)"
  using assms by (auto simp: gated_batch_def list_all_iff list_ex_iff point_of_def dest!: set_zip_leftD)

lemma gated_mono: "gated_batch env cfg collection chunks e \<Longrightarrow> set chunks \<subseteq> set wider \<Longrightarrow> gated_batch env cfg collection wider e"
  by (auto simp: gated_batch_def list_all_iff list_ex_iff split: store_event.splits) blast

lemma joined_batches:
  assumes "length vs1 = length c1" "chunks = c1 @ c2" "texts = map ck_text c1 @ t2" "vectors = vs1 @ vs2" "points = map2 f c1 vs1 @ p2"
    and "t2 = map ck_text c2" "length vs2 = length c2" "p2 = map2 f c2 vs2"
  shows "texts = map ck_text chunks \<and> length vectors = length chunks \<and> points = map2 f chunks vectors"
  using assms by simp

lemma upsert_batches_does: "does (upsert_batches env cfg collection chunks) (batches_written env cfg collection chunks)"
proof (induction env cfg collection chunks rule: upsert_batches.induct)
  case (1 env cfg collection chunks)
  note event_defs = all_of_def embedded_texts_def embedded_vectors_def upserted_def
  show ?case
  proof (cases "chunks = []")
    case True
    then show ?thesis
      by (subst upsert_batches.simps) (simp add: does_return batches_written_def event_defs)
  next
    case False
    let ?b = "take EMBED_BATCH_SIZE chunks" and ?rest = "drop EMBED_BATCH_SIZE chunks"
    have embed: "does (call_e (\<lambda>log. sv_embed env log (map ck_text ?b)) (QEmbed (map ck_text ?b)))
        (\<lambda>r new. new = [QEmbed (map ck_text ?b) r])" by (simp add: does_call)
    have bound: "length ?b \<le> EMBED_BATCH_SIZE" by simp
    have sub: "set ?b \<subseteq> set chunks" "set ?rest \<subseteq> set chunks" by (simp_all add: set_take_subset set_drop_subset)
    show ?thesis
    proof (subst upsert_batches.simps, simp only: False if_False Let_def, rule does_bind[OF embed])
      show "batches_written env cfg collection chunks (Inl e) new" if "new = [QEmbed (map ck_text ?b) (Inl e)]" for e new
        using that by (simp add: batches_written_def gated_batch_def)
      fix vectors first
      assume first: "first = [QEmbed (map ck_text ?b) (Inr vectors)]"
      let ?points = "map2 (point_of env cfg collection) ?b vectors"
      have stored: "does (call_e (\<lambda>log. sv_upsert env log collection ?points) (QUpsert collection ?points))
          (\<lambda>r new. new = [QUpsert collection ?points r])" by (simp add: does_call)
      have gated: "gated_batch env cfg collection chunks (QUpsert collection ?points r)" for r
        using gated_points[OF sub(1) bound] .
      have whole: "batches_written env cfg collection chunks r (first @ [QUpsert collection ?points (Inr ())] @ new)"
        (is "batches_written _ _ _ _ _ ?all")
        if len: "length vectors = length ?b" and rest: "batches_written env cfg collection ?rest r new" for r new
      proof -
        have g: "list_all (gated_batch env cfg collection chunks) new"
          using rest gated_mono[OF _ sub(2)] by (auto simp: batches_written_def list_all_iff)
        have ok: "all_of embedded_texts ?all = map ck_text chunks \<and> length (all_of embedded_vectors ?all) = length chunks \<and>
            all_of upserted ?all = map2 (point_of env cfg collection) chunks (all_of embedded_vectors ?all)" if "is_ok r"
        proof (rule joined_batches[OF len, of chunks ?rest])
          show "all_of embedded_texts ?all = map ck_text ?b @ all_of embedded_texts new"
            "all_of embedded_vectors ?all = vectors @ all_of embedded_vectors new" "all_of upserted ?all = ?points @ all_of upserted new"
            by (simp_all add: first event_defs)
          show "all_of embedded_texts new = map ck_text ?rest" "length (all_of embedded_vectors new) = length ?rest"
            "all_of upserted new = map2 (point_of env cfg collection) ?rest (all_of embedded_vectors new)"
            using rest that by (simp_all add: batches_written_def)
        qed simp
        have "list_all (gated_batch env cfg collection chunks) ?all"
          using g gated bound by (simp add: first gated_batch_def[of _ _ _ _ "QEmbed _ _"])
        with ok show ?thesis unfolding batches_written_def by blast
      qed
      show "does (if length vectors \<noteq> length ?b
          then throw_e (OtherFailure (''embedder returned '' @ js_nat_string (length vectors) @ '' vectors for '' @
             js_nat_string (length ?b) @ '' chunks; writing them would pair chunks with other chunks'' @ [CHR 0x27] @ '' embeddings''))
          else bind_e (call_e (\<lambda>log. sv_upsert env log collection ?points) (QUpsert collection ?points)) (\<lambda>_.
             upsert_batches env cfg collection ?rest))
        (\<lambda>r new. batches_written env cfg collection chunks r (first @ new))"
      proof (rule does_if)
        assume "length vectors \<noteq> length ?b"
        show "does (throw_e (OtherFailure (''embedder returned '' @ js_nat_string (length vectors) @ '' vectors for '' @
             js_nat_string (length ?b) @ '' chunks; writing them would pair chunks with other chunks'' @ [CHR 0x27] @ '' embeddings'')))
          (\<lambda>r new. batches_written env cfg collection chunks r (first @ new))"
          using first by (intro does_throw) (simp add: batches_written_def gated_batch_def)
      next
        assume len: "\<not> length vectors \<noteq> length ?b"
        show "does (bind_e (call_e (\<lambda>log. sv_upsert env log collection ?points) (QUpsert collection ?points)) (\<lambda>_.
             upsert_batches env cfg collection ?rest)) (\<lambda>r new. batches_written env cfg collection chunks r (first @ new))"
        proof (rule does_bind[OF stored])
          show "batches_written env cfg collection chunks (Inl e) (first @ new)" if "new = [QUpsert collection ?points (Inl e)]" for e new
            using that first gated by (simp add: batches_written_def gated_batch_def[of _ _ _ _ "QEmbed _ _"])
          show "does (upsert_batches env cfg collection ?rest) (\<lambda>r new. batches_written env cfg collection chunks r (first @ second @ new))"
            if "second = [QUpsert collection ?points (Inr x)]" for x second
            using does_mono[OF "1"[OF False refl _ refl, of vectors] whole] len that by simp
        qed
      qed
    qed
  qed
qed

lemma ensure_does: "does (ensureCollection env cfg collection) (\<lambda>r new. list_all (gated_batch env cfg collection chunks) new \<and>
    all_of embedded_texts new = [] \<and> all_of embedded_vectors new = [] \<and> all_of upserted new = [])"
proof -
  note event_defs = all_of_def embedded_texts_def embedded_vectors_def upserted_def gated_batch_def
  have call: "does (call_e (\<lambda>log. sv_exists env log collection) (QExists collection)) (\<lambda>r new. new = [QExists collection r])"
    by (simp add: does_call)
  show ?thesis
    unfolding ensureCollection_def
    by (rule does_bind[OF call]) (auto intro!: does_if does_return does_call simp: event_defs)
qed

lemma all_of_append: "all_of f (xs @ ys) = all_of f xs @ all_of f ys"
  by (simp add: all_of_def)

lemma writer_upsert_does: "does (writer_upsert env cfg collection chunks) (batches_written env cfg collection chunks)"
proof (cases "chunks = []")
  case True
  then show ?thesis by (simp add: writer_upsert_def does_return batches_written_def all_of_def)
next
  case False
  then have "writer_upsert env cfg collection chunks =
      bind_e (ensureCollection env cfg collection) (\<lambda>_. upsert_batches env cfg collection chunks)"
    by (simp add: writer_upsert_def)
  then show ?thesis
    by (simp, rule_tac does_bind[OF ensure_does[where chunks = chunks]])
      (auto simp: batches_written_def all_of_append intro!: does_mono[OF upsert_batches_does])
qed

text \<open>
  C14. Every point written to a corpus's collection is gated by the roles of that corpus and never
  unrestricted, stands under the id derived from its chunk's hash, and goes out in batches of at most
  256, whatever the store and the embedder answer and wherever the write fails. When the write
  succeeds, each chunk has been written once, in order, with the vector the embedder returned
  for its own text.
\<close>

theorem written_points_are_gated_and_paired:
  "\<exists>new. snd (writer_upsert env cfg collection chunks trail) = trail @ new \<and>
     batches_written env cfg collection chunks (fst (writer_upsert env cfg collection chunks trail)) new"
  using writer_upsert_does unfolding does_def by blast


section \<open>Ids are UUIDs\<close>

lemma length_bytes_hex: "length (bytes_hex bs) = 2 * length bs"
  by (induction bs) (simp_all add: bytes_hex_def)

lemma bytes_hex_nth:
  assumes "k < length bs"
  shows "bytes_hex bs ! (2 * k) = lower_hex_digit (bs ! k div 16)"
  using assms
proof (induction bs arbitrary: k)
  case (Cons b bs)
  then show ?case by (cases k) (auto simp: bytes_hex_def)
qed simp

text \<open>The version and the variant of the id, over every value the masked bytes can have.\<close>

lemma version_values: "list_all (\<lambda>x. (x OR 0x50) div 16 = 5) [0..<16 :: nat]"
  by code_simp

lemma variant_values: "list_all (\<lambda>x. (x OR 0x80) div 16 \<in> {8, 9, 10, 11}) [0..<64 :: nat]"
  by code_simp

lemma masked_below: "b AND 0x0f < (16 :: nat)" "b AND 0x3f < (64 :: nat)"
proof -
  have "b AND 0x0f = take_bit 4 b" "b AND 0x3f = take_bit 6 b" by (simp_all add: take_bit_eq_mask mask_eq_exp_minus_1)
  then show "b AND 0x0f < 16" "b AND 0x3f < 64" using take_bit_nat_less_exp[of 4 b] take_bit_nat_less_exp[of 6 b] by simp_all
qed

lemma version_nibble: "((b AND 0x0f) OR 0x50) div 16 = (5 :: nat)"
  using version_values masked_below(1)[of b] by (simp add: list_all_iff del: upt_conv_Cons upt_rec_numeral)

lemma variant_nibble: "((b AND 0x3f) OR 0x80) div 16 \<in> {8, 9, 10, 11 :: nat}"
  using variant_values masked_below(2)[of b] by (simp only: list_all_iff set_upt atLeastLessThan_iff) auto



definition store_env_ex :: store_env where
  "store_env_ex =
     \<lparr>sv_exists = (\<lambda>_ _. Inr True), sv_create = (\<lambda>_ _ _. Inr ()), sv_upsert = (\<lambda>_ _ _. Inr ()), sv_delete = (\<lambda>_ _ _. Inr ()),
      sv_scroll = (\<lambda>_ _ offset. case offset of
         None \<Rightarrow> Inr \<lparr>sp_payloads = [None], sp_next = Some ''n''\<rparr>
       | Some _ \<Rightarrow> Inr \<lparr>sp_payloads = [Some \<lparr>pp_id = Some ''h'', pp_roles = [], pp_unrestricted = False, pp_hidden = False,
           pp_descriptor = Some ''7''\<rparr>], sp_next = None\<rparr>),
      sv_embed = (\<lambda>_ texts. Inr (map (\<lambda>_. []) texts)), sv_sha1 = (\<lambda>_. replicate 20 0),
      sv_stringify = de_sourceId, sv_sourceId = Some\<rparr>"

theorem indexed_reads_every_page_witness:
  "fst (writer_indexed store_env_ex 2 ''k'' []) = Inr (Some [\<lparr>ix_contentHash = ''h'', ix_sourceId = ''7''\<rparr>])"
proof -
  let ?p0 = "\<lparr>sp_payloads = [None], sp_next = Some ''n''\<rparr> :: scroll_page"
  let ?p1 = "\<lparr>sp_payloads = [Some \<lparr>pp_id = Some ''h'', pp_roles = [], pp_unrestricted = False, pp_hidden = False,
    pp_descriptor = Some ''7''\<rparr>], sp_next = None\<rparr>"
  have "serves_pages store_env_ex ''k'' (\<lambda>k. if k = 0 then None else Some ''n'') [?p0, ?p1]"
    by (auto simp: serves_pages_def store_env_ex_def less_Suc_eq)
  from indexed_reads_every_page[OF this, of 2 "[]"] show ?thesis
    by (simp add: store_env_ex_def toIndexedChunk_def List.map_filter_def)
qed

theorem stored_chunks_read_back_witness:
  "toIndexedChunk store_env_ex (Some (qp_payload (point_of store_env_ex \<lparr>cw_allowedRoles = [''dev''], cw_vectorSize = 3\<rparr> ''k''
      (chunk_of (\<lambda>s. ''h'') (''e'', ''e'') (document_ex ''x'') ''x'') []))) = Some \<lparr>ix_contentHash = ''h'', ix_sourceId = ''17''\<rparr>"
  using stored_chunks_read_back[of store_env_ex "chunk_of (\<lambda>s. ''h'') (''e'', ''e'') (document_ex ''x'') ''x''"]
  by (simp add: describes_def store_env_ex_def chunk_of_def hashChunk_def index_entry_def document_ex_def)


section \<open>The source behind the broker\<close>

record HttpResourceSourceConfig =
  hs_baseUrl :: string
  hs_token :: string

text \<open>\<open>describeFailure\<close>: the body of a failed response, trimmed and bounded; nothing when it cannot be read.\<close>

definition describeFailure :: "'a http_response \<Rightarrow> string" where
  "describeFailure response =
     (case rs_text response of
        Inl _ \<Rightarrow> []
      | Inr s \<Rightarrow> if js_trim s \<noteq> [] then '': '' @ take 300 (js_trim s) else [])"

definition status_error :: "string \<Rightarrow> 'a http_response \<Rightarrow> broker_error" where
  "status_error url response =
     (let detail = describeFailure response in
      if rs_status response = 403 then PermissionDenied (''broker refused '' @ url @ detail)
      else if rs_status response = 401 then Permanent (''connection-broker rejected this worker'' @ [CHR 0x27] @ ''s token'' @ detail)
      else if rs_status response = 500 then Permanent (''connection-broker failed permanently'' @ detail)
      else Transient (''connection-broker returned '' @ int_string (rs_status response) @ detail))"

text \<open>\<open>request\<close>: what \<open>fetch\<close> threw is the text of its reason; \<open>json\<close> may throw as well.\<close>

definition source_request :: "(string \<Rightarrow> string \<Rightarrow> string + 'a http_response) \<Rightarrow> HttpResourceSourceConfig \<Rightarrow> string \<Rightarrow> broker_error + 'a" where
  "source_request http cfg url =
     (case http url (''Bearer '' @ hs_token cfg) of
        Inl cause \<Rightarrow> Inl (Transient (''connection-broker unreachable: '' @ cause))
      | Inr response \<Rightarrow>
          if rs_ok response then map_sum (\<lambda>e. OtherFailure (error_string e)) id (rs_json response)
          else Inl (status_error url response))"

definition list_url :: "HttpResourceSourceConfig \<Rightarrow> string \<Rightarrow> string option \<Rightarrow> string" where
  "list_url cfg connection cursor =
     strip_trailing_slashes (hs_baseUrl cfg) @ ''/corpora/'' @ encodeURIComponent connection @ ''/resources'' @
     (if truthy_str cursor then ''?cursor='' @ encodeURIComponent (the cursor) else [])"

record listing_body =
  lb_resources :: "ResourceRef list option"
  lb_cursor :: "string option"

definition source_list ::
    "(string \<Rightarrow> string \<Rightarrow> string + listing_body http_response) \<Rightarrow> HttpResourceSourceConfig \<Rightarrow> string \<Rightarrow> string option \<Rightarrow> broker_error + ListPage" where
  "source_list http cfg connection cursor =
     map_sum id (\<lambda>body. \<lparr>lp_resources = coalesce (lb_resources body) [], lp_cursor = lb_cursor body\<rparr>)
       (source_request http cfg (list_url cfg connection cursor))"

definition fetch_url :: "HttpResourceSourceConfig \<Rightarrow> string \<Rightarrow> string \<Rightarrow> string" where
  "fetch_url cfg connection rid =
     strip_trailing_slashes (hs_baseUrl cfg) @ ''/corpora/'' @ encodeURIComponent connection @ ''/resources/'' @ encodeURIComponent rid"

definition source_fetch ::
    "(string \<Rightarrow> string \<Rightarrow> string + Document http_response) \<Rightarrow> HttpResourceSourceConfig \<Rightarrow> string \<Rightarrow> string \<Rightarrow> broker_error + Document" where
  "source_fetch http cfg connection rid = source_request http cfg (fetch_url cfg connection rid)"

datatype failure_class = Refused | Unknown0 | Hopeless

definition failure_class :: "broker_error \<Rightarrow> failure_class" where
  "failure_class e =
     (case e of PermissionDenied _ \<Rightarrow> Refused | Transient _ \<Rightarrow> Unknown0 | QueryValidation _ \<Rightarrow> Unknown0 | _ \<Rightarrow> Hopeless)"

text \<open>The worker's request as the server receives it, and the response as the worker reads it.\<close>

definition worker_http :: "HttpResourceSourceConfig \<Rightarrow> string \<Rightarrow> string \<Rightarrow> http_request" where
  "worker_http cfg url authorization =
     \<lparr>hr_method = ''GET'',
      hr_url = Inr \<lparr>pu_pathname = drop (length (strip_trailing_slashes (hs_baseUrl cfg))) url, pu_searchParams = []\<rparr>,
      hr_headers = [(''authorization'', HOne authorization), (''accept'', HOne ''application/json'')], hr_chunks = []\<rparr>"

definition document_answer :: "http_answer \<Rightarrow> Document http_response" where
  "document_answer r =
     \<lparr>rs_status = fst r, rs_text = Inr (case snd r of BError m \<Rightarrow> m | _ \<Rightarrow> []),
      rs_json = (case snd r of BDocument d \<Rightarrow> Inr d | _ \<Rightarrow> Inl (new_Error ''not a document''))\<rparr>"

definition broker_wire ::
    "broker_env \<Rightarrow> ServerOptions \<Rightarrow> HttpResourceSourceConfig \<Rightarrow> string \<Rightarrow> string \<Rightarrow> string + Document http_response" where
  "broker_wire benv options cfg url authorization =
     Inr (document_answer (fst (createBrokerServer benv options (worker_http cfg url authorization) [])))"

lemma resource_route:
  assumes "name \<noteq> []" "rid \<noteq> []"
  shows "parseRoute (''/corpora/'' @ encodeURIComponent name @ ''/resources/'' @ encodeURIComponent rid) =
    Inr (Some \<lparr>rt_name = name, rt_kind = KResources, rt_id = Some rid\<rparr>)"
proof -
  have "path_parts (''resources/'' @ encodeURIComponent rid) = [''resources'', encodeURIComponent rid]"
    using js_split_component[of "CHR ''/''" "''resources''" "encodeURIComponent rid"] encode_nonempty[OF assms(2)]
      js_split_plain[OF encodeURIComponent_no_slash[of rid]]
    by (simp add: path_parts_def)
  then show ?thesis
    using path_parts_corpus[OF assms(1), of "''resources/'' @ encodeURIComponent rid"]
    by (simp add: parseRoute_def decode_encode Let_def)
qed

lemma handle_fetch:
  fixes req :: http_request
  assumes "hr_url req = Inr \<lparr>pu_pathname = path, pu_searchParams = ps\<rparr>" "path \<noteq> ''/healthz''"
    and "parseRoute path = Inr (Some \<lparr>rt_name = name, rt_kind = KResources, rt_id = Some rid\<rparr>)" "rid \<noteq> []"
    and "authenticate (so_auth options) (broker_header req ''authorization'') = Inr (Sync name)"
    and "registry_get (so_registry options) name = Some b"
  shows "fst (createBrokerServer env options req trail) =
    (case dr_fetch (cb_driver b) trail (cb_scope b) \<lparr>cr_service = Some (cb_serviceToken b), cr_delegated = None\<rparr> rid of
       Inr d \<Rightarrow> (200, BDocument d)
     | Inl (PermissionDenied m) \<Rightarrow> (403, BError m) | Inl (Transient m) \<Rightarrow> (503, BError m)
     | Inl (Permanent m) \<Rightarrow> (500, BError m) | Inl (QueryValidation m) \<Rightarrow> (400, BError m)
     | Inl _ \<Rightarrow> (500, BError ''internal error''))"
  using assms
  by (simp add: createBrokerServer_def handle_def grant_def broker_authorize_def route_operation_def user_read_def
      serve_route_def serve_resources_def failure_response_def eff_defs Let_def
      split: sum.splits broker_error.splits)

lemma worker_fetch:
  assumes "name \<noteq> []" "rid \<noteq> []" and auth: "authenticate (so_auth options) (Some (''Bearer '' @ hs_token cfg)) = Inr (Sync name)"
    and b: "registry_get (so_registry options) name = Some b"
  shows "case dr_fetch (cb_driver b) [] (cb_scope b) \<lparr>cr_service = Some (cb_serviceToken b), cr_delegated = None\<rparr> rid of
      Inr d \<Rightarrow> source_fetch (broker_wire benv options cfg) cfg name rid = Inr d
    | Inl e \<Rightarrow> (case source_fetch (broker_wire benv options cfg) cfg name rid of Inl e' \<Rightarrow> failure_class e' = failure_class e | Inr _ \<Rightarrow> False)"
proof -
  let ?req = "worker_http cfg (fetch_url cfg name rid) (''Bearer '' @ hs_token cfg)"
  have url: "hr_url ?req = Inr \<lparr>pu_pathname = ''/corpora/'' @ encodeURIComponent name @ ''/resources/'' @ encodeURIComponent rid, pu_searchParams = []\<rparr>"
    by (simp add: worker_http_def fetch_url_def)
  have "broker_header ?req ''authorization'' = Some (''Bearer '' @ hs_token cfg)" by (simp add: broker_header_def worker_http_def)
  then have a: "authenticate (so_auth options) (broker_header ?req ''authorization'') = Inr (Sync name)" using auth by simp
  have path: "''/corpora/'' @ encodeURIComponent name @ ''/resources/'' @ encodeURIComponent rid \<noteq> ''/healthz''" by simp
  note served = handle_fetch[OF url path resource_route[OF assms(1, 2)] assms(2) a b, of benv "[]"]
  show ?thesis
    using served
    by (auto simp: source_fetch_def source_request_def broker_wire_def document_answer_def rs_ok_def status_error_def failure_class_def Let_def
        split: sum.splits broker_error.splits)
qed

text \<open>
  C36. The sync worker sees through the broker what the driver saw. With the sync token of a corpus, a
  fetch over the broker's own HTTP surface returns the document the driver returned for the
  ingestion credential within the corpus's scope; and a failure keeps its class on the way: what the
  source refused is a refusal, what could not be found out stays open, and what is hopeless is not
  retried.
\<close>

theorem documents_reach_the_worker:
  assumes "name \<noteq> []" "rid \<noteq> []" "authenticate (so_auth options) (Some (''Bearer '' @ hs_token cfg)) = Inr (Sync name)"
    "registry_get (so_registry options) name = Some b"
  shows "case dr_fetch (cb_driver b) [] (cb_scope b) \<lparr>cr_service = Some (cb_serviceToken b), cr_delegated = None\<rparr> rid of
      Inr d \<Rightarrow> source_fetch (broker_wire benv options cfg) cfg name rid = Inr d
    | Inl e \<Rightarrow> (case source_fetch (broker_wire benv options cfg) cfg name rid of Inl e' \<Rightarrow> failure_class e' = failure_class e | Inr _ \<Rightarrow> False)"
  by (rule worker_fetch[OF assms])

theorem documents_reach_the_worker_witness:
  "case source_fetch (broker_wire benv_ex (options_ex\<lparr>so_auth := \<lparr>ac_orchestratorToken = ''s3'', ac_syncTokens = [(''eng'', ''t'')]\<rparr>\<rparr>)
       \<lparr>hs_baseUrl = ''http://127.0.0.1'', hs_token = ''t''\<rparr>) \<lparr>hs_baseUrl = ''http://127.0.0.1'', hs_token = ''t''\<rparr> ''eng'' ''17'' of
     Inl e' \<Rightarrow> failure_class e' = Unknown0 | Inr _ \<Rightarrow> False"
proof -
  let ?options = "options_ex\<lparr>so_auth := \<lparr>ac_orchestratorToken = ''s3'', ac_syncTokens = [(''eng'', ''t'')]\<rparr>\<rparr>"
  let ?cfg = "\<lparr>hs_baseUrl = ''http://127.0.0.1'', hs_token = ''t''\<rparr>"
  have auth: "authenticate (so_auth ?options) (Some (''Bearer '' @ hs_token ?cfg)) = Inr (Sync ''eng'')" by code_simp
  have reg: "registry_get (so_registry ?options) ''eng'' = Some binding_ex"
    by (simp add: options_ex_def registry_get_def binding_ex_def)
  have busy: "dr_fetch (cb_driver binding_ex) [] (cb_scope binding_ex)
      \<lparr>cr_service = Some (cb_serviceToken binding_ex), cr_delegated = None\<rparr> ''17'' = Inl (Transient ''busy'')"
    by (simp add: binding_ex_def driver_ex_def)
  show ?thesis
    using documents_reach_the_worker[OF _ _ auth reg, of "''17''" benv_ex, unfolded busy]
    by (simp only: sum.case failure_class_def[of "Transient _"] broker_error.case) simp
qed


section \<open>The status of a pass\<close>

record corpus_status =
  ct_resources :: nat
  ct_lastSyncTime :: string
  ct_lastReconcileTime :: "string option"

text \<open>The merge patch: what is absent stays as it was. A failed write is reported and the pass goes on.\<close>

definition status_patch :: "string \<Rightarrow> WorkerReport \<Rightarrow> corpus_status" where
  "status_patch stamp report =
     \<lparr>ct_resources = wk_indexed report + wk_unchanged report, ct_lastSyncTime = stamp,
      ct_lastReconcileTime = (if wk_full report then Some stamp else None)\<rparr>"

datatype status_event = PatchStatus string corpus_status "broker_error + unit" | StatusError string

definition status_record ::
    "(status_event list \<Rightarrow> string \<Rightarrow> corpus_status \<Rightarrow> broker_error + unit) \<Rightarrow> string \<Rightarrow> string \<Rightarrow> WorkerReport \<Rightarrow>
       (status_event, broker_error, unit) eff" where
  "status_record patch stamp corpus report =
     bind_e (try_e (call_e (\<lambda>log. patch log corpus (status_patch stamp report)) (PatchStatus corpus (status_patch stamp report)))) (\<lambda>r.
       case r of Inl _ \<Rightarrow> emit_e (StatusError corpus) | Inr _ \<Rightarrow> return_e ())"

lemma status_record_returns: "fst (status_record patch stamp corpus report trail) = Inr ()"
  by (simp add: status_record_def eff_defs split: sum.splits)

text \<open>A partial pass over one document reports that document's chunks as the resources of the whole corpus.\<close>

lemma partial_status_counts_chunks:
  "ct_resources (status_patch stamp (pass_report env target \<lparr>sn_onlySourceIds = Some ids, sn_maxPages = None\<rparr> f indexed)) =
     card (hashes_of (fs_chunks (fetch_result env target f)))"
proof -
  let ?cs = "fs_chunks (fetch_result env target f)"
  let ?scope = "pass_scope (sn_onlySourceIds (\<lparr>sn_onlySourceIds = Some ids, sn_maxPages = None\<rparr> :: SyncOptions) = None) (fetch_result env target f)"
  note facts = reconcile_facts[of ?cs indexed ?scope]
  have "length (rp_upsert (reconcile ?cs indexed ?scope)) = card (hashes_of ?cs - indexed_hashes indexed)"
    using distinct_card[OF facts(4)] facts(1) by (simp add: hashes_of_def)
  moreover have "card (hashes_of ?cs) = card (hashes_of ?cs - indexed_hashes indexed) + card (hashes_of ?cs \<inter> indexed_hashes indexed)"
    using card_Int_Diff[of "hashes_of ?cs" "indexed_hashes indexed"] by (simp add: hashes_of_def)
  ultimately show ?thesis using facts(5) by (simp add: status_patch_def pass_report_def pass_plan_def Let_def)
qed

end
