(* ===== verification/Sync_Scheduler.thy ===== *)
theory Sync_Scheduler
  imports Sync_Store
begin

text \<open>
  The scheduler of sync passes (\<open>apps/connection-broker/src/sync/scheduler.ts\<close>) as a state machine:
  its timers, the set of corpora with a pass in flight, and the passes themselves, which end at some
  later event. Every event that looks at the targets carries the names \<open>targets()\<close> returns at that
  moment; the intervals only say when a timer fires, which is the environment's choice.
\<close>

section \<open>The machine\<close>

record sync_pass =
  pa_corpus :: string
  pa_only :: "string list option"
  pa_timed :: bool

record SyncScheduler =
  sd_timers :: "(string \<times> nat) list"
  sd_pending :: "(nat \<times> string) list"
  sd_running :: "string list"
  sd_passes :: "sync_pass list"
  sd_stopped :: bool
  sd_handles :: nat

definition new_scheduler :: SyncScheduler where
  "new_scheduler = \<lparr>sd_timers = [], sd_pending = [], sd_running = [], sd_passes = [], sd_stopped = False, sd_handles = 0\<rparr>"

text \<open>\<open>setTimeout\<close> returns a fresh handle; the map keeps the last handle of a corpus.\<close>

definition sched_schedule :: "string \<Rightarrow> SyncScheduler \<Rightarrow> SyncScheduler" where
  "sched_schedule corpus st =
     (if sd_stopped st then st
      else st\<lparr>sd_pending := sd_pending st @ [(sd_handles st, corpus)],
              sd_timers := (corpus, sd_handles st) # filter (\<lambda>(c, _). c \<noteq> corpus) (sd_timers st),
              sd_handles := Suc (sd_handles st)\<rparr>)"

definition sched_start :: "string list \<Rightarrow> SyncScheduler \<Rightarrow> SyncScheduler" where
  "sched_start targets st = fold sched_schedule targets (st\<lparr>sd_stopped := False\<rparr>)"

definition sched_stop :: "SyncScheduler \<Rightarrow> SyncScheduler" where
  "sched_stop st =
     st\<lparr>sd_stopped := True, sd_pending := filter (\<lambda>(h, _). h \<notin> snd ` set (sd_timers st)) (sd_pending st), sd_timers := []\<rparr>"

text \<open>What follows a timed pass: the corpus is scheduled again if it is still a target.\<close>

definition sched_again :: "string list \<Rightarrow> bool \<Rightarrow> string \<Rightarrow> SyncScheduler \<Rightarrow> SyncScheduler" where
  "sched_again targets timed corpus st = (if timed \<and> corpus \<in> set targets then sched_schedule corpus st else st)"

definition runOnce :: "string list \<Rightarrow> bool \<Rightarrow> string \<Rightarrow> string list option \<Rightarrow> SyncScheduler \<Rightarrow> SyncScheduler" where
  "runOnce targets timed corpus only st =
     (if corpus \<in> set (sd_running st) \<or> corpus \<notin> set targets then sched_again targets timed corpus st
      else st\<lparr>sd_running := corpus # sd_running st,
              sd_passes := sd_passes st @ [\<lparr>pa_corpus = corpus, pa_only = only, pa_timed = timed\<rparr>]\<rparr>)"

definition onWebhook :: "string list \<Rightarrow> string \<Rightarrow> string list \<Rightarrow> SyncScheduler \<Rightarrow> SyncScheduler" where
  "onWebhook targets corpus sourceIds st = runOnce targets False corpus (if sourceIds \<noteq> [] then Some sourceIds else None) st"

definition remove_nth :: "nat \<Rightarrow> 'a list \<Rightarrow> 'a list" where
  "remove_nth k xs = take k xs @ drop (Suc k) xs"

text \<open>A pass ends, with a report or an error: \<open>finally\<close>.\<close>

definition finish_pass :: "string list \<Rightarrow> nat \<Rightarrow> SyncScheduler \<Rightarrow> SyncScheduler" where
  "finish_pass targets k st =
     (if k < length (sd_passes st)
      then
        (let pass = sd_passes st ! k in
         sched_again targets (pa_timed pass) (pa_corpus pass)
           (st\<lparr>sd_running := filter (\<lambda>c. c \<noteq> pa_corpus pass) (sd_running st), sd_passes := remove_nth k (sd_passes st)\<rparr>))
      else st)"

datatype sched_event =
    StartScheduler "string list"
  | StopScheduler
  | TimerFires nat "string list"
  | WebhookArrives string "string list" "string list"
  | SyncRequested string "string list"
  | PassEnds nat "string list"

fun sched_step :: "sched_event \<Rightarrow> SyncScheduler \<Rightarrow> SyncScheduler" where
  "sched_step (StartScheduler targets) st = sched_start targets st"
| "sched_step StopScheduler st = sched_stop st"
| "sched_step (TimerFires h targets) st =
     (case map_of (sd_pending st) h of
        None \<Rightarrow> st
      | Some corpus \<Rightarrow> runOnce targets True corpus None (st\<lparr>sd_pending := filter (\<lambda>(h', _). h' \<noteq> h) (sd_pending st)\<rparr>))"
| "sched_step (WebhookArrives corpus sourceIds targets) st = onWebhook targets corpus sourceIds st"
| "sched_step (SyncRequested corpus targets) st = runOnce targets False corpus None st"
| "sched_step (PassEnds k targets) st = finish_pass targets k st"

definition sched_run :: "sched_event list \<Rightarrow> SyncScheduler \<Rightarrow> SyncScheduler" where
  "sched_run events st = fold sched_step events st"


section \<open>Passes never overlap\<close>

definition exclusive :: "SyncScheduler \<Rightarrow> bool" where
  "exclusive st \<longleftrightarrow> distinct (map pa_corpus (sd_passes st)) \<and> set (sd_running st) = set (map pa_corpus (sd_passes st))"

lemma schedule_passes [simp]:
  "sd_passes (sched_schedule c st) = sd_passes st" "sd_running (sched_schedule c st) = sd_running st"
  by (simp_all add: sched_schedule_def)

lemma again_passes [simp]:
  "sd_passes (sched_again targets timed c st) = sd_passes st" "sd_running (sched_again targets timed c st) = sd_running st"
  by (simp_all add: sched_again_def)

lemma start_passes [simp]:
  "sd_passes (sched_start targets st) = sd_passes st" "sd_running (sched_start targets st) = sd_running st"
proof -
  have "sd_passes (fold sched_schedule targets s) = sd_passes s \<and> sd_running (fold sched_schedule targets s) = sd_running s" for s
    by (induction targets arbitrary: s) simp_all
  then show "sd_passes (sched_start targets st) = sd_passes st" "sd_running (sched_start targets st) = sd_running st"
    by (simp_all add: sched_start_def)
qed

lemma set_remove_nth:
  assumes "distinct xs" "k < length xs"
  shows "set (remove_nth k xs) = set xs - {xs ! k}" "distinct (remove_nth k xs)"
proof -
  have xs: "xs = take k xs @ xs ! k # drop (Suc k) xs" using assms(2) by (simp add: id_take_nth_drop)
  then have "distinct (take k xs @ xs ! k # drop (Suc k) xs)" using assms(1) by simp
  then show "distinct (remove_nth k xs)" by (auto simp: remove_nth_def)
  have "set xs = set (take k xs) \<union> {xs ! k} \<union> set (drop (Suc k) xs)" using xs by (metis Un_insert_right list.simps(15) set_append sup_bot.right_neutral Un_assoc insert_is_Un)
  then show "set (remove_nth k xs) = set xs - {xs ! k}"
    using \<open>distinct (take k xs @ xs ! k # drop (Suc k) xs)\<close> by (auto simp: remove_nth_def)
qed

lemma map_remove_nth: "map f (remove_nth k xs) = remove_nth k (map f xs)"
  by (simp add: remove_nth_def take_map drop_map)

lemma runOnce_exclusive: "exclusive st \<Longrightarrow> exclusive (runOnce targets timed c only st)"
  by (auto simp: runOnce_def exclusive_def)

lemma finish_exclusive: "exclusive st \<Longrightarrow> exclusive (finish_pass targets k st)"
  using set_remove_nth[of "map pa_corpus (sd_passes st)" k]
  by (auto simp: finish_pass_def exclusive_def Let_def map_remove_nth simp del: set_map)

lemma step_exclusive: "exclusive st \<Longrightarrow> exclusive (sched_step e st)"
proof (cases e)
  case (TimerFires h targets)
  assume st: "exclusive st"
  have "exclusive (st\<lparr>sd_pending := p\<rparr>)" for p using st by (simp add: exclusive_def)
  then show ?thesis using TimerFires st by (simp add: runOnce_exclusive split: option.split)
qed (simp_all add: onWebhook_def runOnce_exclusive finish_exclusive, simp_all add: exclusive_def sched_stop_def)

lemma run_exclusive: "exclusive st \<Longrightarrow> exclusive (sched_run events st)"
  unfolding sched_run_def by (induction events arbitrary: st) (simp_all add: step_exclusive)

text \<open>
  C12. Passes over one corpus never overlap: whatever timers, webhooks and sync requests arrive in whatever
  order, and however the set of targets changes, at every moment at most one pass is in flight for a
  corpus, and the corpora marked as running are exactly those with a pass in flight.
\<close>

theorem passes_never_overlap:
  "distinct (map pa_corpus (sd_passes (sched_run events new_scheduler))) \<and>
   set (sd_running (sched_run events new_scheduler)) = set (map pa_corpus (sd_passes (sched_run events new_scheduler)))"
  using run_exclusive[of new_scheduler events] by (simp add: exclusive_def new_scheduler_def)


section \<open>Timers\<close>

text \<open>How often a corpus is on the schedule: its pending timers, and its passes that a timer started.\<close>

definition pending_count :: "string \<Rightarrow> SyncScheduler \<Rightarrow> nat" where
  "pending_count c st = length (filter (\<lambda>(h, c'). c' = c) (sd_pending st))"

definition timed_count :: "string \<Rightarrow> SyncScheduler \<Rightarrow> nat" where
  "timed_count c st = pending_count c st + length (filter (\<lambda>p. pa_timed p \<and> pa_corpus p = c) (sd_passes st))"

definition armed :: "SyncScheduler \<Rightarrow> bool" where
  "armed st \<longleftrightarrow>
     distinct (map fst (sd_pending st)) \<and>
     list_all (\<lambda>(h, c). h < sd_handles st \<and> (c, h) \<in> set (sd_timers st)) (sd_pending st) \<and> (\<forall>c. timed_count c st \<le> 1)"

lemma count_schedule: "timed_count c (sched_schedule c' st) = timed_count c st + of_bool (c = c' \<and> \<not> sd_stopped st)"
  by (simp add: timed_count_def pending_count_def sched_schedule_def)

lemma no_pending: "timed_count c st = 0 \<Longrightarrow> (h, c) \<notin> set (sd_pending st)"
  by (auto simp: timed_count_def pending_count_def filter_empty_conv)

lemma schedule_armed:
  assumes "armed st" and "timed_count c st = 0"
  shows "armed (sched_schedule c st)"
proof (cases "sd_stopped st")
  case True
  then show ?thesis using assms by (simp add: sched_schedule_def)
next
  case False
  have "timed_count c' (sched_schedule c st) \<le> 1" for c'
    using assms by (cases "c' = c") (simp_all add: armed_def count_schedule)
  moreover have "distinct (map fst (sd_pending (sched_schedule c st)))"
    using assms(1) False by (force simp: armed_def sched_schedule_def list_all_iff)
  moreover have "list_all (\<lambda>(h, c'). h < sd_handles (sched_schedule c st) \<and> (c', h) \<in> set (sd_timers (sched_schedule c st)))
      (sd_pending (sched_schedule c st))"
    using assms(1) False no_pending[OF assms(2)]
    by (fastforce simp: armed_def sched_schedule_def list_all_iff)
  ultimately show ?thesis by (simp add: armed_def)
qed

lemma again_armed: "armed st \<Longrightarrow> timed_count c st = 0 \<Longrightarrow> armed (sched_again targets timed c st)"
  by (simp add: sched_again_def schedule_armed)

text \<open>A timer that fires, and a pass that ends, leave the schedule.\<close>

lemma filter_handle:
  assumes "distinct (map fst ps)" "map_of ps h = Some c"
  shows "length (filter (\<lambda>(h', c'). c' = x) ps) =
    length (filter (\<lambda>(h', c'). c' = x) (filter (\<lambda>(h', _). h' \<noteq> h) ps)) + of_bool (x = c)"
  using assms
proof (induction ps)
  case (Cons p ps)
  obtain h0 c0 where p: "p = (h0, c0)" by (cases p)
  show ?case
  proof (cases "h0 = h")
    case True
    then have "filter (\<lambda>(h', _). h' \<noteq> h) ps = ps" using Cons.prems p by (force simp: filter_id_conv)
    then show ?thesis using True Cons.prems p by auto
  next
    case False
    then show ?thesis using Cons p by auto
  qed
qed simp

lemma fired_count:
  assumes "armed st" "map_of (sd_pending st) h = Some c"
  shows "timed_count x st = timed_count x (st\<lparr>sd_pending := filter (\<lambda>(h', _). h' \<noteq> h) (sd_pending st)\<rparr>) + of_bool (x = c)"
  using filter_handle[of "sd_pending st" h c x] assms by (simp add: timed_count_def pending_count_def armed_def)

lemma fired_armed:
  assumes "armed st" "map_of (sd_pending st) h = Some c"
  shows "armed (st\<lparr>sd_pending := filter (\<lambda>(h', _). h' \<noteq> h) (sd_pending st)\<rparr>)"
proof -
  have "timed_count x (st\<lparr>sd_pending := filter (\<lambda>(h', _). h' \<noteq> h) (sd_pending st)\<rparr>) \<le> 1" for x
  proof -
    have "timed_count x st \<le> 1" using assms(1) by (simp add: armed_def)
    then show ?thesis using fired_count[OF assms, of x] by linarith
  qed
  then show ?thesis using assms(1) by (auto simp: armed_def list_all_iff distinct_map_filter)
qed

lemma length_filter_remove_nth:
  "k < length xs \<Longrightarrow> length (filter P xs) = length (filter P (remove_nth k xs)) + of_bool (P (xs ! k))"
proof -
  assume "k < length xs"
  then have "xs = take k xs @ xs ! k # drop (Suc k) xs" by (simp add: id_take_nth_drop)
  then have "length (filter P xs) = length (filter P (take k xs @ xs ! k # drop (Suc k) xs))" by simp
  then show ?thesis by (simp add: remove_nth_def)
qed

lemma ended_count:
  assumes "k < length (sd_passes st)"
  shows "timed_count x st = timed_count x (st\<lparr>sd_running := r, sd_passes := remove_nth k (sd_passes st)\<rparr>) +
    of_bool (pa_timed (sd_passes st ! k) \<and> x = pa_corpus (sd_passes st ! k))"
  using length_filter_remove_nth[OF assms, of "\<lambda>p. pa_timed p \<and> pa_corpus p = x"]
  by (auto simp: timed_count_def pending_count_def)

lemma ended_armed:
  assumes "armed st" "k < length (sd_passes st)"
  shows "armed (st\<lparr>sd_running := r, sd_passes := remove_nth k (sd_passes st)\<rparr>)"
proof -
  have "timed_count x (st\<lparr>sd_running := r, sd_passes := remove_nth k (sd_passes st)\<rparr>) \<le> 1" for x
  proof -
    have "timed_count x st \<le> 1" using assms(1) by (simp add: armed_def)
    then show ?thesis using ended_count[OF assms(2), of x r] by linarith
  qed
  then show ?thesis using assms(1) by (simp add: armed_def)
qed

lemma run_timed:
  assumes "armed st" "timed_count c st = 0"
  shows "armed (runOnce targets True c only st)"
    and "timed_count x (runOnce targets True c only st) =
      timed_count x st + of_bool (x = c \<and> c \<in> set targets \<and> (\<not> sd_stopped st \<or> c \<notin> set (sd_running st)))"
proof -
  show "timed_count x (runOnce targets True c only st) =
      timed_count x st + of_bool (x = c \<and> c \<in> set targets \<and> (\<not> sd_stopped st \<or> c \<notin> set (sd_running st)))" for x
    by (auto simp: runOnce_def sched_again_def count_schedule timed_count_def pending_count_def) (auto simp: sched_schedule_def)
  then have "timed_count x (runOnce targets True c only st) \<le> 1" for x
    using assms by (cases "x = c") (simp_all add: armed_def)
  then show "armed (runOnce targets True c only st)"
    using assms again_armed[OF assms] by (auto simp: runOnce_def armed_def)
qed

lemma run_untimed: "armed st \<Longrightarrow> armed (runOnce targets False c only st)"
  "timed_count x (runOnce targets False c only st) = timed_count x st"
  by (auto simp: runOnce_def sched_again_def armed_def timed_count_def pending_count_def)

lemma stop_pending: "armed st \<Longrightarrow> sd_pending (sched_stop st) = []"
  by (force simp: armed_def sched_stop_def list_all_iff filter_empty_conv)

lemma stop_armed:
  assumes "armed st"
  shows "armed (sched_stop st)"
proof -
  have "timed_count c (sched_stop st) \<le> timed_count c st" for c
    using stop_pending[OF assms] by (simp add: timed_count_def pending_count_def sched_stop_def)
  moreover have "timed_count c st \<le> 1" for c using assms by (simp add: armed_def)
  ultimately have "timed_count c (sched_stop st) \<le> 1" for c by (rule order_trans)
  then show ?thesis using stop_pending[OF assms] by (simp add: armed_def)
qed

definition not_start :: "sched_event \<Rightarrow> bool" where
  "not_start e \<longleftrightarrow> (case e of StartScheduler _ \<Rightarrow> False | _ \<Rightarrow> True)"

lemma fired_zero:
  assumes "armed st" "map_of (sd_pending st) h = Some c"
  shows "timed_count c (st\<lparr>sd_pending := filter (\<lambda>(h', _). h' \<noteq> h) (sd_pending st)\<rparr>) = 0"
proof -
  have "timed_count c st \<le> 1" using assms(1) by (simp add: armed_def)
  then show ?thesis using fired_count[OF assms, of c] by simp
qed

lemma ended_zero:
  assumes "armed st" "k < length (sd_passes st)" "pa_timed (sd_passes st ! k)"
  shows "timed_count (pa_corpus (sd_passes st ! k)) (st\<lparr>sd_running := r, sd_passes := remove_nth k (sd_passes st)\<rparr>) = 0"
proof -
  have "timed_count (pa_corpus (sd_passes st ! k)) st \<le> 1" using assms(1) by (simp add: armed_def)
  then show ?thesis using ended_count[OF assms(2), of "pa_corpus (sd_passes st ! k)" r] assms(3) by simp
qed

lemma finish_armed: "armed st \<Longrightarrow> armed (finish_pass targets k st)"
  using ended_armed[of st k] ended_zero[of st k] again_armed
  by (cases "k < length (sd_passes st)"; cases "pa_timed (sd_passes st ! k)")
    (simp_all add: finish_pass_def Let_def sched_again_def[of _ False])

lemma step_armed: "armed st \<Longrightarrow> not_start e \<Longrightarrow> armed (sched_step e st)"
  by (cases e) (auto simp: not_start_def stop_armed onWebhook_def run_untimed finish_armed
      intro: run_timed(1)[OF fired_armed fired_zero] split: option.split)

lemma run_armed: "armed st \<Longrightarrow> list_all not_start events \<Longrightarrow> armed (sched_run events st)"
  unfolding sched_run_def by (induction events arbitrary: st) (simp_all add: step_armed)

lemma start_armed:
  assumes "distinct targets"
  shows "armed (sched_start targets new_scheduler)" and "timed_count c (sched_start targets new_scheduler) = of_bool (c \<in> set targets)"
    and "\<not> sd_stopped (sched_start targets new_scheduler)"
proof -
  have fold: "armed (fold sched_schedule ts st) \<and> timed_count c (fold sched_schedule ts st) = timed_count c st + of_bool (c \<in> set ts) \<and>
      \<not> sd_stopped (fold sched_schedule ts st)"
    if "distinct ts" "armed st" "\<And>x. x \<in> set ts \<Longrightarrow> timed_count x st = 0" "\<not> sd_stopped st" for ts st c
    using that
  proof (induction ts arbitrary: st)
    case (Cons t ts)
    have running: "\<not> sd_stopped (sched_schedule t st)" using Cons.prems(4) by (simp add: sched_schedule_def)
    have "timed_count x (sched_schedule t st) = 0" if "x \<in> set ts" for x
      using that Cons.prems by (auto simp: count_schedule)
    from Cons.IH[OF _ schedule_armed[OF Cons.prems(2)] this running] show ?case
      using Cons.prems by (auto simp: count_schedule)
  qed simp
  let ?st = "new_scheduler\<lparr>sd_stopped := False\<rparr>"
  have zero: "timed_count x ?st = 0" for x by (simp add: timed_count_def pending_count_def new_scheduler_def)
  have "armed ?st" using zero by (simp add: armed_def) (simp add: new_scheduler_def)
  from fold[OF assms this, of c] zero show "armed (sched_start targets new_scheduler)"
    "timed_count c (sched_start targets new_scheduler) = of_bool (c \<in> set targets)" "\<not> sd_stopped (sched_start targets new_scheduler)"
    by (simp_all add: sched_start_def)
qed

text \<open>
  Stopping is final for the timers: however the scheduler ran since it was started, stopping it
  leaves no timer pending, so nothing starts a timed pass afterwards, and a pass still in flight
  schedules no successor.
\<close>

theorem stop_leaves_no_timer:
  assumes "distinct targets" and "list_all not_start events" and "list_all not_start later"
  shows "sd_pending (sched_run later (sched_stop (sched_run events (sched_start targets new_scheduler)))) = []"
proof -
  let ?st = "sched_stop (sched_run events (sched_start targets new_scheduler))"
  have first: "sd_pending ?st = []" "sd_stopped ?st"
    using stop_pending[OF run_armed[OF start_armed(1)[OF assms(1)] assms(2)]] by (simp_all add: sched_stop_def)
  have again: "sd_pending (sched_again ts b c s) = [] \<and> sd_stopped (sched_again ts b c s)" if "sd_pending s = []" "sd_stopped s" for s ts b c
    using that by (simp add: sched_again_def sched_schedule_def)
  have once: "sd_pending (runOnce ts b c only s) = [] \<and> sd_stopped (runOnce ts b c only s)" if "sd_pending s = []" "sd_stopped s" for s ts b c only
    using that again by (simp add: runOnce_def)
  have step: "sd_pending (sched_step e s) = [] \<and> sd_stopped (sched_step e s)" if "sd_pending s = []" "sd_stopped s" "not_start e" for e s
    using that once again by (cases e) (simp_all add: not_start_def onWebhook_def finish_pass_def Let_def sched_stop_def)
  have "sd_pending (fold sched_step later s) = []" if "sd_pending s = []" "sd_stopped s" "list_all not_start later" for s
    using that step by (induction later arbitrary: s) simp_all
  then show ?thesis using first assms(3) by (simp add: sched_run_def)
qed

definition keeps :: "string \<Rightarrow> sched_event \<Rightarrow> bool" where
  "keeps c e \<longleftrightarrow>
     (case e of
        StartScheduler _ \<Rightarrow> False | StopScheduler \<Rightarrow> False
      | TimerFires _ targets \<Rightarrow> c \<in> set targets | PassEnds _ targets \<Rightarrow> c \<in> set targets | _ \<Rightarrow> True)"

lemma keeps_not_start: "keeps c e \<Longrightarrow> not_start e"
  by (cases e) (simp_all add: keeps_def not_start_def)

lemma schedule_stopped [simp]: "sd_stopped (sched_schedule c st) = sd_stopped st" "sd_stopped (sched_again ts b c st) = sd_stopped st"
  "sd_stopped (runOnce ts b c only st) = sd_stopped st" "sd_stopped (finish_pass ts k st) = sd_stopped st"
  by (simp_all add: sched_schedule_def sched_again_def runOnce_def finish_pass_def Let_def)

lemma finish_count:
  assumes "k < length (sd_passes st)" "\<not> sd_stopped st" "c \<in> set targets"
  shows "timed_count c (finish_pass targets k st) = timed_count c st"
proof -
  let ?p = "sd_passes st ! k"
  let ?st = "st\<lparr>sd_running := filter (\<lambda>c. c \<noteq> pa_corpus ?p) (sd_running st), sd_passes := remove_nth k (sd_passes st)\<rparr>"
  have fin: "finish_pass targets k st = sched_again targets (pa_timed ?p) (pa_corpus ?p) ?st" using assms(1) by (simp add: finish_pass_def Let_def)
  have "timed_count c (sched_again targets (pa_timed ?p) (pa_corpus ?p) ?st) = timed_count c ?st + of_bool (pa_timed ?p \<and> c = pa_corpus ?p)"
    using assms(2, 3) by (auto simp: sched_again_def count_schedule)
  then show ?thesis unfolding fin using ended_count[OF assms(1), of c "filter (\<lambda>c. c \<noteq> pa_corpus ?p) (sd_running st)"] by simp
qed

lemma step_keeps:
  assumes "armed st" "\<not> sd_stopped st" "keeps c e"
  shows "timed_count c (sched_step e st) = timed_count c st" "\<not> sd_stopped (sched_step e st)"
proof -
  show "\<not> sd_stopped (sched_step e st)" using assms by (cases e) (auto simp: keeps_def onWebhook_def split: option.split)
  show "timed_count c (sched_step e st) = timed_count c st"
  proof (cases e)
    case (TimerFires h targets)
    show ?thesis
    proof (cases "map_of (sd_pending st) h")
      case None
      then show ?thesis using TimerFires by simp
    next
      case (Some c')
      let ?st = "st\<lparr>sd_pending := filter (\<lambda>(h', _). h' \<noteq> h) (sd_pending st)\<rparr>"
      have "timed_count c (runOnce targets True c' None ?st) = timed_count c ?st + of_bool (c = c')"
        using run_timed(2)[OF fired_armed[OF assms(1) Some] fired_zero[OF assms(1) Some], of c targets None] assms(2, 3) TimerFires
        by (auto simp: keeps_def)
      then show ?thesis using fired_count[OF assms(1) Some, of c] TimerFires Some by simp
    qed
  next
    case (PassEnds k targets)
    then show ?thesis
      using assms finish_count[of k st c targets] by (cases "k < length (sd_passes st)") (simp_all add: keeps_def finish_pass_def)
  qed (use assms in \<open>simp_all add: keeps_def onWebhook_def run_untimed\<close>)
qed

text \<open>
  C33. A corpus is never forgotten, and never scheduled twice. While the scheduler runs and the corpus
  remains a target, there is at every moment exactly one timer pending for it or one timed pass of
  it in flight, whatever webhooks and sync requests arrive in between and whichever passes fail.
\<close>

theorem corpora_stay_scheduled:
  assumes "distinct targets" and "c \<in> set targets" and "list_all (keeps c) events"
  shows "timed_count c (sched_run events (sched_start targets new_scheduler)) = 1"
proof -
  have "timed_count c (fold sched_step events st) = timed_count c st" if "armed st" "\<not> sd_stopped st" for st
    using that assms(3)
  proof (induction events arbitrary: st)
    case (Cons e events)
    then show ?case
      using step_keeps[of st c e] step_armed[OF _ keeps_not_start, of st c e] by simp
  qed simp
  from this[OF start_armed(1, 3)[OF assms(1)]] show ?thesis
    using start_armed(2)[OF assms(1), of c] assms(2) by (simp add: sched_run_def)
qed

definition sched_events_ex :: "sched_event list" where
  "sched_events_ex =
     [TimerFires 0 [''a'', ''b''], WebhookArrives ''a'' [''7''] [''a'', ''b''], PassEnds 0 [''a'', ''b''], SyncRequested ''a'' [''a'', ''b''],
      TimerFires 2 [''a'', ''b'']]"

theorem corpora_stay_scheduled_witness:
  "timed_count ''a'' (sched_run sched_events_ex (sched_start [''a'', ''b''] new_scheduler)) = 1"
  by (rule corpora_stay_scheduled) (simp_all add: sched_events_ex_def keeps_def)

theorem stop_leaves_no_timer_witness:
  "sd_pending (sched_run [PassEnds 0 [''a'', ''b'']] (sched_stop (sched_run sched_events_ex (sched_start [''a'', ''b''] new_scheduler)))) = []"
  by (rule stop_leaves_no_timer) (simp_all add: sched_events_ex_def not_start_def)

end
