(* ===== verification/Continuation.thy ===== *)
theory Continuation
  imports Js_Prelude "HOL-Library.Sublist"
begin

text \<open>
  \<open>apps/agent-orchestrator/src/continuation.ts\<close>: the opaque state a tool hands back at the head
  of its output, which the orchestrator strips, keeps in the session and puts in front of the
  next call's arguments.

  The pattern \<open>/^<!--\s*continuation:\s*([\s\S]*?)\s*-->\r?\n*/i\<close> is read off as what it matches:
  after the colon the white space is skipped, the lazy group ends at the first \<open>-->\<close>, and the
  white space before that is not part of it.
\<close>

section \<open>The marker\<close>

definition close_mark :: string where "close_mark = ''-->''"

text \<open>What stands before and after the first closing mark.\<close>

fun find_close :: "string \<Rightarrow> (string \<times> string) option" where
  "find_close [] = None"
| "find_close (c # cs) =
     (if js_startsWith (c # cs) close_mark then Some ([], drop 3 (c # cs))
      else map_option (\<lambda>(before, after). (c # before, after)) (find_close cs))"

definition skip_ws :: "string \<Rightarrow> string" where "skip_ws s = dropWhile js_ws s"

definition trim_end :: "string \<Rightarrow> string" where "trim_end s = rev (dropWhile js_ws (rev s))"

text \<open>\<open>\r?\n*\<close>.\<close>

definition skip_line_ends :: "string \<Rightarrow> string" where
  "skip_line_ends s =
     dropWhile (\<lambda>c. c = CHR 0x0A) (case s of c # cs \<Rightarrow> if c = CHR 0x0D then cs else s | [] \<Rightarrow> [])"

text \<open>The group of the match and the text after the match.\<close>

definition match_marker :: "string \<Rightarrow> (string \<times> string) option" where
  "match_marker s =
     (if \<not> js_startsWith s ''<!--'' then None
      else
        (let body = skip_ws (drop 4 s) in
         if js_toLowerCase (take 13 body) \<noteq> ''continuation:'' then None
         else map_option (\<lambda>(before, after). (trim_end before, skip_line_ends after))
                (find_close (skip_ws (drop 13 body)))))"

definition extractContinuationToken :: "string \<Rightarrow> string option \<times> string" where
  "extractContinuationToken s =
     (case match_marker s of
        None \<Rightarrow> (None, s)
      | Some (captured, rest) \<Rightarrow> (if js_trim captured = [] then None else Some (js_trim captured), rest))"

definition prependContinuationToken :: "string \<Rightarrow> string \<Rightarrow> string" where
  "prependContinuationToken token s =
     ''<!-- continuation: '' @ token @ '' -->'' @ [CHR 0x0A, CHR 0x0A] @ s"


section \<open>The key\<close>

definition resolveContinuationKey :: "string \<Rightarrow> string option \<Rightarrow> (string \<times> string) list option \<Rightarrow> string" where
  "resolveContinuationKey toolId instanceKey existing =
     (if truthy_str instanceKey then toolId @ ''::'' @ the instanceKey
      else
        (let own = (case existing of
               None \<Rightarrow> []
             | Some tokens \<Rightarrow> filter (\<lambda>k. k = toolId \<or> js_startsWith k (toolId @ ''::'')) (map fst tokens)) in
         case own of [k] \<Rightarrow> k | _ \<Rightarrow> toolId))"


section \<open>Round trip\<close>

lemma find_close_Some: "find_close s = Some (a, b) \<Longrightarrow> s = a @ close_mark @ b \<and> find_close a = None"
proof (induction s arbitrary: a)
  case (Cons c cs)
  show ?case
  proof (cases "js_startsWith (c # cs) close_mark")
    case True
    then obtain t where "c # cs = close_mark @ t" by (auto simp: js_startsWith_iff)
    then show ?thesis using Cons.prems True by (auto simp: close_mark_def)
  next
    case False
    then obtain a' where "find_close cs = Some (a', b)" "a = c # a'"
      using Cons.prems by auto
    moreover from this have "cs = a' @ close_mark @ b" "find_close a' = None" using Cons.IH by blast+
    moreover have "\<not> js_startsWith (c # a') close_mark"
    proof
      assume "js_startsWith (c # a') close_mark"
      then have "js_startsWith ((c # a') @ close_mark @ b) close_mark"
        unfolding js_startsWith_iff by (metis append.assoc)
      then show False using False calculation by simp
    qed
    ultimately show ?thesis by simp
  qed
qed simp

lemma find_close_None_iff: "find_close s = None \<longleftrightarrow> \<not> sublist close_mark s"
  by (induction s) (auto simp: close_mark_def js_startsWith_iff sublist_Cons_right prefix_def)

lemma find_close_append:
  assumes "find_close a = None" "a = [] \<or> last a \<noteq> CHR ''-''"
  shows "find_close (a @ close_mark @ b) = Some (a, b)"
  using assms
proof (induction a)
  case (Cons c cs)
  have "\<not> js_startsWith (c # cs @ close_mark @ b) close_mark"
  proof
    assume "js_startsWith (c # cs @ close_mark @ b) close_mark"
    then obtain t where t: "c # cs @ close_mark @ b = close_mark @ t" by (auto simp: js_startsWith_iff)
    have "\<not> js_startsWith (c # cs) close_mark" using Cons.prems(1) by (auto split: if_splits)
    then show False
      using t Cons.prems(2)
      by (cases cs; cases "tl cs") (auto simp: close_mark_def js_startsWith_iff)
  qed
  moreover have "find_close (cs @ close_mark @ b) = Some (cs, b)"
    using Cons by (cases cs) (auto split: if_splits)
  ultimately show ?case by simp
qed (simp add: close_mark_def js_startsWith_def)

lemma trim_ends: "trim_end s = s" "skip_ws s = s" if "js_trim s = s"
proof -
  have "length (js_trim s) \<le> length (dropWhile js_ws s)"
    using length_dropWhile_le[of js_ws "rev (dropWhile js_ws s)"] by (simp add: js_trim_def)
  then have "length (dropWhile js_ws s) = length s"
    using that length_dropWhile_le[of js_ws s] by simp
  then have skip: "dropWhile js_ws s = s"
    by (metis append_eq_conv_conj length_0_conv length_append self_append_conv2 add_cancel_left_left takeWhile_dropWhile_id)
  then show "skip_ws s = s" by (simp add: skip_ws_def)
  show "trim_end s = s" using that skip by (simp add: js_trim_def trim_end_def)
qed

lemma js_trim_fixed: "js_trim (js_trim s) = js_trim s"
proof -
  let ?a = "dropWhile js_ws s"
  let ?b = "rev (dropWhile js_ws (rev ?a))"
  have "?b = [] \<or> \<not> js_ws (hd ?b)"
  proof (cases "?b = []")
    case False
    obtain t where t: "?a = ?b @ t"
      by (metis rev_append rev_rev_ident takeWhile_dropWhile_id)
    then have "hd ?b = hd ?a" using False by (metis hd_append2)
    then show ?thesis using False t by (metis append_is_Nil_conv hd_dropWhile)
  qed simp
  then have "dropWhile js_ws ?b = ?b" by (metis dropWhile.simps(2) dropWhile_eq_self_iff)
  then show ?thesis by (simp add: js_trim_def)
qed

lemma sublist_trim: "sublist (js_trim s) s"
proof -
  have "suffix (dropWhile js_ws s) s" by (rule suffix_dropWhile)
  moreover have "prefix (js_trim s) (dropWhile js_ws s)"
    unfolding js_trim_def by (metis suffix_dropWhile rev_rev_ident suffix_to_prefix)
  ultimately show ?thesis by (meson prefix_imp_sublist sublist_order.order.trans suffix_imp_sublist)
qed

text \<open>A token that came out of a marker is trimmed, not empty and holds no closing mark.\<close>

lemma extracted_token:
  assumes "extractContinuationToken out = (Some token, rest)"
  shows "js_trim token = token" "token \<noteq> []" "find_close token = None"
proof -
  obtain captured where g: "match_marker out = Some (captured, rest)" "token = js_trim captured" "token \<noteq> []"
    using assms by (auto simp: extractContinuationToken_def split: option.splits if_splits)
  then show "js_trim token = token" "token \<noteq> []" by (simp_all add: js_trim_fixed)
  obtain before after where b: "find_close (skip_ws (drop 13 (skip_ws (drop 4 out)))) = Some (before, after)"
      "captured = trim_end before"
    using g(1) by (auto simp: match_marker_def Let_def split: if_splits)
  have "\<not> sublist close_mark before" using find_close_Some[OF b(1)] find_close_None_iff by blast
  moreover have "prefix captured before"
    unfolding b(2) trim_end_def by (metis suffix_dropWhile rev_rev_ident suffix_to_prefix)
  ultimately have "\<not> sublist close_mark token"
    using sublist_trim[of captured] g(2) by (meson prefix_imp_sublist sublist_order.order.trans)
  then show "find_close token = None" by (simp add: find_close_None_iff)
qed

lemma extract_prepended:
  assumes "js_trim token = token" "token \<noteq> []" "find_close token = None"
  shows "extractContinuationToken (prependContinuationToken token s) =
           (Some token, dropWhile (\<lambda>c. c = CHR 0x0A) s)"
proof -
  have space: "js_ws (CHR '' '')" by (simp add: js_ws_def)
  have "find_close (token @ '' '') = None"
    using assms(3) unfolding find_close_None_iff
    by (auto simp: close_mark_def sublist_append prefix_def suffix_def Cons_eq_append_conv append_eq_Cons_conv
        dest: sublist_length_le)
  then have close: "find_close (token @ '' '' @ close_mark @ r) = Some (token @ '' '', r)" for r
    using find_close_append[of "token @ '' ''" r] by simp
  have skip: "skip_ws ('' '' @ token @ r) = token @ r" for r
  proof -
    have "hd token \<notin> Collect js_ws" using trim_ends(2)[OF assms(1)] assms(2)
      by (metis dropWhile_eq_self_iff mem_Collect_eq skip_ws_def)
    then show ?thesis using assms(2) space by (cases token) (auto simp: skip_ws_def)
  qed
  have trim: "trim_end (token @ '' '') = token"
    using trim_ends(1)[OF assms(1)] space by (simp add: trim_end_def)
  have body: "skip_ws (drop 4 (prependContinuationToken token s)) =
      ''continuation: '' @ token @ '' '' @ close_mark @ [CHR 0x0A, CHR 0x0A] @ s"
    by (simp add: prependContinuationToken_def skip_ws_def js_ws_def close_mark_def)
  have "match_marker (prependContinuationToken token s) =
      Some (token, skip_line_ends ([CHR 0x0A, CHR 0x0A] @ s))"
    unfolding match_marker_def Let_def body using close skip[of "'' '' @ close_mark @ [CHR 0x0A, CHR 0x0A] @ s"]
    by (simp add: trim js_toLowerCase_def js_lower_char_def prependContinuationToken_def js_startsWith_def)
  then show ?thesis
    using assms(1,2) by (simp add: extractContinuationToken_def skip_line_ends_def)
qed

text \<open>
  C40. A tool's state survives the round trip: for every output of a tool that carries a
  continuation token, whatever its text, the token put in front of the arguments of a later call
  is read back from them as the very same token, with the arguments behind it (but for line
  breaks at their start).
\<close>

theorem continuation_survives_the_round_trip:
  assumes "extractContinuationToken output = (Some token, rest)"
  shows "extractContinuationToken (prependContinuationToken token args) =
           (Some token, dropWhile (\<lambda>c. c = CHR 0x0A) args)"
  by (rule extract_prepended[OF extracted_token[OF assms]])

lemma continuation_survives_the_round_trip_witness:
  "extractContinuationToken (prependContinuationToken ''slug-1'' ''title'') = (Some ''slug-1'', ''title'')"
proof -
  have "extractContinuationToken (''<!--Continuation:slug-1 -->'' @ [CHR 0x0D, CHR 0x0A] @ ''# Soup'') =
      (Some ''slug-1'', ''# Soup'')"
    by code_simp
  from continuation_survives_the_round_trip[OF this, of "''title''"] show ?thesis by simp
qed


text \<open>
  Two instances of a tool that were named in calls never share a key, and a call that names no
  instance reuses the key of the only one the session holds.
\<close>

theorem continuation_keys:
  "resolveContinuationKey toolId (Some (c # a)) e = resolveContinuationKey toolId (Some (d # b)) e' \<longleftrightarrow> c # a = d # b"
  "resolveContinuationKey toolId None (Some [(resolveContinuationKey toolId (Some (c # a)) e, token)]) =
     resolveContinuationKey toolId (Some (c # a)) e"
  by (auto simp: resolveContinuationKey_def truthy_str_def js_startsWith_iff)

end
