(* ===== verification/Agent_Deciders.thy ===== *)
theory Agent_Deciders
  imports Tool_Dispatch Corpus_Searcher Agent_Reply_Store
begin

text \<open>
  The decisions a language model takes for the orchestrator
  (\<open>apps/agent-orchestrator/src/agent\<close>): \<open>action-planner.ts\<close>, \<open>delegate-selector.ts\<close>,
  \<open>skill-selector.ts\<close>, \<open>skill-fit-checker.ts\<close>, \<open>tool-fit-checker.ts\<close>,
  \<open>capability-need-checker.ts\<close>, \<open>response-composer.ts\<close> and \<open>best-effort-responder.ts\<close>, with the
  skill descriptors of \<open>skills/types.ts\<close>.

  A question to the model is a value of \<open>chat_question\<close>: what its prompt is rendered from. The
  answer is the text of the first choice, if there is one, and may be anything; these functions
  are what the code makes of it. The members of a planner's answer are read under the strict
  schema the call asks for, which types them as strings or \<open>null\<close>; \<open>JSON.parse\<close> is a parameter.
  Names, descriptions, schemas and scores only reach a prompt and are left out of the
  descriptors.
\<close>

section \<open>Descriptors\<close>

record SkillDescriptor =
  sd_id :: string
  sd_toolIds :: "string list"
  sd_agentIds :: "string list"
  sd_allowCallerTools :: "bool option"

text \<open>A tool of the graph: also one of a knowledge base, or one the caller's own client runs.\<close>

record graph_tool = ToolDescriptor +
  gt_callerTool :: "string option"
  gt_knowledgeBaseExec :: "KnowledgeBaseExecSpec option"

record ToolCallRecord =
  tc_toolId :: string
  tc_toolArgs :: string
  tc_result :: string

record PlanOptions =
  po_callerToolRequired :: bool
  po_respondOnly :: bool

datatype PlannedAction =
    PlanRespond string
  | PlanCall string string "string option"
  | PlanFinish

datatype DelegateChoice = ChosenSkill SkillDescriptor | ChosenAgent AgentDescriptor | ChosenTool graph_tool

datatype chat_question =
    AskPlan string SkillDescriptor "graph_tool list" "ToolCallRecord list" PlanOptions
  | AskDelegate string "SkillDescriptor list" "AgentDescriptor list" "graph_tool list"
  | AskSkill string "SkillDescriptor list"
  | AskSkillFit string SkillDescriptor
  | AskToolFit string graph_tool
  | AskCapability string
  | AskNarration string SkillDescriptor graph_tool string
  | AskBestEffort string

text \<open>What a node of the graph may throw.\<close>

datatype graph_error =
    TurnError turn_error
  | JobTimeoutError string
  | NodeError string
  | GraphRecursionError


section \<open>Reading an answer\<close>

type_synonym parser = "string \<Rightarrow> string + json"

definition truthy_json :: "json option \<Rightarrow> bool" where
  "truthy_json v =
     (case v of
        None \<Rightarrow> False
      | Some JNull \<Rightarrow> False
      | Some (JBool b) \<Rightarrow> b
      | Some (JNumber n) \<Rightarrow> n \<noteq> 0
      | Some (JString s) \<Rightarrow> s \<noteq> []
      | Some _ \<Rightarrow> True)"

definition string_member :: "json \<Rightarrow> string \<Rightarrow> string + string option" where
  "string_member v key =
     map_sum id (\<lambda>m. case m of Some (JString s) \<Rightarrow> Some s | _ \<Rightarrow> None) (json_member v key)"

definition answer_json :: "parser \<Rightarrow> string option \<Rightarrow> string + json" where
  "answer_json parse content = parse (coalesce content ''{}'')"

definition COULD_NOT_PROCESS :: string where
  "COULD_NOT_PROCESS = ''I couldn'' @ [CHR 0x27] @ ''t process that request.''"


section \<open>Fit checks and narration\<close>

text \<open>\<open>OpenAiSkillFitChecker.fits\<close> and \<open>OpenAiToolFitChecker.fits\<close>: only a literal \<open>true\<close> fits.\<close>

definition skill_fits_answer :: "parser \<Rightarrow> string option \<Rightarrow> bool" where
  "skill_fits_answer parse content =
     (case answer_json parse content of
        Inl _ \<Rightarrow> False
      | Inr parsed \<Rightarrow> json_member parsed ''fits'' = Inr (Some (JBool True)))"

definition tool_fits_answer :: "parser \<Rightarrow> string option \<Rightarrow> bool" where
  "tool_fits_answer parse content =
     (case answer_json parse content of
        Inl _ \<Rightarrow> False
      | Inr parsed \<Rightarrow> json_member parsed ''fits'' = Inr (Some (JBool True)))"

text \<open>\<open>OpenAiCapabilityNeedChecker.needsCapability\<close>: only a literal \<open>false\<close> skips the catalogs.\<close>

definition needsCapability_answer :: "parser \<Rightarrow> string option \<Rightarrow> bool" where
  "needsCapability_answer parse content =
     (case answer_json parse content of
        Inl _ \<Rightarrow> True
      | Inr parsed \<Rightarrow> json_member parsed ''needsCapability'' \<noteq> Inr (Some (JBool False)))"

definition narration_answer :: "parser \<Rightarrow> string option \<Rightarrow> string option \<times> string option" where
  "narration_answer parse content =
     (case answer_json parse content of
        Inl _ \<Rightarrow> (None, None)
      | Inr parsed \<Rightarrow>
          (case (string_member parsed ''prefix'', string_member parsed ''suffix'') of
             (Inr p, Inr s) \<Rightarrow> (p, s)
           | _ \<Rightarrow> (None, None)))"

definition best_effort_answer :: "string option \<Rightarrow> string" where
  "best_effort_answer content =
     (if truthy_str content then the content
      else ''I'' @ [CHR 0x27] @ ''m not able to help with that right now.'')"


section \<open>Selectors\<close>

definition has_id :: "json option \<Rightarrow> string \<Rightarrow> bool" where
  "has_id selected ident \<longleftrightarrow> selected = Some (JString ident)"

definition skill_answer ::
  "parser \<Rightarrow> SkillDescriptor list \<Rightarrow> string option \<Rightarrow> string + SkillDescriptor option" where
  "skill_answer parse candidates content =
     (case answer_json parse content of
        Inl _ \<Rightarrow> Inr None
      | Inr parsed \<Rightarrow>
          (case json_member parsed ''selected_skill_id'' of
             Inl e \<Rightarrow> Inl e
           | Inr selected \<Rightarrow>
               Inr (if \<not> truthy_json selected then None
                    else find (\<lambda>c. has_id selected (sd_id c)) candidates)))"

definition delegate_answer ::
  "parser \<Rightarrow> SkillDescriptor list \<Rightarrow> AgentDescriptor list \<Rightarrow> graph_tool list \<Rightarrow> string option \<Rightarrow>
   string + DelegateChoice option" where
  "delegate_answer parse skills agents tools content =
     (case answer_json parse content of
        Inl _ \<Rightarrow> Inr None
      | Inr parsed \<Rightarrow>
          (case (json_member parsed ''selected_type'', json_member parsed ''selected_id'') of
             (Inr kind, Inr selected) \<Rightarrow>
               Inr (if \<not> truthy_json kind \<or> \<not> truthy_json selected then None
                    else if kind = Some (JString ''skill'') then
                      map_option ChosenSkill (find (\<lambda>c. has_id selected (sd_id c)) skills)
                    else if kind = Some (JString ''tool'') then
                      map_option ChosenTool (find (\<lambda>c. has_id selected (td_id c)) tools)
                    else map_option ChosenAgent (find (\<lambda>c. has_id selected (ad_id c)) agents))
           | (Inl e, _) \<Rightarrow> Inl e
           | (_, Inl e) \<Rightarrow> Inl e))"


section \<open>The planner\<close>

definition plan_of ::
  "ToolCallRecord list \<Rightarrow> PlanOptions \<Rightarrow> string option \<Rightarrow> string option \<Rightarrow> string option \<Rightarrow> string option \<Rightarrow>
   string option \<Rightarrow> PlannedAction" where
  "plan_of history options action response tool_id tool_args instance_key =
     (if po_respondOnly options then
        PlanRespond (if action = Some ''respond'' then coalesce response [] else [])
      else if action = Some ''finish'' \<and> history \<noteq> [] then PlanFinish
      else if action = Some ''call_tool'' \<and> truthy_str tool_id \<and> tool_args \<noteq> None then
        PlanCall (the tool_id) (the tool_args) (only_truthy instance_key)
      else PlanRespond (coalesce response COULD_NOT_PROCESS))"

definition plan_answer ::
  "parser \<Rightarrow> ToolCallRecord list \<Rightarrow> PlanOptions \<Rightarrow> string option \<Rightarrow> string + PlannedAction" where
  "plan_answer parse history options content =
     (case answer_json parse content of
        Inl _ \<Rightarrow> Inr (PlanRespond COULD_NOT_PROCESS)
      | Inr parsed \<Rightarrow>
          (case string_member parsed ''action'' of
             Inl e \<Rightarrow> Inl e
           | Inr action \<Rightarrow>
               (let m = (\<lambda>key. case string_member parsed key of Inr v \<Rightarrow> v | Inl _ \<Rightarrow> None) in
                Inr (plan_of history options action (m ''response'') (m ''tool_id'') (m ''tool_args'')
                       (m ''tool_instance_key'')))))"


section \<open>What an answer can bring about\<close>

lemma delegate_answer_candidate:
  assumes "delegate_answer parse skills agents tools content = Inr (Some choice)"
  shows "case choice of ChosenSkill s \<Rightarrow> s \<in> set skills | ChosenAgent a \<Rightarrow> a \<in> set agents
         | ChosenTool t \<Rightarrow> t \<in> set tools"
  using assms
  by (auto simp: delegate_answer_def find_Some_iff split: sum.splits if_splits DelegateChoice.splits)

lemma skill_answer_candidate:
  "skill_answer parse candidates content = Inr (Some s) \<Longrightarrow> s \<in> set candidates"
  by (auto simp: skill_answer_def find_Some_iff split: sum.splits if_splits)

text \<open>
  Whatever a model answers, the decision stays inside what it was offered and errs on the side of
  doing nothing: a selector names a candidate or nobody; an answer that is not JSON fits nothing,
  picks nobody, calls no tool, and still searches the catalogs; a planner ends on the last result
  only when there is one, and when it may only respond, it responds.
\<close>

theorem model_answers_are_contained:
  "case delegate_answer parse skills agents tools content of
     Inr (Some (ChosenSkill s)) \<Rightarrow> s \<in> set skills
   | Inr (Some (ChosenAgent a)) \<Rightarrow> a \<in> set agents
   | Inr (Some (ChosenTool t)) \<Rightarrow> t \<in> set tools
   | _ \<Rightarrow> True"
  "case skill_answer parse skills content of Inr (Some s) \<Rightarrow> s \<in> set skills | _ \<Rightarrow> True"
  "case answer_json parse content of
     Inl _ \<Rightarrow> \<not> skill_fits_answer parse content \<and> \<not> tool_fits_answer parse content \<and> needsCapability_answer parse content \<and>
       delegate_answer parse skills agents tools content = Inr None \<and>
       plan_answer parse history options content = Inr (PlanRespond COULD_NOT_PROCESS)
   | Inr _ \<Rightarrow> True"
  "case plan_answer parse [] options content of Inr PlanFinish \<Rightarrow> False | _ \<Rightarrow> True"
  "case plan_answer parse history (options\<lparr>po_respondOnly := True\<rparr>) content of
     Inr (PlanCall _ _ _) \<Rightarrow> False | Inr PlanFinish \<Rightarrow> False | _ \<Rightarrow> True"
proof -
  show "case delegate_answer parse skills agents tools content of
     Inr (Some (ChosenSkill s)) \<Rightarrow> s \<in> set skills | Inr (Some (ChosenAgent a)) \<Rightarrow> a \<in> set agents
   | Inr (Some (ChosenTool t)) \<Rightarrow> t \<in> set tools | _ \<Rightarrow> True"
    using delegate_answer_candidate[of parse skills agents tools content]
    by (auto split: sum.splits option.splits DelegateChoice.splits)
  show "case skill_answer parse skills content of Inr (Some s) \<Rightarrow> s \<in> set skills | _ \<Rightarrow> True"
    using skill_answer_candidate[of parse skills content] by (auto split: sum.splits option.splits)
qed (auto simp: skill_fits_answer_def tool_fits_answer_def needsCapability_answer_def delegate_answer_def plan_answer_def plan_of_def Let_def
       split: sum.splits PlannedAction.splits)

end
