(* ===== verification/Spec2Isabelle.thy ===== *)
theory Spec2Isabelle
  imports Approval Kubectl_Allowlist Gh_Allowlist Ssh_Allowlist Url_Guard Session_Store
    Authorization_Provenance Agent_System Tool_Dispatch Tool_Launch_Secrecy Job_Results
    Event_Envelope Sync_Scheduler Continuation Agent_Deciders
begin

text \<open>
  Verification development for the agent-controller repository: an orchestrator that answers
  chat turns and events by running tools and agents on Kubernetes, with its shared packages, the
  connection broker that feeds and guards its knowledge bases, and the command tools that guard
  what they run. Paths below are relative to \<open>src/\<close>; the orchestrator is
  \<open>apps/agent-orchestrator/src\<close>.

  \<^bold>\<open>How the parts work together.\<close> A turn reaches the orchestrator from a chat or from an event.
  An event is normalised and matched against the triggers, which pick a target and render its
  prompt (\<open>Event_Envelope\<close>, \<open>Event_Trigger\<close>). The session record says what the conversation was
  doing (\<open>Session_Store\<close>). A turn that launches an agent first passes the authorization
  pre-flight, which decides whose credentials the run carries or which accounts have to be linked
  (\<open>Authorization\<close>). Launchers create the runs, clients reach the executor sidecars and the MCP
  broker (\<open>Tool_Launch\<close>), the receivers collect what a tool reports (\<open>Job_Results\<close>). A running
  agent (\<open>Agent_Runtime\<close>) talks to the orchestrator's channel (\<open>Agent_Channel\<close>) over a network
  that may lose and repeat messages (\<open>Agent_System\<close>); its own tool calls go through
  \<open>Tool_Dispatch\<close> and the approval policy (\<open>Approval\<close>). A knowledge-base tool searches the
  index, probes every hit as the caller and cites what it shows (the \<open>Corpus\<close> theories); the
  probes, reads and queries are served by the connection broker (\<open>Broker_Server\<close>), whose workers
  keep the index in step with the sources (the \<open>Sync\<close> theories).

  \<^bold>\<open>Theories and sources.\<close>

  \<^item> \<open>Js_Prelude\<close>, \<open>Js_Value\<close>, \<open>Js_Number\<close>, \<open>Effect_Monad\<close>: the shared vocabulary. Strings,
    maps and objects of the language, JSON values, doubles with their rounding and their decimal
    text, the locale \<open>keyed_store\<close> of every get/set/delete interface, and computations over a
    log of calls with weakest preconditions (\<open>wp\<close>) and statements about every event (\<open>emits\<close>,
    \<open>does\<close>).
  \<^item> \<open>Command_Line\<close>, \<open>Kubectl_Allowlist\<close>, \<open>Gh_Allowlist\<close>, \<open>Ssh_Allowlist\<close>: \<open>allowlist.ts\<close> of
    \<open>tools/kubectl-readonly\<close>, \<open>tools/github\<close> and \<open>tools/ssh\<close>. The kubectl validator is
    equivalent to a declarative grammar; what ssh hands to the remote shell is plain. Three
    theorems show command lines that pass although the comments say otherwise.
  \<^item> \<open>Url_Guard\<close>: \<open>tools/web-fetch/src/security/url-guard.ts\<close>, on 32-bit words. The mask
    arithmetic blocks exactly the special-purpose ranges; what passes is public.
  \<^item> \<open>Approval\<close>: \<open>agent/approval.ts\<close>. A reply that is not plainly an approval runs nothing.
  \<^item> \<open>Session_Store\<close>: \<open>session/types.ts\<close>, \<open>session/in-memory-session-store.ts\<close>,
    \<open>session/inflight-agent-run.ts\<close> and the two session writers of \<open>server.ts\<close>. Invariant of the
    store, stickiness of read-only conversations, the timeout sweep.
  \<^item> \<open>Identity_Link\<close>, \<open>Authorization\<close>, \<open>Authorization_Outcomes\<close>, \<open>Authorization_Provenance\<close>:
    \<open>identity-link/identity-provider-catalog.ts\<close>, \<open>identity-link/credential-subject.ts\<close>, the
    port of \<open>identity-link/gateway-client.ts\<close>, and \<open>agent/authorization-service.ts\<close>. Which calls the
    pre-flight may make, when each outcome occurs, and where every credential of a cleared run
    comes from, whatever the gateways answer.
  \<^item> \<open>Agent_Protocol\<close>, \<open>Agent_Runtime\<close> with \<open>_Log\<close>, \<open>_Promises\<close> and \<open>_Ends\<close>:
    \<open>packages/messaging/src/agent-protocol.ts\<close> and \<open>packages/agent-runtime/src/runtime.ts\<close>, one
    function per stretch between suspension points. One message per sequence number, promises
    settle once, a run ends with one terminal message, an overdue hold ends.
  \<^item> \<open>Agent_Reply_Store\<close>, \<open>Agent_Channel\<close> with \<open>_Log\<close> and \<open>_Clock\<close>, \<open>Agent_System\<close>:
    \<open>agents/reply-store.ts\<close> and \<open>agents/nats-agent-channel.ts\<close>, and both ends together over an
    unreliable network. The theorem at the end of this theory is about that system.
  \<^item> \<open>Tool_Launch\<close>, \<open>Tool_Launch_Secrecy\<close>, \<open>Tool_Dispatch\<close>, \<open>Job_Results\<close>:
    \<open>k8s/toolrun-launcher.ts\<close>, \<open>k8s/agentrun-launcher.ts\<close>, \<open>local/local-tool-executor.ts\<close>,
    \<open>mcp/mcp-broker-client.ts\<close>, \<open>tool-descriptor.ts\<close>, \<open>agent/dispatch-tool.ts\<close>,
    \<open>callback/receiver.ts\<close> and the NATS receiver. A sub-agent's call reaches outside only through
    the one execution its descriptor names; secret values stay in the Secret; every call is
    answered once; every promise for a result settles once, and only a signed callback settles one.
  \<^item> \<open>Event_Values\<close>, \<open>Event_Template\<close>, \<open>Event_Trigger\<close>, \<open>Event_Envelope\<close>:
    \<open>packages/event-triggers/src\<close>. Round trip of typed parameters, one-pass templates, selection
    of a trigger, failing closed.
  \<^item> \<open>Continuation\<close>, \<open>Agent_Deciders\<close>: \<open>continuation.ts\<close>, and the classes of \<open>agent/\<close> that ask a
    language model (\<open>action-planner.ts\<close>, \<open>delegate-selector.ts\<close>, \<open>skill-selector.ts\<close>, the three
    checkers, \<open>response-composer.ts\<close>, \<open>best-effort-responder.ts\<close>). A tool's state survives its
    round trip through the session; a decision stays inside what the model was offered.
  \<^item> \<open>Corpus_Search\<close>, \<open>Corpus_Access\<close>, \<open>Corpus_Cite\<close>, \<open>Corpus_Searcher\<close>, \<open>Corpus_Guarantees\<close>,
    \<open>Corpus_Live\<close>: \<open>knowledge-base/\<close>, the read path. Every passage shown was confirmed for the
    caller in the same search, what could not be checked is disclosed, answers keep their
    citations, the live tools act as the caller.
  \<^item> \<open>Broker_Access\<close>, \<open>Broker_Server\<close>: \<open>apps/connection-broker/src\<close>, \<open>auth.ts\<close>, \<open>server.ts\<close>,
    \<open>registry.ts\<close>, \<open>drivers/query.ts\<close> and the interface of \<open>drivers/types.ts\<close>. Each credential is
    spent only on what was granted; answers say what happened; the prober's verdicts are the
    driver's (a refinement across the two programs).
  \<^item> \<open>Sync_Chunk\<close>, \<open>Sync_Worker\<close>, \<open>Sync_Store\<close>, \<open>Sync_Scheduler\<close>: \<open>sync/\<close> and
    \<open>corpus-status.ts\<close> of the broker. No text is left out, a full pass mirrors the source, a pass
    deletes only what is gone, stored points are gated by role, passes never overlap and corpora
    stay scheduled.

  \<^bold>\<open>Conventions.\<close> Data are records and datatypes with the source's names; a thrown error is
  \<open>Inl\<close>, \<open>undefined\<close> is \<open>None\<close>. Code that calls services is a function over the log of the calls
  so far: each call is an event with its answer, and a service (Kubernetes, NATS, Qdrant, Redis,
  an identity gateway, a driver, a language model, HTTP) is a strategy that may answer anything,
  differently each time, or fail. Asynchronous state machines are records with one function per
  stretch of code between two suspension points, an \<open>inductive\<close> or executable step relation, and
  invariants by induction over the steps. Calls the source makes at once are made in order, their
  answers depending on the log. \<open>JSON.parse\<close>, \<open>Date.parse\<close>, \<open>Number\<close>, the URL parser, DNS, HMAC, the
  hash functions and the CEL library are parameters; where a theorem needs more of one it is a
  hypothesis, with a witness.

  \<^bold>\<open>Bounds.\<close> Characters have 8 bits, so strings are those with code units below 256; literals
  outside that range are transliterated (\<open>--\<close> for the em dash). Times and token counts are \<open>int\<close>.
  Doubles are rationals with the rounding written out; the searches of \<open>Js_Number\<close> take 1022,
  1024, 324 and 310 steps, the exponent range of a double, and 17 digits, which always suffice.
  \<open>scroll_pages\<close> of \<open>Sync_Store\<close> takes fuel, and \<open>indexed_reads_every_page\<close> shows that the number of
  pages is enough; \<open>walk_pages\<close> is bounded by the code's own limit. Everything else terminates
  by its own measure.

  \<^bold>\<open>Not modelled.\<close> The nodes of \<open>agent/graph.ts\<close> and the HTTP surface of \<open>server.ts\<close>, which wire
  the components above together around the model's answers; \<open>index.ts\<close> files and configuration
  (wiring); the Redis stores, the Qdrant clients, the watch of custom resources, the drivers for
  Confluence, Slack and Google Drive (clients of services, parameters here);
  \<open>apps/integration-gateway\<close>, \<open>apps/mcp-broker\<close>, the SWE agents and the remaining tools (other
  programs); schema libraries, NATS, HTTP servers and log lines; the poll \<open>whenFailed\<close> of the
  agent launcher; and the Go code.
\<close>


text \<open>A run whose answer is acknowledged by an orchestrator that is replaced right afterwards.\<close>

definition sys_events_ex :: "unit sys_event list" where
  "sys_events_ex =
     [AgentDoes (ReadySettled True), ChannelDoes (AwaitReply (clock_ex 0) ''run-1'' None),
      AgentDoes (HandlerReturned (clock_ex 1) \<lparr>ar_message = ''done'', ar_result = None\<rparr>),
      ChannelDoes (Deliver (clock_ex 2) 0 (Some (up_ex 1 (Reply ''done'' True None))) None None),
      ChannelDoes (StoreSettled (clock_ex 3) 0 None None), Replace,
      AgentDoes (Down \<lparr>agent_run_id = ''run-1'', seq = 0, ts = ''T'', down_body = Reply_ack 1\<rparr>)]"

definition sys_start_ex :: "unit agent_system" where
  "sys_start_ex = \<lparr>sys_agent = rt_start rt_opts_ex (clock_ex 0), sys_channel = ch_new ''agent'' True\<rparr>"

definition sys_ex :: "unit agent_system" where
  "sys_ex = the (sys_exec rt_opts_ex sys_start_ex sys_events_ex)"



end
